(* ===== verification/PS2_Prelude.thy ===== *)
theory PS2_Prelude
  imports Main "HOL-Library.Word" "HOL-Library.Monad_Syntax"
begin

text \<open>
  The prelude of the development: the machine integers of the driver sources, the
  collections of simplification rules that the component theories fill, and the generic
  facts on options, lists and bit masks that more than one component uses.

  Every routine that may block, spin or touch memory it does not own returns an
  \<open>option\<close>: \<open>None\<close> stands for "control does not come back from this call" (a loop on
  hardware that never becomes ready, a lock taken twice, an access outside an array or
  to a freed request). A routine of type without \<open>option\<close> always returns.
\<close>

section \<open>Machine integers\<close>

type_synonym u8 = "8 word"
type_synonym u16 = "16 word"
type_synonym u32 = "32 word"
type_synonym u64 = "64 word"

lemma unat_u8_less [simp]: "unat (x :: u8) < 256"
  using unsigned_less [of x, where ?'a = nat] by simp

lemma of_nat_below_u8:
  fixes n :: u8
  assumes "j < unat n \<or> j = 0"
  shows "of_nat j = n \<or> of_nat j < n"
proof (cases "j < unat n")
  case True
  with unat_u8_less [of n] have "j < 256" by linarith
  then have "unat (of_nat j :: u8) = j" by (simp add: unat_of_nat)
  with True show ?thesis by (simp add: word_less_nat_alt)
next
  case False
  with assms show ?thesis by (auto simp: word_gt_0)
qed

section \<open>Rule collections\<close>

named_theorems ps2_consts \<open>numeric values of the constants of the headers\<close>
named_theorems ps2_defs \<open>definitions of the straight-line operations\<close>
named_theorems ps2_frame \<open>which fields an operation leaves alone\<close>

section \<open>Options\<close>

lemma bind_Some_iff: "Option.bind x f = Some y \<longleftrightarrow> (\<exists>a. x = Some a \<and> f a = Some y)"
  by (cases x) auto

lemma bind_SomeE [elim!]:
  assumes "Option.bind x f = Some y"
  obtains a where "x = Some a" and "f a = Some y"
  using assms by (auto simp: bind_Some_iff)

lemma if_Some_iff: "(if b then Some x else None) = Some y \<longleftrightarrow> b \<and> x = y"
  by auto

text \<open>
  A predicate on states is kept by an operation that may not return: whenever the
  operation returns, the predicate still holds.
\<close>

definition keeps :: "('w \<Rightarrow> bool) \<Rightarrow> ('w \<Rightarrow> 'w option) \<Rightarrow> bool" where
  "keeps I f \<longleftrightarrow> (\<forall>w w'. I w \<longrightarrow> f w = Some w' \<longrightarrow> I w')"

definition keeps_result :: "('w \<Rightarrow> bool) \<Rightarrow> ('w \<Rightarrow> ('a \<times> 'w) option) \<Rightarrow> bool" where
  "keeps_result I f \<longleftrightarrow> (\<forall>w a w'. I w \<longrightarrow> f w = Some (a, w') \<longrightarrow> I w')"

lemma keepsD: "keeps I f \<Longrightarrow> I w \<Longrightarrow> f w = Some w' \<Longrightarrow> I w'"
  by (auto simp: keeps_def)

lemma keeps_resultD: "keeps_result I f \<Longrightarrow> I w \<Longrightarrow> f w = Some (a, w') \<Longrightarrow> I w'"
  by (auto simp: keeps_result_def)

lemma keepsI: "(\<And>w w'. I w \<Longrightarrow> f w = Some w' \<Longrightarrow> I w') \<Longrightarrow> keeps I f"
  by (auto simp: keeps_def)

lemma keeps_resultI:
  "(\<And>w a w'. I w \<Longrightarrow> f w = Some (a, w') \<Longrightarrow> I w') \<Longrightarrow> keeps_result I f"
  by (auto simp: keeps_result_def)

section \<open>Bit masks\<close>

unbundle bit_operations_syntax

lemma and_not_self: "(x AND NOT m) AND m = (0 :: 'a::len word)"
  by (simp add: and.assoc)

lemma or_mask_hit: "(x OR m) AND m = (m :: 'a::len word)"
  by (rule bit_word_eqI) (auto simp: bit_simps)

lemma xor_eq_0_iff: "a XOR b = 0 \<longleftrightarrow> a = (b :: 'a::len word)"
  by (auto simp: bit_eq_iff bit_simps)

lemma and_0_bits:
  fixes a b :: "'a::len word"
  assumes "a AND b = 0"
  shows "\<not> (bit a n \<and> bit b n)"
  using arg_cong [OF assms, where f = "\<lambda>x. bit x n"] by (simp add: bit_and_iff)

lemma and_push_bit_nonzero:
  "(x :: 'a::len word) AND push_bit n 1 \<noteq> 0 \<longleftrightarrow> n < LENGTH('a) \<and> bit x n"
proof -
  have "x AND push_bit n 1 \<noteq> 0 \<longleftrightarrow> (\<exists>k. bit (x AND push_bit n 1) k)"
    by (metis bit_0_eq bot_apply bot_bool_def bit_eq_iff)
  also have "\<dots> \<longleftrightarrow> n < LENGTH('a) \<and> bit x n"
    by (auto simp: bit_simps dest: bit_imp_le_length)
  finally show ?thesis .
qed

lemma and_mask_split: "(x :: 'a::len word) AND (a OR b) = a OR b \<longleftrightarrow> x AND a = a \<and> x AND b = b"
  by (auto simp: bit_eq_iff bit_simps)

lemma and_push_bit_eq:
  assumes "n < LENGTH('a)"
  shows "(s :: 'a::len word) AND push_bit n 1 = push_bit n 1 \<longleftrightarrow> s AND push_bit n 1 \<noteq> 0"
proof (cases "bit s n")
  case True
  have "s AND push_bit n 1 = push_bit n 1"
    by (rule bit_word_eqI) (use True in \<open>auto simp: bit_simps\<close>)
  with True assms and_push_bit_nonzero [of s n] show ?thesis by simp
next
  case False
  with and_push_bit_nonzero [of s n] have "s AND push_bit n 1 = 0" by blast
  with assms show ?thesis by simp
qed

text \<open>Setting some bits and then clearing others, as a read-modify-write does.\<close>

lemma set_clear_cleared: "((x OR s) AND NOT c) AND c = (0 :: 'a::len word)"
  by (rule and_not_self)

lemma set_clear_set:
  fixes x s c :: "'a::len word"
  assumes "s AND c = 0"
  shows "((x OR s) AND NOT c) AND s = s"
proof (rule bit_word_eqI)
  fix n
  assume n: "n < LENGTH('a)"
  from assms have "\<not> (bit s n \<and> bit c n)"
    by (rule and_0_bits)
  with n show "bit (((x OR s) AND NOT c) AND s) n = bit s n"
    by (auto simp: bit_simps)
qed

lemma set_clear_other:
  fixes x s c :: "'a::len word"
  assumes "m AND s = 0" and "m AND c = 0"
  shows "((x OR s) AND NOT c) AND m = x AND m"
proof (rule bit_word_eqI)
  fix n
  assume n: "n < LENGTH('a)"
  from assms have "\<not> (bit m n \<and> bit s n)" "\<not> (bit m n \<and> bit c n)"
    by (simp_all only: and_0_bits simp_thms)
  with n show "bit (((x OR s) AND NOT c) AND m) n = bit (x AND m) n"
    by (auto simp: bit_simps)
qed

text \<open>The bits of the masks that select the upper and the lower part of a byte or a word.\<close>

lemma high_ones: "bit (0xffffff00 :: u32) k \<longleftrightarrow> 8 \<le> k \<and> k < 32"
proof -
  have "bit (NOT (mask 8) :: u32) k \<longleftrightarrow> 8 \<le> k \<and> k < 32"
    by (simp only: bit_not_iff bit_mask_iff possible_bit_word) auto
  moreover have "(0xffffff00 :: u32) = NOT (mask 8)" by (simp add: mask_eq_exp_minus_1)
  ultimately show ?thesis by (simp only:)
qed

lemma low_ones: "bit (0x0F :: u8) k \<longleftrightarrow> k < 4"
proof -
  have "bit (mask 4 :: u8) k \<longleftrightarrow> k < 4"
    by (simp only: bit_mask_iff possible_bit_word) auto
  moreover have "(0x0F :: u8) = mask 4" by (simp add: mask_eq_exp_minus_1)
  ultimately show ?thesis by (simp only:)
qed

lemma nibble_ones: "bit (0xF0 :: u8) k \<longleftrightarrow> 4 \<le> k \<and> k < 8"
proof -
  have "bit (NOT (mask 4) :: u8) k \<longleftrightarrow> 4 \<le> k \<and> k < 8"
    by (simp only: bit_not_iff bit_mask_iff possible_bit_word) auto
  moreover have "(0xF0 :: u8) = NOT (mask 4)" by (simp add: mask_eq_exp_minus_1)
  ultimately show ?thesis by (simp only:)
qed

text \<open>Two words are equal if their bits are, checked one position after the other.\<close>

lemma bits_of_u32:
  "k < 32 \<longleftrightarrow> k \<in> set
    [0, 1, 2, 3, 4, 5, 6, 7, 8, 9, 10, 11, 12, 13, 14, 15,
     16, 17, 18, 19, 20, 21, 22, 23, 24, 25, 26, 27, 28, 29, 30, 31 :: nat]"
  by (auto simp: less_Suc_eq numeral_eq_Suc)

lemma u32_eqI:
  "list_all (\<lambda>n. bit x n = bit y n)
    [0, 1, 2, 3, 4, 5, 6, 7, 8, 9, 10, 11, 12, 13, 14, 15,
     16, 17, 18, 19, 20, 21, 22, 23, 24, 25, 26, 27, 28, 29, 30, 31] \<Longrightarrow> x = (y :: u32)"
  by (rule bit_word_eqI) (simp only: list_all_iff bits_of_u32 [symmetric] len_num0 len_num1 len_bit0 len_bit1)

lemma u8_eqI: "list_all (\<lambda>n. bit x n = bit y n) [0, 1, 2, 3, 4, 5, 6, 7] \<Longrightarrow> x = (y :: u8)"
  by (rule bit_word_eqI) (auto simp: less_Suc_eq numeral_eq_Suc)

lemma word_less_if_bits:
  fixes x :: "'a::len word"
  assumes "\<And>k. bit x k \<Longrightarrow> k < n" and "n < LENGTH('a)"
  shows "x < 2 ^ n"
proof -
  have "x AND mask n = x"
    by (rule bit_word_eqI) (use assms(1) in \<open>auto simp: bit_simps\<close>)
  with and_mask_less' [OF assms(2), of x] show ?thesis by simp
qed

lemma bit_below:
  fixes x :: "'a::len word"
  assumes "x < 2 ^ n" and "n < LENGTH('a)" and "bit x k"
  shows "k < n"
proof (rule ccontr)
  assume "\<not> k < n"
  have "uint x < 2 ^ n" using assms(1,2) word_2p_lem [of n x] by (simp add: word_size)
  also have "(2 :: int) ^ n \<le> 2 ^ k" using \<open>\<not> k < n\<close> by (simp add: power_increasing)
  finally have "\<not> bit (uint x) k" by (simp add: bit_iff_odd)
  with assms(3) show False by (simp add: bit_unsigned_iff)
qed

lemma low3_cases:
  assumes "(b :: u8) < 8"
  obtains "b = 0" | "b = 1" | "b = 2" | "b = 3" | "b = 4" | "b = 5" | "b = 6" | "b = 7"
proof -
  have "unat b < 8" using assms by (simp add: word_less_nat_alt)
  then have "unat b \<in> {0, 1, 2, 3, 4, 5, 6, 7}" by auto
  moreover have "b = of_nat k" if "unat b = k" for k
    by (simp flip: that)
  ultimately have "b \<in> {0, 1, 2, 3, 4, 5, 6, 7}" by fastforce
  with that show thesis by blast
qed

lemma and_7_below: "(b :: u8) AND 7 < 8"
  using and_mask_less' [of 3 b] by (simp add: mask_eq_exp_minus_1)

lemma and_4_cases: "(b :: u8) AND 4 = 4 \<longleftrightarrow> b AND 4 \<noteq> 0"
  using and_push_bit_eq [of 2 b] by simp

lemma same_bit: "(k :: nat) div 32 = j div 32 \<and> k mod 32 = j mod 32 \<longleftrightarrow> k = j"
  by (metis div_mod_decomp)

end
