(* ===== verification/PS2_Device.thy ===== *)
theory PS2_Device
  imports PS2_Prelude
begin

text \<open>
  The interface that \<^verbatim>\<open>ApplePS2Device.h\<close> declares between the controller and the device
  drivers: the command bytes and scan codes, the command primitives, the request
  structure, the power-control verbs; and the effects that the modelled routines have on
  the kernel (event dispatch, event sources, interrupt lines, logging), recorded as
  values in the order in which they happen.
\<close>

section \<open>Command bytes, command-byte bits, LED bits and scan codes\<close>

definition kDP_SetMouseScaling1To1 :: u8 where [ps2_consts]: "kDP_SetMouseScaling1To1 = 0xE6"
definition kDP_SetMouseScaling2To1 :: u8 where [ps2_consts]: "kDP_SetMouseScaling2To1 = 0xE7"
definition kDP_SetMouseResolution :: u8 where [ps2_consts]: "kDP_SetMouseResolution = 0xE8"
definition kDP_GetMouseInformation :: u8 where [ps2_consts]: "kDP_GetMouseInformation = 0xE9"
definition kDP_SetMouseStreamMode :: u8 where [ps2_consts]: "kDP_SetMouseStreamMode = 0xEA"
definition kDP_SetKeyboardLEDs :: u8 where [ps2_consts]: "kDP_SetKeyboardLEDs = 0xED"
definition kDP_TestKeyboardEcho :: u8 where [ps2_consts]: "kDP_TestKeyboardEcho = 0xEE"
definition kDP_GetId :: u8 where [ps2_consts]: "kDP_GetId = 0xF2"
definition kDP_SetMouseSampleRate :: u8 where [ps2_consts]: "kDP_SetMouseSampleRate = 0xF3"
definition kDP_Enable :: u8 where [ps2_consts]: "kDP_Enable = 0xF4"
definition kDP_SetDefaultsAndDisable :: u8 where [ps2_consts]: "kDP_SetDefaultsAndDisable = 0xF5"
definition kDP_SetDefaults :: u8 where [ps2_consts]: "kDP_SetDefaults = 0xF6"
definition kCP_GetCommandByte :: u8 where [ps2_consts]: "kCP_GetCommandByte = 0x20"
definition kCP_SetCommandByte :: u8 where [ps2_consts]: "kCP_SetCommandByte = 0x60"
definition kCP_DisableMouseClock :: u8 where [ps2_consts]: "kCP_DisableMouseClock = 0xA7"
definition kCP_EnableMouseClock :: u8 where [ps2_consts]: "kCP_EnableMouseClock = 0xA8"
definition kCP_TransmitToMouse :: u8 where [ps2_consts]: "kCP_TransmitToMouse = 0xD4"
definition kCB_EnableKeyboardIRQ :: u8 where [ps2_consts]: "kCB_EnableKeyboardIRQ = 0x01"
definition kCB_EnableMouseIRQ :: u8 where [ps2_consts]: "kCB_EnableMouseIRQ = 0x02"
definition kCB_DisableKeyboardClock :: u8 where [ps2_consts]: "kCB_DisableKeyboardClock = 0x10"
definition kCB_DisableMouseClock :: u8 where [ps2_consts]: "kCB_DisableMouseClock = 0x20"
definition kCB_TranslateMode :: u8 where [ps2_consts]: "kCB_TranslateMode = 0x40"
definition kLED_NumLock :: u8 where [ps2_consts]: "kLED_NumLock = 0x02"
definition kLED_CapsLock :: u8 where [ps2_consts]: "kLED_CapsLock = 0x04"
definition kSC_Acknowledge :: u8 where [ps2_consts]: "kSC_Acknowledge = 0xFA"
definition kSC_Extend :: u8 where [ps2_consts]: "kSC_Extend = 0xE0"
definition kSC_Pause :: u8 where [ps2_consts]: "kSC_Pause = 0xE1"
definition kSC_Resend :: u8 where [ps2_consts]: "kSC_Resend = 0xFE"
definition kSC_UpBit :: u8 where [ps2_consts]: "kSC_UpBit = 0x80"
definition kSC_Alt :: u8 where [ps2_consts]: "kSC_Alt = 0x38"
definition kSC_Ctrl :: u8 where [ps2_consts]: "kSC_Ctrl = 0x1D"
definition kSC_ShiftLeft :: u8 where [ps2_consts]: "kSC_ShiftLeft = 0x2A"
definition kSC_ShiftRight :: u8 where [ps2_consts]: "kSC_ShiftRight = 0x36"
definition kSC_WindowsLeft :: u8 where [ps2_consts]: "kSC_WindowsLeft = 0x5B"
definition kSC_WindowsRight :: u8 where [ps2_consts]: "kSC_WindowsRight = 0x5C"
definition kSC_Delete :: u8 where [ps2_consts]: "kSC_Delete = 0x53"

section \<open>Command primitives and requests\<close>

datatype PS2CommandEnum =
    kPS2C_ReadDataPort
  | kPS2C_ReadDataPortAndCompare
  | kPS2C_WriteDataPort
  | kPS2C_WriteCommandPort
  | kPS2C_SendMouseCommandAndCompareAck

record PS2Command =
  command :: PS2CommandEnum
  inOrOut :: u8

definition kMaxCommands :: nat where [ps2_consts]: "kMaxCommands = 20"

text \<open>
  The only completion action of the sources is the controller's own
  \<open>submitRequestAndBlockCompletion\<close>; its parameter is null or an \<open>IOSyncer\<close>, here a
  number. A null target or action is \<open>False\<close> or \<open>None\<close>.
\<close>

datatype PS2CompletionAction = SubmitRequestAndBlockCompletion

record PS2Request =
  commandsCount :: u8
  commands :: "PS2Command list"
  completionTarget :: bool
  completionAction :: "PS2CompletionAction option"
  completionParam :: "nat option"

datatype PS2DeviceType = kDT_Keyboard | kDT_Mouse

text \<open>The \<open>whatToDo\<close> values passed to a power-control action.\<close>

datatype PS2PowerControl = kPS2C_DisableDevice | kPS2C_EnableDevice

text \<open>
  A registered handler is a pair of an object and one of its methods. Which object and
  method are meant is determined by the class that registers them, so a handler is
  named by the class.
\<close>

datatype driver = KeyboardDriver | MouseDriver | ALPSDriver | SynapticsDriver

section \<open>Effects\<close>

datatype event_source = InterruptSourceKeyboard | InterruptSourceMouse | InterruptSourceQueue

datatype log_message =
    LogTimedOut PS2DeviceType
  | LogBadPowerState u32
  | LogUnexpectedAcknowledge
  | LogUnexpectedResend
  | LogUnexpectedData
  | LogALPSVersion u8 u8
  | LogSynapticsVersion u8 u8
  | LogSynapticsModel string u32
  | LogDotsPerInch string u32
  | LogCapabilities u16
  | LogNote string

datatype effect =
    IOLog log_message
  | SignalSource event_source
  | AddEventSource event_source
  | RegisterInterrupt nat
  | EnableInterrupt nat
  | DisableInterrupt nat
  | UnregisterInterrupt nat
  | RemoveEventSource event_source
  | RetainTarget driver
  | ReleaseTarget driver
  | RetainDevice driver
  | ReleaseDevice driver
  | RetainController
  | ReleaseController
  | CallDebugger
  | AcknowledgeSetPowerState
  | ThreadCallEnter u32
  | RegisterService PS2DeviceType
  | PowerManagement bool \<comment> \<open>\<open>True\<close>: PMinit, registerPowerDriver, joinPMtree; \<open>False\<close>: PMstop\<close>
  | SuperStop driver
  | KeyEvent u8 bool "u64 option" \<comment> \<open>ADB code, going down, time stamp if initialised\<close>
  | PointerEvent u32 u32 u32 u64 \<comment> \<open>dx, dy, buttons, time stamp\<close>
  | ScrollEvent u16 u16 u16 u64
  | ReceiveSleepNow
  | SleepMilliseconds nat
  | SetScrollResolution u32
  | RemoveScrollResolution
  | SetClicking u64
  | SetTrackpadAccelerationType
  | SetTouchpadInfo u32
  | SetResolution string u32
  | SetSerialNumber u64
  | SetTimeoutUS u32
  | CancelTimeout
  | AddTimerEventSource
  | RemoveTimerEventSource

end
