(* ===== verification/PS2_State.thy ===== *)
theory PS2_State
  imports PS2_Device
begin

text \<open>
  The state of \<^verbatim>\<open>ApplePS2Controller\<close> (\<^verbatim>\<open>ApplePS2Controller.h\<close>) and what it is
  connected to: the two I/O ports, the kernel primitives it calls, and the heap of
  request structures. The record is extensible: each driver theory extends it with the
  fields of its own class, so that a handler called back from the controller sees, and
  may change, the state of every driver.
\<close>

section \<open>Constants of the controller\<close>

definition kDataDelay :: nat where [ps2_consts]: "kDataDelay = 7"
definition kDataPort :: u16 where [ps2_consts]: "kDataPort = 0x60"
definition kCommandPort :: u16 where [ps2_consts]: "kCommandPort = 0x64"
definition kOutputReady :: u8 where [ps2_consts]: "kOutputReady = 0x01"
definition kInputBusy :: u8 where [ps2_consts]: "kInputBusy = 0x02"
definition kMouseData :: u8 where [ps2_consts]: "kMouseData = 0x20"
definition kIRQ_Keyboard :: nat where [ps2_consts]: "kIRQ_Keyboard = 1"
definition kIRQ_Mouse :: nat where [ps2_consts]: "kIRQ_Mouse = 12"
definition kKeyboardQueueSize :: nat where [ps2_consts]: "kKeyboardQueueSize = 32"

definition kPS2PowerStateSleep :: u32 where [ps2_consts]: "kPS2PowerStateSleep = 0"
definition kPS2PowerStateDoze :: u32 where [ps2_consts]: "kPS2PowerStateDoze = 1"
definition kPS2PowerStateNormal :: u32 where [ps2_consts]: "kPS2PowerStateNormal = 2"

section \<open>The controller's fields\<close>

text \<open>
  The pointers to kernel objects that the controller owns, each as "is not null"; the
  last one is the global \<open>gApplePS2Controller\<close>.
\<close>

record ctl_resources =
  workLoop :: bool
  interruptSourceKeyboard :: bool
  interruptSourceMouse :: bool
  interruptSourceQueue :: bool
  requestQueueLock :: bool
  controllerLock :: bool
  keyboardQueueAlloc :: bool
  powerChangeThreadCall :: bool
  keyboardDevice :: bool
  mouseDevice :: bool
  gApplePS2Controller :: bool

text \<open>
  \<open>hw\<close> is the state of the keyboard controller chip and of everything behind it; only
  the port operations of the environment below read or change it. \<open>delayed\<close> adds up the
  microseconds spent in \<open>IODelay\<close>. \<open>requests\<close> is the heap of request structures, keyed
  by their addresses; \<open>nextRequest\<close> is the next unused address. \<open>inGate\<close> tells whether
  the running thread holds the work loop's gate, and \<open>syncers\<close> which \<open>IOSyncer\<close> objects
  have been signalled. The two internal keyboard queues hold their elements' data bytes
  (stale bytes in the unused queue).
\<close>

record 'h ctl =
  hw :: 'h
  delayed :: nat
  effects :: "effect list"
  resources :: ctl_resources
  requests :: "nat \<rightharpoonup> PS2Request"
  nextRequest :: nat
  syncers :: "bool list"
  inGate :: bool
  requestQueue :: "nat list"
  interruptTargetKeyboard :: "driver option"
  interruptTargetMouse :: "driver option"
  interruptActionKeyboard :: "driver option"
  interruptActionMouse :: "driver option"
  interruptInstalledKeyboard :: bool
  interruptInstalledMouse :: bool
  powerControlTargetKeyboard :: "driver option"
  powerControlTargetMouse :: "driver option"
  powerControlActionKeyboard :: "driver option"
  powerControlActionMouse :: "driver option"
  powerControlInstalledKeyboard :: bool
  powerControlInstalledMouse :: bool
  debuggingEnabled :: bool
  controllerLocked :: bool
  keyboardQueue :: "u8 list"
  keyboardQueueUnused :: "u8 list"
  extendedState :: bool
  modifierState :: u16
  currentPowerState :: u32
  hardwareOffline :: bool

section \<open>The environment\<close>

text \<open>
  What lies outside the sources: the \<open>in\<close> and \<open>out\<close> instructions on the chip, the
  system clock, and the code that a registered handler designates. Handlers may not
  return.
\<close>

record ('h, 'w) env =
  inb :: "u16 \<Rightarrow> 'h \<Rightarrow> u8 \<times> 'h"
  outb :: "u16 \<Rightarrow> u8 \<Rightarrow> 'h \<Rightarrow> 'h"
  uptime :: "'h \<Rightarrow> u64"
  microtime :: "'h \<Rightarrow> u32 \<times> u32"
  callInterruptAction :: "driver \<Rightarrow> driver \<Rightarrow> u8 \<Rightarrow> 'w \<Rightarrow> 'w option"
  callPowerControlAction :: "driver \<Rightarrow> driver \<Rightarrow> PS2PowerControl \<Rightarrow> 'w \<Rightarrow> 'w option"

section \<open>Primitive steps\<close>

definition emit :: "effect \<Rightarrow> ('h, 'z) ctl_scheme \<Rightarrow> ('h, 'z) ctl_scheme" where
  "emit e w = w\<lparr>effects := effects w @ [e]\<rparr>"

definition ioDelay :: "nat \<Rightarrow> ('h, 'z) ctl_scheme \<Rightarrow> ('h, 'z) ctl_scheme" where
  "ioDelay n w = w\<lparr>delayed := delayed w + n\<rparr>"

definition port_in ::
  "('h, 'w) env \<Rightarrow> u16 \<Rightarrow> ('h, 'z) ctl_scheme \<Rightarrow> u8 \<times> ('h, 'z) ctl_scheme" where
  "port_in E port w = (let (datum, h) = inb E port (hw w) in (datum, w\<lparr>hw := h\<rparr>))"

definition port_out ::
  "('h, 'w) env \<Rightarrow> u16 \<Rightarrow> u8 \<Rightarrow> ('h, 'z) ctl_scheme \<Rightarrow> ('h, 'z) ctl_scheme" where
  "port_out E port datum w = w\<lparr>hw := outb E port datum (hw w)\<rparr>"

text \<open>
  The spin lock with interrupts disabled: taking it while it is held never returns.
\<close>

definition lockController :: "('h, 'z) ctl_scheme \<Rightarrow> ('h, 'z) ctl_scheme option" where
  "lockController w = (if controllerLocked w then None else Some (w\<lparr>controllerLocked := True\<rparr>))"

definition unlockController :: "('h, 'z) ctl_scheme \<Rightarrow> ('h, 'z) ctl_scheme" where
  "unlockController w = w\<lparr>controllerLocked := False\<rparr>"

section \<open>The internal keyboard queue\<close>

definition enqueueKeyboardData :: "u8 \<Rightarrow> ('h, 'z) ctl_scheme \<Rightarrow> ('h, 'z) ctl_scheme" where
  "enqueueKeyboardData key w =
     (case keyboardQueueUnused w of
        [] \<Rightarrow> w
      | element # rest \<Rightarrow>
          w\<lparr>keyboardQueueUnused := rest, keyboardQueue := keyboardQueue w @ [key]\<rparr>)"

definition dequeueKeyboardData ::
  "('h, 'z) ctl_scheme \<Rightarrow> u8 option \<times> ('h, 'z) ctl_scheme" where
  "dequeueKeyboardData w =
     (case keyboardQueue w of
        [] \<Rightarrow> (None, w)
      | key # rest \<Rightarrow>
          (Some key,
           w\<lparr>keyboardQueue := rest, keyboardQueueUnused := keyboardQueueUnused w @ [key]\<rparr>))"

end
