(* ===== verification/PS2_Ports.thy ===== *)
theory PS2_Ports
  imports PS2_State
begin

text \<open>
  Port access of \<^verbatim>\<open>ApplePS2Controller.cpp\<close>: waiting for the chip, writing to its two
  ports, dispatching a byte to the driver it belongs to, and the two versions of
  \<open>readDataPort\<close>, one plain and one that knows which byte it is waiting for.
\<close>

section \<open>Definitions\<close>

subsection \<open>Writing\<close>

text \<open>\<open>while (inb(kCommandPort) & kInputBusy) IODelay(kDataDelay)\<close>; may spin forever.\<close>

partial_function (option) waitInputFree ::
  "('h, 'w) env \<Rightarrow> ('h, 'z) ctl_scheme \<Rightarrow> ('h, 'z) ctl_scheme option" where
  "waitInputFree E w =
     (let (status, w) = port_in E kCommandPort w
      in if status AND kInputBusy \<noteq> 0 then waitInputFree E (ioDelay kDataDelay w) else Some w)"

definition writeDataPort ::
  "('h, 'w) env \<Rightarrow> u8 \<Rightarrow> ('h, 'z) ctl_scheme \<Rightarrow> ('h, 'z) ctl_scheme option" where
  "writeDataPort E byte w =
     do { w \<leftarrow> waitInputFree E w; Some (port_out E kDataPort byte w) }"

definition writeCommandPort ::
  "('h, 'w) env \<Rightarrow> u8 \<Rightarrow> ('h, 'z) ctl_scheme \<Rightarrow> ('h, 'z) ctl_scheme option" where
  "writeCommandPort E byte w =
     do { w \<leftarrow> waitInputFree E w; Some (port_out E kCommandPort byte w) }"

subsection \<open>Dispatching a byte to a driver\<close>

definition dispatchDriverInterrupt ::
  "('h, ('h, 'z) ctl_scheme) env \<Rightarrow> PS2DeviceType \<Rightarrow> u8 \<Rightarrow> ('h, 'z) ctl_scheme
     \<Rightarrow> ('h, 'z) ctl_scheme option" where
  "dispatchDriverInterrupt E deviceType datum w =
     (case deviceType of
        kDT_Mouse \<Rightarrow>
          if interruptInstalledMouse w
          then do { action \<leftarrow> interruptActionMouse w; target \<leftarrow> interruptTargetMouse w;
                    callInterruptAction E action target datum w }
          else Some w
      | kDT_Keyboard \<Rightarrow>
          if interruptInstalledKeyboard w
          then do { action \<leftarrow> interruptActionKeyboard w; target \<leftarrow> interruptTargetKeyboard w;
                    callInterruptAction E action target datum w }
          else Some w)"

definition other_device :: "PS2DeviceType \<Rightarrow> PS2DeviceType" where
  "other_device d = (if d = kDT_Keyboard then kDT_Mouse else kDT_Keyboard)"

subsection \<open>Reading\<close>

text \<open>
  The inner wait: \<open>while (timeoutCounter && !((status = inb(kCommandPort)) & kOutputReady))\<close>.
  The counter starts at 10000 and is only decremented while it is positive, so \<open>nat\<close>
  loses nothing of the \<open>UInt32\<close>. Where the counter reaches 0 the status is not used.
\<close>

fun waitOutputReady ::
  "('h, 'w) env \<Rightarrow> nat \<Rightarrow> ('h, 'z) ctl_scheme \<Rightarrow> u8 \<times> nat \<times> ('h, 'z) ctl_scheme" where
  "waitOutputReady E 0 w = (0, 0, w)"
| "waitOutputReady E (Suc timeoutCounter) w =
     (let (status, w) = port_in E kCommandPort w
      in if status AND kOutputReady = 0
         then waitOutputReady E timeoutCounter (ioDelay kDataDelay w)
         else (status, Suc timeoutCounter, w))"

text \<open>
  One turn of the reading loop up to the point where a byte has been obtained: from the
  internal keyboard queue, or from the chip after waiting for it. The flag tells whether
  the byte arrived on the requested stream. The lock is taken at the start of the turn
  and released on every way out.
\<close>

datatype acquired =
    TimedOut
  | Acquired bool u8 nat \<comment> \<open>on the requested stream, the byte, what is left of the counter\<close>

definition acquireByte ::
  "('h, 'w) env \<Rightarrow> PS2DeviceType \<Rightarrow> nat \<Rightarrow> ('h, 'z) ctl_scheme
     \<Rightarrow> (acquired \<times> ('h, 'z) ctl_scheme) option" where
  "acquireByte E deviceType timeoutCounter w =
     do { w \<leftarrow> lockController w;
          case (if deviceType = kDT_Keyboard then dequeueKeyboardData w else (None, w)) of
            (Some readByte, w) \<Rightarrow> Some (Acquired True readByte timeoutCounter, unlockController w)
          | (None, w) \<Rightarrow>
              (let (status, timeoutCounter, w) = waitOutputReady E timeoutCounter w
               in if timeoutCounter = 0
                  then Some (TimedOut, unlockController w)
                  else let w = ioDelay kDataDelay w;
                           (readByte, w) = port_in E kDataPort w;
                           requestedStream = (if status AND kMouseData \<noteq> 0
                                              then deviceType = kDT_Mouse
                                              else deviceType = kDT_Keyboard)
                       in Some (Acquired requestedStream readByte timeoutCounter,
                                unlockController w)) }"

partial_function (option) readDataPort_loop ::
  "('h, ('h, 'z) ctl_scheme) env \<Rightarrow> PS2DeviceType \<Rightarrow> nat \<Rightarrow> ('h, 'z) ctl_scheme
     \<Rightarrow> (u8 \<times> ('h, 'z) ctl_scheme) option" where
  "readDataPort_loop E deviceType timeoutCounter w =
     do { (a, w) \<leftarrow> acquireByte E deviceType timeoutCounter w;
          case a of
            TimedOut \<Rightarrow> Some (0, emit (IOLog (LogTimedOut deviceType)) w)
          | Acquired requestedStream readByte timeoutCounter \<Rightarrow>
              if requestedStream then Some (readByte, w)
              else do { w \<leftarrow> dispatchDriverInterrupt E (other_device deviceType) readByte w;
                        readDataPort_loop E deviceType timeoutCounter w } }"

definition readDataPort ::
  "('h, ('h, 'z) ctl_scheme) env \<Rightarrow> PS2DeviceType \<Rightarrow> ('h, 'z) ctl_scheme
     \<Rightarrow> (u8 \<times> ('h, 'z) ctl_scheme) option" where
  "readDataPort E deviceType w = readDataPort_loop E deviceType 10000 w"

text \<open>
  The version with out-of-order correction. What one turn does with the byte it
  acquired, given the byte that is being held back, if any: return a value, or go round
  again holding a byte.
\<close>

datatype read_decision =
    ReturnByte u8
  | ReadAgain "u8 option" nat \<comment> \<open>the byte held back (\<open>firstByte\<close>, \<open>firstByteHeld\<close>), the counter\<close>

definition decideByte ::
  "('h, ('h, 'z) ctl_scheme) env \<Rightarrow> PS2DeviceType \<Rightarrow> u8 \<Rightarrow> u8 option \<Rightarrow> bool \<Rightarrow> u8 \<Rightarrow> nat
     \<Rightarrow> ('h, 'z) ctl_scheme \<Rightarrow> (read_decision \<times> ('h, 'z) ctl_scheme) option" where
  "decideByte E deviceType expectedByte held requestedStream readByte timeoutCounter w =
     (if requestedStream then
        if readByte = expectedByte then
          case held of
            None \<Rightarrow> Some (ReturnByte readByte, w)
          | Some firstByte \<Rightarrow>
              do { w \<leftarrow> dispatchDriverInterrupt E deviceType firstByte w;
                   Some (ReturnByte readByte, w) }
        else
          case held of
            None \<Rightarrow> Some (ReadAgain (Some readByte) timeoutCounter, w)
          | Some firstByte \<Rightarrow>
              do { w \<leftarrow> dispatchDriverInterrupt E deviceType readByte w;
                   Some (ReturnByte firstByte, w) }
      else
        do { w \<leftarrow> dispatchDriverInterrupt E (other_device deviceType) readByte w;
             Some (ReadAgain held timeoutCounter, w) })"

partial_function (option) readDataPortExpecting_loop ::
  "('h, ('h, 'z) ctl_scheme) env \<Rightarrow> PS2DeviceType \<Rightarrow> u8 \<Rightarrow> u8 option \<Rightarrow> nat
     \<Rightarrow> ('h, 'z) ctl_scheme \<Rightarrow> (u8 \<times> ('h, 'z) ctl_scheme) option" where
  "readDataPortExpecting_loop E deviceType expectedByte held timeoutCounter w =
     do { (a, w) \<leftarrow> acquireByte E deviceType timeoutCounter w;
          case a of
            TimedOut \<Rightarrow>
              (case held of
                 Some firstByte \<Rightarrow> Some (firstByte, w)
               | None \<Rightarrow> Some (0, emit (IOLog (LogTimedOut deviceType)) w))
          | Acquired requestedStream readByte timeoutCounter \<Rightarrow>
              do { (d, w) \<leftarrow> decideByte E deviceType expectedByte held requestedStream readByte
                              timeoutCounter w;
                   case d of
                     ReturnByte b \<Rightarrow> Some (b, w)
                   | ReadAgain held timeoutCounter \<Rightarrow>
                       readDataPortExpecting_loop E deviceType expectedByte held
                         timeoutCounter w } }"

definition readDataPortExpecting ::
  "('h, ('h, 'z) ctl_scheme) env \<Rightarrow> PS2DeviceType \<Rightarrow> u8 \<Rightarrow> ('h, 'z) ctl_scheme
     \<Rightarrow> (u8 \<times> ('h, 'z) ctl_scheme) option" where
  "readDataPortExpecting E deviceType expectedByte w =
     readDataPortExpecting_loop E deviceType expectedByte None 10000 w"

end
