(* ===== verification/PS2_Requests.thy ===== *)
theory PS2_Requests
  imports PS2_Ports
begin

text \<open>
  Request processing of \<^verbatim>\<open>ApplePS2Controller.cpp\<close>: allocation and release of request
  structures, the asynchronous queue, synchronous submission, and the interpreter for
  the command primitives of a request.
\<close>

section \<open>Definitions\<close>

subsection \<open>The heap of requests\<close>

definition zero_command :: PS2Command where
  "zero_command = \<lparr>command = kPS2C_ReadDataPort, inOrOut = 0\<rparr>"

definition zero_request :: PS2Request where
  "zero_request =
     \<lparr>commandsCount = 0, commands = replicate kMaxCommands zero_command,
      completionTarget = False, completionAction = None, completionParam = None\<rparr>"

text \<open>The allocation blocks until it succeeds and the structure is zeroed.\<close>

definition allocateRequest :: "('h, 'z) ctl_scheme \<Rightarrow> nat \<times> ('h, 'z) ctl_scheme" where
  "allocateRequest w =
     (nextRequest w,
      w\<lparr>requests := (requests w)(nextRequest w \<mapsto> zero_request),
        nextRequest := Suc (nextRequest w)\<rparr>)"

text \<open>Releasing a structure that is not allocated corrupts the heap.\<close>

definition freeRequest :: "nat \<Rightarrow> ('h, 'z) ctl_scheme \<Rightarrow> ('h, 'z) ctl_scheme option" where
  "freeRequest r w =
     (case requests w r of
        None \<Rightarrow> None
      | Some _ \<Rightarrow> Some (w\<lparr>requests := (requests w)(r := None)\<rparr>))"

text \<open>\<open>request->commands[index]\<close> and an assignment to its \<open>inOrOut\<close>; both need an
  allocated request and an index inside the array.\<close>

definition command_at :: "nat \<Rightarrow> nat \<Rightarrow> ('h, 'z) ctl_scheme \<Rightarrow> PS2Command option" where
  "command_at r index w =
     do { q \<leftarrow> requests w r; if index < length (commands q) then Some (commands q ! index) else None }"

definition set_inOrOut ::
  "nat \<Rightarrow> nat \<Rightarrow> u8 \<Rightarrow> ('h, 'z) ctl_scheme \<Rightarrow> ('h, 'z) ctl_scheme option" where
  "set_inOrOut r index b w =
     do { q \<leftarrow> requests w r;
          c \<leftarrow> command_at r index w;
          Some (w\<lparr>requests := (requests w)(r \<mapsto> q\<lparr>commands := (commands q)[index := c\<lparr>inOrOut := b\<rparr>]\<rparr>)\<rparr>) }"

text \<open>A driver's block of assignments \<open>request->commands[i] = \<dots>; request->commandsCount = n\<close>.\<close>

definition fill_request ::
  "nat \<Rightarrow> PS2Command list \<Rightarrow> ('h, 'z) ctl_scheme \<Rightarrow> ('h, 'z) ctl_scheme option" where
  "fill_request r cs w =
     do { q \<leftarrow> requests w r;
          if length cs \<le> length (commands q)
          then Some (w\<lparr>requests := (requests w)(r \<mapsto>
                 q\<lparr>commands := cs @ drop (length cs) (commands q),
                   commandsCount := of_nat (length cs)\<rparr>)\<rparr>)
          else None }"

subsection \<open>The command interpreter\<close>

text \<open>
  The body of the loop over the commands: the state of the loop is the device whose
  stream the next read uses and whether the next data byte goes to the mouse. The result
  also tells whether the command failed.
\<close>

definition processCommand ::
  "('h, ('h, 'z) ctl_scheme) env \<Rightarrow> nat \<Rightarrow> nat \<Rightarrow> PS2DeviceType \<Rightarrow> bool \<Rightarrow> ('h, 'z) ctl_scheme
     \<Rightarrow> ((bool \<times> PS2DeviceType \<times> bool) \<times> ('h, 'z) ctl_scheme) option" where
  "processCommand E r index deviceMode transmitToMouse w =
     do { c \<leftarrow> command_at r index w;
          case command c of
            kPS2C_ReadDataPort \<Rightarrow>
              do { (byte, w) \<leftarrow> readDataPort E deviceMode w;
                   w \<leftarrow> set_inOrOut r index byte w;
                   Some ((False, deviceMode, transmitToMouse), w) }
          | kPS2C_ReadDataPortAndCompare \<Rightarrow>
              do { (byte, w) \<leftarrow> readDataPortExpecting E deviceMode (inOrOut c) w;
                   c \<leftarrow> command_at r index w;
                   Some ((byte \<noteq> inOrOut c, deviceMode, transmitToMouse), w) }
          | kPS2C_WriteDataPort \<Rightarrow>
              do { w \<leftarrow> writeDataPort E (inOrOut c) w;
                   Some (if transmitToMouse then ((False, kDT_Mouse, False), w)
                         else ((False, kDT_Keyboard, False), w)) }
          | kPS2C_WriteCommandPort \<Rightarrow>
              do { w \<leftarrow> writeCommandPort E (inOrOut c) w;
                   Some ((False, deviceMode,
                          if inOrOut c = kCP_TransmitToMouse then True else transmitToMouse), w) }
          | kPS2C_SendMouseCommandAndCompareAck \<Rightarrow>
              do { w \<leftarrow> writeCommandPort E kCP_TransmitToMouse w;
                   w \<leftarrow> writeDataPort E (inOrOut c) w;
                   (byte, w) \<leftarrow> readDataPortExpecting E kDT_Mouse kSC_Acknowledge w;
                   Some ((byte \<noteq> kSC_Acknowledge, kDT_Mouse, transmitToMouse), w) } }"

text \<open>
  The loop itself: \<open>for (index = 0; index < request->commandsCount; index++)\<close>, left early
  when a command failed. The result is the failure flag and the index where it stopped.
  The index grows and stays below a \<open>UInt8\<close>, so the loop ends if every command does.
\<close>

function processCommands ::
  "('h, ('h, 'z) ctl_scheme) env \<Rightarrow> nat \<Rightarrow> nat \<Rightarrow> PS2DeviceType \<Rightarrow> bool \<Rightarrow> ('h, 'z) ctl_scheme
     \<Rightarrow> ((bool \<times> nat) \<times> ('h, 'z) ctl_scheme) option" where
  "processCommands E r index deviceMode transmitToMouse w =
     (case requests w r of
        None \<Rightarrow> None
      | Some q \<Rightarrow>
          if index < unat (commandsCount q) then
            (case processCommand E r index deviceMode transmitToMouse w of
               None \<Rightarrow> None
             | Some ((failed, deviceMode, transmitToMouse), w) \<Rightarrow>
                 if failed then Some ((True, index), w)
                 else processCommands E r (Suc index) deviceMode transmitToMouse w)
          else Some ((False, index), w))"
  by pat_completeness auto
termination
proof (relation "measure (\<lambda>(E, r, index, d, t, w). 256 - index)", goal_cases)
  case 1
  show ?case by simp
next
  case (2 E r index d t w q x p y f p' dm tm)
  then have "index < unat (commandsCount q)" by simp
  moreover have "unat (commandsCount q) < 256" by (rule unat_u8_less)
  ultimately have "index < 256" by linarith
  then show ?case by simp
qed

declare processCommands.simps [simp del]

text \<open>The completion: store the index of a failed command, then call back or release.\<close>

definition submitRequestAndBlockCompletion ::
  "nat option \<Rightarrow> ('h, 'z) ctl_scheme \<Rightarrow> ('h, 'z) ctl_scheme" where
  "submitRequestAndBlockCompletion param w =
     (case param of
        None \<Rightarrow> w
      | Some completionSyncer \<Rightarrow> w\<lparr>syncers := (syncers w)[completionSyncer := True]\<rparr>)"

definition completeRequest ::
  "nat \<Rightarrow> bool \<Rightarrow> nat \<Rightarrow> ('h, 'z) ctl_scheme \<Rightarrow> ('h, 'z) ctl_scheme option" where
  "completeRequest r failed index w =
     do { q \<leftarrow> requests w r;
          let q = (if failed then q\<lparr>commandsCount := of_nat index\<rparr> else q);
          let w = w\<lparr>requests := (requests w)(r \<mapsto> q)\<rparr>;
          case completionAction q of
            Some SubmitRequestAndBlockCompletion \<Rightarrow>
              if completionTarget q
              then Some (submitRequestAndBlockCompletion (completionParam q) w)
              else freeRequest r w
          | None \<Rightarrow> freeRequest r w }"

definition processRequest ::
  "('h, ('h, 'z) ctl_scheme) env \<Rightarrow> nat \<Rightarrow> ('h, 'z) ctl_scheme \<Rightarrow> ('h, 'z) ctl_scheme option" where
  "processRequest E r w =
     (if hardwareOffline w then completeRequest r True 0 w
      else do { ((failed, index), w) \<leftarrow> processCommands E r 0 kDT_Keyboard False w;
                completeRequest r failed index w })"

subsection \<open>The asynchronous queue\<close>

definition submitRequest :: "nat \<Rightarrow> ('h, 'z) ctl_scheme \<Rightarrow> ('h, 'z) ctl_scheme" where
  "submitRequest r w =
     emit (SignalSource InterruptSourceQueue) (w\<lparr>requestQueue := requestQueue w @ [r]\<rparr>)"

fun processLocalQueue ::
  "('h, ('h, 'z) ctl_scheme) env \<Rightarrow> nat list \<Rightarrow> ('h, 'z) ctl_scheme \<Rightarrow> ('h, 'z) ctl_scheme option" where
  "processLocalQueue E [] w = Some w"
| "processLocalQueue E (r # localQueue) w =
     do { w \<leftarrow> processRequest E r w; processLocalQueue E localQueue w }"

definition processRequestQueue ::
  "('h, ('h, 'z) ctl_scheme) env \<Rightarrow> ('h, 'z) ctl_scheme \<Rightarrow> ('h, 'z) ctl_scheme option" where
  "processRequestQueue E w = processLocalQueue E (requestQueue w) (w\<lparr>requestQueue := []\<rparr>)"

subsection \<open>Synchronous submission\<close>

definition set_completion ::
  "nat \<Rightarrow> nat option \<Rightarrow> ('h, 'z) ctl_scheme \<Rightarrow> ('h, 'z) ctl_scheme option" where
  "set_completion r param w =
     do { q \<leftarrow> requests w r;
          Some (w\<lparr>requests := (requests w)(r \<mapsto>
            q\<lparr>completionTarget := True,
              completionAction := Some SubmitRequestAndBlockCompletion,
              completionParam := param\<rparr>)\<rparr>) }"

text \<open>
  Inside the gate the request is processed at once, after the queued ones. Outside it,
  the request is queued and the thread sleeps; the work loop, which the queue's event
  source has woken, takes the gate and processes the queue. A thread whose syncer is
  not signalled by then sleeps forever.
\<close>

definition submitRequestAndBlock ::
  "('h, ('h, 'z) ctl_scheme) env \<Rightarrow> nat \<Rightarrow> ('h, 'z) ctl_scheme \<Rightarrow> ('h, 'z) ctl_scheme option" where
  "submitRequestAndBlock E r w =
     (if inGate w then
        do { w \<leftarrow> set_completion r None w;
             w \<leftarrow> processRequestQueue E w;
             processRequest E r w }
      else
        do { let completionSyncer = length (syncers w);
             let w = w\<lparr>syncers := syncers w @ [False]\<rparr>;
             w \<leftarrow> set_completion r (Some completionSyncer) w;
             let w = submitRequest r w;
             w \<leftarrow> processRequestQueue E (w\<lparr>inGate := True\<rparr>);
             let w = w\<lparr>inGate := False\<rparr>;
             if completionSyncer < length (syncers w) \<and> syncers w ! completionSyncer
             then Some w else None })"

section \<open>Queues in two parts\<close>

lemma processLocalQueue_append:
  "processLocalQueue E (rs @ [r]) w = Some w' \<longleftrightarrow>
     (\<exists>u. processLocalQueue E rs w = Some u \<and> processRequest E r u = Some w')"
  by (induction rs arbitrary: w) (auto simp: bind_Some_iff)

end
