(* ===== verification/PS2_Interrupts.thy ===== *)
theory PS2_Interrupts
  imports PS2_Requests
begin

text \<open>
  Interrupt service of \<^verbatim>\<open>ApplePS2Controller.cpp\<close>: the interrupt-time handlers, the
  debugger escape sequence with its modifier tracking, the work loop's interrupt action,
  and the registration of the drivers' handlers.
\<close>

section \<open>Definitions\<close>

subsection \<open>The debugger escape sequence\<close>

definition kModifierShiftLeft :: u16 where [ps2_consts]: "kModifierShiftLeft = 0x01"
definition kModifierShiftRight :: u16 where [ps2_consts]: "kModifierShiftRight = 0x02"
definition kModifierCtrlLeft :: u16 where [ps2_consts]: "kModifierCtrlLeft = 0x04"
definition kModifierCtrlRight :: u16 where [ps2_consts]: "kModifierCtrlRight = 0x08"
definition kModifierAltLeft :: u16 where [ps2_consts]: "kModifierAltLeft = 0x10"
definition kModifierAltRight :: u16 where [ps2_consts]: "kModifierAltRight = 0x20"
definition kModifierWindowsLeft :: u16 where [ps2_consts]: "kModifierWindowsLeft = 0x40"
definition kModifierWindowsRight :: u16 where [ps2_consts]: "kModifierWindowsRight = 0x80"

text \<open>Scan code, extended, modifier; the terminating zero entry is the end of the list.\<close>

definition modifierTable :: "(u8 \<times> bool \<times> u16) list" where
  "modifierTable =
     [(kSC_Alt, False, kModifierAltLeft),
      (kSC_Alt, True, kModifierAltRight),
      (kSC_Ctrl, False, kModifierCtrlLeft),
      (kSC_Ctrl, True, kModifierCtrlRight),
      (kSC_ShiftLeft, False, kModifierShiftLeft),
      (kSC_ShiftRight, False, kModifierShiftRight),
      (kSC_WindowsLeft, True, kModifierWindowsLeft),
      (kSC_WindowsRight, True, kModifierWindowsRight)]"

definition lookupModifier :: "u8 \<Rightarrow> bool \<Rightarrow> u16 option" where
  "lookupModifier scancode extended =
     map_option (\<lambda>(_, _, m). m) (find (\<lambda>(s, e, _). s = scancode \<and> e = extended) modifierTable)"

text \<open>The loop that puts back a release code for every modifier that was down.\<close>

fun releaseModifierKeys ::
  "(u8 \<times> bool \<times> u16) list \<Rightarrow> ('h, 'z) ctl_scheme \<Rightarrow> ('h, 'z) ctl_scheme" where
  "releaseModifierKeys [] w = w"
| "releaseModifierKeys ((scancode, extended, modifier) # table) w =
     releaseModifierKeys table
       (if modifierState w AND modifier \<noteq> 0
        then enqueueKeyboardData (scancode OR kSC_UpBit)
               (if extended then enqueueKeyboardData kSC_Extend w else w)
        else w)"

definition doEscape ::
  "('h, 'w) env \<Rightarrow> u8 \<Rightarrow> ('h, 'z) ctl_scheme \<Rightarrow> (bool \<times> ('h, 'z) ctl_scheme) option" where
  "doEscape E scancode w =
     (let upBit = (scancode AND kSC_UpBit \<noteq> 0)
      in if scancode = kSC_Extend then Some (False, w\<lparr>extendedState := True\<rparr>)
      else let scancode = scancode AND NOT kSC_UpBit
      in case lookupModifier scancode (extendedState w) of
           Some modifier \<Rightarrow>
             Some (False, w\<lparr>modifierState := (if upBit then modifierState w AND NOT modifier
                                              else modifierState w OR modifier),
                            extendedState := False\<rparr>)
         | None \<Rightarrow>
             if scancode = kSC_Delete \<and> modifierState w = kModifierAltLeft OR kModifierAltRight
             then do { w \<leftarrow> waitInputFree E w;
                       let w = port_out E kCommandPort kCP_DisableMouseClock w;
                       let w = emit CallDebugger w;
                       w \<leftarrow> waitInputFree E w;
                       let w = port_out E kCommandPort kCP_EnableMouseClock w;
                       let w = releaseModifierKeys modifierTable w;
                       Some (True, w\<lparr>modifierState := 0, extendedState := False\<rparr>) }
             else Some (False, w\<lparr>extendedState := False\<rparr>))"

subsection \<open>Interrupt-time handlers\<close>

definition interruptHandlerMouse :: "('h, 'z) ctl_scheme \<Rightarrow> ('h, 'z) ctl_scheme" where
  "interruptHandlerMouse w = emit (SignalSource InterruptSourceMouse) w"

definition interruptHandlerKeyboard ::
  "('h, 'w) env \<Rightarrow> ('h, 'z) ctl_scheme \<Rightarrow> ('h, 'z) ctl_scheme option" where
  "interruptHandlerKeyboard E w =
     do { w \<leftarrow> lockController w;
          let (status, w) = port_in E kCommandPort w;
          w \<leftarrow> (if status AND kOutputReady \<noteq> 0 then
                  if status AND kMouseData \<noteq> 0 then Some (interruptHandlerMouse w)
                  else
                    let (key, w) = port_in E kDataPort w
                    in do { (dropped, w) \<leftarrow> (if debuggingEnabled w then doEscape E key w
                                              else Some (False, w));
                            let w = (if dropped then w else enqueueKeyboardData key w);
                            Some (emit (SignalSource InterruptSourceKeyboard) w) }
                else Some w);
          Some (unlockController w) }"

subsection \<open>The work loop's interrupt action\<close>

text \<open>The loop, entered and left with the controller locked.\<close>

partial_function (option) interruptOccurred_loop ::
  "('h, ('h, 'z) ctl_scheme) env \<Rightarrow> ('h, 'z) ctl_scheme \<Rightarrow> ('h, 'z) ctl_scheme option" where
  "interruptOccurred_loop E w =
     (case dequeueKeyboardData w of
        (Some key, w) \<Rightarrow>
          do { w \<leftarrow> dispatchDriverInterrupt E kDT_Keyboard key (unlockController w);
               w \<leftarrow> lockController w;
               interruptOccurred_loop E w }
      | (None, w) \<Rightarrow>
          (let (status, w) = port_in E kCommandPort w
           in if status AND (kOutputReady OR kMouseData) = kOutputReady OR kMouseData then
                let (datum, w) = port_in E kDataPort (unlockController w)
                in do { w \<leftarrow> dispatchDriverInterrupt E kDT_Mouse datum w;
                        w \<leftarrow> lockController w;
                        interruptOccurred_loop E w }
              else Some w))"

definition interruptOccurred ::
  "('h, ('h, 'z) ctl_scheme) env \<Rightarrow> ('h, 'z) ctl_scheme \<Rightarrow> ('h, 'z) ctl_scheme option" where
  "interruptOccurred E w =
     (if hardwareOffline w then Some w
      else do { w \<leftarrow> lockController w;
                w \<leftarrow> interruptOccurred_loop E w;
                Some (unlockController w) })"

subsection \<open>Registration of handlers\<close>

definition installInterruptAction ::
  "PS2DeviceType \<Rightarrow> driver \<Rightarrow> driver \<Rightarrow> ('h, 'z) ctl_scheme \<Rightarrow> ('h, 'z) ctl_scheme" where
  "installInterruptAction deviceType target action w =
     (if deviceType = kDT_Keyboard \<and> \<not> interruptInstalledKeyboard w then
        (let w = emit (RetainTarget target) w;
             w = w\<lparr>interruptTargetKeyboard := Some target, interruptActionKeyboard := Some action\<rparr>;
             w = emit (AddEventSource InterruptSourceKeyboard) w;
             w = emit (RegisterInterrupt kIRQ_Keyboard) w;
             w = emit (EnableInterrupt kIRQ_Keyboard) w
         in w\<lparr>interruptInstalledKeyboard := True\<rparr>)
      else if deviceType = kDT_Mouse \<and> \<not> interruptInstalledMouse w then
        (let w = emit (RetainTarget target) w;
             w = w\<lparr>interruptTargetMouse := Some target, interruptActionMouse := Some action\<rparr>;
             w = emit (AddEventSource InterruptSourceMouse) w;
             w = emit (RegisterInterrupt kIRQ_Mouse) w;
             w = emit (EnableInterrupt kIRQ_Mouse) w
         in w\<lparr>interruptInstalledMouse := True\<rparr>)
      else w)"

definition uninstallInterruptAction ::
  "PS2DeviceType \<Rightarrow> ('h, 'z) ctl_scheme \<Rightarrow> ('h, 'z) ctl_scheme option" where
  "uninstallInterruptAction deviceType w =
     (if deviceType = kDT_Keyboard \<and> interruptInstalledKeyboard w then
        (let w = emit (DisableInterrupt kIRQ_Keyboard) w;
             w = emit (UnregisterInterrupt kIRQ_Keyboard) w;
             w = emit (RemoveEventSource InterruptSourceKeyboard) w;
             w = w\<lparr>interruptInstalledKeyboard := False, interruptActionKeyboard := None\<rparr>
         in do { target \<leftarrow> interruptTargetKeyboard w;
                 Some ((emit (ReleaseTarget target) w)\<lparr>interruptTargetKeyboard := None\<rparr>) })
      else if deviceType = kDT_Mouse \<and> interruptInstalledMouse w then
        (let w = emit (DisableInterrupt kIRQ_Mouse) w;
             w = emit (UnregisterInterrupt kIRQ_Mouse) w;
             w = emit (RemoveEventSource InterruptSourceMouse) w;
             w = w\<lparr>interruptInstalledMouse := False, interruptActionMouse := None\<rparr>
         in do { target \<leftarrow> interruptTargetMouse w;
                 Some ((emit (ReleaseTarget target) w)\<lparr>interruptTargetMouse := None\<rparr>) })
      else Some w)"

definition installPowerControlAction ::
  "PS2DeviceType \<Rightarrow> driver \<Rightarrow> driver \<Rightarrow> ('h, 'z) ctl_scheme \<Rightarrow> ('h, 'z) ctl_scheme" where
  "installPowerControlAction deviceType target action w =
     (if deviceType = kDT_Keyboard \<and> \<not> powerControlInstalledKeyboard w then
        (emit (RetainTarget target) w)\<lparr>powerControlTargetKeyboard := Some target,
          powerControlActionKeyboard := Some action, powerControlInstalledKeyboard := True\<rparr>
      else if deviceType = kDT_Mouse \<and> \<not> powerControlInstalledMouse w then
        (emit (RetainTarget target) w)\<lparr>powerControlTargetMouse := Some target,
          powerControlActionMouse := Some action, powerControlInstalledMouse := True\<rparr>
      else w)"

definition uninstallPowerControlAction ::
  "PS2DeviceType \<Rightarrow> ('h, 'z) ctl_scheme \<Rightarrow> ('h, 'z) ctl_scheme option" where
  "uninstallPowerControlAction deviceType w =
     (if deviceType = kDT_Keyboard \<and> powerControlInstalledKeyboard w then
        (let w = w\<lparr>powerControlInstalledKeyboard := False, powerControlActionKeyboard := None\<rparr>
         in do { target \<leftarrow> powerControlTargetKeyboard w;
                 Some ((emit (ReleaseTarget target) w)\<lparr>powerControlTargetKeyboard := None\<rparr>) })
      else if deviceType = kDT_Mouse \<and> powerControlInstalledMouse w then
        (let w = w\<lparr>powerControlInstalledMouse := False, powerControlActionMouse := None\<rparr>
         in do { target \<leftarrow> powerControlTargetMouse w;
                 Some ((emit (ReleaseTarget target) w)\<lparr>powerControlTargetMouse := None\<rparr>) })
      else Some w)"

end
