(* ===== verification/PS2_Power.thy ===== *)
theory PS2_Power
  imports PS2_Interrupts
begin

text \<open>
  Power management and life cycle of \<^verbatim>\<open>ApplePS2Controller.cpp\<close>: the power state machine
  and its notification of the drivers, \<open>init\<close>, \<open>start\<close>, \<open>stop\<close> and \<open>free\<close>.
\<close>

section \<open>Definitions\<close>

subsection \<open>Power states\<close>

definition dispatchDriverPowerControl ::
  "('h, ('h, 'z) ctl_scheme) env \<Rightarrow> PS2PowerControl \<Rightarrow> ('h, 'z) ctl_scheme
     \<Rightarrow> ('h, 'z) ctl_scheme option" where
  "dispatchDriverPowerControl E whatToDo w =
     do { w \<leftarrow> (if powerControlInstalledMouse w
                then do { action \<leftarrow> powerControlActionMouse w; target \<leftarrow> powerControlTargetMouse w;
                          callPowerControlAction E action target whatToDo w }
                else Some w);
          (if powerControlInstalledKeyboard w
           then do { action \<leftarrow> powerControlActionKeyboard w; target \<leftarrow> powerControlTargetKeyboard w;
                     callPowerControlAction E action target whatToDo w }
           else Some w) }"

text \<open>The read-modify-write that enables the port again when the machine wakes.\<close>

definition enablePort ::
  "('h, ('h, 'z) ctl_scheme) env \<Rightarrow> ('h, 'z) ctl_scheme \<Rightarrow> ('h, 'z) ctl_scheme option" where
  "enablePort E w =
     do { w \<leftarrow> writeCommandPort E kCP_GetCommandByte w;
          (commandByte, w) \<leftarrow> readDataPort E kDT_Keyboard w;
          let commandByte = commandByte AND NOT (kCB_DisableKeyboardClock OR kCB_DisableMouseClock);
          let commandByte = commandByte OR (kCB_EnableKeyboardIRQ OR kCB_EnableMouseIRQ);
          w \<leftarrow> writeCommandPort E kCP_SetCommandByte w;
          writeDataPort E commandByte w }"

definition setPowerStateGated ::
  "('h, ('h, 'z) ctl_scheme) env \<Rightarrow> u32 \<Rightarrow> ('h, 'z) ctl_scheme \<Rightarrow> ('h, 'z) ctl_scheme option" where
  "setPowerStateGated E powerState w =
     do { w \<leftarrow> (if currentPowerState w \<noteq> powerState then
                  do { w \<leftarrow> (if powerState = kPS2PowerStateSleep then
                               do { w \<leftarrow> dispatchDriverPowerControl E kPS2C_DisableDevice w;
                                    Some (w\<lparr>hardwareOffline := True\<rparr>) }
                             else if powerState = kPS2PowerStateDoze \<or>
                                     powerState = kPS2PowerStateNormal then
                               if currentPowerState w \<noteq> kPS2PowerStateSleep then Some w
                               else do { w \<leftarrow> enablePort E w;
                                         let w = w\<lparr>hardwareOffline := False\<rparr>;
                                         dispatchDriverPowerControl E kPS2C_EnableDevice w }
                             else Some (emit (IOLog (LogBadPowerState powerState)) w));
                       Some (w\<lparr>currentPowerState := powerState\<rparr>) }
                else Some w);
          Some (emit AcknowledgeSetPowerState w) }"

text \<open>
  The policy maker's request starts a thread call; \<open>alreadyPending\<close> is the result of
  \<open>thread_call_enter1\<close>. The result is the acknowledgement timeout in microseconds.
\<close>

definition setPowerState ::
  "bool \<Rightarrow> u32 \<Rightarrow> ('h, 'z) ctl_scheme \<Rightarrow> nat \<times> ('h, 'z) ctl_scheme" where
  "setPowerState alreadyPending powerStateOrdinal w =
     (let w = emit RetainController w;
          w = emit (ThreadCallEnter powerStateOrdinal) w;
          w = (if alreadyPending then emit ReleaseController w else w)
      in (5000000, w))"

definition setPowerStateCallout ::
  "('h, ('h, 'z) ctl_scheme) env \<Rightarrow> u32 \<Rightarrow> ('h, 'z) ctl_scheme \<Rightarrow> ('h, 'z) ctl_scheme option" where
  "setPowerStateCallout E powerState w =
     do { let gate = inGate w;
          w \<leftarrow> (if workLoop (resources w)
                then do { w \<leftarrow> setPowerStateGated E powerState (w\<lparr>inGate := True\<rparr>);
                          Some (w\<lparr>inGate := gate\<rparr>) }
                else Some w);
          Some (emit ReleaseController w) }"

subsection \<open>Life cycle\<close>

definition init_controller ::
  "bool \<Rightarrow> bool \<Rightarrow> ('h, 'z) ctl_scheme \<Rightarrow> bool \<times> ('h, 'z) ctl_scheme" where
  "init_controller superInit lockAlloc w =
     (if \<not> superInit then (False, w)
      else
        (lockAlloc,
         w\<lparr>resources := (resources w)\<lparr>workLoop := False, interruptSourceKeyboard := False,
             interruptSourceMouse := False, keyboardDevice := False, mouseDevice := False,
             keyboardQueueAlloc := False, controllerLock := lockAlloc\<rparr>,
           interruptTargetKeyboard := None, interruptTargetMouse := None,
           interruptActionKeyboard := None, interruptActionMouse := None,
           interruptInstalledKeyboard := False, interruptInstalledMouse := False,
           requestQueue := [],
           currentPowerState := kPS2PowerStateNormal,
           extendedState := False, modifierState := 0, debuggingEnabled := False,
           keyboardQueue := [], keyboardQueueUnused := []\<rparr>))"

definition free_controller :: "('h, 'z) ctl_scheme \<Rightarrow> ('h, 'z) ctl_scheme" where
  "free_controller w = w\<lparr>resources := (resources w)\<lparr>controllerLock := False\<rparr>\<rparr>"

definition stop_controller ::
  "('h, ('h, 'z) ctl_scheme) env \<Rightarrow> ('h, 'z) ctl_scheme \<Rightarrow> ('h, 'z) ctl_scheme option" where
  "stop_controller E w =
     do { let w = w\<lparr>resources := (resources w)\<lparr>keyboardDevice := False, mouseDevice := False,
                     workLoop := False, interruptSourceKeyboard := False,
                     interruptSourceMouse := False, interruptSourceQueue := False\<rparr>\<rparr>;
          w \<leftarrow> (if requestQueueLock (resources w)
                then do { w \<leftarrow> processRequestQueue E (w\<lparr>hardwareOffline := True\<rparr>);
                          Some (w\<lparr>resources := (resources w)\<lparr>requestQueueLock := False\<rparr>\<rparr>) }
                else Some w);
          let w = w\<lparr>resources := (resources w)\<lparr>powerChangeThreadCall := False\<rparr>\<rparr>;
          let w = emit (PowerManagement False) w;
          Some (w\<lparr>resources := (resources w)\<lparr>gApplePS2Controller := False\<rparr>\<rparr>) }"

text \<open>What the kernel answers to the calls that \<open>start\<close> makes.\<close>

record start_results =
  superStart :: bool
  debugBootArg :: bool
  mallocBytes :: "u8 list option"
  queueLockAlloc :: bool
  workLoopAlloc :: bool
  sourceMouseAlloc :: bool
  sourceKeyboardAlloc :: bool
  sourceQueueAlloc :: bool
  addQueueSource :: bool
  threadCallAlloc :: bool
  keyboardNub :: bool
  mouseNub :: bool

text \<open>The part of \<open>start\<close> that brings keyboard and mouse to a known state.\<close>

definition quietDevices ::
  "('h, ('h, 'z) ctl_scheme) env \<Rightarrow> ('h, 'z) ctl_scheme \<Rightarrow> ('h, 'z) ctl_scheme option" where
  "quietDevices E w =
     do { w \<leftarrow> writeCommandPort E kCP_GetCommandByte w;
          (commandByte, w) \<leftarrow> readDataPort E kDT_Keyboard w;
          let commandByte = commandByte AND NOT (kCB_EnableMouseIRQ OR kCB_DisableMouseClock);
          w \<leftarrow> writeCommandPort E kCP_SetCommandByte w;
          w \<leftarrow> writeDataPort E commandByte w;
          w \<leftarrow> writeDataPort E kDP_SetDefaultsAndDisable w;
          (_, w) \<leftarrow> readDataPort E kDT_Keyboard w;
          w \<leftarrow> writeCommandPort E kCP_TransmitToMouse w;
          w \<leftarrow> writeDataPort E kDP_SetDefaultsAndDisable w;
          (_, w) \<leftarrow> readDataPort E kDT_Mouse w;
          Some w }"

partial_function (option) drainInput ::
  "('h, 'w) env \<Rightarrow> ('h, 'z) ctl_scheme \<Rightarrow> ('h, 'z) ctl_scheme option" where
  "drainInput E w =
     (let (status, w) = port_in E kCommandPort w
      in if status AND kOutputReady \<noteq> 0
         then let w = ioDelay kDataDelay w; (_, w) = port_in E kDataPort w
              in drainInput E (ioDelay kDataDelay w)
         else Some w)"

text \<open>
  The rest of \<open>start\<close>, from the request-queue lock on; the flag tells whether control
  reached the end or jumped to \<open>fail\<close>.
\<close>

definition startServices ::
  "start_results \<Rightarrow> ('h, 'z) ctl_scheme \<Rightarrow> bool \<times> ('h, 'z) ctl_scheme" where
  "startServices K w =
     (let w = w\<lparr>resources := (resources w)\<lparr>requestQueueLock := queueLockAlloc K\<rparr>\<rparr>
      in if \<not> queueLockAlloc K then (False, w)
      else let w = w\<lparr>resources := (resources w)\<lparr>workLoop := workLoopAlloc K,
                       interruptSourceMouse := sourceMouseAlloc K,
                       interruptSourceKeyboard := sourceKeyboardAlloc K,
                       interruptSourceQueue := sourceQueueAlloc K\<rparr>\<rparr>
      in if \<not> workLoopAlloc K \<or> \<not> sourceMouseAlloc K \<or> \<not> sourceKeyboardAlloc K
            \<or> \<not> sourceQueueAlloc K then (False, w)
      else if \<not> addQueueSource K then (False, w)
      else let w = emit (AddEventSource InterruptSourceQueue) w;
               w = w\<lparr>resources := (resources w)\<lparr>powerChangeThreadCall := threadCallAlloc K\<rparr>\<rparr>
      in if \<not> threadCallAlloc K then (False, w)
      else let w = emit (PowerManagement True) w;
               w = (if keyboardNub K
                    then emit (RegisterService kDT_Keyboard)
                           (w\<lparr>resources := (resources w)\<lparr>keyboardDevice := True\<rparr>\<rparr>)
                    else w\<lparr>resources := (resources w)\<lparr>keyboardDevice := False,
                                          interruptSourceKeyboard := False\<rparr>\<rparr>);
               w = (if mouseNub K
                    then emit (RegisterService kDT_Mouse)
                           (w\<lparr>resources := (resources w)\<lparr>mouseDevice := True\<rparr>\<rparr>)
                    else w\<lparr>resources := (resources w)\<lparr>mouseDevice := False,
                                          interruptSourceMouse := False\<rparr>\<rparr>)
      in (True, w\<lparr>resources := (resources w)\<lparr>gApplePS2Controller := True\<rparr>\<rparr>))"

definition start_controller ::
  "('h, ('h, 'z) ctl_scheme) env \<Rightarrow> start_results \<Rightarrow> ('h, 'z) ctl_scheme
     \<Rightarrow> (bool \<times> ('h, 'z) ctl_scheme) option" where
  "start_controller E K w =
     (if \<not> superStart K then Some (False, w)
      else
        let w = (if debugBootArg K then w\<lparr>debuggingEnabled := True\<rparr> else w)
        in case mallocBytes K of
             None \<Rightarrow>
               do { w \<leftarrow> stop_controller E (w\<lparr>resources := (resources w)\<lparr>keyboardQueueAlloc := False\<rparr>\<rparr>);
                    Some (False, w) }
           | Some bytes \<Rightarrow>
               do { let w = w\<lparr>resources := (resources w)\<lparr>keyboardQueueAlloc := True\<rparr>,
                             keyboardQueueUnused :=
                               keyboardQueueUnused w @ take kKeyboardQueueSize bytes\<rparr>;
                    w \<leftarrow> quietDevices E w;
                    w \<leftarrow> drainInput E w;
                    case startServices K w of
                      (True, w) \<Rightarrow> Some (True, w)
                    | (False, w) \<Rightarrow> do { w \<leftarrow> stop_controller E w; Some (False, w) } })"

end
