(* ===== verification/PS2_Nubs.thy ===== *)
theory PS2_Nubs
  imports PS2_Power
begin

text \<open>
  The two nubs, \<^verbatim>\<open>ApplePS2KeyboardDevice\<close> and \<^verbatim>\<open>ApplePS2MouseDevice\<close>: the services that the
  controller publishes and that the device drivers talk to. A nub is the table of the
  methods its clients call; each of the two delegates to the controller with its own
  device type.
\<close>

section \<open>Definitions\<close>

record 'w nub =
  nubAllocateRequest :: "'w \<Rightarrow> nat \<times> 'w"
  nubFreeRequest :: "nat \<Rightarrow> 'w \<Rightarrow> 'w option"
  nubSubmitRequest :: "nat \<Rightarrow> 'w \<Rightarrow> 'w"
  nubSubmitRequestAndBlock :: "nat \<Rightarrow> 'w \<Rightarrow> 'w option"
  nubInstallInterruptAction :: "driver \<Rightarrow> driver \<Rightarrow> 'w \<Rightarrow> 'w"
  nubUninstallInterruptAction :: "'w \<Rightarrow> 'w option"
  nubInstallPowerControlAction :: "driver \<Rightarrow> driver \<Rightarrow> 'w \<Rightarrow> 'w"
  nubUninstallPowerControlAction :: "'w \<Rightarrow> 'w option"

definition keyboardNubOf ::
  "('h, ('h, 'z) ctl_scheme) env \<Rightarrow> ('h, 'z) ctl_scheme nub" where
  "keyboardNubOf E =
     \<lparr>nubAllocateRequest = allocateRequest,
      nubFreeRequest = freeRequest,
      nubSubmitRequest = submitRequest,
      nubSubmitRequestAndBlock = submitRequestAndBlock E,
      nubInstallInterruptAction = installInterruptAction kDT_Keyboard,
      nubUninstallInterruptAction = uninstallInterruptAction kDT_Keyboard,
      nubInstallPowerControlAction = installPowerControlAction kDT_Keyboard,
      nubUninstallPowerControlAction = uninstallPowerControlAction kDT_Keyboard\<rparr>"

definition mouseNubOf ::
  "('h, ('h, 'z) ctl_scheme) env \<Rightarrow> ('h, 'z) ctl_scheme nub" where
  "mouseNubOf E =
     \<lparr>nubAllocateRequest = allocateRequest,
      nubFreeRequest = freeRequest,
      nubSubmitRequest = submitRequest,
      nubSubmitRequestAndBlock = submitRequestAndBlock E,
      nubInstallInterruptAction = installInterruptAction kDT_Mouse,
      nubUninstallInterruptAction = uninstallInterruptAction kDT_Mouse,
      nubInstallPowerControlAction = installPowerControlAction kDT_Mouse,
      nubUninstallPowerControlAction = uninstallPowerControlAction kDT_Mouse\<rparr>"

text \<open>
  Attaching a nub to the controller: the controller is retained only when the
  superclass attached; \<open>assert\<close> compiles to nothing.
\<close>

definition attach_nub :: "bool \<Rightarrow> ('h, 'z) ctl_scheme \<Rightarrow> bool \<times> ('h, 'z) ctl_scheme" where
  "attach_nub superAttach w = (if \<not> superAttach then (False, w) else (True, emit RetainController w))"

definition detach_nub :: "('h, 'z) ctl_scheme \<Rightarrow> ('h, 'z) ctl_scheme" where
  "detach_nub w = emit ReleaseController w"

lemmas nub_simps [simp] = keyboardNubOf_def mouseNubOf_def

section \<open>What drivers do with a nub\<close>

text \<open>
  The pattern of every command sequence that a driver sends: allocate a request, fill
  it in, submit it and read the structure back before releasing it. The asynchronous
  pattern hands the request over to the controller, which releases it.
\<close>

definition send_async ::
  "('h, 'z) ctl_scheme nub \<Rightarrow> PS2Command list \<Rightarrow> ('h, 'z) ctl_scheme
     \<Rightarrow> ('h, 'z) ctl_scheme option" where
  "send_async D cs w =
     do { let (r, w) = nubAllocateRequest D w;
          w \<leftarrow> fill_request r cs w;
          Some (nubSubmitRequest D r w) }"

definition send_blocking ::
  "('h, 'z) ctl_scheme nub \<Rightarrow> PS2Command list \<Rightarrow> ('h, 'z) ctl_scheme
     \<Rightarrow> (PS2Request \<times> ('h, 'z) ctl_scheme) option" where
  "send_blocking D cs w =
     do { let (r, w) = nubAllocateRequest D w;
          w \<leftarrow> fill_request r cs w;
          w \<leftarrow> nubSubmitRequestAndBlock D r w;
          q \<leftarrow> requests w r;
          w \<leftarrow> nubFreeRequest D r w;
          Some (q, w) }"

text \<open>
  The test-and-set loop that every driver class has its own copy of, named
  \<open>setCommandByte\<close> in each: read the command byte, change it, and write it only if a second
  read still gives the old value; otherwise start again.
\<close>

partial_function (option) commandByte_loop ::
  "('h, 'z) ctl_scheme nub \<Rightarrow> nat \<Rightarrow> u8 \<Rightarrow> u8 \<Rightarrow> ('h, 'z) ctl_scheme
     \<Rightarrow> ('h, 'z) ctl_scheme option" where
  "commandByte_loop D r setBits clearBits w =
     do { w \<leftarrow> fill_request r
                [\<lparr>command = kPS2C_WriteCommandPort, inOrOut = kCP_GetCommandByte\<rparr>,
                 \<lparr>command = kPS2C_ReadDataPort, inOrOut = 0\<rparr>] w;
          w \<leftarrow> nubSubmitRequestAndBlock D r w;
          c \<leftarrow> command_at r 1 w;
          let commandByte = inOrOut c;
          let commandByteNew = (commandByte OR setBits) AND NOT clearBits;
          w \<leftarrow> fill_request r
                [\<lparr>command = kPS2C_WriteCommandPort, inOrOut = kCP_GetCommandByte\<rparr>,
                 \<lparr>command = kPS2C_ReadDataPortAndCompare, inOrOut = commandByte\<rparr>,
                 \<lparr>command = kPS2C_WriteCommandPort, inOrOut = kCP_SetCommandByte\<rparr>,
                 \<lparr>command = kPS2C_WriteDataPort, inOrOut = commandByteNew\<rparr>] w;
          w \<leftarrow> nubSubmitRequestAndBlock D r w;
          q \<leftarrow> requests w r;
          if commandsCount q \<noteq> 4 then commandByte_loop D r setBits clearBits w else Some w }"

definition readModifyWriteCommandByte ::
  "('h, 'z) ctl_scheme nub \<Rightarrow> u8 \<Rightarrow> u8 \<Rightarrow> ('h, 'z) ctl_scheme
     \<Rightarrow> ('h, 'z) ctl_scheme option" where
  "readModifyWriteCommandByte D setBits clearBits w =
     do { let (r, w) = nubAllocateRequest D w;
          w \<leftarrow> commandByte_loop D r setBits clearBits w;
          nubFreeRequest D r w }"

end
