(* ===== verification/PS2_Handlers.thy ===== *)
theory PS2_Handlers
  imports PS2_Nubs
begin

text \<open>
  The interface between the controller and the handlers that it calls back. The
  controller knows nothing about a handler; whether a whole controller operation keeps a
  property of states follows from whether the handlers keep it. Three locales state the
  contract: \<open>port_invariant\<close> for the properties that the port level cannot disturb by
  itself, \<open>request_invariant\<close> for those that request processing cannot disturb either, and
  \<open>driver_invariant\<close> for the properties of the keyboard queue and the drivers' own fields.
\<close>

section \<open>Invariants of the port level\<close>

text \<open>
  \<open>touch_ports\<close> changes what the port level may change freely: the chip, the delays, the
  effects and the lock. The keyboard queue changes by the two queue operations only.
\<close>

definition touch_ports ::
  "'h \<Rightarrow> nat \<Rightarrow> effect list \<Rightarrow> bool \<Rightarrow> ('h, 'z) ctl_scheme \<Rightarrow> ('h, 'z) ctl_scheme" where
  "touch_ports h n es b w = w\<lparr>hw := h, delayed := n, effects := es, controllerLocked := b\<rparr>"

lemma touch_ports_intros:
  "w\<lparr>hw := h\<rparr> = touch_ports h (delayed w) (effects w) (controllerLocked w) w"
  "w\<lparr>delayed := n\<rparr> = touch_ports (hw w) n (effects w) (controllerLocked w) w"
  "w\<lparr>effects := es\<rparr> = touch_ports (hw w) (delayed w) es (controllerLocked w) w"
  "w\<lparr>controllerLocked := b\<rparr> = touch_ports (hw w) (delayed w) (effects w) b w"
  by (simp_all add: touch_ports_def)

locale port_invariant =
  fixes E :: "('h, ('h, 'z) ctl_scheme) env"
    and I :: "('h, 'z) ctl_scheme \<Rightarrow> bool"
  assumes I_touch: "I w \<Longrightarrow> I (touch_ports h n es b w)"
    and I_enqueue: "I w \<Longrightarrow> I (enqueueKeyboardData key w)"
    and I_dequeue: "dequeueKeyboardData w = (k, w') \<Longrightarrow> I w \<Longrightarrow> I w'"
    and I_handler: "callInterruptAction E action target datum w = Some w' \<Longrightarrow> I w \<Longrightarrow> I w'"
begin

lemma I_prims:
  "I w \<Longrightarrow> I (w\<lparr>hw := h\<rparr>)" "I w \<Longrightarrow> I (w\<lparr>delayed := n\<rparr>)" "I w \<Longrightarrow> I (w\<lparr>effects := es\<rparr>)"
  "I w \<Longrightarrow> I (w\<lparr>controllerLocked := b\<rparr>)"
  by (subst touch_ports_intros, erule I_touch)+

lemma I_emit: "I w \<Longrightarrow> I (emit e w)"
  by (simp add: emit_def I_prims)

lemma I_ioDelay: "I w \<Longrightarrow> I (ioDelay n w)"
  by (simp add: ioDelay_def I_prims)

lemma I_port_in: "port_in E' port w = (datum, w') \<Longrightarrow> I w \<Longrightarrow> I w'"
  by (auto simp: port_in_def split: prod.splits intro: I_prims)

lemma I_port_out: "I w \<Longrightarrow> I (port_out E' port datum w)"
  by (simp add: port_out_def I_prims)

lemma I_lock: "lockController w = Some w' \<Longrightarrow> I w \<Longrightarrow> I w'"
  by (auto simp: lockController_def I_prims split: if_splits)

lemma I_unlock: "I w \<Longrightarrow> I (unlockController w)"
  by (simp add: unlockController_def I_prims)

lemmas I_updates = I_emit I_ioDelay I_port_out I_unlock I_enqueue

lemma I_waitInputFree: "waitInputFree E' w = Some w' \<Longrightarrow> I w \<Longrightarrow> I w'"
proof -
  assume *: "waitInputFree E' w = Some w'"
  have "I w \<longrightarrow> I w'"
  proof (rule waitInputFree.raw_induct [where P = "\<lambda>E' w w'. I w \<longrightarrow> I w'", OF _ *], rule impI)
    fix f E' v v'
    assume IH: "\<And>E' u u'. f E' u = Some u' \<Longrightarrow> I u \<longrightarrow> I u'"
      and step: "(let (status, w) = port_in E' kCommandPort v
        in if status AND kInputBusy \<noteq> 0 then f E' (ioDelay kDataDelay w) else Some w) = Some v'"
      and v: "I v"
    obtain status u where u: "port_in E' kCommandPort v = (status, u)" by force
    with v have "I u" by (blast intro: I_port_in)
    with step IH u show "I v'" by (auto split: if_splits intro: I_ioDelay)
  qed
  then show "I w \<Longrightarrow> I w'" by simp
qed

lemma I_writeDataPort: "writeDataPort E' byte w = Some w' \<Longrightarrow> I w \<Longrightarrow> I w'"
  unfolding writeDataPort_def by (auto dest: I_waitInputFree intro: I_port_out)

lemma I_writeCommandPort: "writeCommandPort E' byte w = Some w' \<Longrightarrow> I w \<Longrightarrow> I w'"
  unfolding writeCommandPort_def by (auto dest: I_waitInputFree intro: I_port_out)

lemma I_dispatch: "dispatchDriverInterrupt E deviceType datum w = Some w' \<Longrightarrow> I w \<Longrightarrow> I w'"
  unfolding dispatchDriverInterrupt_def
  by (auto split: PS2DeviceType.splits if_splits intro: I_handler)

lemma I_waitOutputReady: "waitOutputReady E' n w = (status, n', w') \<Longrightarrow> I w \<Longrightarrow> I w'"
proof (induction n arbitrary: w)
  case (Suc n)
  obtain s u where u: "port_in E' kCommandPort w = (s, u)" by force
  with Suc.prems(2) have "I u" by (blast intro: I_port_in)
  with Suc u show ?case by (auto split: if_splits intro: I_ioDelay)
qed simp

lemma I_acquireByte: "acquireByte E' deviceType n w = Some (a, w') \<Longrightarrow> I w \<Longrightarrow> I w'"
  unfolding acquireByte_def
  by (auto simp: Let_def split: option.splits prod.splits if_splits
      dest!: I_lock I_dequeue I_waitOutputReady I_port_in intro!: I_updates)

lemma I_readDataPort: "readDataPort E deviceType w = Some (b, w') \<Longrightarrow> I w \<Longrightarrow> I w'"
proof -
  assume "readDataPort E deviceType w = Some (b, w')"
  then have *: "readDataPort_loop E deviceType 10000 w = Some (b, w')"
    by (simp add: readDataPort_def)
  let ?P = "\<lambda>E' (d :: PS2DeviceType) (n :: nat) w r. E' = E \<longrightarrow> I w \<longrightarrow> I (snd r)"
  have "E = E \<longrightarrow> I w \<longrightarrow> I (snd (b, w'))"
  proof (rule readDataPort_loop.raw_induct [where P = ?P, OF _ *], intro impI, goal_cases)
    case (1 f E' d n v r)
    note IH = 1(1) [rule_format, OF _ refl]
    from 1(2-) show ?case
      by (auto split: acquired.splits if_splits dest!: I_acquireByte I_dispatch
          dest: IH intro!: I_updates)
  qed
  then show "I w \<Longrightarrow> I w'" by simp
qed

lemma I_decideByte:
  "decideByte E deviceType x held s b n w = Some (d, w') \<Longrightarrow> I w \<Longrightarrow> I w'"
  unfolding decideByte_def
  by (auto split: option.splits if_splits dest!: I_dispatch)

lemma I_readDataPortExpecting:
  "readDataPortExpecting E deviceType x w = Some (b, w') \<Longrightarrow> I w \<Longrightarrow> I w'"
proof -
  assume "readDataPortExpecting E deviceType x w = Some (b, w')"
  then have *: "readDataPortExpecting_loop E deviceType x None 10000 w = Some (b, w')"
    by (simp add: readDataPortExpecting_def)
  let ?P = "\<lambda>E' (d :: PS2DeviceType) (x :: u8) (held :: u8 option) (n :: nat) w r.
    E' = E \<longrightarrow> I w \<longrightarrow> I (snd r)"
  have "E = E \<longrightarrow> I w \<longrightarrow> I (snd (b, w'))"
  proof (rule readDataPortExpecting_loop.raw_induct [where P = ?P, OF _ *], intro impI, goal_cases)
    case (1 f E' d x held n v r)
    note IH = 1(1) [rule_format, OF _ refl]
    from 1(2-) show ?case
      by (auto split: acquired.splits read_decision.splits option.splits
          dest!: I_acquireByte I_decideByte intro!: I_updates) (blast intro: IH)
  qed
  then show "I w \<Longrightarrow> I w'" by simp
qed

lemma I_releaseModifierKeys: "I w \<Longrightarrow> I (releaseModifierKeys table w)"
  by (induction table w rule: releaseModifierKeys.induct) (simp_all add: I_enqueue)

lemma I_interruptOccurred_loop: "interruptOccurred_loop E w = Some w' \<Longrightarrow> I w \<Longrightarrow> I w'"
proof -
  assume *: "interruptOccurred_loop E w = Some w'"
  have "E = E \<longrightarrow> I w \<longrightarrow> I w'"
  proof (rule interruptOccurred_loop.raw_induct
      [where P = "\<lambda>E' w w'. E' = E \<longrightarrow> I w \<longrightarrow> I w'", OF _ *], intro impI, goal_cases)
    case (1 f E' v v')
    note IH = 1(1) [rule_format, OF _ refl]
    from 1(2-) show ?case
      by (auto simp: Let_def split: option.splits if_splits prod.splits
          dest!: I_dequeue I_lock I_port_in I_dispatch dest: IH intro!: I_updates)
  qed
  then show "I w \<Longrightarrow> I w'" by simp
qed

lemma I_interruptOccurred: "interruptOccurred E w = Some w' \<Longrightarrow> I w \<Longrightarrow> I w'"
  unfolding interruptOccurred_def
  by (auto split: if_splits dest!: I_lock I_interruptOccurred_loop intro!: I_updates)

lemma I_quietDevices: "quietDevices E w = Some w' \<Longrightarrow> I w \<Longrightarrow> I w'"
  unfolding quietDevices_def
  by (auto simp: Let_def dest!: I_writeCommandPort I_writeDataPort I_readDataPort)

lemma I_drainInput:
  assumes "drainInput E' w = Some w'" and "I w"
  shows "I w'"
proof -
  have "I w \<longrightarrow> I w'"
  proof (rule drainInput.raw_induct [where P = "\<lambda>E' w w'. I w \<longrightarrow> I w'", OF _ assms(1)], rule impI, goal_cases)
    case (1 f E' v v')
    note IH = 1(1) [rule_format]
    from 1(2-) show ?case
      by (auto simp: Let_def split: prod.splits if_splits dest!: I_port_in dest: IH intro!: I_updates)
  qed
  with assms(2) show ?thesis by simp
qed

lemma I_enablePort: "enablePort E w = Some w' \<Longrightarrow> I w \<Longrightarrow> I w'"
  unfolding enablePort_def
  by (auto simp: Let_def dest!: I_writeCommandPort I_writeDataPort I_readDataPort)

end

definition is_nub :: "('h, ('h, 'z) ctl_scheme) env \<Rightarrow> ('h, 'z) ctl_scheme nub \<Rightarrow> bool" where
  "is_nub E D \<longleftrightarrow> D = keyboardNubOf E \<or> D = mouseNubOf E"

lemma is_nub_of [simp]: "is_nub E (keyboardNubOf E)" "is_nub E (mouseNubOf E)"
  by (simp_all add: is_nub_def del: nub_simps)

lemma is_nub_simps:
  assumes "is_nub E D"
  shows "nubAllocateRequest D = allocateRequest" "nubFreeRequest D = freeRequest"
    "nubSubmitRequest D = submitRequest" "nubSubmitRequestAndBlock D = submitRequestAndBlock E"
  using assms by (auto simp: is_nub_def)

section \<open>Invariants of request processing\<close>

text \<open>
  The next level also works on the heap of requests, the queue, the syncers and the gate.
\<close>

definition touch_requests ::
  "(nat \<rightharpoonup> PS2Request) \<Rightarrow> nat \<Rightarrow> nat list \<Rightarrow> bool list \<Rightarrow> bool \<Rightarrow> ('h, 'z) ctl_scheme
     \<Rightarrow> ('h, 'z) ctl_scheme" where
  "touch_requests h n q s g w =
     w\<lparr>requests := h, nextRequest := n, requestQueue := q, syncers := s, inGate := g\<rparr>"

lemma touch_requests_intros:
  "w\<lparr>requests := h\<rparr> = touch_requests h (nextRequest w) (requestQueue w) (syncers w) (inGate w) w"
  "w\<lparr>nextRequest := n\<rparr> = touch_requests (requests w) n (requestQueue w) (syncers w) (inGate w) w"
  "w\<lparr>requestQueue := q\<rparr> = touch_requests (requests w) (nextRequest w) q (syncers w) (inGate w) w"
  "w\<lparr>syncers := s\<rparr> = touch_requests (requests w) (nextRequest w) (requestQueue w) s (inGate w) w"
  "w\<lparr>inGate := g\<rparr> = touch_requests (requests w) (nextRequest w) (requestQueue w) (syncers w) g w"
  by (simp_all add: touch_requests_def)

locale request_invariant = port_invariant +
  assumes I_touch_requests: "I w \<Longrightarrow> I (touch_requests h n' q s g w)"
begin

lemma I_fields:
  "I w \<Longrightarrow> I (w\<lparr>requests := h\<rparr>)" "I w \<Longrightarrow> I (w\<lparr>nextRequest := n'\<rparr>)"
  "I w \<Longrightarrow> I (w\<lparr>requestQueue := q\<rparr>)" "I w \<Longrightarrow> I (w\<lparr>syncers := s\<rparr>)" "I w \<Longrightarrow> I (w\<lparr>inGate := g\<rparr>)"
  by (subst touch_requests_intros, erule I_touch_requests)+

lemma I_allocateRequest: "I w \<Longrightarrow> I (snd (allocateRequest w))"
  by (simp add: allocateRequest_def I_fields)

lemma I_freeRequest: "freeRequest r w = Some w' \<Longrightarrow> I w \<Longrightarrow> I w'"
  by (auto simp: freeRequest_def intro!: I_fields split: option.splits)

lemma I_set_inOrOut: "set_inOrOut r i b w = Some w' \<Longrightarrow> I w \<Longrightarrow> I w'"
  by (auto simp: set_inOrOut_def intro!: I_fields)

lemma I_fill_request: "fill_request r cs w = Some w' \<Longrightarrow> I w \<Longrightarrow> I w'"
  by (auto simp: fill_request_def intro!: I_fields split: if_splits)

lemma I_set_completion: "set_completion r p w = Some w' \<Longrightarrow> I w \<Longrightarrow> I w'"
  by (auto simp: set_completion_def intro!: I_fields)

lemma I_submitRequest: "I w \<Longrightarrow> I (submitRequest r w)"
  by (auto simp: submitRequest_def intro!: I_fields I_updates)

lemma I_processCommand: "processCommand E r i d t w = Some (a, w') \<Longrightarrow> I w \<Longrightarrow> I w'"
  unfolding processCommand_def
  by (auto split: PS2CommandEnum.splits if_splits
      dest!: I_readDataPort I_readDataPortExpecting I_set_inOrOut I_writeDataPort I_writeCommandPort)

lemma I_processCommands: "processCommands E r i d t w = Some (a, w') \<Longrightarrow> I w \<Longrightarrow> I w'"
proof -
  have "processCommands E' r i d t w = Some (a, w') \<longrightarrow> E' = E \<longrightarrow> I w \<longrightarrow> I w'" for E'
  proof (induction E' r i d t w rule: processCommands.induct)
    case (1 E' r i d t w)
    show ?case
      by (subst processCommands.simps)
        (auto split: option.splits dest: I_processCommand 1)
  qed
  then show "processCommands E r i d t w = Some (a, w') \<Longrightarrow> I w \<Longrightarrow> I w'" by blast
qed

lemma I_completeRequest: "completeRequest r failed i w = Some w' \<Longrightarrow> I w \<Longrightarrow> I w'"
  unfolding completeRequest_def submitRequestAndBlockCompletion_def
  by (auto simp: Let_def split: option.splits PS2CompletionAction.splits if_splits
      dest!: I_freeRequest intro!: I_fields)

lemma I_processRequest: "processRequest E r w = Some w' \<Longrightarrow> I w \<Longrightarrow> I w'"
  unfolding processRequest_def
  by (auto split: if_splits dest!: I_processCommands I_completeRequest)

lemma I_processLocalQueue: "processLocalQueue E rs w = Some w' \<Longrightarrow> I w \<Longrightarrow> I w'"
  by (induction rs arbitrary: w) (auto dest: I_processRequest)

lemma I_processRequestQueue: "processRequestQueue E w = Some w' \<Longrightarrow> I w \<Longrightarrow> I w'"
  unfolding processRequestQueue_def by (auto dest!: I_processLocalQueue intro!: I_fields)

lemma I_submitRequestAndBlock: "submitRequestAndBlock E r w = Some w' \<Longrightarrow> I w \<Longrightarrow> I w'"
  unfolding submitRequestAndBlock_def
  by (auto simp: Let_def split: if_splits
      dest!: I_set_completion I_processRequestQueue I_processRequest intro!: I_submitRequest I_fields)

lemma I_send_async:
  assumes "is_nub E D" and "send_async D cs w = Some w'" and "I w"
  shows "I w'"
  using assms(2,3) I_allocateRequest [of w]
  by (auto simp: send_async_def is_nub_simps [OF assms(1)] split: prod.splits
      dest: I_fill_request intro!: I_submitRequest)

lemma I_send_blocking:
  assumes "is_nub E D" and "send_blocking D cs w = Some (q, w')" and "I w"
  shows "I w'"
  using assms(2,3) I_allocateRequest [of w]
  by (auto simp: send_blocking_def is_nub_simps [OF assms(1)] split: prod.splits
      dest!: I_fill_request I_submitRequestAndBlock I_freeRequest)

lemma I_commandByte_loop:
  assumes D: "is_nub E D" and *: "commandByte_loop D r s c w = Some w'" and "I w"
  shows "I w'"
proof -
  have "D = D \<longrightarrow> I w \<longrightarrow> I w'"
  proof (rule commandByte_loop.raw_induct
      [where P = "\<lambda>D' (r :: nat) (s :: u8) (c :: u8) w w'. D' = D \<longrightarrow> I w \<longrightarrow> I w'", OF _ *],
      intro impI, goal_cases)
    case (1 f D' r s c v v')
    note IH = 1(1) [rule_format, OF _ refl]
    from 1(2-) show ?case
      by (auto simp: Let_def is_nub_simps [OF D] split: if_splits
          dest!: I_fill_request I_submitRequestAndBlock dest: IH)
  qed
  with \<open>I w\<close> show ?thesis by simp
qed

lemma I_readModifyWrite:
  assumes "is_nub E D" and "readModifyWriteCommandByte D s c w = Some w'" and "I w"
  shows "I w'"
  using assms(2,3) I_allocateRequest [of w]
  by (auto simp: readModifyWriteCommandByte_def is_nub_simps [OF assms(1)] split: prod.splits
      dest!: I_commandByte_loop [OF assms(1)] I_freeRequest)

end

section \<open>Invariants of the keyboard queue and of the drivers' fields\<close>

text \<open>
  A property of the keyboard queue and of the drivers' own fields, which extend the
  controller's record, is kept by every operation of the controller and of the nubs if the
  queue operations and the handlers keep it.
\<close>

locale driver_invariant =
  fixes E :: "('h, ('h, 'z) ctl_scheme) env"
    and I :: "('h, 'z) ctl_scheme \<Rightarrow> bool"
  assumes I_more: "I w \<Longrightarrow> ctl.more w' = ctl.more w \<Longrightarrow> keyboardQueue w' = keyboardQueue w
      \<Longrightarrow> keyboardQueueUnused w' = keyboardQueueUnused w \<Longrightarrow> I w'"
    and I_enq: "I w \<Longrightarrow> I (enqueueKeyboardData key w)"
    and I_deq: "dequeueKeyboardData w = (k, w') \<Longrightarrow> I w \<Longrightarrow> I w'"
    and I_interrupt: "callInterruptAction E action target datum w = Some w' \<Longrightarrow> I w \<Longrightarrow> I w'"
    and I_power: "callPowerControlAction E action target what w = Some w' \<Longrightarrow> I w \<Longrightarrow> I w'"

sublocale driver_invariant \<subseteq> request_invariant E I
  by unfold_locales (auto simp: touch_ports_def touch_requests_def elim: I_more I_deq
      intro: I_interrupt I_enq)

context driver_invariant
begin

lemma I_others:
 
  "I w \<Longrightarrow> I (w\<lparr>resources := x3\<rparr>)"
 
 
  "I w \<Longrightarrow> I (w\<lparr>interruptTargetKeyboard := x9\<rparr>)"
  "I w \<Longrightarrow> I (w\<lparr>interruptTargetMouse := x10\<rparr>)" "I w \<Longrightarrow> I (w\<lparr>interruptActionKeyboard := x11\<rparr>)"
  "I w \<Longrightarrow> I (w\<lparr>interruptActionMouse := x12\<rparr>)" "I w \<Longrightarrow> I (w\<lparr>interruptInstalledKeyboard := x13\<rparr>)"
  "I w \<Longrightarrow> I (w\<lparr>interruptInstalledMouse := x14\<rparr>)" "I w \<Longrightarrow> I (w\<lparr>powerControlTargetKeyboard := x15\<rparr>)"
  "I w \<Longrightarrow> I (w\<lparr>powerControlTargetMouse := x16\<rparr>)" "I w \<Longrightarrow> I (w\<lparr>powerControlActionKeyboard := x17\<rparr>)"
  "I w \<Longrightarrow> I (w\<lparr>powerControlActionMouse := x18\<rparr>)" "I w \<Longrightarrow> I (w\<lparr>powerControlInstalledKeyboard := x19\<rparr>)"
  "I w \<Longrightarrow> I (w\<lparr>powerControlInstalledMouse := x20\<rparr>)" "I w \<Longrightarrow> I (w\<lparr>debuggingEnabled := x21\<rparr>)"
 
  "I w \<Longrightarrow> I (w\<lparr>extendedState := x25\<rparr>)"
  "I w \<Longrightarrow> I (w\<lparr>modifierState := x26\<rparr>)" "I w \<Longrightarrow> I (w\<lparr>currentPowerState := x27\<rparr>)"
  "I w \<Longrightarrow> I (w\<lparr>hardwareOffline := x28\<rparr>)"
  by (erule I_more; simp)+

lemma I_installInterruptAction: "I w \<Longrightarrow> I (installInterruptAction d t a w)"
  by (auto simp: installInterruptAction_def Let_def intro!: I_others I_fields I_emit)

lemma I_installPowerControlAction: "I w \<Longrightarrow> I (installPowerControlAction d t a w)"
  by (auto simp: installPowerControlAction_def Let_def intro!: I_others I_fields I_emit)

lemma I_uninstallInterruptAction: "uninstallInterruptAction d w = Some w' \<Longrightarrow> I w \<Longrightarrow> I w'"
  by (auto simp: uninstallInterruptAction_def Let_def intro!: I_others I_fields I_emit split: if_splits)

lemma I_uninstallPowerControlAction:
  "uninstallPowerControlAction d w = Some w' \<Longrightarrow> I w \<Longrightarrow> I w'"
  by (auto simp: uninstallPowerControlAction_def Let_def intro!: I_others I_fields I_emit split: if_splits)

end

section \<open>Nubs, interrupts and power under a driver invariant\<close>

context driver_invariant
begin

lemma I_install:
  assumes "is_nub E D" and "I w"
  shows "I (nubInstallInterruptAction D t a w)" and "I (nubInstallPowerControlAction D t a w)"
  using assms by (auto simp: is_nub_def I_installInterruptAction I_installPowerControlAction)

lemma I_uninstall:
  "nubUninstallInterruptAction D w = Some w' \<Longrightarrow> is_nub E D \<Longrightarrow> I w \<Longrightarrow> I w'"
  "nubUninstallPowerControlAction D w = Some w' \<Longrightarrow> is_nub E D \<Longrightarrow> I w \<Longrightarrow> I w'"
  by (auto simp: is_nub_def dest: I_uninstallInterruptAction I_uninstallPowerControlAction)

lemma I_doEscape: "doEscape E' k w = Some (b, w') \<Longrightarrow> I w \<Longrightarrow> I w'"
  unfolding doEscape_def
  by (auto simp: Let_def split: if_splits option.splits dest!: I_waitInputFree
      intro!: I_others I_fields I_updates I_releaseModifierKeys)

lemma I_interruptHandlerKeyboard: "interruptHandlerKeyboard E' w = Some w' \<Longrightarrow> I w \<Longrightarrow> I w'"
  unfolding interruptHandlerKeyboard_def interruptHandlerMouse_def
  by (auto simp: Let_def split: if_splits prod.splits dest!: I_lock I_port_in I_doEscape
      intro!: I_updates)

lemma I_dispatchDriverPowerControl:
  "dispatchDriverPowerControl E what w = Some w' \<Longrightarrow> I w \<Longrightarrow> I w'"
  unfolding dispatchDriverPowerControl_def by (auto split: if_splits dest!: I_power)

lemma I_setPowerStateGated: "setPowerStateGated E s w = Some w' \<Longrightarrow> I w \<Longrightarrow> I w'"
  unfolding setPowerStateGated_def
  by (auto simp: Let_def split: if_splits dest!: I_dispatchDriverPowerControl I_enablePort
      intro!: I_others I_fields I_updates)

lemma I_setPowerStateCallout: "setPowerStateCallout E s w = Some w' \<Longrightarrow> I w \<Longrightarrow> I w'"
  unfolding setPowerStateCallout_def
  by (auto simp: Let_def split: if_splits dest!: I_setPowerStateGated intro!: I_others I_fields I_updates)

lemma I_stop_controller: "stop_controller E w = Some w' \<Longrightarrow> I w \<Longrightarrow> I w'"
  unfolding stop_controller_def
  by (auto simp: Let_def split: if_splits dest!: I_processRequestQueue intro!: I_others I_fields I_updates)

end

end
