(* ===== verification/PS2_Heap.thy ===== *)
theory PS2_Heap
  imports PS2_Handlers
begin

text \<open>
  Ownership of request structures. A request that is allocated and not on the
  controller's queue is held: some thread is going to read or release it. A routine
  frames the heap if it leaves every held request as it is, holds no new one and releases
  none. Handlers that frame the heap make the controller's own operations do so; the
  result is the contract of a nub, on which the drivers rely.
\<close>

section \<open>Held requests and frames\<close>

definition heap_ok :: "('h, 'z) ctl_scheme \<Rightarrow> bool" where
  "heap_ok w \<longleftrightarrow> (\<forall>r\<in>dom (requests w). r < nextRequest w) \<and> distinct (requestQueue w) \<and>
     (\<forall>r\<in>set (requestQueue w). \<exists>q. requests w r = Some q \<and> completionAction q = None)"

definition held :: "('h, 'z) ctl_scheme \<Rightarrow> nat set" where
  "held w = dom (requests w) - set (requestQueue w)"

text \<open>The requests in \<open>A\<close> may change, those in \<open>B\<close> are released; all others stay.\<close>

definition frame_upto :: "nat set \<Rightarrow> nat set \<Rightarrow> ('h, 'z) ctl_scheme \<Rightarrow> ('h, 'z) ctl_scheme \<Rightarrow> bool" where
  "frame_upto A B v w \<longleftrightarrow> heap_ok w \<and> held w = held v - B \<and> nextRequest v \<le> nextRequest w \<and>
     (\<forall>r\<in>held v - A - B. requests w r = requests v r)"

abbreviation frame :: "('h, 'z) ctl_scheme \<Rightarrow> ('h, 'z) ctl_scheme \<Rightarrow> bool" where
  "frame \<equiv> frame_upto {} {}"

lemma frame_refl: "heap_ok w \<Longrightarrow> frame_upto A {} w w"
  by (simp add: frame_upto_def)

lemma frame_ok: "frame_upto A B v w \<Longrightarrow> heap_ok w"
  by (simp add: frame_upto_def)

lemma frame_held: "frame_upto A B v w \<Longrightarrow> held w = held v - B"
  by (simp add: frame_upto_def)

lemma frame_same: "frame_upto A B v w \<Longrightarrow> r \<in> held v \<Longrightarrow> r \<notin> A \<Longrightarrow> r \<notin> B \<Longrightarrow> requests w r = requests v r"
  by (simp add: frame_upto_def)

lemma frame_trans:
  "frame_upto A B u v \<Longrightarrow> frame_upto A' B' v w \<Longrightarrow> frame_upto (A \<union> A') (B \<union> B') u w"
  by (auto simp: frame_upto_def)

lemma frame_mono: "frame_upto A B v w \<Longrightarrow> A \<subseteq> A' \<Longrightarrow> frame_upto A' B v w"
  by (auto simp: frame_upto_def)

text \<open>A frame depends on three fields only.\<close>

lemma frame_fields:
  assumes "requests w' = requests w" "requestQueue w' = requestQueue w" "nextRequest w' = nextRequest w"
  shows "heap_ok w' = heap_ok w" "held w' = held w" "frame_upto A B v w' = frame_upto A B v w"
    "frame_upto A B w' u = frame_upto A B w u"
  using assms by (simp_all add: heap_ok_def held_def frame_upto_def)

lemma held_request: "r \<in> held w \<Longrightarrow> \<exists>q. requests w r = Some q"
  by (auto simp: held_def)

section \<open>Handlers that frame the heap\<close>

locale heap_handlers =
  fixes E :: "('h, ('h, 'z) ctl_scheme) env"
  assumes handler_frame:
    "callInterruptAction E action target datum w = Some w' \<Longrightarrow> heap_ok w \<Longrightarrow> frame w w'"

lemma frame_if_same_heap:
  assumes "requests w' = requests w" "requestQueue w' = requestQueue w" "nextRequest w' = nextRequest w"
    and "frame_upto A B v w"
  shows "frame_upto A B v w'"
  using assms(4) by (subst frame_fields(3) [OF assms(1-3)])

lemma frame_unchanged:
  "heap_ok w \<Longrightarrow> requests w' = requests w \<Longrightarrow> requestQueue w' = requestQueue w
    \<Longrightarrow> nextRequest w' = nextRequest w \<Longrightarrow> frame w w'"
  by (rule frame_if_same_heap) (auto intro: frame_refl)

sublocale heap_handlers \<subseteq> fr: port_invariant E "frame v" for v
proof
  fix w w' :: "('h, 'z) ctl_scheme" and h n es b key k
  show "frame v w \<Longrightarrow> frame v (touch_ports h n es b w)"
    by (rule frame_if_same_heap) (simp_all add: touch_ports_def)
  show "frame v w \<Longrightarrow> frame v (enqueueKeyboardData key w)"
    by (rule frame_if_same_heap [of _ w]) (simp_all add: enqueueKeyboardData_def split: list.split)
  show "dequeueKeyboardData w = (k, w') \<Longrightarrow> frame v w \<Longrightarrow> frame v w'"
    by (rule frame_if_same_heap [of _ w]) (auto simp: dequeueKeyboardData_def split: list.splits)
next
  fix action target datum and w w' :: "('h, 'z) ctl_scheme"
  assume "callInterruptAction E action target datum w = Some w'" and "frame v w"
  then show "frame v w'"
    using frame_trans [of "{}" "{}" v w "{}" "{}" w'] by (auto dest: handler_frame frame_ok)
qed

text \<open>
  What processing may do to a request: the commands keep their kinds, and only the data of
  a read command changes; the completion fields stay.
\<close>

definition same_shape :: "PS2Request \<Rightarrow> PS2Request \<Rightarrow> bool" where
  "same_shape q q' \<longleftrightarrow> completionTarget q' = completionTarget q \<and>
     completionAction q' = completionAction q \<and> completionParam q' = completionParam q \<and>
     length (commands q') = length (commands q) \<and>
     (\<forall>k < length (commands q). command (commands q' ! k) = command (commands q ! k) \<and>
        (command (commands q ! k) \<noteq> kPS2C_ReadDataPort \<longrightarrow> commands q' ! k = commands q ! k))"

lemma same_shape_refl: "same_shape q q"
  by (simp add: same_shape_def)

lemma same_shape_trans: "same_shape q1 q2 \<Longrightarrow> same_shape q2 q3 \<Longrightarrow> same_shape q1 q3"
  by (auto simp: same_shape_def)

lemma same_shape_count [simp]:
  "same_shape q (q'\<lparr>commandsCount := n\<rparr>) = same_shape q q'"
  "same_shape (q\<lparr>commandsCount := n\<rparr>) q' = same_shape q q'"
  by (simp_all add: same_shape_def)

context heap_handlers
begin

lemma frame_of_read:
  "readDataPort E d w = Some (b, w') \<Longrightarrow> heap_ok w \<Longrightarrow> frame w w'"
  "readDataPortExpecting E d x w = Some (b, w') \<Longrightarrow> heap_ok w \<Longrightarrow> frame w w'"
  by (erule fr.I_readDataPort fr.I_readDataPortExpecting, erule frame_refl)+

lemma frame_of_write:
  fixes w :: "('h, 'z) ctl_scheme"
  shows "writeDataPort E b w = Some w' \<Longrightarrow> heap_ok w \<Longrightarrow> frame w w'"
    and "writeCommandPort E b w = Some w' \<Longrightarrow> heap_ok w \<Longrightarrow> frame w w'"
  by (erule fr.I_writeDataPort fr.I_writeCommandPort, erule frame_refl)+

lemma set_inOrOut_frame:
  assumes "set_inOrOut r i b w = Some w'" and "heap_ok w" and "r \<in> held w"
    and q: "requests w r = Some q" and "command (commands q ! i) = kPS2C_ReadDataPort"
  shows "frame_upto {r} {} w w' \<and> (\<exists>q'. requests w' r = Some q' \<and> same_shape q q' \<and>
     commandsCount q' = commandsCount q)"
proof -
  let ?q = "q\<lparr>commands := (commands q)[i := (commands q ! i)\<lparr>inOrOut := b\<rparr>]\<rparr>"
  have i: "i < length (commands q)" and w': "w' = w\<lparr>requests := (requests w)(r \<mapsto> ?q)\<rparr>"
    using assms(1) q by (auto simp: set_inOrOut_def command_at_def split: if_splits)
  have "same_shape q ?q"
    using assms(5) i by (auto simp: same_shape_def nth_list_update)
  then show ?thesis
    using assms(2,3) by (auto simp: w' frame_upto_def heap_ok_def held_def q)
qed

lemma processCommand_frame:
  assumes step: "processCommand E r i d t w = Some ((failed, d', t'), w')"
    and ok: "heap_ok w" and r: "r \<in> held w" and q: "requests w r = Some q"
  shows "frame_upto {r} {} w w' \<and> (\<exists>q'. requests w' r = Some q' \<and> same_shape q q' \<and>
     commandsCount q' = commandsCount q)"
proof -
  obtain c where c: "command_at r i w = Some c" and ci: "c = commands q ! i"
    using step q by (auto simp: processCommand_def command_at_def split: if_splits)
  have keep: ?thesis if "frame w w'"
    using that r q by (auto intro: frame_mono same_shape_refl simp: frame_same)
  show ?thesis
  proof (cases "command c")
    case kPS2C_ReadDataPort
    with step c obtain b u where b: "readDataPort E d w = Some (b, u)"
      and w': "set_inOrOut r i b u = Some w'"
      by (auto simp: processCommand_def)
    have u: "frame w u" using b ok by (rule frame_of_read)
    with r q have "requests u r = Some q" "r \<in> held u" "heap_ok u"
      by (simp_all add: frame_same frame_held frame_ok [OF u])
    with set_inOrOut_frame [OF w'] kPS2C_ReadDataPort ci
    have "frame_upto {r} {} u w'" "\<exists>q'. requests w' r = Some q' \<and> same_shape q q' \<and>
       commandsCount q' = commandsCount q" by auto
    with u show ?thesis using frame_trans [of "{}" "{}" w u "{r}" "{}" w'] by simp
  next
    case kPS2C_ReadDataPortAndCompare
    with step c have "\<exists>b. readDataPortExpecting E d (inOrOut c) w = Some (b, w')"
      by (auto simp: processCommand_def)
    with ok have "frame w w'" by (auto dest: frame_of_read)
    then show ?thesis by (rule keep)
  next
    case kPS2C_WriteDataPort
    with step c have "writeDataPort E (inOrOut c) w = Some w'"
      by (auto simp: processCommand_def split: if_splits)
    with ok have "frame w w'" by (auto dest: frame_of_write)
    then show ?thesis by (rule keep)
  next
    case kPS2C_WriteCommandPort
    with step c have "writeCommandPort E (inOrOut c) w = Some w'"
      by (auto simp: processCommand_def)
    with ok have "frame w w'" by (auto dest: frame_of_write)
    then show ?thesis by (rule keep)
  next
    case kPS2C_SendMouseCommandAndCompareAck
    with step c obtain u v b where "writeCommandPort E kCP_TransmitToMouse w = Some u"
      and "writeDataPort E (inOrOut c) u = Some v"
      and "readDataPortExpecting E kDT_Mouse kSC_Acknowledge v = Some (b, w')"
      by (auto simp: processCommand_def)
    then have "frame w w'"
      using frame_refl [OF ok] by (auto dest!: fr.I_writeCommandPort fr.I_writeDataPort
        fr.I_readDataPortExpecting)
    then show ?thesis by (rule keep)
  qed
qed

lemma processCommands_frame:
  assumes "processCommands E r i d t w = Some ((failed, j), w')"
    and "heap_ok w" and "r \<in> held w" and "requests w r = Some q"
    and "i \<le> unat (commandsCount q)"
  shows "frame_upto {r} {} w w' \<and>
    (\<exists>q'. requests w' r = Some q' \<and> same_shape q q' \<and> commandsCount q' = commandsCount q) \<and>
    i \<le> j \<and> j \<le> unat (commandsCount q) \<and> (failed \<longleftrightarrow> j < unat (commandsCount q))"
proof -
  have "processCommands E' r i d t w = Some ((failed, j), w') \<Longrightarrow> E' = E \<Longrightarrow> ?thesis" for E'
    using assms(2-)
  proof (induction E' r i d t w arbitrary: q rule: processCommands.induct)
    case (1 E' r i d t w)
    show ?case
    proof (cases "i < unat (commandsCount q)")
      case False
      with 1(2-) show ?thesis
        by (subst (asm) processCommands.simps) (auto intro: frame_refl same_shape_refl)
    next
      case True
      with 1(2,3,6) obtain f d' t' u where step: "processCommand E r i d t w = Some ((f, d', t'), u)"
        and cont: "(if f then Some ((True, i), u) else processCommands E r (Suc i) d' t' u)
          = Some ((failed, j), w')"
        by (subst (asm) processCommands.simps) (auto split: option.splits)
      obtain q1 where u: "frame_upto {r} {} w u" and q1: "requests u r = Some q1" "same_shape q q1"
        "commandsCount q1 = commandsCount q"
        using processCommand_frame [OF step 1(4-6)] by blast
      show ?thesis
      proof (cases f)
        case True
        with cont u q1 \<open>i < _\<close> show ?thesis by auto
      next
        case False
        with cont have rest: "processCommands E r (Suc i) d' t' u = Some ((failed, j), w')" by simp
        have "r \<in> held u" using u 1(5) by (simp add: frame_held)
        with 1(1) [of q "((f, d', t'), u)" "(f, d', t')" u f "(d', t')" d' t' q1] False step rest
          u q1 1(3-6) True
        have ih: "frame_upto {r} {} u w' \<and>
          (\<exists>q'. requests w' r = Some q' \<and> same_shape q1 q' \<and> commandsCount q' = commandsCount q1) \<and>
          Suc i \<le> j \<and> j \<le> unat (commandsCount q1) \<and> (failed \<longleftrightarrow> j < unat (commandsCount q1))"
          by (auto simp: frame_ok)
        with u frame_trans [of "{r}" "{}" w u "{r}" "{}" w'] q1 show ?thesis
          by (auto dest: same_shape_trans)
      qed
    qed
  qed
  with assms(1) show ?thesis by blast
qed

lemma processRequest_run:
  assumes "processRequest E r w = Some w'" and "heap_ok w" and "r \<in> held w"
    and q: "requests w r = Some q"
  obtains failed j u q' where "completeRequest r failed j u = Some w'" "frame_upto {r} {} w u"
    "requests u r = Some q'" "same_shape q q'" "commandsCount q' = commandsCount q"
    "failed \<Longrightarrow> j < unat (commandsCount q) \<or> j = 0"
proof (cases "hardwareOffline w")
  case True
  with assms that [of True 0 w q] show ?thesis
    by (auto simp: processRequest_def intro: frame_refl same_shape_refl)
next
  case False
  with assms(1) obtain failed j u where run: "processCommands E r 0 kDT_Keyboard False w = Some ((failed, j), u)"
    and "completeRequest r failed j u = Some w'"
    by (auto simp: processRequest_def)
  with processCommands_frame [OF run assms(2-4)] that [of failed j u] show ?thesis by auto
qed

text \<open>An asynchronous request is released; nothing else is.\<close>

lemma processRequest_async:
  assumes "processRequest E r w = Some w'" and ok: "heap_ok w" and r: "r \<in> held w"
    and q: "requests w r = Some q" and async: "completionAction q = None"
  shows "frame_upto {} {r} w w'"
proof -
  obtain failed j u q' where c: "completeRequest r failed j u = Some w'"
    and u: "frame_upto {r} {} w u" and q': "requests u r = Some q'" "same_shape q q'"
    using assms(1-4) by (elim processRequest_run) auto
  from q' async have "completionAction q' = None" by (simp add: same_shape_def)
  with c q' have w': "w' = u\<lparr>requests := (requests u)(r := None)\<rparr>"
    by (auto simp: completeRequest_def freeRequest_def Let_def split: if_splits)
  have "r \<in> held u" using u r by (simp add: frame_held)
  then have "frame_upto {} {r} u w'"
    using frame_ok [OF u] by (auto simp: w' frame_upto_def heap_ok_def held_def)
  then show ?thesis
    using u by (auto simp: frame_upto_def)
qed

text \<open>A request with a completion is handed back, its count telling how far it got.\<close>

lemma processRequest_block:
  assumes "processRequest E r w = Some w'" and ok: "heap_ok w" and r: "r \<in> held w"
    and q: "requests w r = Some q"
    and block: "completionAction q = Some SubmitRequestAndBlockCompletion" "completionTarget q"
  shows "frame_upto {r} {} w w' \<and> (\<exists>q'. requests w' r = Some q' \<and> same_shape q q' \<and>
     (commandsCount q' = commandsCount q \<or> commandsCount q' < commandsCount q))"
proof -
  obtain failed j u q' where c: "completeRequest r failed j u = Some w'"
    and u: "frame_upto {r} {} w u" and q': "requests u r = Some q'" "same_shape q q'"
    and n: "commandsCount q' = commandsCount q" "failed \<Longrightarrow> j < unat (commandsCount q) \<or> j = 0"
    using assms(1-4) by (elim processRequest_run) auto
  let ?q = "if failed then q'\<lparr>commandsCount := of_nat j\<rparr> else q'"
  have "completionAction ?q = Some SubmitRequestAndBlockCompletion" "completionTarget ?q"
    using q'(2) block by (auto simp: same_shape_def)
  with c q'(1) have w': "w' = submitRequestAndBlockCompletion (completionParam ?q)
      (u\<lparr>requests := (requests u)(r \<mapsto> ?q)\<rparr>)"
    by (auto simp: completeRequest_def Let_def split: if_splits)
  have heap: "requests w' = (requests u)(r \<mapsto> ?q)" "requestQueue w' = requestQueue u"
    "nextRequest w' = nextRequest u"
    by (simp_all add: w' submitRequestAndBlockCompletion_def split: option.split)
  have "r \<in> held u" using u r by (simp add: frame_held)
  then have "frame_upto {r} {} u w'"
    using frame_ok [OF u] heap q'(1) by (auto simp: frame_upto_def heap_ok_def held_def)
  with u frame_trans [of "{r}" "{}" w u "{r}" "{}" w'] have "frame_upto {r} {} w w'" by simp
  moreover have "commandsCount ?q = commandsCount q \<or> commandsCount ?q < commandsCount q"
    using n of_nat_below_u8 [of j "commandsCount q"] by auto
  ultimately show ?thesis
    using heap q' by (auto simp: fun_upd_same)
qed

lemma processLocalQueue_frame:
  assumes "processLocalQueue E rs w = Some w'" and "heap_ok w" and "set rs \<subseteq> held w"
    and "distinct rs" and "\<forall>r\<in>set rs. \<exists>q. requests w r = Some q \<and> completionAction q = None"
  shows "frame_upto {} (set rs) w w'"
  using assms
proof (induction rs arbitrary: w)
  case (Cons r rs)
  then obtain u q where u: "processRequest E r w = Some u" "processLocalQueue E rs u = Some w'"
    and "requests w r = Some q" "completionAction q = None"
    by auto
  with Cons.prems have f: "frame_upto {} {r} w u" by (auto intro: processRequest_async)
  have same: "requests u x = requests w x" if "x \<in> set rs" for x
    using that Cons.prems by (intro frame_same [OF f]) auto
  have "set rs \<subseteq> held u" using Cons.prems by (auto simp: frame_held [OF f])
  then have "frame_upto {} (set rs) u w'"
    using Cons.prems same by (intro Cons.IH [OF u(2) frame_ok [OF f]]) auto
  from frame_trans [OF f this] show ?case by simp
qed (auto intro: frame_refl)

lemma processRequestQueue_frame:
  assumes "processRequestQueue E w = Some w'" and ok: "heap_ok w"
  shows "frame w w'"
proof -
  let ?w = "w\<lparr>requestQueue := []\<rparr>"
  have "heap_ok ?w" "set (requestQueue w) \<subseteq> held ?w"
    using ok by (auto simp: heap_ok_def held_def)
  with assms have "frame_upto {} (set (requestQueue w)) ?w w'"
    by (intro processLocalQueue_frame) (auto simp: processRequestQueue_def heap_ok_def)
  moreover have "held ?w - set (requestQueue w) = held w" by (auto simp: held_def)
  ultimately show ?thesis by (auto simp: frame_upto_def)
qed

text \<open>
  A blocking submission ends with the processing of the request, whether the thread holds the
  gate or not; before that, only queued requests are processed and released.
\<close>

lemma submitRequestAndBlock_last:
  assumes sub: "submitRequestAndBlock E r w = Some w'" and ok: "heap_ok w"
    and r: "r \<in> held w" and q: "requests w r = Some q"
  obtains p x v g where "frame_upto {r} {} w x"
    and "requests x r = Some (q\<lparr>completionTarget := True,
      completionAction := Some SubmitRequestAndBlockCompletion, completionParam := p\<rparr>)"
    and "processRequest E r x = Some v" and "w' = v\<lparr>inGate := g\<rparr>"
proof -
  let ?set = "\<lambda>p. q\<lparr>completionTarget := True,
    completionAction := Some SubmitRequestAndBlockCompletion, completionParam := p\<rparr>"
  note found = that
  have ready: thesis
    if run: "processLocalQueue E (requestQueue w @ [r]) u = Some v"
      and u: "requests u = (requests w)(r \<mapsto> ?set p)" "requestQueue u = []"
        "nextRequest u = nextRequest w"
      and v: "w' = v\<lparr>inGate := g\<rparr>" for u v p g
  proof -
    obtain x where x: "processLocalQueue E (requestQueue w) u = Some x" "processRequest E r x = Some v"
      using run by (auto simp: processLocalQueue_append)
    have nq: "r \<notin> set (requestQueue w)" using r by (simp add: held_def)
    have "heap_ok u" using ok r nq u by (auto simp: heap_ok_def held_def)
    moreover have hu: "held u = held w \<union> set (requestQueue w)"
      using ok q by (auto simp: held_def u heap_ok_def)
    ultimately have f: "frame_upto {} (set (requestQueue w)) u x"
      using ok nq by (intro processLocalQueue_frame [OF x(1)]) (auto simp: heap_ok_def u)
    have "requests x r = Some (?set p)"
      using r nq hu frame_same [OF f] by (auto simp: frame_held [OF f] u)
    moreover have "frame_upto {r} {} w x"
      using f nq r hu by (auto simp: frame_upto_def u held_def)
    ultimately show thesis using x(2) v by (intro found)
  qed
  show thesis
  proof (cases "inGate w")
    case True
    with sub q obtain u where
      "processRequestQueue E (w\<lparr>requests := (requests w)(r \<mapsto> ?set None)\<rparr>) = Some u"
      "processRequest E r u = Some w'"
      by (auto simp: submitRequestAndBlock_def set_completion_def)
    then have "processLocalQueue E (requestQueue w @ [r])
        (w\<lparr>requests := (requests w)(r \<mapsto> ?set None), requestQueue := []\<rparr>) = Some w'"
      by (simp add: processLocalQueue_append processRequestQueue_def)
    then show thesis by (rule ready [where p = None and g = "inGate w'"]) simp_all
  next
    case False
    let ?n = "length (syncers w)"
    let ?w = "w\<lparr>syncers := syncers w @ [False], requests := (requests w)(r \<mapsto> ?set (Some ?n)),
      requestQueue := requestQueue w @ [r]\<rparr>"
    from False sub q obtain v where
      v: "processRequestQueue E ((emit (SignalSource InterruptSourceQueue) ?w)\<lparr>inGate := True\<rparr>) = Some v"
      and w': "w' = v\<lparr>inGate := False\<rparr>"
      by (auto simp: submitRequestAndBlock_def set_completion_def submitRequest_def Let_def
          split: if_splits)
    from v have "processLocalQueue E (requestQueue w @ [r])
        ((emit (SignalSource InterruptSourceQueue) ?w)\<lparr>inGate := True, requestQueue := []\<rparr>) = Some v"
      by (simp add: processRequestQueue_def emit_def)
    then show thesis
      by (rule ready [where p = "Some ?n" and g = False]) (simp_all add: emit_def w')
  qed
qed

text \<open>
  The contract of a blocking submission: the request comes back held, its commands of the
  same kinds, its count the original one or the index of the command that failed; nothing else
  that is held has changed.
\<close>

lemma submitRequestAndBlock_contract:
  assumes sub: "submitRequestAndBlock E r w = Some w'" and ok: "heap_ok w"
    and r: "r \<in> held w" and q: "requests w r = Some q"
  shows "frame_upto {r} {} w w' \<and> (\<exists>q'. requests w' r = Some q' \<and>
     map command (commands q') = map command (commands q) \<and>
     (\<forall>k < length (commands q). command (commands q ! k) \<noteq> kPS2C_ReadDataPort \<longrightarrow>
        commands q' ! k = commands q ! k) \<and>
     (commandsCount q' = commandsCount q \<or> commandsCount q' < commandsCount q))"
proof -
  obtain p x v g where f: "frame_upto {r} {} w x"
    and x: "requests x r = Some (q\<lparr>completionTarget := True,
      completionAction := Some SubmitRequestAndBlockCompletion, completionParam := p\<rparr>)"
    and run: "processRequest E r x = Some v" and w': "w' = v\<lparr>inGate := g\<rparr>"
    by (rule submitRequestAndBlock_last [OF assms])
  have "r \<in> held x" using f r by (simp add: frame_held)
  from processRequest_block [OF run frame_ok [OF f] this x] obtain q' where
    g: "frame_upto {r} {} x v" and q': "requests v r = Some q'"
    "length (commands q') = length (commands q)"
    "\<forall>k < length (commands q). command (commands q' ! k) = command (commands q ! k) \<and>
      (command (commands q ! k) \<noteq> kPS2C_ReadDataPort \<longrightarrow> commands q' ! k = commands q ! k)"
    "commandsCount q' = commandsCount q \<or> commandsCount q' < commandsCount q"
    by (auto simp: same_shape_def)
  have "frame_upto {r} {} w w'"
    using frame_trans [OF f g] by (subst frame_fields(3) [of _ v]) (simp_all add: w')
  moreover have "map command (commands q') = map command (commands q)"
    using q'(2,3) by (auto intro: nth_equalityI)
  ultimately show ?thesis using q' by (auto simp: w')
qed

text \<open>
  A request that comes back with its count unchanged was processed to the end, and nothing
  happened after its last command but the completion.
\<close>

lemma submitRequestAndBlock_complete:
  assumes sub: "submitRequestAndBlock E r w = Some w'" and ok: "heap_ok w"
    and r: "r \<in> held w" and q: "requests w r = Some q" and count: "commandsCount q \<noteq> 0"
    and q': "requests w' r = Some q'" "commandsCount q' = commandsCount q"
  obtains p x u where "heap_ok x" "r \<in> held x"
    and "requests x r = Some (q\<lparr>completionTarget := True,
      completionAction := Some SubmitRequestAndBlockCompletion, completionParam := p\<rparr>)"
    and "processCommands E r 0 kDT_Keyboard False x = Some ((False, unat (commandsCount q)), u)"
    and "w' = u\<lparr>syncers := syncers w', inGate := inGate w'\<rparr>"
proof -
  obtain p x v g where f: "frame_upto {r} {} w x"
    and x: "requests x r = Some (q\<lparr>completionTarget := True,
      completionAction := Some SubmitRequestAndBlockCompletion, completionParam := p\<rparr>)"
    and run: "processRequest E r x = Some v" and w': "w' = v\<lparr>inGate := g\<rparr>"
    by (rule submitRequestAndBlock_last [OF sub ok r q])
  have rx: "heap_ok x" "r \<in> held x" using f r by (simp_all add: frame_held frame_ok)
  have v: "requests v r = Some q'" using q'(1) by (simp add: w')
  have finish: "completeRequest r failed j u = Some v \<Longrightarrow> requests u r = Some qu \<Longrightarrow> completionTarget qu \<Longrightarrow>
      completionAction qu = Some SubmitRequestAndBlockCompletion \<Longrightarrow>
      v = submitRequestAndBlockCompletion (completionParam qu) (u\<lparr>requests := (requests u)
        (r \<mapsto> if failed then qu\<lparr>commandsCount := of_nat j\<rparr> else qu)\<rparr>)" for failed j u qu
    by (auto simp: completeRequest_def Let_def split: if_splits)
  have stored: "requests (submitRequestAndBlockCompletion y z) = requests z" for y and z :: "('h, 'z) ctl_scheme"
    by (simp add: submitRequestAndBlockCompletion_def split: option.split)
  have on: "\<not> hardwareOffline x"
  proof
    assume "hardwareOffline x"
    with run have "completeRequest r True 0 x = Some v" by (simp add: processRequest_def)
    from finish [OF this x] v have "commandsCount q' = 0" by (auto simp: stored)
    with q'(2) count show False by simp
  qed
  with run obtain failed j u where c: "processCommands E r 0 kDT_Keyboard False x = Some ((failed, j), u)"
    and comp: "completeRequest r failed j u = Some v"
    by (auto simp: processRequest_def)
  from processCommands_frame [OF c rx x] obtain qu where qu: "requests u r = Some qu"
    "completionTarget qu" "completionAction qu = Some SubmitRequestAndBlockCompletion"
    "commandsCount qu = commandsCount q" and j: "j \<le> unat (commandsCount q)"
    "failed \<longleftrightarrow> j < unat (commandsCount q)"
    by (auto simp: same_shape_def)
  note v' = finish [OF comp qu(1-3)]
  have "\<not> failed"
  proof
    assume failed
    with v v' have "commandsCount q' = of_nat j" by (auto simp: stored)
    moreover have "unat (of_nat j :: u8) < unat (commandsCount q)"
      using j(2) \<open>failed\<close> unat_u8_less [of "commandsCount q"] by (simp add: unat_of_nat)
    ultimately show False using q'(2) by simp
  qed
  with v' qu(1) have "\<exists>ss. v = u\<lparr>syncers := ss\<rparr>"
    by (cases u) (auto simp: submitRequestAndBlockCompletion_def fun_upd_idem split: option.split)
  then have "w' = u\<lparr>syncers := syncers w', inGate := inGate w'\<rparr>" by (auto simp: w')
  moreover from \<open>\<not> failed\<close> j have "j = unat (commandsCount q)" by simp
  ultimately show thesis using that rx x c \<open>\<not> failed\<close> by auto
qed

end

section \<open>The contract of a nub\<close>

text \<open>The two requests of a round of the test-and-set loop on the command byte.\<close>

abbreviation getByte :: "PS2Command list" where
  "getByte \<equiv> [\<lparr>command = kPS2C_WriteCommandPort, inOrOut = kCP_GetCommandByte\<rparr>,
    \<lparr>command = kPS2C_ReadDataPort, inOrOut = 0\<rparr>]"

abbreviation setByte :: "u8 \<Rightarrow> u8 \<Rightarrow> PS2Command list" where
  "setByte b new \<equiv> [\<lparr>command = kPS2C_WriteCommandPort, inOrOut = kCP_GetCommandByte\<rparr>,
    \<lparr>command = kPS2C_ReadDataPortAndCompare, inOrOut = b\<rparr>,
    \<lparr>command = kPS2C_WriteCommandPort, inOrOut = kCP_SetCommandByte\<rparr>,
    \<lparr>command = kPS2C_WriteDataPort, inOrOut = new\<rparr>]"

text \<open>
  What \<^verbatim>\<open>ApplePS2Device.h\<close> promises to the drivers: a fresh zeroed request, release of a held
  one, a queue that takes ownership, and a blocking submission that gives the request back
  and leaves every other one alone.
\<close>

locale nub_service =
  fixes D :: "('h, 'z) ctl_scheme nub"
  assumes allocate_law: "nubAllocateRequest D w =
      (nextRequest w, w\<lparr>requests := (requests w)(nextRequest w \<mapsto> zero_request),
         nextRequest := Suc (nextRequest w)\<rparr>)"
    and free_law: "nubFreeRequest D r w =
      (if requests w r = None then None else Some (w\<lparr>requests := (requests w)(r := None)\<rparr>))"
    and submit_law: "nubSubmitRequest D r w =
      emit (SignalSource InterruptSourceQueue) (w\<lparr>requestQueue := requestQueue w @ [r]\<rparr>)"
    and block_law: "nubSubmitRequestAndBlock D r w = Some w' \<Longrightarrow> heap_ok w \<Longrightarrow> r \<in> held w
      \<Longrightarrow> requests w r = Some q
      \<Longrightarrow> frame_upto {r} {} w w' \<and> (\<exists>q'. requests w' r = Some q' \<and>
            map command (commands q') = map command (commands q) \<and>
            (\<forall>k < length (commands q). command (commands q ! k) \<noteq> kPS2C_ReadDataPort \<longrightarrow>
               commands q' ! k = commands q ! k) \<and>
            (commandsCount q' = commandsCount q \<or> commandsCount q' < commandsCount q))"
    and install_law: "heap_ok w \<Longrightarrow> frame w (nubInstallInterruptAction D t a w)"
      "heap_ok w \<Longrightarrow> frame w (nubInstallPowerControlAction D t a w)"
    and uninstall_law: "nubUninstallInterruptAction D w = Some w' \<Longrightarrow> heap_ok w \<Longrightarrow> frame w w'"
      "nubUninstallPowerControlAction D w = Some w' \<Longrightarrow> heap_ok w \<Longrightarrow> frame w w'"
begin

lemma allocate_frame:
  assumes "heap_ok w"
  defines "u \<equiv> snd (nubAllocateRequest D w)" and "r \<equiv> fst (nubAllocateRequest D w)"
  shows "heap_ok u" and "held u = insert r (held w)" and "r \<notin> held w"
    and "requests u r = Some zero_request" and "\<And>x. x \<noteq> r \<Longrightarrow> requests u x = requests w x"
    and "nextRequest u = Suc (nextRequest w)"
proof -
  have "nextRequest w \<notin> dom (requests w)" using assms(1) by (auto simp: heap_ok_def)
  then have fresh: "requests w (nextRequest w) = None" "nextRequest w \<notin> set (requestQueue w)"
    using assms(1) by (auto simp: heap_ok_def)
  with assms(1) show "heap_ok u" and "held u = insert r (held w)" and "r \<notin> held w"
    and "requests u r = Some zero_request" and "\<And>x. x \<noteq> r \<Longrightarrow> requests u x = requests w x"
    and "nextRequest u = Suc (nextRequest w)"
    by (auto simp: u_def r_def allocate_law heap_ok_def held_def less_Suc_eq)
qed

text \<open>A request that is allocated, used and given up within a routine leaves no trace.\<close>

lemma scoped_frame:
  assumes "heap_ok w" and a: "nubAllocateRequest D w = (r, u)"
    and "frame_upto {r} {} u v" and "frame_upto {} {r} v w'"
  shows "frame w w'"
proof -
  note al = allocate_frame [OF assms(1), unfolded a fst_conv snd_conv]
  have "nextRequest w \<le> nextRequest w'" using assms(3,4) al(6) by (simp add: frame_upto_def)
  moreover have "held w' = held w" using assms(3,4) al(2,3) by (auto simp: frame_upto_def)
  moreover have "requests w' x = requests w x" if "x \<in> held w" for x
  proof -
    from that al(3) have "requests u x = requests w x" by (intro al(5)) auto
    then show ?thesis using that assms(3,4) al(2,3) by (auto simp: frame_upto_def)
  qed
  ultimately show ?thesis using frame_ok [OF assms(4)] by (simp add: frame_upto_def)
qed

lemma fill_request_frame:
  assumes "fill_request r cs w = Some w'" and "heap_ok w" and "r \<in> held w"
    and "requests w r = Some q"
  shows "frame_upto {r} {} w w'" and "requests w' r =
    Some (q\<lparr>commands := cs @ drop (length cs) (commands q), commandsCount := of_nat (length cs)\<rparr>)"
  using assms by (auto simp: fill_request_def frame_upto_def heap_ok_def held_def split: if_splits)

lemma free_frame:
  "nubFreeRequest D r w = Some w' \<Longrightarrow> heap_ok w \<Longrightarrow> r \<in> held w \<Longrightarrow> frame_upto {} {r} w w'"
  by (auto simp: free_law frame_upto_def heap_ok_def held_def split: if_splits)

text \<open>The blocking pattern, with work between the answer and the release.\<close>

lemma scoped_use_frame:
  assumes a: "nubAllocateRequest D w = (r, u)" and f: "fill_request r cs u = Some x"
    and b: "nubSubmitRequestAndBlock D r x = Some y" and w': "nubFreeRequest D r z = Some w'"
    and ok: "heap_ok w" and work: "heap_ok y \<Longrightarrow> frame y z"
  shows "frame w w'"
proof -
  note al = allocate_frame [OF ok, unfolded a fst_conv snd_conv]
  have r: "r \<in> held u" using al(2) by simp
  note fx = fill_request_frame [OF f al(1) r al(4)]
  have rx: "r \<in> held x" using fx(1) r by (simp add: frame_held)
  have fy: "frame_upto {r} {} x y"
    using block_law [OF b frame_ok [OF fx(1)] rx fx(2)] by blast
  have uz: "frame_upto {r} {} u z"
    using frame_trans [OF frame_trans [OF fx(1) fy] work [OF frame_ok [OF fy]]] by simp
  have "frame_upto {} {r} z w'"
    using w' uz r by (auto intro!: free_frame simp: frame_ok frame_held)
  with ok a uz show ?thesis by (rule scoped_frame)
qed

lemma submit_frame:
  "heap_ok w \<Longrightarrow> r \<in> held w \<Longrightarrow> requests w r = Some q \<Longrightarrow> completionAction q = None
     \<Longrightarrow> frame_upto {} {r} w (nubSubmitRequest D r w)"
  by (auto simp: submit_law emit_def frame_upto_def heap_ok_def held_def)

lemma send_async_frame:
  assumes "send_async D cs w = Some w'" and ok: "heap_ok w"
  shows "frame w w'"
proof -
  obtain r u v where a: "nubAllocateRequest D w = (r, u)" and f: "fill_request r cs u = Some v"
    and w': "w' = nubSubmitRequest D r v"
    using assms(1) by (auto simp: send_async_def split: prod.splits)
  note al = allocate_frame [OF ok, unfolded a fst_conv snd_conv]
  have r: "r \<in> held u" using al(2) by simp
  note fr = fill_request_frame [OF f al(1) r al(4)]
  have "frame_upto {} {r} v w'" unfolding w'
    using fr r by (intro submit_frame) (auto simp: frame_ok frame_held zero_request_def)
  with ok a fr(1) show ?thesis by (rule scoped_frame)
qed

lemma send_blocking_frame:
  assumes "send_blocking D cs w = Some (q, w')" and ok: "heap_ok w"
  shows "frame w w'"
    and "length (commands q) = kMaxCommands" and "length cs \<le> kMaxCommands"
    and "take (length cs) (map command (commands q)) = map command cs"
    and "\<And>k. k < length cs \<Longrightarrow> command (cs ! k) \<noteq> kPS2C_ReadDataPort \<Longrightarrow> commands q ! k = cs ! k"
    and "commandsCount q = of_nat (length cs) \<or> commandsCount q < of_nat (length cs)"
proof -
  obtain r u v x where a: "nubAllocateRequest D w = (r, u)" and f: "fill_request r cs u = Some v"
    and b: "nubSubmitRequestAndBlock D r v = Some x" and q: "requests x r = Some q"
    and w': "nubFreeRequest D r x = Some w'"
    using assms(1) by (auto simp: send_blocking_def split: prod.splits)
  note al = allocate_frame [OF ok, unfolded a fst_conv snd_conv]
  have r: "r \<in> held u" using al(2) by simp
  note fr = fill_request_frame [OF f al(1) r al(4)]
  have rv: "r \<in> held v" using fr(1) r by (simp add: frame_held)
  note bl = block_law [OF b frame_ok [OF fr(1)] rv fr(2)]
  then have vx: "frame_upto {r} {} v x" by blast
  have "frame_upto {} {r} x w'"
    using w' vx rv by (auto intro!: free_frame simp: frame_ok frame_held)
  moreover have "frame_upto {r} {} u x"
    using frame_trans [OF fr(1) vx] by simp
  ultimately show "frame w w'" using ok a by (blast intro: scoped_frame)
  show len: "length cs \<le> kMaxCommands"
    using f al(4) by (auto simp: fill_request_def zero_request_def split: if_splits)
  let ?cs = "cs @ drop (length cs) (commands zero_request)"
  have m: "map command (commands q) = map command ?cs"
    and k: "\<forall>k < length ?cs. command (?cs ! k) \<noteq> kPS2C_ReadDataPort \<longrightarrow> commands q ! k = ?cs ! k"
    and n: "commandsCount q = of_nat (length cs) \<or> commandsCount q < of_nat (length cs)"
    using bl q by auto
  have "length (map command (commands q)) = kMaxCommands"
    unfolding m using len by (simp add: zero_request_def)
  then show "length (commands q) = kMaxCommands" by simp
  show "take (length cs) (map command (commands q)) = map command cs" unfolding m by simp
  show "commands q ! k = cs ! k" if "k < length cs" "command (cs ! k) \<noteq> kPS2C_ReadDataPort" for k
    using k that by (auto simp: nth_append)
  show "commandsCount q = of_nat (length cs) \<or> commandsCount q < of_nat (length cs)" by (rule n)
qed

text \<open>
  The test-and-set loop: it frames the heap, and it ends with a blocking submission of the
  request that compares and writes, which comes back complete.
\<close>

lemma commandByte_loop_frame:
  assumes "commandByte_loop D r s c w = Some w'" and "heap_ok w" and "r \<in> held w"
    and "requests w r = Some q" and "length (commands q) = kMaxCommands"
  shows "frame_upto {r} {} w w' \<and> (\<exists>b v q q'. heap_ok v \<and> r \<in> held v \<and> requests v r = Some q \<and>
    commandsCount q = 4 \<and> (\<exists>cs. commands q = setByte b ((b OR s) AND NOT c) @ cs) \<and>
    nubSubmitRequestAndBlock D r v = Some w' \<and> requests w' r = Some q' \<and> commandsCount q' = 4)"
proof -
  let ?Q = "\<lambda>r s c w'. \<exists>b v q q'. heap_ok v \<and> r \<in> held v \<and> requests v r = Some q \<and>
    commandsCount q = 4 \<and> (\<exists>cs. commands q = setByte b ((b OR s) AND NOT c) @ cs) \<and>
    nubSubmitRequestAndBlock D r v = Some w' \<and> requests w' r = Some q' \<and> commandsCount q' = 4"
  let ?P = "\<lambda>D' r s c w w'. D' = D \<longrightarrow> (\<forall>q. heap_ok w \<longrightarrow> r \<in> held w \<longrightarrow> requests w r = Some q \<longrightarrow>
    length (commands q) = kMaxCommands \<longrightarrow> frame_upto {r} {} w w' \<and> ?Q r s c w')"
  have "?P D r s c w w'"
  proof (rule commandByte_loop.raw_induct [where P = ?P, OF _ assms(1)], intro impI allI, goal_cases)
    case (1 f D' r s c v v' q)
    note D' = 1(3) and v = 1(4-7)
    note IH = 1(1) [rule_format, OF _ refl]
    let ?set = "\<lambda>b. setByte b ((b OR s) AND NOT c)"
    from 1(2) D' obtain v1 v2 b v3 v4 q4 where
      f1: "fill_request r getByte v = Some v1" and b1: "nubSubmitRequestAndBlock D r v1 = Some v2"
      and f2: "fill_request r (?set b) v2 = Some v3" and b2: "nubSubmitRequestAndBlock D r v3 = Some v4"
      and q4: "requests v4 r = Some q4"
      and last: "(if commandsCount q4 \<noteq> 4 then f D r s c v4 else Some v4) = Some v'"
      by (auto simp: Let_def)
    note fr1 = fill_request_frame [OF f1 v(1-3)]
    have r1: "r \<in> held v1" "heap_ok v1" using fr1(1) v(2) by (simp_all add: frame_held frame_ok)
    from block_law [OF b1 r1(2,1) fr1(2)] obtain q2 where g2: "frame_upto {r} {} v1 v2"
      and q2: "requests v2 r = Some q2" and m2: "map command (commands q2) =
        map command (getByte @ drop (length getByte) (commands q))" by auto
    have r2: "r \<in> held v2" "heap_ok v2" using g2 r1 by (simp_all add: frame_held frame_ok)
    have l2: "length (commands q2) = kMaxCommands"
      using arg_cong [OF m2, of length] v(4) by (simp add: kMaxCommands_def)
    note fr3 = fill_request_frame [OF f2 r2(2,1) q2]
    have r3: "r \<in> held v3" "heap_ok v3" using fr3(1) r2 by (simp_all add: frame_held frame_ok)
    from block_law [OF b2 r3(2,1) fr3(2)] obtain g4: "frame_upto {r} {} v3 v4"
      and m4: "map command (commands q4) = map command (?set b @ drop (length (?set b)) (commands q2))"
      using q4 by auto
    have r4: "r \<in> held v4" "heap_ok v4" using g4 r3 by (simp_all add: frame_held frame_ok)
    have l4: "length (commands q4) = kMaxCommands"
      using arg_cong [OF m4, of length] l2 by (simp add: kMaxCommands_def)
    have upto: "frame_upto {r} {} v v4"
      using frame_trans [OF frame_trans [OF frame_trans [OF fr1(1) g2] fr3(1)] g4] by simp
    show ?case
    proof (cases "commandsCount q4 = 4")
      case True
      with last have v': "v' = v4" by simp
      have "?Q r s c v4" using r3 fr3(2) b2 q4 True by (intro exI [of _ b] exI [of _ v3]) auto
      with upto show ?thesis unfolding v' by blast
    next
      case False
      with last have "f D r s c v4 = Some v'" by simp
      from IH [OF this] r4 q4 l4 upto frame_trans [OF upto, of "{r}" "{}" v'] show ?thesis by auto
    qed
  qed
  with assms(2-) show ?thesis by blast
qed

lemma readModifyWrite_frame:
  assumes "readModifyWriteCommandByte D s c w = Some w'" and ok: "heap_ok w"
  shows "frame w w'"
proof -
  obtain r u v where a: "nubAllocateRequest D w = (r, u)" and l: "commandByte_loop D r s c u = Some v"
    and w': "nubFreeRequest D r v = Some w'"
    using assms(1) by (auto simp: readModifyWriteCommandByte_def split: prod.splits)
  note al = allocate_frame [OF ok, unfolded a fst_conv snd_conv]
  have r: "r \<in> held u" using al(2) by simp
  have fr: "frame_upto {r} {} u v"
    using commandByte_loop_frame [OF l al(1) r al(4)] by (simp add: zero_request_def)
  have "frame_upto {} {r} v w'"
    using w' fr r by (auto intro!: free_frame simp: frame_ok frame_held)
  with ok a fr show ?thesis by (rule scoped_frame)
qed

end

section \<open>The controller's nubs keep the contract\<close>

lemma install_heap:
  "requests (installInterruptAction d t a w) = requests w"
  "requestQueue (installInterruptAction d t a w) = requestQueue w"
  "nextRequest (installInterruptAction d t a w) = nextRequest w"
  "requests (installPowerControlAction d t a w) = requests w"
  "requestQueue (installPowerControlAction d t a w) = requestQueue w"
  "nextRequest (installPowerControlAction d t a w) = nextRequest w"
  by (simp_all add: installInterruptAction_def installPowerControlAction_def emit_def Let_def)

lemma uninstall_heap:
  "uninstallInterruptAction d w = Some w' \<Longrightarrow>
     requests w' = requests w \<and> requestQueue w' = requestQueue w \<and> nextRequest w' = nextRequest w"
  "uninstallPowerControlAction d w = Some w' \<Longrightarrow>
     requests w' = requests w \<and> requestQueue w' = requestQueue w \<and> nextRequest w' = nextRequest w"
  by (auto simp: uninstallInterruptAction_def uninstallPowerControlAction_def emit_def Let_def
      split: if_splits)

context heap_handlers
begin

lemma nub_contract:
  assumes "is_nub E D"
  shows "nub_service D"
proof
  fix w w' :: "('h, 'z) ctl_scheme" and r q t a
  note simps = is_nub_simps [OF assms]
  show "nubAllocateRequest D w = (nextRequest w, w\<lparr>requests := (requests w)(nextRequest w \<mapsto> zero_request),
      nextRequest := Suc (nextRequest w)\<rparr>)"
    by (simp add: simps allocateRequest_def)
  show "nubFreeRequest D r w =
      (if requests w r = None then None else Some (w\<lparr>requests := (requests w)(r := None)\<rparr>))"
    by (simp add: simps freeRequest_def split: option.split)
  show "nubSubmitRequest D r w =
      emit (SignalSource InterruptSourceQueue) (w\<lparr>requestQueue := requestQueue w @ [r]\<rparr>)"
    by (simp add: simps submitRequest_def)
  show "nubSubmitRequestAndBlock D r w = Some w' \<Longrightarrow> heap_ok w \<Longrightarrow> r \<in> held w
      \<Longrightarrow> requests w r = Some q
      \<Longrightarrow> frame_upto {r} {} w w' \<and> (\<exists>q'. requests w' r = Some q' \<and>
            map command (commands q') = map command (commands q) \<and>
            (\<forall>k < length (commands q). command (commands q ! k) \<noteq> kPS2C_ReadDataPort \<longrightarrow>
               commands q' ! k = commands q ! k) \<and>
            (commandsCount q' = commandsCount q \<or> commandsCount q' < commandsCount q))"
    unfolding simps by (rule submitRequestAndBlock_contract)
  from assms show "heap_ok w \<Longrightarrow> frame w (nubInstallInterruptAction D t a w)"
    and "heap_ok w \<Longrightarrow> frame w (nubInstallPowerControlAction D t a w)"
    by (auto simp: is_nub_def install_heap intro!: frame_unchanged)
  from assms show "nubUninstallInterruptAction D w = Some w' \<Longrightarrow> heap_ok w \<Longrightarrow> frame w w'"
    and "nubUninstallPowerControlAction D w = Some w' \<Longrightarrow> heap_ok w \<Longrightarrow> frame w w'"
    by (auto simp: is_nub_def dest!: uninstall_heap intro!: frame_unchanged)
qed

end

sublocale heap_handlers \<subseteq> kbd: nub_service "keyboardNubOf E"
  by (rule nub_contract [OF is_nub_of(1)])

sublocale heap_handlers \<subseteq> mse: nub_service "mouseNubOf E"
  by (rule nub_contract [OF is_nub_of(2)])

end
