(* ===== verification/PS2_Stream.thy ===== *)
theory PS2_Stream
  imports PS2_Handlers
begin

text \<open>
  What the two versions of \<open>readDataPort\<close> do with the interleaved input streams of a
  keyboard controller chip. The chip and the handlers are parameters: \<open>chip_law\<close> is the
  documented behaviour of the chip's status and data ports, and \<open>observes\<close> says that handlers
  return, leave the controller alone, and that what they were given can be seen.
\<close>

section \<open>The chip and the handlers\<close>

text \<open>\<open>pending\<close> gives the bytes that the chip is going to deliver; the flag marks the mouse's.\<close>

definition chip_law :: "('h, 'w) env \<Rightarrow> ('h \<Rightarrow> (bool \<times> u8) list) \<Rightarrow> bool" where
  "chip_law E pending \<longleftrightarrow>
     (\<forall>h s h'. inb E kCommandPort h = (s, h') \<longrightarrow>
        pending h' = pending h \<and> (s AND kOutputReady \<noteq> 0 \<longleftrightarrow> pending h \<noteq> []) \<and>
        (\<forall>m b rest. pending h = (m, b) # rest \<longrightarrow> (s AND kMouseData \<noteq> 0 \<longleftrightarrow> m))) \<and>
     (\<forall>h b h' m b' rest. inb E kDataPort h = (b, h') \<longrightarrow> pending h = (m, b') # rest \<longrightarrow>
        b = b' \<and> pending h' = rest)"

text \<open>\<open>T\<close> is what the handlers have been given so far, with the driver it was given to.\<close>

definition observes ::
  "('h, ('h, 'z) ctl_scheme) env \<Rightarrow> (('h, 'z) ctl_scheme \<Rightarrow> (driver \<times> u8) list) \<Rightarrow> bool" where
  "observes E T \<longleftrightarrow>
     (\<forall>w h n es b. T (touch_ports h n es b w) = T w) \<and>
     (\<forall>w key. T (enqueueKeyboardData key w) = T w) \<and>
     (\<forall>w. T (snd (dequeueKeyboardData w)) = T w) \<and>
     (\<forall>action target datum w. \<exists>w'. callInterruptAction E action target datum w = Some w' \<and>
        T w' = T w @ [(target, datum)] \<and> hw w' = hw w \<and> controllerLocked w' = controllerLocked w \<and>
        keyboardQueue w' = keyboardQueue w \<and>
        interruptInstalledKeyboard w' = interruptInstalledKeyboard w \<and>
        interruptInstalledMouse w' = interruptInstalledMouse w \<and>
        interruptActionKeyboard w' = interruptActionKeyboard w \<and>
        interruptActionMouse w' = interruptActionMouse w \<and>
        interruptTargetKeyboard w' = interruptTargetKeyboard w \<and>
        interruptTargetMouse w' = interruptTargetMouse w)"

text \<open>Both devices have a driver, \<open>tk\<close> and \<open>tm\<close>.\<close>

definition wired :: "(PS2DeviceType \<Rightarrow> driver) \<Rightarrow> ('h, 'z) ctl_scheme \<Rightarrow> bool" where
  "wired t w \<longleftrightarrow>
     interruptInstalledKeyboard w \<and> interruptActionKeyboard w = Some (t kDT_Keyboard) \<and>
     interruptTargetKeyboard w = Some (t kDT_Keyboard) \<and>
     interruptInstalledMouse w \<and> interruptActionMouse w = Some (t kDT_Mouse) \<and>
     interruptTargetMouse w = Some (t kDT_Mouse)"

text \<open>
  The state between two reads: lock free, drivers registered, \<open>bytes\<close> pending, and for the
  keyboard nothing left in the internal queue.
\<close>

definition reading ::
  "('h \<Rightarrow> (bool \<times> u8) list) \<Rightarrow> (PS2DeviceType \<Rightarrow> driver) \<Rightarrow> PS2DeviceType \<Rightarrow> (bool \<times> u8) list
     \<Rightarrow> ('h, 'z) ctl_scheme \<Rightarrow> bool" where
  "reading pending t d bytes w \<longleftrightarrow> \<not> controllerLocked w \<and> wired t w \<and> pending (hw w) = bytes \<and>
     (d = kDT_Keyboard \<longrightarrow> keyboardQueue w = [])"

abbreviation is_mouse :: "PS2DeviceType \<Rightarrow> bool" where
  "is_mouse d \<equiv> d = kDT_Mouse"

lemma is_mouse_other: "is_mouse (other_device d) = (\<not> is_mouse d)"
  by (cases d) (simp_all add: other_device_def)

lemma dispatch_observed:
  assumes "observes E T" and "reading pending t d bytes w"
  obtains w' where "dispatchDriverInterrupt E d' b w = Some w'" and "T w' = T w @ [(t d', b)]"
    and "reading pending t d bytes w'"
proof -
  obtain w' where w': "callInterruptAction E (t d') (t d') b w = Some w'" "T w' = T w @ [(t d', b)]"
    "hw w' = hw w" "controllerLocked w' = controllerLocked w" "keyboardQueue w' = keyboardQueue w"
    "interruptInstalledKeyboard w' = interruptInstalledKeyboard w"
    "interruptInstalledMouse w' = interruptInstalledMouse w"
    "interruptActionKeyboard w' = interruptActionKeyboard w"
    "interruptActionMouse w' = interruptActionMouse w"
    "interruptTargetKeyboard w' = interruptTargetKeyboard w"
    "interruptTargetMouse w' = interruptTargetMouse w"
    using assms(1) [unfolded observes_def, THEN conjunct2, THEN conjunct2, THEN conjunct2,
      THEN spec, THEN spec, THEN spec, THEN spec, of "t d'" "t d'" b w]
    by (elim exE conjE) (rule that)
  with assms(2) show thesis
    by (intro that [of w'])
      (auto simp: dispatchDriverInterrupt_def reading_def wired_def split: PS2DeviceType.split)
qed

lemma dispatch_keeps:
  assumes "observes E T" and "reading pending t d bytes w"
    and "dispatchDriverInterrupt E d' b w = Some w'"
  shows "hw w' = hw w" and "keyboardQueue w' = keyboardQueue w"
proof -
  have "callInterruptAction E (t d') (t d') b w = Some w'"
    using assms(2,3) by (cases d') (auto simp: dispatchDriverInterrupt_def reading_def wired_def)
  with assms(1) [unfolded observes_def, THEN conjunct2, THEN conjunct2, THEN conjunct2,
      THEN spec, THEN spec, THEN spec, THEN spec, of "t d'" "t d'" b w]
  show "hw w' = hw w" and "keyboardQueue w' = keyboardQueue w" by auto
qed

lemma chip_status:
  assumes "chip_law E pending" and "inb E kCommandPort h = (s, h')"
  shows "pending h' = pending h" and "s AND kOutputReady \<noteq> 0 \<longleftrightarrow> pending h \<noteq> []"
    and "pending h = (m, b) # rest \<Longrightarrow> s AND kMouseData \<noteq> 0 \<longleftrightarrow> m"
  using assms(1) [unfolded chip_law_def, THEN conjunct1, rule_format, OF assms(2)] by auto

lemma chip_data:
  assumes "chip_law E pending" and "inb E kDataPort h = (b, h')" and "pending h = (m, b') # rest"
  shows "b = b'" and "pending h' = rest"
  using assms(1) [unfolded chip_law_def, THEN conjunct2, rule_format, OF assms(2,3)] by auto

lemma waitOutputReady_pending:
  assumes "chip_law E pending" and "pending (hw w) = (m, b) # rest"
  obtains s h where "waitOutputReady E (Suc n) w = (s, Suc n, w\<lparr>hw := h\<rparr>)"
    and "s AND kMouseData \<noteq> 0 \<longleftrightarrow> m" and "pending h = (m, b) # rest"
proof -
  obtain s h where sh: "inb E kCommandPort (hw w) = (s, h)" by force
  have "pending h = (m, b) # rest" "s AND kOutputReady \<noteq> 0" "s AND kMouseData \<noteq> 0 \<longleftrightarrow> m"
    using chip_status [OF assms(1) sh] assms(2) by auto
  with sh show thesis by (intro that) (auto simp: port_in_def)
qed

lemma acquireByte_pending:
  assumes chip: "chip_law E pending" and obs: "observes E T"
    and w: "reading pending t d ((m, b) # rest) w"
  obtains w' where "acquireByte E d (Suc n) w = Some (Acquired (m = is_mouse d) b (Suc n), w')"
    and "T w' = T w" and "reading pending t d rest w'"
proof -
  let ?w = "w\<lparr>controllerLocked := True\<rparr>"
  obtain s h where wait: "waitOutputReady E (Suc n) ?w = (s, Suc n, ?w\<lparr>hw := h\<rparr>)"
    and s: "s AND kMouseData \<noteq> 0 \<longleftrightarrow> m" and h: "pending h = (m, b) # rest"
    using waitOutputReady_pending [OF chip, of ?w m b rest n] w by (auto simp: reading_def)
  obtain b' h' where bh: "inb E kDataPort h = (b', h')" by force
  note b = chip_data [OF chip bh h]
  let ?v = "touch_ports h' (delayed w + kDataDelay) (effects w) False w"
  have q: "(if d = kDT_Keyboard then dequeueKeyboardData ?w else (None, ?w)) = (None, ?w)"
    using w by (simp add: reading_def dequeueKeyboardData_def)
  have "acquireByte E d (Suc n) w = Some (Acquired (m = is_mouse d) b (Suc n), ?v)"
    using w wait bh b s q
    by (cases d) (auto simp: acquireByte_def lockController_def reading_def Let_def ioDelay_def
        port_in_def unlockController_def touch_ports_def simp del: waitOutputReady.simps)
  moreover have "T ?v = T w" using obs by (simp add: observes_def)
  moreover have "reading pending t d rest ?v"
    using w b by (auto simp: reading_def wired_def touch_ports_def)
  ultimately show thesis by (rule that)
qed

text \<open>Bytes of the other device, then one of the device that is being read.\<close>

lemma readDataPort_loop_pending:
  assumes chip: "chip_law E pending" and obs: "observes E T"
  shows "reading pending t d (map (Pair (\<not> is_mouse d)) ks @ (is_mouse d, b) # rest) w \<Longrightarrow>
    \<exists>w'. readDataPort_loop E d (Suc n) w = Some (b, w') \<and>
      T w' = T w @ map (Pair (t (other_device d))) ks \<and> reading pending t d rest w'"
proof (induction ks arbitrary: w)
  case Nil
  then obtain w' where "acquireByte E d (Suc n) w = Some (Acquired True b (Suc n), w')"
    and "T w' = T w" "reading pending t d rest w'"
    using acquireByte_pending [OF chip obs, of t d "is_mouse d" b rest w n] by auto
  then show ?case by (subst readDataPort_loop.simps) auto
next
  case (Cons k ks)
  then obtain u where a: "acquireByte E d (Suc n) w = Some (Acquired False k (Suc n), u)"
    and u: "T u = T w" "reading pending t d (map (Pair (\<not> is_mouse d)) ks @ (is_mouse d, b) # rest) u"
    using acquireByte_pending [OF chip obs, of t d "\<not> is_mouse d" k _ w n] by auto
  obtain v where v: "dispatchDriverInterrupt E (other_device d) k u = Some v"
    "T v = T u @ [(t (other_device d), k)]"
    "reading pending t d (map (Pair (\<not> is_mouse d)) ks @ (is_mouse d, b) # rest) v"
    by (rule dispatch_observed [OF obs u(2)])
  from Cons.IH [OF v(3)] a u v(1,2) show ?case
    by (subst readDataPort_loop.simps) auto
qed

section \<open>When nothing arrives\<close>

lemma waitOutputReady_empty:
  assumes "chip_law E pending" and "pending (hw w) = []"
  shows "\<exists>h. pending h = [] \<and>
    waitOutputReady E n w = (0, 0, w\<lparr>hw := h, delayed := delayed w + n * kDataDelay\<rparr>)"
  using assms(2)
proof (induction n arbitrary: w)
  case 0
  then show ?case by (intro exI [of _ "hw w"]) simp
next
  case (Suc n)
  obtain s h where sh: "inb E kCommandPort (hw w) = (s, h)" by force
  have "pending h = []" "s AND kOutputReady = 0"
    using chip_status [OF assms(1) sh] Suc.prems by auto
  with Suc.IH [of "ioDelay kDataDelay (w\<lparr>hw := h\<rparr>)"] sh show ?case
    by (auto simp: port_in_def ioDelay_def add.assoc)
qed

lemma acquireByte_empty:
  assumes chip: "chip_law E pending" and w: "\<not> controllerLocked w" "pending (hw w) = []"
    and q: "d = kDT_Keyboard \<Longrightarrow> keyboardQueue w = []"
  shows "\<exists>h. pending h = [] \<and> acquireByte E d n w =
    Some (TimedOut, touch_ports h (delayed w + n * kDataDelay) (effects w) False w)"
proof -
  let ?w = "w\<lparr>controllerLocked := True\<rparr>"
  obtain h where h: "pending h = []"
    "waitOutputReady E n ?w = (0, 0, ?w\<lparr>hw := h, delayed := delayed w + n * kDataDelay\<rparr>)"
    using waitOutputReady_empty [OF chip, of ?w n] w(2) by auto
  have "(if d = kDT_Keyboard then dequeueKeyboardData ?w else (None, ?w)) = (None, ?w)"
    using q by (simp add: dequeueKeyboardData_def)
  with h w(1) show ?thesis
    by (intro exI [of _ h])
      (simp add: acquireByte_def lockController_def unlockController_def touch_ports_def)
qed

section \<open>Out-of-order correction\<close>

lemma expecting_skip:
  assumes chip: "chip_law E pending" and obs: "observes E T"
  shows "reading pending t d (map (Pair (\<not> is_mouse d)) ks @ bytes) w \<Longrightarrow>
    \<exists>w'. readDataPortExpecting_loop E d x held (Suc n) w =
        readDataPortExpecting_loop E d x held (Suc n) w' \<and>
      T w' = T w @ map (Pair (t (other_device d))) ks \<and> reading pending t d bytes w'"
proof (induction ks arbitrary: w)
  case Nil
  then show ?case by auto
next
  case (Cons k ks)
  then obtain u where a: "acquireByte E d (Suc n) w = Some (Acquired False k (Suc n), u)"
    and u: "T u = T w" "reading pending t d (map (Pair (\<not> is_mouse d)) ks @ bytes) u"
    using acquireByte_pending [OF chip obs, of t d "\<not> is_mouse d" k _ w n] by auto
  obtain v where v: "dispatchDriverInterrupt E (other_device d) k u = Some v"
    "T v = T u @ [(t (other_device d), k)]"
    "reading pending t d (map (Pair (\<not> is_mouse d)) ks @ bytes) v"
    by (rule dispatch_observed [OF obs u(2)])
  have "readDataPortExpecting_loop E d x held (Suc n) w =
      readDataPortExpecting_loop E d x held (Suc n) v"
    using a v(1) by (subst readDataPortExpecting_loop.simps) (simp add: decideByte_def)
  with Cons.IH [OF v(3)] u v(2) show ?case by auto
qed

lemma expecting_first:
  assumes chip: "chip_law E pending" and obs: "observes E T"
    and w: "reading pending t d (map (Pair (\<not> is_mouse d)) ks @ (is_mouse d, a) # bytes) w"
  obtains (expected) w' where "a = x" "readDataPortExpecting_loop E d x None (Suc n) w = Some (a, w')"
      "T w' = T w @ map (Pair (t (other_device d))) ks" "reading pending t d bytes w'"
  | (held) w' where "a \<noteq> x" "readDataPortExpecting_loop E d x None (Suc n) w =
        readDataPortExpecting_loop E d x (Some a) (Suc n) w'"
      "T w' = T w @ map (Pair (t (other_device d))) ks" "reading pending t d bytes w'"
proof -
  obtain u where u: "readDataPortExpecting_loop E d x None (Suc n) w =
      readDataPortExpecting_loop E d x None (Suc n) u"
    "T u = T w @ map (Pair (t (other_device d))) ks" "reading pending t d ((is_mouse d, a) # bytes) u"
    using expecting_skip [OF chip obs w, of x None n] by blast
  obtain v where v: "acquireByte E d (Suc n) u = Some (Acquired True a (Suc n), v)"
    "T v = T u" "reading pending t d bytes v"
    using acquireByte_pending [OF chip obs u(3), of n] by auto
  show thesis
  proof (cases "a = x")
    case True
    with u v show thesis
      by (intro expected [of v]) (auto simp: readDataPortExpecting_loop.simps [of E d x None _ u] decideByte_def)
  next
    case False
    with u v show thesis
      by (intro held [of v]) (auto simp: readDataPortExpecting_loop.simps [of E d x None _ u] decideByte_def)
  qed
qed

lemma expecting_second:
  assumes chip: "chip_law E pending" and obs: "observes E T"
    and w: "reading pending t d (map (Pair (\<not> is_mouse d)) ks @ (is_mouse d, c) # bytes) w"
  shows "\<exists>w'. readDataPortExpecting_loop E d x (Some a) (Suc n) w =
      Some (if c = x then c else a, w') \<and>
    T w' = T w @ map (Pair (t (other_device d))) ks @ [(t d, if c = x then a else c)] \<and>
    reading pending t d bytes w'"
proof -
  obtain u where u: "readDataPortExpecting_loop E d x (Some a) (Suc n) w =
      readDataPortExpecting_loop E d x (Some a) (Suc n) u"
    "T u = T w @ map (Pair (t (other_device d))) ks" "reading pending t d ((is_mouse d, c) # bytes) u"
    using expecting_skip [OF chip obs w, of x "Some a" n] by blast
  obtain v where v: "acquireByte E d (Suc n) u = Some (Acquired True c (Suc n), v)"
    "T v = T u" "reading pending t d bytes v"
    using acquireByte_pending [OF chip obs u(3), of n] by auto
  obtain z where z: "dispatchDriverInterrupt E d (if c = x then a else c) v = Some z"
    "T z = T v @ [(t d, if c = x then a else c)]" "reading pending t d bytes z"
    by (rule dispatch_observed [OF obs v(3)])
  show ?thesis
    using u v z by (intro exI [of _ z])
      (auto simp: readDataPortExpecting_loop.simps [of E d x "Some a" _ u] decideByte_def split: if_splits)
qed

section \<open>Delivery by the work loop\<close>

lemma observes_update:
  assumes "observes E T"
  shows "T (unlockController w) = T w" "T (w\<lparr>controllerLocked := b\<rparr>) = T w" "T (w\<lparr>hw := h\<rparr>) = T w"
    "T (emit e w) = T w" "dequeueKeyboardData w = (k, w') \<Longrightarrow> T w' = T w"
proof -
  note touch = assms [unfolded observes_def, THEN conjunct1, rule_format]
  show "T (unlockController w) = T w" "T (w\<lparr>controllerLocked := b\<rparr>) = T w" "T (w\<lparr>hw := h\<rparr>) = T w"
    "T (emit e w) = T w"
    by (simp_all add: touch_ports_intros unlockController_def emit_def touch)
  show "T w' = T w" if "dequeueKeyboardData w = (k, w')"
    using assms [unfolded observes_def, THEN conjunct2, THEN conjunct2, THEN conjunct1, rule_format, of w]
      that by simp
qed

text \<open>One turn of the loop hands over one byte.\<close>

lemma interruptOccurred_turn_key:
  assumes obs: "observes E T" and lock: "controllerLocked w" and w: "wired t w"
    and q: "keyboardQueue w = k # ks"
  shows "\<exists>v. interruptOccurred_loop E w = interruptOccurred_loop E v \<and>
    T v = T w @ [(t kDT_Keyboard, k)] \<and> controllerLocked v \<and> wired t v \<and> hw v = hw w \<and>
    keyboardQueue v = ks"
proof -
  obtain u where u: "dequeueKeyboardData w = (Some k, u)" "keyboardQueue u = ks" "hw u = hw w"
    "wired t u"
    using q w by (auto simp: dequeueKeyboardData_def wired_def)
  have r: "reading (\<lambda>h. if h = hw w then [] else [(True, 0)]) t kDT_Mouse [] (unlockController u)"
    using u by (simp add: reading_def unlockController_def wired_def)
  obtain x where x: "dispatchDriverInterrupt E kDT_Keyboard k (unlockController u) = Some x"
    "T x = T (unlockController u) @ [(t kDT_Keyboard, k)]" "hw x = hw w" "keyboardQueue x = ks"
    "\<not> controllerLocked x" "wired t x"
  proof -
    obtain x where *: "dispatchDriverInterrupt E kDT_Keyboard k (unlockController u) = Some x"
      "T x = T (unlockController u) @ [(t kDT_Keyboard, k)]"
      "reading (\<lambda>h. if h = hw w then [] else [(True, 0)]) t kDT_Mouse [] x"
      by (rule dispatch_observed [OF obs r])
    with dispatch_keeps [OF obs r *(1)] u show thesis
      by (intro that [of x]) (auto simp: reading_def unlockController_def)
  qed
  let ?v = "x\<lparr>controllerLocked := True\<rparr>"
  have "interruptOccurred_loop E w = interruptOccurred_loop E ?v"
    using u(1) x by (subst interruptOccurred_loop.simps) (simp add: lockController_def)
  moreover have "T ?v = T w @ [(t kDT_Keyboard, k)]"
    using x(2) observes_update [OF obs] u(1) by simp
  ultimately show ?thesis
    using x by (intro exI [of _ ?v]) (simp add: wired_def)
qed

lemma loop_status:
  "s AND (kOutputReady OR kMouseData) = kOutputReady OR kMouseData \<longleftrightarrow>
   s AND kOutputReady \<noteq> 0 \<and> s AND kMouseData \<noteq> 0"
  unfolding and_mask_split using and_push_bit_eq [of 0 s] and_push_bit_eq [of 5 s]
  by (simp add: ps2_consts)

lemma interruptOccurred_turn_mouse:
  assumes chip: "chip_law E pending" and obs: "observes E T" and lock: "controllerLocked w"
    and w: "wired t w" and q: "keyboardQueue w = []" and p: "pending (hw w) = (True, m) # rest"
  shows "\<exists>v. interruptOccurred_loop E w = interruptOccurred_loop E v \<and>
    T v = T w @ [(t kDT_Mouse, m)] \<and> controllerLocked v \<and> wired t v \<and> pending (hw v) = rest \<and>
    keyboardQueue v = []"
proof -
  obtain s h where sh: "inb E kCommandPort (hw w) = (s, h)" by force
  have h: "pending h = (True, m) # rest"
    and s: "s AND (kOutputReady OR kMouseData) = kOutputReady OR kMouseData"
    using chip_status [OF chip sh] p by (auto simp: loop_status)
  obtain b h' where bh: "inb E kDataPort h = (b, h')" by force
  note b = chip_data [OF chip bh h]
  let ?u = "w\<lparr>controllerLocked := False, hw := h'\<rparr>"
  have r: "reading pending t kDT_Mouse rest ?u"
    using w b by (simp add: reading_def wired_def)
  obtain x where x: "dispatchDriverInterrupt E kDT_Mouse m ?u = Some x"
    "T x = T ?u @ [(t kDT_Mouse, m)]" "reading pending t kDT_Mouse rest x"
    by (rule dispatch_observed [OF obs r])
  have keep: "hw x = h'" "keyboardQueue x = []" using dispatch_keeps [OF obs r x(1)] q by simp_all
  let ?v = "x\<lparr>controllerLocked := True\<rparr>"
  have "dequeueKeyboardData w = (None, w)" using q by (simp add: dequeueKeyboardData_def)
  then have "interruptOccurred_loop E w = interruptOccurred_loop E ?v"
    using sh s bh b x by (subst interruptOccurred_loop.simps)
      (simp add: port_in_def unlockController_def lockController_def reading_def)
  moreover have "T ?u = T w"
    by (simp add: observes_update(2,3) [OF obs])
  ultimately show ?thesis
    using x keep b observes_update(2) [OF obs] by (intro exI [of _ ?v]) (simp add: wired_def reading_def)
qed

lemma interruptOccurred_loop_deliver:
  assumes chip: "chip_law E pending" and obs: "observes E T"
    and rest: "rest = [] \<or> \<not> fst (hd rest)"
  shows "controllerLocked w \<Longrightarrow> wired t w \<Longrightarrow> keyboardQueue w = ks
    \<Longrightarrow> pending (hw w) = map (Pair True) ms @ rest
    \<Longrightarrow> \<exists>w'. interruptOccurred_loop E w = Some w' \<and> controllerLocked w' \<and>
      T w' = T w @ map (Pair (t kDT_Keyboard)) ks @ map (Pair (t kDT_Mouse)) ms \<and>
      keyboardQueue w' = [] \<and> pending (hw w') = rest"
proof (induction ks arbitrary: w)
  case (Cons k ks)
  then obtain v where "interruptOccurred_loop E w = interruptOccurred_loop E v"
    "T v = T w @ [(t kDT_Keyboard, k)]" "controllerLocked v" "wired t v" "hw v = hw w"
    "keyboardQueue v = ks"
    using interruptOccurred_turn_key [OF obs] by blast
  with Cons.IH [of v] Cons.prems show ?case by auto
next
  case Nil
  then show ?case
  proof (induction ms arbitrary: w)
    case (Cons m ms)
    then obtain v where "interruptOccurred_loop E w = interruptOccurred_loop E v"
      "T v = T w @ [(t kDT_Mouse, m)]" "controllerLocked v" "wired t v"
      "pending (hw v) = map (Pair True) ms @ rest" "keyboardQueue v = []"
      using interruptOccurred_turn_mouse [OF chip obs, of w t m] by auto
    with Cons.IH [of v] show ?case by auto
  next
    case Nil
    obtain s h where sh: "inb E kCommandPort (hw w) = (s, h)" by force
    have pw: "pending (hw w) = rest" using Nil by simp
    have "pending h = rest" using chip_status(1) [OF chip sh] pw by simp
    moreover have "\<not> (s AND (kOutputReady OR kMouseData) = kOutputReady OR kMouseData)"
    proof (cases rest)
      case Nil
      then show ?thesis using chip_status(2) [OF chip sh] pw by (simp add: loop_status)
    next
      case (Cons x xs)
      then show ?thesis
        using chip_status(3) [OF chip sh, of "fst x" "snd x" xs] pw rest by (simp add: loop_status)
    qed
    moreover have "dequeueKeyboardData w = (None, w)"
      using Nil by (simp add: dequeueKeyboardData_def)
    ultimately show ?case
      using Nil sh observes_update(3) [OF obs] by (subst interruptOccurred_loop.simps)
        (simp add: port_in_def)
  qed
qed

section \<open>A chip and handlers to run the properties on\<close>

text \<open>
  The chip is ready to be written to, drops what is written, and delivers a list of bytes;
  the handlers append what they are given to the extension of the record.
\<close>

definition list_chip_in :: "u16 \<Rightarrow> (bool \<times> u8) list \<Rightarrow> u8 \<times> (bool \<times> u8) list" where
  "list_chip_in port h =
     (case h of
        [] \<Rightarrow> (0, [])
      | (mouse, b) # rest \<Rightarrow>
          if port = kDataPort then (b, rest)
          else (if mouse then kOutputReady OR kMouseData else kOutputReady, h))"

type_synonym logging_world = "((bool \<times> u8) list, (driver \<times> u8) list) ctl_scheme"

definition logging_env :: "((bool \<times> u8) list, logging_world) env" where
  "logging_env =
     \<lparr>inb = list_chip_in, outb = (\<lambda>_ _ h. h), uptime = (\<lambda>_. 0), microtime = (\<lambda>_. (0, 0)),
      callInterruptAction = (\<lambda>_ target datum w. Some (ctl.more_update (\<lambda>l. l @ [(target, datum)]) w)),
      callPowerControlAction = (\<lambda>_ _ _ w. Some w)\<rparr>"

definition wiring :: "PS2DeviceType \<Rightarrow> driver" where
  "wiring d = (case d of kDT_Keyboard \<Rightarrow> KeyboardDriver | kDT_Mouse \<Rightarrow> MouseDriver)"

definition all_resources :: ctl_resources where
  "all_resources =
     \<lparr>workLoop = True, interruptSourceKeyboard = True, interruptSourceMouse = True,
      interruptSourceQueue = True, requestQueueLock = True, controllerLock = True,
      keyboardQueueAlloc = True, powerChangeThreadCall = True, keyboardDevice = True,
      mouseDevice = True, gApplePS2Controller = True\<rparr>"

definition logging_world :: "(bool \<times> u8) list \<Rightarrow> u8 list \<Rightarrow> logging_world" where
  "logging_world h keys =
     \<lparr>hw = h, delayed = 0, effects = [], resources = all_resources, requests = Map.empty,
      nextRequest = 0, syncers = [], inGate = True, requestQueue = [],
      interruptTargetKeyboard = Some KeyboardDriver, interruptTargetMouse = Some MouseDriver,
      interruptActionKeyboard = Some KeyboardDriver, interruptActionMouse = Some MouseDriver,
      interruptInstalledKeyboard = True, interruptInstalledMouse = True,
      powerControlTargetKeyboard = None, powerControlTargetMouse = None,
      powerControlActionKeyboard = None, powerControlActionMouse = None,
      powerControlInstalledKeyboard = False, powerControlInstalledMouse = False,
      debuggingEnabled = True, controllerLocked = False,
      keyboardQueue = keys, keyboardQueueUnused = replicate (kKeyboardQueueSize - length keys) 0,
      extendedState = False, modifierState = 0,
      currentPowerState = kPS2PowerStateNormal, hardwareOffline = False, \<dots> = []\<rparr>"

lemma logging_chip: "chip_law logging_env (\<lambda>h. h)"
  by (auto simp: chip_law_def logging_env_def list_chip_in_def ps2_consts split: list.splits if_splits)

lemma logging_observes: "observes logging_env ctl.more"
  by (auto simp: observes_def logging_env_def touch_ports_def enqueueKeyboardData_def
      dequeueKeyboardData_def split: list.splits)

lemma logging_reading: "bytes = h \<Longrightarrow> reading (\<lambda>h. h) wiring d bytes (logging_world h [])"
  by (auto simp: reading_def wired_def wiring_def logging_world_def)

lemma logging_wired: "wired wiring (logging_world h keys)"
  by (auto simp: wired_def wiring_def logging_world_def)

lemma reading_bytes: "reading (\<lambda>h. h) t d bytes w \<Longrightarrow> hw w = bytes"
  by (simp add: reading_def)

lemma logging_more: "ctl.more (logging_world h keys) = []"
  by (simp add: logging_world_def)

section \<open>Properties\<close>

text \<open>
  C3. Demultiplexing: while \<open>readDataPort\<close> waits for a byte of one device, every byte of the
  other device that arrives first is handed to that other device's driver, once and in
  order; the byte returned is the first one of the requested stream, whatever is behind it
  stays in the chip, the lock is free again, and the call returns.
\<close>

theorem readDataPort_demultiplexes:
  assumes "chip_law E pending" and "observes E T"
    and "reading pending t d (map (Pair (\<not> is_mouse d)) others @ (is_mouse d, b) # rest) w"
  shows "\<exists>w'. readDataPort E d w = Some (b, w') \<and>
    T w' = T w @ map (Pair (t (other_device d))) others \<and> reading pending t d rest w'"
  using readDataPort_loop_pending [OF assms, of 9999] by (simp add: readDataPort_def)

theorem readDataPort_demultiplexes_witness:
  "\<exists>w'. readDataPort logging_env kDT_Mouse
      (logging_world [(False, 0x1e), (False, 0x9e), (True, 0xFA), (True, 7)] []) = Some (0xFA, w') \<and>
    ctl.more w' = [(KeyboardDriver, 0x1e), (KeyboardDriver, 0x9e)] \<and> hw w' = [(True, 7)]"
proof -
  have "reading (\<lambda>h. h) wiring kDT_Mouse
      (map (Pair (\<not> is_mouse kDT_Mouse)) [0x1e, 0x9e] @ (is_mouse kDT_Mouse, 0xFA) # [(True, 7)])
      (logging_world [(False, 0x1e), (False, 0x9e), (True, 0xFA), (True, 7)] [])"
    by (rule logging_reading) simp
  from readDataPort_demultiplexes [OF logging_chip logging_observes this] show ?thesis
    by (elim exE conjE) (rule exI, (rule conjI)+, assumption,
      simp_all add: logging_more other_device_def wiring_def reading_bytes)
qed

text \<open>
  C4. Out-of-order correction: if the first byte on the requested stream is the expected
  one, it is returned. Otherwise a second byte is awaited; if that is the expected one, it
  is returned and the first one is handed to the device's own driver as asynchronous data;
  if not, the first one is returned and the second one is handed over. No byte is lost
  or duplicated, and bytes of the other device go to its driver.
\<close>

theorem readDataPortExpecting_corrects_order:
  assumes chip: "chip_law E pending" and obs: "observes E T"
    and w: "reading pending t d (map (Pair (\<not> is_mouse d)) ks1 @ (is_mouse d, a) #
      map (Pair (\<not> is_mouse d)) ks2 @ (is_mouse d, c) # rest) w"
  shows "\<exists>w'. readDataPortExpecting E d expectedByte w =
      Some (if a = expectedByte \<or> c \<noteq> expectedByte then a else c, w') \<and>
    (if a = expectedByte
     then T w' = T w @ map (Pair (t (other_device d))) ks1 \<and>
       reading pending t d (map (Pair (\<not> is_mouse d)) ks2 @ (is_mouse d, c) # rest) w'
     else T w' = T w @ map (Pair (t (other_device d))) (ks1 @ ks2) @
         [(t d, if c = expectedByte then a else c)] \<and>
       reading pending t d rest w')"
proof -
  show ?thesis
  proof (cases rule: expecting_first [OF chip obs w, of expectedByte 9999])
    case (1 w')
    then show ?thesis
      by (intro exI [of _ w']) (simp add: readDataPortExpecting_def)
  next
    case (2 u)
    obtain w' where "readDataPortExpecting_loop E d expectedByte (Some a) (Suc 9999) u =
        Some (if c = expectedByte then c else a, w')"
      "T w' = T u @ map (Pair (t (other_device d))) ks2 @ [(t d, if c = expectedByte then a else c)]"
      "reading pending t d rest w'"
      using expecting_second [OF chip obs 2(4), of expectedByte a 9999] by blast
    with 2(1-3) show ?thesis
      by (intro exI [of _ w']) (simp add: readDataPortExpecting_def)
  qed
qed

theorem readDataPortExpecting_corrects_order_witness:
  "\<exists>w'. readDataPortExpecting logging_env kDT_Mouse kSC_Acknowledge
      (logging_world [(True, 0x08), (False, 0x1e), (True, 0xFA)] []) = Some (0xFA, w') \<and>
    ctl.more w' = [(KeyboardDriver, 0x1e), (MouseDriver, 0x08)] \<and> hw w' = []"
proof -
  have "reading (\<lambda>h. h) wiring kDT_Mouse
      (map (Pair (\<not> is_mouse kDT_Mouse)) [] @ (is_mouse kDT_Mouse, 0x08) #
       map (Pair (\<not> is_mouse kDT_Mouse)) [0x1e] @ (is_mouse kDT_Mouse, 0xFA) # [])
      (logging_world [(True, 0x08), (False, 0x1e), (True, 0xFA)] [])"
    by (rule logging_reading) simp
  from readDataPortExpecting_corrects_order [OF logging_chip logging_observes this, of kSC_Acknowledge]
  show ?thesis
    by (auto simp: logging_more other_device_def wiring_def kSC_Acknowledge_def dest: reading_bytes)
qed

text \<open>
  C5. A device that does not answer cannot hang the controller: when nothing is pending,
  \<open>readDataPort\<close> gives up after exactly 10000 polls of 7 microseconds, logs the timeout,
  releases the lock and returns the fake value 0.
\<close>

theorem readDataPort_times_out:
  assumes "chip_law E pending" and "\<not> controllerLocked w" and "pending (hw w) = []"
    and "d = kDT_Keyboard \<Longrightarrow> keyboardQueue w = []"
  shows "\<exists>w'. readDataPort E d w = Some (0, w') \<and> delayed w' = delayed w + 70000 \<and>
    effects w' = effects w @ [IOLog (LogTimedOut d)] \<and> \<not> controllerLocked w' \<and>
    pending (hw w') = []"
proof -
  obtain h where "pending h = []" "acquireByte E d 10000 w =
      Some (TimedOut, touch_ports h (delayed w + 10000 * kDataDelay) (effects w) False w)"
    using acquireByte_empty [OF assms(1-3), of d 10000] assms(4) by auto
  then show ?thesis
    by (simp add: readDataPort_def readDataPort_loop.simps [of E d 10000] emit_def touch_ports_def
        kDataDelay_def)
qed

theorem readDataPort_times_out_witness:
  "\<exists>w'. readDataPort logging_env kDT_Keyboard (logging_world [] []) = Some (0, w') \<and>
    delayed w' = 70000"
  using readDataPort_times_out [OF logging_chip, of "logging_world [] []" kDT_Keyboard]
  by (auto simp: logging_world_def)

text \<open>
  C6. The work loop's interrupt action returns and empties the queue: the keys of the
  internal queue go to the keyboard driver in the order of their arrival, then the mouse
  bytes that wait in the chip before the first keyboard byte go to the mouse driver in order.
  That keyboard byte, which the keyboard interrupt will fetch, and everything behind it stay
  in the chip, and the lock is free.
\<close>

theorem interruptOccurred_delivers:
  assumes "chip_law E pending" and "observes E T" and "wired t w" and "\<not> controllerLocked w"
    and "\<not> hardwareOffline w" and "keyboardQueue w = keys"
    and "pending (hw w) = map (Pair True) ms @ rest" and "rest = [] \<or> \<not> fst (hd rest)"
  shows "\<exists>w'. interruptOccurred E w = Some w' \<and>
    T w' = T w @ map (Pair (t kDT_Keyboard)) keys @ map (Pair (t kDT_Mouse)) ms \<and>
    keyboardQueue w' = [] \<and> pending (hw w') = rest \<and> \<not> controllerLocked w'"
proof -
  let ?w = "w\<lparr>controllerLocked := True\<rparr>"
  have "wired t ?w" using assms(3) by (simp add: wired_def)
  then obtain w' where "interruptOccurred_loop E ?w = Some w'" "controllerLocked w'"
    "T w' = T w @ map (Pair (t kDT_Keyboard)) keys @ map (Pair (t kDT_Mouse)) ms"
    "keyboardQueue w' = []" "pending (hw w') = rest"
    using interruptOccurred_loop_deliver [OF assms(1,2,8), of ?w t keys ms] assms(6,7)
      observes_update(2) [OF assms(2)] by auto
  then show ?thesis
    using assms(4,5) observes_update(1) [OF assms(2)]
    by (auto simp: interruptOccurred_def lockController_def unlockController_def)
qed

theorem interruptOccurred_delivers_witness:
  "\<exists>w'. interruptOccurred logging_env (logging_world [(True, 8), (True, 1), (False, 0x1e)] [0x39, 0xb9])
      = Some w' \<and>
    ctl.more w' = [(KeyboardDriver, 0x39), (KeyboardDriver, 0xb9), (MouseDriver, 8), (MouseDriver, 1)] \<and>
    hw w' = [(False, 0x1e)]"
proof -
  let ?w = "logging_world [(True, 8), (True, 1), (False, 0x1e)] [0x39, 0xb9]"
  have "\<not> controllerLocked ?w" "\<not> hardwareOffline ?w" "keyboardQueue ?w = [0x39, 0xb9]"
    "hw ?w = map (Pair True) [8, 1] @ [(False, 0x1e)]"
    by (simp_all add: logging_world_def)
  from interruptOccurred_delivers [OF logging_chip logging_observes logging_wired this] show ?thesis
    by (auto simp: wiring_def logging_more)
qed

end
