(* ===== verification/PS2_Offline.thy ===== *)
theory PS2_Offline
  imports PS2_Heap PS2_Stream
begin

text \<open>
  Requests while the hardware is offline, that is, between going to sleep and waking up
  and after the controller has stopped: they complete at once without any access to the
  ports, and what follows for the drivers that wait for them.
\<close>

lemma processRequest_offline:
  assumes "hardwareOffline w" and "requests w r = Some q" and "completionAction q = None"
  shows "processRequest E r w = Some (w\<lparr>requests := (requests w)(r := None)\<rparr>)"
  using assms by (simp add: processRequest_def completeRequest_def freeRequest_def Let_def)

lemma processLocalQueue_offline:
  assumes "hardwareOffline w" and "distinct rs"
    and "\<forall>r\<in>set rs. \<exists>q. requests w r = Some q \<and> completionAction q = None"
  shows "processLocalQueue E rs w = Some (w\<lparr>requests := requests w |` (- set rs)\<rparr>)"
  using assms
proof (induction rs arbitrary: w)
  case Nil
  then show ?case by simp
next
  case (Cons r rs)
  then obtain q where "requests w r = Some q" "completionAction q = None" by auto
  with Cons.prems(1) have "processRequest E r w = Some (w\<lparr>requests := (requests w)(r := None)\<rparr>)"
    by (rule processRequest_offline)
  moreover have "processLocalQueue E rs (w\<lparr>requests := (requests w)(r := None)\<rparr>) =
      Some ((w\<lparr>requests := (requests w)(r := None)\<rparr>)\<lparr>requests :=
        (requests w)(r := None) |` (- set rs)\<rparr>)"
    using Cons.prems by (subst Cons.IH) auto
  moreover have "(requests w)(r := None) |` (- set rs) = requests w |` (- set (r # rs))"
    by (rule ext) (simp add: restrict_map_def)
  ultimately show ?case by simp
qed

lemma completeRequest_blocking:
  assumes "requests w r = Some q" and "completionAction q = Some SubmitRequestAndBlockCompletion"
    and "completionTarget q"
  shows "completeRequest r True 0 w = Some (submitRequestAndBlockCompletion (completionParam q)
    (w\<lparr>requests := (requests w)(r \<mapsto> q\<lparr>commandsCount := 0\<rparr>)\<rparr>))"
  using assms by (simp add: completeRequest_def Let_def)

lemma heap_ok_single:
  assumes "requests v = H(r \<mapsto> q)" and "requestQueue v = []" and "\<And>x. x \<in> dom H \<Longrightarrow> x < nextRequest v"
    and "r < nextRequest v"
  shows "heap_ok v" and "r \<in> held v"
  using assms by (auto simp: heap_ok_def held_def)

text \<open>The state after a blocking submission while offline.\<close>

lemma submitRequestAndBlock_offline:
  assumes off: "hardwareOffline w" and ok: "heap_ok w" and r: "r \<in> held w"
    and q: "requests w r = Some q"
  shows "\<exists>w' q'. submitRequestAndBlock E r w = Some w' \<and> requests w' r = Some q' \<and>
    commandsCount q' = 0 \<and> commands q' = commands q \<and> hardwareOffline w' \<and> hw w' = hw w \<and>
    delayed w' = delayed w \<and> requestQueue w' = [] \<and> heap_ok w' \<and> r \<in> held w'"
proof -
  let ?set = "\<lambda>p. q\<lparr>completionTarget := True,
    completionAction := Some SubmitRequestAndBlockCompletion, completionParam := p\<rparr>"
  let ?Q = "requestQueue w"
  let ?heap = "\<lambda>p. ((requests w)(r \<mapsto> ?set p) |` (- set ?Q))"
  have nq: "r \<notin> set ?Q" and Q: "distinct ?Q"
    "\<And>p. \<forall>x\<in>set ?Q. \<exists>q. ((requests w)(r \<mapsto> ?set p)) x = Some q \<and> completionAction q = None"
    using ok r by (auto simp: heap_ok_def held_def)
  have heap: "?heap p r = Some (?set p)" "x \<in> dom (?heap p) \<Longrightarrow> x < nextRequest w" for p x
    using nq ok q by (auto simp: restrict_map_def heap_ok_def split: if_splits)
  have run: "processLocalQueue E (?Q @ [r]) u = Some (submitRequestAndBlockCompletion p
      (u\<lparr>requests := (?heap p)(r \<mapsto> (?set p)\<lparr>commandsCount := 0\<rparr>)\<rparr>))"
    if "hardwareOffline u" "requests u = (requests w)(r \<mapsto> ?set p)" for u p
  proof -
    have "processLocalQueue E ?Q u = Some (u\<lparr>requests := ?heap p\<rparr>)"
      using that Q by (subst processLocalQueue_offline) simp_all
    moreover have "processRequest E r (u\<lparr>requests := ?heap p\<rparr>) = Some (submitRequestAndBlockCompletion p
        (u\<lparr>requests := (?heap p)(r \<mapsto> (?set p)\<lparr>commandsCount := 0\<rparr>)\<rparr>))"
      using that(1) heap by (simp add: processRequest_def completeRequest_blocking)
    ultimately show ?thesis by (auto simp: processLocalQueue_append)
  qed
  have rn: "r < nextRequest w" using ok r by (auto simp: heap_ok_def held_def)
  have post: "heap_ok v" "r \<in> held v"
    if "requests v = (?heap p)(r \<mapsto> (?set p)\<lparr>commandsCount := 0\<rparr>)" "requestQueue v = []"
      "nextRequest v = nextRequest w" for v :: "('a, 'b) ctl_scheme" and p
    by (rule heap_ok_single [OF that(1,2)]; use that(3) heap(2) rn in simp)+
  show ?thesis
  proof (cases "inGate w")
    case True
    let ?w' = "w\<lparr>requests := (?heap None)(r \<mapsto> (?set None)\<lparr>commandsCount := 0\<rparr>), requestQueue := []\<rparr>"
    have "processLocalQueue E (?Q @ [r]) (w\<lparr>requests := (requests w)(r \<mapsto> ?set None), requestQueue := []\<rparr>)
        = Some ?w'"
      using off by (subst run [where p = None]) (simp_all add: submitRequestAndBlockCompletion_def)
    then have "submitRequestAndBlock E r w = Some ?w'"
      using True q by (auto simp: submitRequestAndBlock_def set_completion_def processRequestQueue_def
          processLocalQueue_append)
    moreover have "heap_ok ?w'" "r \<in> held ?w'"
      by (rule post [where p = None]; simp)+
    ultimately show ?thesis
      using off by (intro exI [of _ ?w'] exI [of _ "(?set None)\<lparr>commandsCount := 0\<rparr>"]) simp
  next
    case False
    let ?n = "length (syncers w)"
    let ?u = "(emit (SignalSource InterruptSourceQueue)
      (w\<lparr>syncers := syncers w @ [False], requests := (requests w)(r \<mapsto> ?set (Some ?n)),
         requestQueue := ?Q @ [r]\<rparr>))\<lparr>inGate := True, requestQueue := []\<rparr>"
    let ?v = "submitRequestAndBlockCompletion (Some ?n)
      (?u\<lparr>requests := (?heap (Some ?n))(r \<mapsto> (?set (Some ?n))\<lparr>commandsCount := 0\<rparr>)\<rparr>)"
    let ?w' = "?v\<lparr>inGate := False\<rparr>"
    have "processLocalQueue E (?Q @ [r]) ?u = Some ?v"
      using off by (intro run) (simp_all add: emit_def)
    then have "submitRequestAndBlock E r w = Some ?w'"
      using False q by (simp add: submitRequestAndBlock_def set_completion_def submitRequest_def
          processRequestQueue_def Let_def emit_def submitRequestAndBlockCompletion_def)
    moreover have "heap_ok ?w'" "r \<in> held ?w'"
      by (rule post [where p = "Some ?n"];
        simp add: submitRequestAndBlockCompletion_def emit_def)+
    ultimately show ?thesis
      using off by (intro exI [of _ ?w'] exI [of _ "(?set (Some ?n))\<lparr>commandsCount := 0\<rparr>"])
        (simp add: submitRequestAndBlockCompletion_def emit_def)
  qed
qed

section \<open>The test-and-set loop while offline\<close>

lemma allocate_heap:
  assumes "heap_ok w" and "allocateRequest w = (r, u)"
  shows "heap_ok u" and "r \<in> held u"
proof -
  have "nextRequest w \<notin> dom (requests w)" using assms(1) by (auto simp: heap_ok_def)
  then have "requests w (nextRequest w) = None" "nextRequest w \<notin> set (requestQueue w)"
    using assms(1) by (auto simp: heap_ok_def)
  with assms show "heap_ok u" and "r \<in> held u"
    by (auto simp: allocateRequest_def heap_ok_def held_def less_Suc_eq)
qed

lemma fill_request_heap:
  assumes y: "fill_request r cs x = Some y" and ok: "heap_ok x" and r: "r \<in> held x"
  shows "heap_ok y \<and> r \<in> held y \<and> hardwareOffline y = hardwareOffline x"
proof -
  obtain q where q: "requests x r = Some q" using held_request [OF r] by blast
  have n: "r \<notin> set (requestQueue x)" "r < nextRequest x" "\<forall>r\<in>dom (requests x). r < nextRequest x"
    using ok r q by (auto simp: heap_ok_def held_def)
  obtain q' where "y = x\<lparr>requests := (requests x)(r \<mapsto> q')\<rparr>"
    using y q by (auto simp: fill_request_def split: if_splits)
  with ok n show ?thesis
    by (auto simp: heap_ok_def held_def)
qed

lemma submitRequestAndBlock_heap_offline:
  assumes y: "submitRequestAndBlock E r x = Some y"
    and "hardwareOffline x" and "heap_ok x" and r: "r \<in> held x"
  shows "hardwareOffline y \<and> heap_ok y \<and> r \<in> held y \<and>
    (\<forall>q. requests y r = Some q \<longrightarrow> commandsCount q = 0)"
proof -
  obtain q where q: "requests x r = Some q" using held_request [OF r] by blast
  with submitRequestAndBlock_offline [OF assms(2,3) r q, of E] y show ?thesis by auto
qed

lemma commandByte_loop_offline:
  assumes "is_nub E D"
  shows "commandByte_loop D r s c w = Some w' \<Longrightarrow> hardwareOffline w \<Longrightarrow> heap_ok w \<Longrightarrow> r \<in> held w
    \<Longrightarrow> False"
proof -
  let ?P = "\<lambda>D' r (s :: u8) (c :: u8) w (w' :: ('a, 'b) ctl_scheme). D' = D \<longrightarrow> hardwareOffline w \<longrightarrow> heap_ok w \<longrightarrow> r \<notin> held w"
  assume *: "commandByte_loop D r s c w = Some w'"
  have "?P D r s c w w'"
  proof (rule commandByte_loop.raw_induct [where P = ?P, OF _ *], intro impI, goal_cases)
    case (1 f D' r s c v v')
    show ?case
    proof
      assume r: "r \<in> held v"
      obtain q where q: "requests v r = Some q" using held_request [OF r] by blast
      have D': "D' = D" by (rule 1(3))
      from 1(2) [unfolded D'] obtain v1 v2 b cs v3 v4 q4 cs' where f1: "fill_request r cs' v = Some v1"
        and b1: "submitRequestAndBlock E r v1 = Some v2"
        and f2: "fill_request r cs v2 = Some v3" and b2: "submitRequestAndBlock E r v3 = Some v4"
        and q4: "requests v4 r = Some q4"
        and last: "(if commandsCount q4 \<noteq> 4 then f D r s c v4 else Some v4) = Some v'"
        by (auto simp: Let_def is_nub_simps [OF assms])
      have fill: "hardwareOffline y \<and> heap_ok y \<and> r \<in> held y"
        if "fill_request r xs x = Some y" "hardwareOffline x" "heap_ok x" "r \<in> held x" for xs x y
        using fill_request_heap [OF that(1,3,4)] that(2) by simp
      note block = submitRequestAndBlock_heap_offline
      from fill [OF f1 1(4,5) r] block [OF b1] fill [OF f2] block [OF b2]
      have v4: "hardwareOffline v4" "heap_ok v4" "r \<in> held v4" "commandsCount q4 = 0"
        using q4 by auto
      with last 1(1) [of D r s c v4 v'] show False by auto
    qed
  qed
  then show "hardwareOffline w \<Longrightarrow> heap_ok w \<Longrightarrow> r \<in> held w \<Longrightarrow> False" by blast
qed

section \<open>Properties\<close>

text \<open>
  C7. While the hardware is offline a blocking request never hangs and never touches the
  ports: the call returns, with or without the gate held, having failed at command 0; no
  byte is read or written and no time is spent polling; the requests queued before it have
  all been completed.
\<close>

theorem offline_requests_fail_at_once:
  assumes "hardwareOffline w" and "heap_ok w" and "r \<in> held w" and "requests w r = Some q"
  shows "\<exists>w' q'. submitRequestAndBlock E r w = Some w' \<and> requests w' r = Some q' \<and>
    commandsCount q' = 0 \<and> commands q' = commands q \<and> hw w' = hw w \<and> delayed w' = delayed w \<and>
    requestQueue w' = []"
  using submitRequestAndBlock_offline [OF assms] by blast

definition offline_world :: logging_world where
  "offline_world = (snd (allocateRequest (logging_world [(False, 0xEE)] [])))\<lparr>hardwareOffline := True\<rparr>"

lemma offline_world_ok:
  "hardwareOffline offline_world" "heap_ok offline_world" "0 \<in> held offline_world"
  "requests offline_world 0 = Some zero_request"
  by (simp_all add: offline_world_def allocateRequest_def logging_world_def heap_ok_def held_def)

theorem offline_requests_fail_at_once_witness:
  "\<exists>w'. submitRequestAndBlock logging_env 0 offline_world = Some w' \<and> hw w' = [(False, 0xEE)]"
  using offline_requests_fail_at_once [OF offline_world_ok, of logging_env]
  by (auto simp: offline_world_def allocateRequest_def logging_world_def)

text \<open>
  C8. A consequence that the drivers do not guard against: their test-and-set loop on the
  command byte repeats until all four commands of a request have run, and no command runs
  while the hardware is offline, so \<open>setCommandByte\<close> of any of the drivers, called then,
  never returns.
\<close>

theorem setCommandByte_diverges_offline:
  assumes "hardwareOffline w" and "heap_ok w"
  shows "readModifyWriteCommandByte (keyboardNubOf E) setBits clearBits w = None \<and>
    readModifyWriteCommandByte (mouseNubOf E) setBits clearBits w = None"
proof -
  have "readModifyWriteCommandByte D setBits clearBits w = None" if D: "is_nub E D" for D
  proof (rule ccontr)
    assume "readModifyWriteCommandByte D setBits clearBits w \<noteq> None"
    then obtain r u v where a: "allocateRequest w = (r, u)"
      and l: "commandByte_loop D r setBits clearBits u = Some v"
      by (auto simp: readModifyWriteCommandByte_def is_nub_simps [OF D] split: prod.splits
          elim: Option.bind_eq_Some_conv [THEN iffD1, elim_format])
    have "hardwareOffline u" using a assms(1) by (auto simp: allocateRequest_def)
    with commandByte_loop_offline [OF D l] allocate_heap [OF assms(2) a] show False by blast
  qed
  then show ?thesis
    by (blast intro: is_nub_of)
qed

theorem setCommandByte_diverges_offline_witness:
  "readModifyWriteCommandByte (keyboardNubOf logging_env) kCB_EnableKeyboardIRQ 0 offline_world = None"
  using setCommandByte_diverges_offline [OF offline_world_ok(1,2)] by blast

end
