(* ===== verification/PS2_Keyboard.thy ===== *)
theory PS2_Keyboard
  imports PS2_Heap PS2_KeyboardMaps
begin

text \<open>
  The keyboard driver, \<^verbatim>\<open>ApplePS2Keyboard\<close>: the scan code parser with its bit vector of
  keys that are down, the command sequences, and the life cycle. All operations but
  \<open>init\<close> and \<open>probe\<close> run between \<open>start\<close> and \<open>stop\<close>, when \<open>_device\<close> is the nub \<open>D\<close>.
\<close>

section \<open>Definitions\<close>

subsection \<open>State\<close>

text \<open>
  \<open>kb_rootDomain\<close> is not a field of the class; it says whether \<open>getPMRootDomain\<close> finds the
  power management root domain.
\<close>

record 'h kbd = "'h ctl" +
  kb_device :: bool
  kb_keyBitVector :: "u32 list"
  kb_extendCount :: u8
  kb_interruptHandlerInstalled :: bool
  kb_powerControlHandlerInstalled :: bool
  kb_ledState :: u8
  kb_emacsMode :: bool
  kb_macintoshMode :: bool
  kb_saveSS :: bool
  kb_rootDomain :: bool

definition KBV_NUM_KEYCODES :: nat where [ps2_consts]: "KBV_NUM_KEYCODES = 128"
definition KBV_BITS_PER_UNIT :: nat where [ps2_consts]: "KBV_BITS_PER_UNIT = 32"
definition KBV_BITS_MASK :: u32 where [ps2_consts]: "KBV_BITS_MASK = 31"
definition KBV_BITS_SHIFT :: nat where [ps2_consts]: "KBV_BITS_SHIFT = 5"
definition KBV_NUNITS :: nat where [ps2_consts]:
  "KBV_NUNITS = (KBV_NUM_KEYCODES + (KBV_BITS_PER_UNIT - 1)) div KBV_BITS_PER_UNIT"

text \<open>
  The macros on the bit vector. An index outside the array is an access to memory that
  the driver does not own.
\<close>

definition kbv_unit :: "u32 \<Rightarrow> nat" where
  "kbv_unit n = unat (drop_bit KBV_BITS_SHIFT n)"

definition kbv_mask :: "u32 \<Rightarrow> u32" where
  "kbv_mask n = push_bit (unat (n AND KBV_BITS_MASK)) 1"

definition KBV_KEYDOWN :: "u32 \<Rightarrow> u32 list \<Rightarrow> u32 list option" where
  "KBV_KEYDOWN n bits =
     (if kbv_unit n < length bits
      then Some (bits[kbv_unit n := bits ! kbv_unit n OR kbv_mask n]) else None)"

definition KBV_KEYUP :: "u32 \<Rightarrow> u32 list \<Rightarrow> u32 list option" where
  "KBV_KEYUP n bits =
     (if kbv_unit n < length bits
      then Some (bits[kbv_unit n := bits ! kbv_unit n AND NOT (kbv_mask n)]) else None)"

definition KBV_IS_KEYDOWN :: "u32 \<Rightarrow> u32 list \<Rightarrow> bool option" where
  "KBV_IS_KEYDOWN n bits =
     (if kbv_unit n < length bits
      then Some (bits ! kbv_unit n AND kbv_mask n \<noteq> 0) else None)"

definition adbCode :: "u32 \<Rightarrow> u8 option" where
  "adbCode keyCode =
     (if unat keyCode < length PS2ToADBMap then Some (PS2ToADBMap ! unat keyCode) else None)"

subsection \<open>From scan codes to key codes\<close>

definition plainKeyCode :: "bool \<Rightarrow> bool \<Rightarrow> u8 \<Rightarrow> u32" where
  "plainKeyCode emacsMode macintoshMode scanCode =
     (let keyCode = ucast (scanCode AND NOT kSC_UpBit)
      in if keyCode = 0x3A then (if emacsMode then 0x60 else keyCode)
         else if keyCode = 0x38 then (if macintoshMode then 0x70 else keyCode)
         else keyCode)"

text \<open>The cases of the switch for extended codes that only choose a key code.\<close>

definition extendedKeyCode :: "bool \<Rightarrow> u8 \<Rightarrow> u32 option" where
  "extendedKeyCode macintoshMode code =
     map_of
       [(0x30, 0x7d), (0x2e, 0x7e), (0x20, 0x7f), (0x1D, 0x60),
        (0x38, if macintoshMode then 0x71 else 0x61),
        (0x1C, 0x62), (0x35, 0x63), (0x48, 0x64), (0x50, 0x65), (0x4B, 0x66), (0x4D, 0x67),
        (0x52, 0x68), (0x53, 0x69), (0x49, 0x6A), (0x51, 0x6B), (0x47, 0x6C), (0x4F, 0x6D),
        (0x5B, if macintoshMode then 0x38 else 0x70),
        (0x5c, if macintoshMode then 0x61 else 0x71),
        (0x5D, 0x71)] code"

text \<open>The end of the parser: drop key code 0 and auto-repeats, record the key, dispatch.\<close>

definition dispatchKeyCode ::
  "('h, 'w) env \<Rightarrow> u32 \<Rightarrow> bool \<Rightarrow> ('h, 'z) kbd_scheme \<Rightarrow> (bool \<times> ('h, 'z) kbd_scheme) option" where
  "dispatchKeyCode E keyCode goingDown w =
     (if keyCode = 0 then Some (False, w)
      else do { isDown \<leftarrow> KBV_IS_KEYDOWN keyCode (kb_keyBitVector w);
                if goingDown \<and> isDown then Some (False, w)
                else do { bits \<leftarrow> (if goingDown then KBV_KEYDOWN keyCode (kb_keyBitVector w)
                                    else KBV_KEYUP keyCode (kb_keyBitVector w));
                          let w = w\<lparr>kb_keyBitVector := bits\<rparr>;
                          key \<leftarrow> adbCode keyCode;
                          Some (True, emit (KeyEvent key goingDown (Some (uptime E (hw w)))) w) } })"

text \<open>
  The events of the eject combination carry the local variable \<open>now\<close> before it has been
  assigned: their time stamp is \<open>None\<close>.
\<close>

definition dispatchEject ::
  "bool \<Rightarrow> ('h, 'z) kbd_scheme \<Rightarrow> (bool \<times> ('h, 'z) kbd_scheme) option" where
  "dispatchEject goingDown w =
     do { alt \<leftarrow> adbCode 0x38;
          key \<leftarrow> adbCode 0x10;
          let w = emit (KeyEvent alt goingDown None) w;
          let w = emit (KeyEvent key goingDown None) w;
          Some (True, w) }"

partial_function (option) dispatchKeyboardEventWithScancode ::
  "('h, 'w) env \<Rightarrow> u8 \<Rightarrow> ('h, 'z) kbd_scheme \<Rightarrow> (bool \<times> ('h, 'z) kbd_scheme) option" where
  "dispatchKeyboardEventWithScancode E scanCode w =
     (if scanCode = kSC_Extend then Some (False, w\<lparr>kb_extendCount := 1\<rparr>)
      else if scanCode = kSC_Pause then Some (False, w\<lparr>kb_extendCount := 2\<rparr>)
      else
        let goingDown = (scanCode AND kSC_UpBit = 0)
        in if kb_extendCount w = 0
           then dispatchKeyCode E (plainKeyCode (kb_emacsMode w) (kb_macintoshMode w) scanCode)
                  goingDown w
           else
             let w = w\<lparr>kb_extendCount := kb_extendCount w - 1\<rparr>;
                 code = scanCode AND NOT kSC_UpBit
             in if kb_extendCount w \<noteq> 0 then Some (False, w)
                else if code = 0x34 then dispatchEject goingDown w
                else if code = 0x5f then
                  dispatchKeyCode E 0 goingDown
                    (if goingDown \<and> kb_rootDomain w then emit ReceiveSleepNow w else w)
                else if code = 0x37 then
                  do { w \<leftarrow> (if \<not> kb_saveSS w
                              then do { (_, w) \<leftarrow> dispatchKeyboardEventWithScancode E
                                                    (if goingDown then 0x1d else 0x9d) w;
                                        Some w }
                              else Some w);
                       (_, w) \<leftarrow> dispatchKeyboardEventWithScancode E
                                    (if goingDown then 0x38 else 0xb8) w;
                       (_, w) \<leftarrow> dispatchKeyboardEventWithScancode E
                                    (if goingDown then 0x2a else 0xaa) w;
                       (_, w) \<leftarrow> dispatchKeyboardEventWithScancode E
                                    (if goingDown then 0x5 else 0x85) w;
                       Some (True, w) }
                else
                  case extendedKeyCode (kb_macintoshMode w) code of
                    Some keyCode \<Rightarrow> dispatchKeyCode E keyCode goingDown w
                  | None \<Rightarrow> Some (False, w))"

definition kb_interruptOccurred ::
  "('h, 'w) env \<Rightarrow> u8 \<Rightarrow> ('h, 'z) kbd_scheme \<Rightarrow> ('h, 'z) kbd_scheme option" where
  "kb_interruptOccurred E scanCode w =
     (if scanCode = kSC_Acknowledge then Some (emit (IOLog LogUnexpectedAcknowledge) w)
      else if scanCode = kSC_Resend then Some (emit (IOLog LogUnexpectedResend) w)
      else do { (_, w) \<leftarrow> dispatchKeyboardEventWithScancode E scanCode w; Some w })"

subsection \<open>Command sequences\<close>

definition kb_setLEDs ::
  "('h, 'z) kbd_scheme nub \<Rightarrow> u8 \<Rightarrow> ('h, 'z) kbd_scheme \<Rightarrow> ('h, 'z) kbd_scheme option" where
  "kb_setLEDs D ledState w =
     send_async D
       [\<lparr>command = kPS2C_WriteDataPort, inOrOut = kDP_SetKeyboardLEDs\<rparr>,
        \<lparr>command = kPS2C_ReadDataPortAndCompare, inOrOut = kSC_Acknowledge\<rparr>,
        \<lparr>command = kPS2C_WriteDataPort, inOrOut = ledState\<rparr>,
        \<lparr>command = kPS2C_ReadDataPortAndCompare, inOrOut = kSC_Acknowledge\<rparr>] w"

definition kb_setAlphaLockFeedback ::
  "('h, 'z) kbd_scheme nub \<Rightarrow> bool \<Rightarrow> ('h, 'z) kbd_scheme \<Rightarrow> ('h, 'z) kbd_scheme option" where
  "kb_setAlphaLockFeedback D locked w =
     (let w = w\<lparr>kb_ledState := (if locked then kb_ledState w OR kLED_CapsLock
                                else kb_ledState w AND NOT kLED_CapsLock)\<rparr>
      in kb_setLEDs D (kb_ledState w) w)"

definition kb_setNumLockFeedback ::
  "('h, 'z) kbd_scheme nub \<Rightarrow> bool \<Rightarrow> ('h, 'z) kbd_scheme \<Rightarrow> ('h, 'z) kbd_scheme option" where
  "kb_setNumLockFeedback D locked w =
     (let w = w\<lparr>kb_ledState := (if locked then kb_ledState w OR kLED_NumLock
                                else kb_ledState w AND NOT kLED_NumLock)\<rparr>
      in kb_setLEDs D (kb_ledState w) w)"

definition kb_setKeyboardEnable ::
  "('h, 'z) kbd_scheme nub \<Rightarrow> bool \<Rightarrow> ('h, 'z) kbd_scheme \<Rightarrow> ('h, 'z) kbd_scheme option" where
  "kb_setKeyboardEnable D enable w =
     send_async D
       [\<lparr>command = kPS2C_WriteDataPort,
         inOrOut = (if enable then kDP_Enable else kDP_SetDefaultsAndDisable)\<rparr>,
        \<lparr>command = kPS2C_ReadDataPortAndCompare, inOrOut = kSC_Acknowledge\<rparr>] w"

definition kb_setCommandByte ::
  "('h, 'z) kbd_scheme nub \<Rightarrow> u8 \<Rightarrow> u8 \<Rightarrow> ('h, 'z) kbd_scheme \<Rightarrow> ('h, 'z) kbd_scheme option" where
  "kb_setCommandByte D setBits clearBits w = readModifyWriteCommandByte D setBits clearBits w"

subsection \<open>Life cycle and power\<close>

definition kb_init :: "bool \<Rightarrow> ('h, 'z) kbd_scheme \<Rightarrow> bool \<times> ('h, 'z) kbd_scheme" where
  "kb_init superOk w =
     (if \<not> superOk then (False, w)
      else (True, w\<lparr>kb_device := False, kb_extendCount := 0, kb_interruptHandlerInstalled := False,
                    kb_ledState := 0, kb_keyBitVector := replicate KBV_NUNITS 0\<rparr>))"

definition kb_probe ::
  "('h, 'z) kbd_scheme nub \<Rightarrow> bool \<Rightarrow> ('h, 'z) kbd_scheme \<Rightarrow> (bool \<times> ('h, 'z) kbd_scheme) option" where
  "kb_probe D superOk w =
     do { let (r, w) = nubAllocateRequest D w;
          if \<not> superOk then Some (False, w)
          else do { w \<leftarrow> fill_request r
                      [\<lparr>command = kPS2C_WriteDataPort, inOrOut = kDP_TestKeyboardEcho\<rparr>,
                       \<lparr>command = kPS2C_ReadDataPortAndCompare, inOrOut = 0xEE\<rparr>] w;
                    w \<leftarrow> nubSubmitRequestAndBlock D r w;
                    q \<leftarrow> requests w r;
                    let success = (commandsCount q = 2);
                    w \<leftarrow> nubFreeRequest D r w;
                    Some (success, w) } }"

text \<open>The last three arguments are what \<open>getProperty\<close> answers for the three options.\<close>

definition kb_start ::
  "('h, 'z) kbd_scheme nub \<Rightarrow> bool \<Rightarrow> bool \<Rightarrow> bool \<Rightarrow> bool \<Rightarrow> ('h, 'z) kbd_scheme
     \<Rightarrow> (bool \<times> ('h, 'z) kbd_scheme) option" where
  "kb_start D superOk capsIsControl swapAltWindows saveScreenshot w =
     (if \<not> superOk then Some (False, w)
      else do { let w = emit (RetainDevice KeyboardDriver) (w\<lparr>kb_device := True\<rparr>);
                let w = w\<lparr>kb_emacsMode := capsIsControl, kb_macintoshMode := swapAltWindows,
                          kb_saveSS := saveScreenshot\<rparr>;
                let w = nubInstallInterruptAction D KeyboardDriver KeyboardDriver w;
                let w = w\<lparr>kb_interruptHandlerInstalled := True\<rparr>;
                w \<leftarrow> kb_setLEDs D (kb_ledState w) w;
                w \<leftarrow> kb_setCommandByte D (kCB_EnableKeyboardIRQ OR kCB_TranslateMode)
                        kCB_DisableKeyboardClock w;
                w \<leftarrow> kb_setKeyboardEnable D True w;
                let w = nubInstallPowerControlAction D KeyboardDriver KeyboardDriver w;
                let w = w\<lparr>kb_powerControlHandlerInstalled := True\<rparr>;
                Some (True, w) })"

definition kb_stop ::
  "('h, 'z) kbd_scheme nub \<Rightarrow> ('h, 'z) kbd_scheme \<Rightarrow> ('h, 'z) kbd_scheme option" where
  "kb_stop D w =
     do { w \<leftarrow> kb_setKeyboardEnable D False w;
          w \<leftarrow> kb_setCommandByte D kCB_DisableKeyboardClock kCB_EnableKeyboardIRQ w;
          w \<leftarrow> (if kb_interruptHandlerInstalled w then nubUninstallInterruptAction D w else Some w);
          let w = w\<lparr>kb_interruptHandlerInstalled := False\<rparr>;
          w \<leftarrow> (if kb_powerControlHandlerInstalled w then nubUninstallPowerControlAction D w
                else Some w);
          let w = w\<lparr>kb_powerControlHandlerInstalled := False\<rparr>;
          let w = emit (ReleaseDevice KeyboardDriver) w;
          let w = w\<lparr>kb_device := False\<rparr>;
          Some (emit (SuperStop KeyboardDriver) w) }"

definition kb_setDevicePowerState ::
  "('h, 'z) kbd_scheme nub \<Rightarrow> PS2PowerControl \<Rightarrow> ('h, 'z) kbd_scheme
     \<Rightarrow> ('h, 'z) kbd_scheme option" where
  "kb_setDevicePowerState D whatToDo w =
     (case whatToDo of
        kPS2C_DisableDevice \<Rightarrow>
          do { w \<leftarrow> kb_setKeyboardEnable D False w;
               w \<leftarrow> kb_setCommandByte D kCB_DisableKeyboardClock kCB_EnableKeyboardIRQ w;
               w \<leftarrow> (if kb_interruptHandlerInstalled w then nubUninstallInterruptAction D w
                     else Some w);
               Some (w\<lparr>kb_interruptHandlerInstalled := False\<rparr>) }
      | kPS2C_EnableDevice \<Rightarrow>
          do { let w = nubInstallInterruptAction D KeyboardDriver KeyboardDriver w;
               let w = w\<lparr>kb_interruptHandlerInstalled := True\<rparr>;
               w \<leftarrow> kb_setLEDs D (kb_ledState w) w;
               w \<leftarrow> kb_setCommandByte D (kCB_EnableKeyboardIRQ OR kCB_TranslateMode)
                       kCB_DisableKeyboardClock w;
               kb_setKeyboardEnable D True w })"

end
