(* ===== verification/PS2_Mouse.thy ===== *)
theory PS2_Mouse
  imports PS2_Keyboard
begin

text \<open>
  The mouse driver, \<^verbatim>\<open>ApplePS2Mouse\<close>: packet framing and decoding, mode detection, the
  command sequences, and the life cycle. An unexpected byte makes the interrupt handler
  reset the mouse synchronously, so the handler itself submits blocking requests.
\<close>

section \<open>Definitions\<close>

subsection \<open>State\<close>

definition kPacketLengthMax :: nat where [ps2_consts]: "kPacketLengthMax = 4"
definition kPacketLengthStandard :: u32 where [ps2_consts]: "kPacketLengthStandard = 3"
definition kPacketLengthIntellimouse :: u32 where [ps2_consts]: "kPacketLengthIntellimouse = 4"

datatype PS2MouseId = kMouseTypeStandard | kMouseTypeIntellimouse | kMouseTypeIntellimouseExplorer

text \<open>The numeric value of the enumeration's constants.\<close>

definition mouseIdValue :: "PS2MouseId \<Rightarrow> u8" where
  "mouseIdValue t =
     (case t of kMouseTypeStandard \<Rightarrow> 0x00 | kMouseTypeIntellimouse \<Rightarrow> 0x03
              | kMouseTypeIntellimouseExplorer \<Rightarrow> 0x04)"

record 'h mouse = "'h kbd" +
  ms_device :: bool
  ms_interruptHandlerInstalled :: bool
  ms_powerControlHandlerInstalled :: bool
  ms_packetBuffer :: "u8 list"
  ms_packetByteCount :: u32
  ms_packetLength :: u32
  ms_resolution :: u32
  ms_type :: PS2MouseId
  ms_buttonCount :: u32
  ms_mouseInfoBytes :: u32
  ms_mouseResetCount :: u32

subsection \<open>Decoding a packet\<close>

definition packetButtons :: "u8 list \<Rightarrow> u32" where
  "packetButtons packet =
     (let buttons = 0;
          buttons = (if packet ! 0 AND 0x1 \<noteq> 0 then buttons OR 0x1 else buttons);
          buttons = (if packet ! 0 AND 0x2 \<noteq> 0 then buttons OR 0x2 else buttons);
          buttons = (if packet ! 0 AND 0x4 \<noteq> 0 then buttons OR 0x4 else buttons)
      in buttons)"

definition packetDx :: "u8 list \<Rightarrow> u32" where
  "packetDx packet = (if packet ! 0 AND 0x10 \<noteq> 0 then 0xffffff00 else 0) OR ucast (packet ! 1)"

definition packetDy :: "u8 list \<Rightarrow> u32" where
  "packetDy packet = - ((if packet ! 0 AND 0x20 \<noteq> 0 then 0xffffff00 else 0) OR ucast (packet ! 2))"

text \<open>\<open>(SInt16)(((SInt8)(packet[3] << 4)) >> 4)\<close>, the shift to the right being arithmetic.\<close>

definition packetDz :: "u8 list \<Rightarrow> u16" where
  "packetDz packet = scast (signed_drop_bit 4 (push_bit 4 (packet ! 3)))"

definition explorerButtons :: "u8 list \<Rightarrow> u32 \<Rightarrow> u32" where
  "explorerButtons packet buttons =
     (let buttons = (if packet ! 3 AND 0x10 \<noteq> 0 then buttons OR 0x8 else buttons)
      in if packet ! 3 AND 0x20 \<noteq> 0 then buttons OR 0x10 else buttons)"

definition ms_dispatchPacket ::
  "('h, 'w) env \<Rightarrow> u8 list \<Rightarrow> u32 \<Rightarrow> ('h, 'z) mouse_scheme \<Rightarrow> ('h, 'z) mouse_scheme" where
  "ms_dispatchPacket E packet packetSize w =
     (let buttons = packetButtons packet; dx = packetDx packet; dy = packetDy packet;
          now = uptime E (hw w)
      in if packetSize > 3 then
           let buttons = (if ms_type w = kMouseTypeIntellimouseExplorer
                          then explorerButtons packet buttons else buttons);
               w = emit (PointerEvent dx dy buttons now) w;
               dz = packetDz packet
           in if dz \<noteq> 0 then emit (ScrollEvent (- dz) 0 0 now) w else w
         else emit (PointerEvent dx dy buttons now) w)"

subsection \<open>Command sequences\<close>

definition mouse_command :: "u8 \<Rightarrow> PS2Command list" where
  "mouse_command b =
     [\<lparr>command = kPS2C_WriteCommandPort, inOrOut = kCP_TransmitToMouse\<rparr>,
      \<lparr>command = kPS2C_WriteDataPort, inOrOut = b\<rparr>,
      \<lparr>command = kPS2C_ReadDataPortAndCompare, inOrOut = kSC_Acknowledge\<rparr>]"

definition read_command :: PS2Command where
  "read_command = \<lparr>command = kPS2C_ReadDataPort, inOrOut = 0\<rparr>"

definition ms_setMouseEnable ::
  "('h, 'z) mouse_scheme nub \<Rightarrow> bool \<Rightarrow> ('h, 'z) mouse_scheme \<Rightarrow> ('h, 'z) mouse_scheme option" where
  "ms_setMouseEnable D enable w =
     do { (_, w) \<leftarrow> send_blocking D
                      (mouse_command (if enable then kDP_Enable else kDP_SetDefaultsAndDisable)) w;
          Some w }"

definition ms_setMouseSampleRate ::
  "('h, 'z) mouse_scheme nub \<Rightarrow> u8 \<Rightarrow> ('h, 'z) mouse_scheme \<Rightarrow> ('h, 'z) mouse_scheme option" where
  "ms_setMouseSampleRate D sampleRate w =
     send_async D (mouse_command kDP_SetMouseSampleRate @ mouse_command sampleRate) w"

definition ms_setMouseResolution ::
  "('h, 'z) mouse_scheme nub \<Rightarrow> u8 \<Rightarrow> ('h, 'z) mouse_scheme \<Rightarrow> ('h, 'z) mouse_scheme option" where
  "ms_setMouseResolution D resolution w =
     send_async D (mouse_command kDP_SetMouseResolution @ mouse_command resolution) w"

definition informationBytes :: "PS2Request \<Rightarrow> u32" where
  "informationBytes q =
     (if commandsCount q = 6
      then push_bit 16 (ucast (inOrOut (commands q ! 3))) OR
           push_bit 8 (ucast (inOrOut (commands q ! 4))) OR ucast (inOrOut (commands q ! 5))
      else - 1)"

definition ms_getMouseInformation ::
  "('h, 'z) mouse_scheme nub \<Rightarrow> ('h, 'z) mouse_scheme \<Rightarrow> (u32 \<times> ('h, 'z) mouse_scheme) option" where
  "ms_getMouseInformation D w =
     do { (q, w) \<leftarrow> send_blocking D (mouse_command kDP_GetMouseInformation @
                       [read_command, read_command, read_command]) w;
          Some (informationBytes q, w) }"

definition ms_getMouseID ::
  "('h, 'z) mouse_scheme nub \<Rightarrow> ('h, 'z) mouse_scheme \<Rightarrow> (u8 \<times> ('h, 'z) mouse_scheme) option" where
  "ms_getMouseID D w =
     do { (q, w) \<leftarrow> send_blocking D (mouse_command kDP_GetId @ [read_command]) w;
          Some (if commandsCount q = 4 then inOrOut (commands q ! 3) else - 1, w) }"

definition ms_setCommandByte ::
  "('h, 'z) mouse_scheme nub \<Rightarrow> u8 \<Rightarrow> u8 \<Rightarrow> ('h, 'z) mouse_scheme
     \<Rightarrow> ('h, 'z) mouse_scheme option" where
  "ms_setCommandByte D setBits clearBits w = readModifyWriteCommandByte D setBits clearBits w"

definition ms_setIntellimouseMode ::
  "('h, 'z) mouse_scheme nub \<Rightarrow> ('h, 'z) mouse_scheme
     \<Rightarrow> (PS2MouseId \<times> ('h, 'z) mouse_scheme) option" where
  "ms_setIntellimouseMode D w =
     do { w \<leftarrow> ms_setMouseSampleRate D 200 w;
          w \<leftarrow> ms_setMouseSampleRate D 100 w;
          w \<leftarrow> ms_setMouseSampleRate D 80 w;
          let w = emit (SleepMilliseconds 50) w;
          (mouseIDByte, w) \<leftarrow> ms_getMouseID D w;
          let mouseID = (if mouseIDByte = mouseIdValue kMouseTypeIntellimouseExplorer
                         then kMouseTypeIntellimouseExplorer
                         else if mouseIDByte = mouseIdValue kMouseTypeIntellimouse
                         then kMouseTypeIntellimouse
                         else kMouseTypeStandard);
          (mouseID, w) \<leftarrow>
            (if mouseID = kMouseTypeIntellimouse
             then do { w \<leftarrow> ms_setMouseSampleRate D 200 w;
                       w \<leftarrow> ms_setMouseSampleRate D 200 w;
                       w \<leftarrow> ms_setMouseSampleRate D 80 w;
                       let w = emit (SleepMilliseconds 50) w;
                       (mouseIDByte, w) \<leftarrow> ms_getMouseID D w;
                       Some (if mouseIDByte = mouseIdValue kMouseTypeIntellimouseExplorer
                             then kMouseTypeIntellimouseExplorer
                             else kMouseTypeIntellimouse, w) }
             else Some (mouseID, w));
          w \<leftarrow> ms_setMouseSampleRate D (ucast (ms_mouseInfoBytes w AND 0x0000FF)) w;
          Some (mouseID, w) }"

definition resolutionOfInformation :: "u32 \<Rightarrow> u32" where
  "resolutionOfInformation infoBytes =
     (let r = infoBytes AND 0x00FF00
      in if r = 0x0000 then push_bit 16 25
         else if r = 0x0100 then push_bit 16 50
         else if r = 0x0200 then push_bit 16 100
         else if r = 0x0300 then push_bit 16 200
         else push_bit 16 150)"

definition ms_setMode ::
  "PS2MouseId \<Rightarrow> ('h, 'z) mouse_scheme \<Rightarrow> ('h, 'z) mouse_scheme" where
  "ms_setMode type w =
     (if type \<noteq> kMouseTypeStandard then
        (let w = w\<lparr>ms_packetLength := kPacketLengthIntellimouse, ms_type := type\<rparr>;
             w = w\<lparr>ms_buttonCount :=
                     (if ms_type w = kMouseTypeIntellimouseExplorer then 5 else 3)\<rparr>
         in emit (SetScrollResolution (push_bit 16 10)) w)
      else
        emit RemoveScrollResolution
          (w\<lparr>ms_packetLength := kPacketLengthStandard, ms_type := kMouseTypeStandard,
             ms_buttonCount := 3\<rparr>))"

definition ms_resetMouse ::
  "('h, 'z) mouse_scheme nub \<Rightarrow> ('h, 'z) mouse_scheme \<Rightarrow> ('h, 'z) mouse_scheme option" where
  "ms_resetMouse D w =
     do { (_, w) \<leftarrow> send_blocking D
                      [\<lparr>command = kPS2C_SendMouseCommandAndCompareAck, inOrOut = kDP_SetDefaults\<rparr>] w;
          w \<leftarrow> (if ms_mouseInfoBytes w = - 1
                then do { (info, w) \<leftarrow> ms_getMouseInformation D w;
                          Some (w\<lparr>ms_mouseInfoBytes := info,
                                  ms_resolution := resolutionOfInformation info\<rparr>) }
                else ms_setMouseResolution D (ucast (drop_bit 8 (ms_mouseInfoBytes w))) w);
          (type, w) \<leftarrow> ms_setIntellimouseMode D w;
          let w = ms_setMode type w;
          let w = w\<lparr>ms_packetByteCount := 0\<rparr>;
          w \<leftarrow> ms_setCommandByte D kCB_EnableMouseIRQ kCB_DisableMouseClock w;
          ms_setMouseEnable D True w }"

definition ms_scheduleMouseReset ::
  "('h, 'z) mouse_scheme nub \<Rightarrow> ('h, 'z) mouse_scheme \<Rightarrow> ('h, 'z) mouse_scheme option" where
  "ms_scheduleMouseReset D w =
     do { w \<leftarrow> ms_setMouseEnable D False w; ms_resetMouse D w }"

subsection \<open>Interrupts\<close>

text \<open>A store outside the packet buffer hits memory that the driver does not own.\<close>

definition ms_storeByte ::
  "u8 \<Rightarrow> ('h, 'z) mouse_scheme \<Rightarrow> ('h, 'z) mouse_scheme option" where
  "ms_storeByte b w =
     (if unat (ms_packetByteCount w) < length (ms_packetBuffer w)
      then Some (w\<lparr>ms_packetBuffer := (ms_packetBuffer w)[unat (ms_packetByteCount w) := b],
                   ms_packetByteCount := ms_packetByteCount w + 1\<rparr>)
      else None)"

definition ms_interruptOccurred ::
  "('h, 'w) env \<Rightarrow> ('h, 'z) mouse_scheme nub \<Rightarrow> u8 \<Rightarrow> ('h, 'z) mouse_scheme
     \<Rightarrow> ('h, 'z) mouse_scheme option" where
  "ms_interruptOccurred E D datum w =
     (if ms_packetByteCount w = 0 \<and> (datum = kSC_Acknowledge \<or> datum AND 0x08 = 0) then
        (let w = emit (IOLog LogUnexpectedData) w
         in if ms_mouseResetCount w < 5
            then ms_scheduleMouseReset D (w\<lparr>ms_mouseResetCount := ms_mouseResetCount w + 1\<rparr>)
            else Some w)
      else
        do { w \<leftarrow> ms_storeByte datum w;
             if ms_packetByteCount w = ms_packetLength w then
               let w = ms_dispatchPacket E (ms_packetBuffer w) (ms_packetLength w) w
               in Some (w\<lparr>ms_packetByteCount := 0, ms_mouseResetCount := 0\<rparr>)
             else if ms_packetByteCount w = 2 \<and> ms_packetBuffer w ! 0 = 0xAA
             then ms_scheduleMouseReset D w
             else Some w })"

subsection \<open>Life cycle and power\<close>

definition ms_init :: "bool \<Rightarrow> ('h, 'z) mouse_scheme \<Rightarrow> bool \<times> ('h, 'z) mouse_scheme" where
  "ms_init superOk w =
     (if \<not> superOk then (False, w)
      else (True, w\<lparr>ms_device := False, ms_interruptHandlerInstalled := False,
                    ms_packetByteCount := 0, ms_packetLength := kPacketLengthStandard,
                    ms_resolution := push_bit 16 150, ms_type := kMouseTypeStandard,
                    ms_buttonCount := 3, ms_mouseInfoBytes := - 1\<rparr>))"

definition ms_probe ::
  "('h, 'z) mouse_scheme nub \<Rightarrow> bool \<Rightarrow> ('h, 'z) mouse_scheme
     \<Rightarrow> (bool \<times> ('h, 'z) mouse_scheme) option" where
  "ms_probe D superOk w =
     do { let (r, w) = nubAllocateRequest D w;
          if \<not> superOk then Some (False, w)
          else do { w \<leftarrow> fill_request r (mouse_command kDP_GetMouseInformation @
                           [read_command, read_command, read_command]) w;
                    w \<leftarrow> nubSubmitRequestAndBlock D r w;
                    q \<leftarrow> requests w r;
                    let success = (commandsCount q = 6);
                    w \<leftarrow> nubFreeRequest D r w;
                    Some (success, w) } }"

definition ms_start ::
  "('h, 'z) mouse_scheme nub \<Rightarrow> bool \<Rightarrow> ('h, 'z) mouse_scheme
     \<Rightarrow> (bool \<times> ('h, 'z) mouse_scheme) option" where
  "ms_start D superOk w =
     (if \<not> superOk then Some (False, w)
      else do { let w = emit (RetainDevice MouseDriver) (w\<lparr>ms_device := True\<rparr>);
                w \<leftarrow> ms_resetMouse D w;
                let w = nubInstallInterruptAction D MouseDriver MouseDriver w;
                let w = w\<lparr>ms_interruptHandlerInstalled := True\<rparr>;
                let w = nubInstallPowerControlAction D MouseDriver MouseDriver w;
                let w = w\<lparr>ms_powerControlHandlerInstalled := True\<rparr>;
                Some (True, w) })"

definition ms_stop ::
  "('h, 'z) mouse_scheme nub \<Rightarrow> ('h, 'z) mouse_scheme \<Rightarrow> ('h, 'z) mouse_scheme option" where
  "ms_stop D w =
     do { w \<leftarrow> ms_setMouseEnable D False w;
          w \<leftarrow> ms_setCommandByte D kCB_DisableMouseClock kCB_EnableMouseIRQ w;
          w \<leftarrow> (if ms_interruptHandlerInstalled w then nubUninstallInterruptAction D w else Some w);
          let w = w\<lparr>ms_interruptHandlerInstalled := False\<rparr>;
          w \<leftarrow> (if ms_powerControlHandlerInstalled w then nubUninstallPowerControlAction D w
                else Some w);
          let w = w\<lparr>ms_powerControlHandlerInstalled := False\<rparr>;
          let w = emit (ReleaseDevice MouseDriver) w;
          let w = w\<lparr>ms_device := False\<rparr>;
          Some (emit (SuperStop MouseDriver) w) }"

definition ms_setDevicePowerState ::
  "('h, 'z) mouse_scheme nub \<Rightarrow> PS2PowerControl \<Rightarrow> ('h, 'z) mouse_scheme
     \<Rightarrow> ('h, 'z) mouse_scheme option" where
  "ms_setDevicePowerState D whatToDo w =
     (case whatToDo of
        kPS2C_DisableDevice \<Rightarrow> ms_setMouseEnable D False w
      | kPS2C_EnableDevice \<Rightarrow> ms_resetMouse D w)"

end
