(* ===== verification/PS2_ALPS.thy ===== *)
theory PS2_ALPS
  imports PS2_Mouse
begin

text \<open>
  The driver for ALPS touch pads, \<^verbatim>\<open>ApplePS2ALPSGlidePoint\<close>: identification, packet framing
  and decoding, and the command sequences. It registers on the mouse nub in place of
  the mouse driver.
\<close>

section \<open>Definitions\<close>

subsection \<open>State\<close>

definition kTapEnabled :: u8 where [ps2_consts]: "kTapEnabled = 0x01"

record 'h alps = "'h mouse" +
  al_device :: bool
  al_interruptHandlerInstalled :: bool
  al_powerControlHandlerInstalled :: bool
  al_packetBuffer :: "u8 list"
  al_packetByteCount :: u32
  al_resolution :: u32
  al_touchPadVersion :: u16
  al_touchPadModeByte :: u8

subsection \<open>Identification\<close>

definition alps_singles :: "(u8 \<times> u8 \<times> u8) list" where
  "alps_singles =
     [(0x33, 0x2, 0xa), (0x53, 0x2, 0x0a), (0x53, 0x2, 0x14), (0x63, 0x2, 0xa), (0x63, 0x2, 0x14),
      (0x63, 0x2, 0x28), (0x63, 0x2, 0x3c), (0x63, 0x2, 0x50), (0x63, 0x2, 0x64)]"

definition alps_duals :: "(u8 \<times> u8 \<times> u8) list" where
  "alps_duals = [(0x20, 0x2, 0xe), (0x22, 0x2, 0xa), (0x22, 0x2, 0x14)]"

text \<open>The two loops stop at the first row that matches.\<close>

fun matchesRow :: "(u8 \<times> u8 \<times> u8) list \<Rightarrow> u8 \<Rightarrow> u8 \<Rightarrow> u8 \<Rightarrow> bool" where
  "matchesRow [] byte0 byte1 byte2 = False"
| "matchesRow ((r0, r1, r2) # rows) byte0 byte1 byte2 =
     (if byte0 = r0 \<and> byte1 = r1 \<and> byte2 = r2 then True else matchesRow rows byte0 byte1 byte2)"

definition IsItALPS :: "u8 \<Rightarrow> u8 \<Rightarrow> u8 \<Rightarrow> bool" where
  "IsItALPS byte0 byte1 byte2 =
     (let success = matchesRow alps_singles byte0 byte1 byte2
      in if success = False then matchesRow alps_duals byte0 byte1 byte2 else success)"

subsection \<open>Command sequences\<close>

definition ack_command :: "u8 \<Rightarrow> PS2Command" where
  "ack_command b = \<lparr>command = kPS2C_SendMouseCommandAndCompareAck, inOrOut = b\<rparr>"

definition al_setSampleRateAndResolution ::
  "('h, 'z) alps_scheme nub \<Rightarrow> ('h, 'z) alps_scheme \<Rightarrow> ('h, 'z) alps_scheme option" where
  "al_setSampleRateAndResolution D w =
     do { (_, w) \<leftarrow> send_blocking D
            (map ack_command [kDP_SetDefaultsAndDisable, kDP_SetMouseSampleRate, 100,
               kDP_SetMouseResolution, 2, kDP_Enable]) w;
          Some w }"

definition tapSequence :: "bool \<Rightarrow> PS2Command list" where
  "tapSequence enable =
     map ack_command
       ([kDP_SetMouseScaling2To1, kDP_SetMouseScaling2To1, kDP_SetMouseScaling2To1,
         kDP_SetDefaultsAndDisable, kDP_GetMouseInformation, kDP_SetDefaultsAndDisable,
         kDP_SetDefaultsAndDisable] @
        (if enable then [kDP_SetMouseSampleRate, 0x0A] else [kDP_SetMouseResolution, 0x00]) @
        [kDP_SetMouseScaling1To1, kDP_SetMouseScaling1To1, kDP_SetMouseScaling1To1,
         kDP_SetDefaultsAndDisable, kDP_Enable])"

text \<open>The request is released only after the nested sequence has been sent.\<close>

definition al_setTapEnable ::
  "('h, 'z) alps_scheme nub \<Rightarrow> bool \<Rightarrow> ('h, 'z) alps_scheme \<Rightarrow> ('h, 'z) alps_scheme option" where
  "al_setTapEnable D enable w =
     do { let (r, w) = nubAllocateRequest D w;
          w \<leftarrow> fill_request r (tapSequence enable) w;
          w \<leftarrow> nubSubmitRequestAndBlock D r w;
          q \<leftarrow> requests w r;
          w \<leftarrow> (if commandsCount q = 14 then al_setSampleRateAndResolution D w else Some w);
          nubFreeRequest D r w }"

definition al_setTouchPadEnable ::
  "('h, 'z) alps_scheme nub \<Rightarrow> bool \<Rightarrow> ('h, 'z) alps_scheme \<Rightarrow> ('h, 'z) alps_scheme option" where
  "al_setTouchPadEnable D enable w =
     send_async D
       (map ack_command [kDP_SetDefaultsAndDisable, kDP_SetDefaultsAndDisable,
          kDP_SetDefaultsAndDisable, kDP_SetDefaultsAndDisable,
          if enable then kDP_Enable else kDP_SetDefaultsAndDisable]) w"

definition al_setCommandByte ::
  "('h, 'z) alps_scheme nub \<Rightarrow> u8 \<Rightarrow> u8 \<Rightarrow> ('h, 'z) alps_scheme \<Rightarrow> ('h, 'z) alps_scheme option" where
  "al_setCommandByte D setBits clearBits w = readModifyWriteCommandByte D setBits clearBits w"

subsection \<open>Interrupts\<close>

definition al_dispatchPacket ::
  "('h, 'w) env \<Rightarrow> u8 list \<Rightarrow> ('h, 'z) alps_scheme \<Rightarrow> ('h, 'z) alps_scheme" where
  "al_dispatchPacket E packet w =
     emit (PointerEvent (packetDx packet) (packetDy packet) (packetButtons packet)
             (uptime E (hw w))) w"

definition al_interruptOccurred ::
  "('h, 'w) env \<Rightarrow> u8 \<Rightarrow> ('h, 'z) alps_scheme \<Rightarrow> ('h, 'z) alps_scheme option" where
  "al_interruptOccurred E datum w =
     (if al_packetByteCount w = 0 \<and> (datum = kSC_Acknowledge \<or> datum AND 0x08 = 0) then Some w
      else if unat (al_packetByteCount w) < length (al_packetBuffer w) then
        (let w = w\<lparr>al_packetBuffer := (al_packetBuffer w)[unat (al_packetByteCount w) := datum],
                   al_packetByteCount := al_packetByteCount w + 1\<rparr>
         in if al_packetByteCount w = 3
            then Some ((al_dispatchPacket E (al_packetBuffer w) w)\<lparr>al_packetByteCount := 0\<rparr>)
            else Some w)
      else None)"

subsection \<open>Life cycle, properties and power\<close>

definition al_init :: "bool \<Rightarrow> ('h, 'z) alps_scheme \<Rightarrow> bool \<times> ('h, 'z) alps_scheme" where
  "al_init superOk w =
     (if \<not> superOk then (False, w)
      else (True, w\<lparr>al_device := False, al_interruptHandlerInstalled := False,
                    al_packetByteCount := 0, al_resolution := push_bit 16 100,
                    al_touchPadModeByte := kTapEnabled\<rparr>))"

definition al_probe ::
  "('h, 'z) alps_scheme nub \<Rightarrow> bool \<Rightarrow> ('h, 'z) alps_scheme
     \<Rightarrow> (bool \<times> ('h, 'z) alps_scheme) option" where
  "al_probe D superOk w =
     do { let (r, w) = nubAllocateRequest D w;
          if \<not> superOk then Some (False, w)
          else do { w \<leftarrow> fill_request r
                      (map ack_command [kDP_SetDefaultsAndDisable, kDP_SetMouseSampleRate, 100,
                         kDP_SetMouseResolution, 0, kDP_SetMouseScaling2To1,
                         kDP_SetMouseScaling2To1, kDP_SetMouseScaling2To1,
                         kDP_GetMouseInformation] @
                       [read_command, read_command, read_command,
                        ack_command kDP_SetDefaultsAndDisable]) w;
                    w \<leftarrow> nubSubmitRequestAndBlock D r w;
                    c0 \<leftarrow> command_at r 9 w;
                    c1 \<leftarrow> command_at r 10 w;
                    c2 \<leftarrow> command_at r 11 w;
                    let success = IsItALPS (inOrOut c0) (inOrOut c1) (inOrOut c2);
                    let w = w\<lparr>al_touchPadVersion :=
                              push_bit 8 (ucast (inOrOut c2 AND 0x0f)) OR ucast (inOrOut c0)\<rparr>;
                    w \<leftarrow> nubFreeRequest D r w;
                    Some (success, w) } }"

definition al_start ::
  "('h, 'z) alps_scheme nub \<Rightarrow> bool \<Rightarrow> ('h, 'z) alps_scheme
     \<Rightarrow> (bool \<times> ('h, 'z) alps_scheme) option" where
  "al_start D superOk w =
     (if \<not> superOk then Some (False, w)
      else do { let w = emit (RetainDevice ALPSDriver) (w\<lparr>al_device := True\<rparr>);
                let w = emit (IOLog (LogALPSVersion (ucast (drop_bit 8 (al_touchPadVersion w)))
                                                    (ucast (al_touchPadVersion w)))) w;
                w \<leftarrow> al_setTapEnable D (al_touchPadModeByte w \<noteq> 0) w;
                let gesturesEnabled = (if al_touchPadModeByte w = kTapEnabled then 1 else 0);
                let w = emit (SetClicking gesturesEnabled) w;
                let w = emit SetTrackpadAccelerationType w;
                let w = nubInstallInterruptAction D ALPSDriver ALPSDriver w;
                let w = w\<lparr>al_interruptHandlerInstalled := True\<rparr>;
                w \<leftarrow> al_setCommandByte D kCB_EnableMouseIRQ kCB_DisableMouseClock w;
                w \<leftarrow> al_setTouchPadEnable D True w;
                let w = nubInstallPowerControlAction D ALPSDriver ALPSDriver w;
                let w = w\<lparr>al_powerControlHandlerInstalled := True\<rparr>;
                Some (True, w) })"

definition al_stop ::
  "('h, 'z) alps_scheme nub \<Rightarrow> ('h, 'z) alps_scheme \<Rightarrow> ('h, 'z) alps_scheme option" where
  "al_stop D w =
     do { w \<leftarrow> al_setTouchPadEnable D False w;
          w \<leftarrow> al_setCommandByte D kCB_DisableMouseClock kCB_EnableMouseIRQ w;
          w \<leftarrow> (if al_interruptHandlerInstalled w then nubUninstallInterruptAction D w else Some w);
          let w = w\<lparr>al_interruptHandlerInstalled := False\<rparr>;
          w \<leftarrow> (if al_powerControlHandlerInstalled w then nubUninstallPowerControlAction D w
                else Some w);
          let w = w\<lparr>al_powerControlHandlerInstalled := False\<rparr>;
          Some (emit (SuperStop ALPSDriver) w) }"

definition al_free :: "('h, 'z) alps_scheme \<Rightarrow> ('h, 'z) alps_scheme" where
  "al_free w = (if al_device w then (emit (ReleaseDevice ALPSDriver) w)\<lparr>al_device := False\<rparr> else w)"

text \<open>
  \<open>clicking\<close> is the number that the dictionary has for \<open>Clicking\<close>, if it has one.
\<close>

definition al_setParamProperties ::
  "('h, 'z) alps_scheme nub \<Rightarrow> u64 option \<Rightarrow> ('h, 'z) alps_scheme
     \<Rightarrow> ('h, 'z) alps_scheme option" where
  "al_setParamProperties D clicking w =
     (case clicking of
        None \<Rightarrow> Some w
      | Some n \<Rightarrow>
          (let newModeByteValue = (if (ucast n :: u32) AND 0x1 \<noteq> 0 then kTapEnabled else 0)
           in if al_touchPadModeByte w \<noteq> newModeByteValue
              then do { let w = w\<lparr>al_touchPadModeByte := newModeByteValue\<rparr>;
                        w \<leftarrow> al_setTapEnable D (al_touchPadModeByte w \<noteq> 0) w;
                        Some (emit (SetClicking n) w) }
              else Some w))"

definition al_setDevicePowerState ::
  "('h, 'z) alps_scheme nub \<Rightarrow> PS2PowerControl \<Rightarrow> ('h, 'z) alps_scheme
     \<Rightarrow> ('h, 'z) alps_scheme option" where
  "al_setDevicePowerState D whatToDo w =
     (case whatToDo of
        kPS2C_DisableDevice \<Rightarrow> al_setTouchPadEnable D False w
      | kPS2C_EnableDevice \<Rightarrow>
          do { w \<leftarrow> al_setTapEnable D (al_touchPadModeByte w \<noteq> 0) w;
               w \<leftarrow> al_setCommandByte D kCB_EnableMouseIRQ kCB_DisableMouseClock w;
               al_setTouchPadEnable D True w })"

end
