(* ===== verification/PS2_Float.thy ===== *)
theory PS2_Float
  imports PS2_Prelude Complex_Main
begin

text \<open>
  The floating-point arithmetic of the touch pad driver. A \<open>float\<close> or \<open>double\<close> that is
  neither infinite nor a NaN is the rational number it denotes, and each operation is the
  exact one followed by rounding to the nearest value with 24 or 53 significant bits, ties
  to even. The driver's values stay far from the limits of the exponent, so that overflow
  and gradual underflow are not represented. A division by zero and a conversion to an
  integer type that does not hold the value have no result.
\<close>

section \<open>Definitions\<close>

function ilog2 :: "int \<Rightarrow> int" where
  "ilog2 n = (if n < 2 then 0 else 1 + ilog2 (n div 2))"
  by pat_completeness auto
termination by (relation "measure nat") auto

declare ilog2.simps [simp del]

definition pow2 :: "int \<Rightarrow> rat" where
  "pow2 e = (if 0 \<le> e then 2 ^ nat e else 1 / 2 ^ nat (- e))"

definition floor_log2 :: "rat \<Rightarrow> int" where
  "floor_log2 x =
     (let (n, d) = quotient_of x; k = ilog2 n - ilog2 d
      in if x < pow2 k then k - 1 else k)"

definition round_even :: "rat \<Rightarrow> int" where
  "round_even x =
     (let f = \<lfloor>x\<rfloor>; r = x - of_int f
      in if r < 1 / 2 \<or> (r = 1 / 2 \<and> even f) then f else f + 1)"

definition fl_round :: "int \<Rightarrow> rat \<Rightarrow> rat" where
  "fl_round p x =
     (if x = 0 then 0
      else let e = floor_log2 \<bar>x\<bar> - (p - 1) in of_int (round_even (x / pow2 e)) * pow2 e)"

text \<open>The types \<open>double\<close> and \<open>float\<close>: a literal, a sum, a product of one of them is rounded.\<close>

type_synonym double = rat

definition dbl :: "rat \<Rightarrow> double" where "dbl x = fl_round 53 x"
definition flt :: "rat \<Rightarrow> double" where "flt x = fl_round 24 x"

definition dbl_div :: "double \<Rightarrow> double \<Rightarrow> double option" where
  "dbl_div x y = (if y = 0 then None else Some (dbl (x / y)))"

text \<open>Conversions: from \<open>SInt32\<close> exactly, to \<open>SInt32\<close> and to \<open>short\<close> by dropping the fraction.\<close>

definition of_s32 :: "u32 \<Rightarrow> double" where
  "of_s32 x = of_int (sint x)"

definition truncate_toward_0 :: "double \<Rightarrow> int" where
  "truncate_toward_0 x = (if x < 0 then - \<lfloor>- x\<rfloor> else \<lfloor>x\<rfloor>)"

definition to_s32 :: "double \<Rightarrow> u32 option" where
  "to_s32 x =
     (let n = truncate_toward_0 x
      in if - 2147483648 \<le> n \<and> n < 2147483648 then Some (word_of_int n) else None)"

definition to_s16 :: "double \<Rightarrow> u16 option" where
  "to_s16 x =
     (let n = truncate_toward_0 x
      in if - 32768 \<le> n \<and> n < 32768 then Some (word_of_int n) else None)"

section \<open>Powers of two and logarithms\<close>

lemma pow2_pos [simp]: "0 < pow2 e"
  by (simp add: pow2_def)

lemma pow2_nonzero [simp]: "pow2 e \<noteq> 0"
  using pow2_pos [of e] by linarith

lemma pow2_nat: "pow2 (int n) = 2 ^ n"
  by (simp add: pow2_def)

lemma pow2_Suc: "pow2 (e + 1) = 2 * pow2 e"
proof (cases "0 \<le> e")
  case True
  then have "nat (e + 1) = Suc (nat e)" by simp
  with True show ?thesis by (simp add: pow2_def)
next
  case False
  show ?thesis
  proof (cases "e = - 1")
    case True
    then show ?thesis by (simp add: pow2_def)
  next
    case not_m1: False
    with False have "nat (- e) = Suc (nat (- (e + 1)))" by simp
    with False not_m1 show ?thesis by (simp add: pow2_def)
  qed
qed

lemma pow2_add: "pow2 (a + int n) = pow2 a * 2 ^ n"
proof (induction n)
  case (Suc n)
  have "pow2 (a + int (Suc n)) = pow2 ((a + int n) + 1)" by (simp add: ac_simps)
  with Suc show ?case by (simp add: pow2_Suc)
qed simp

lemma pow2_diff: "pow2 (a - b) = pow2 a / pow2 b"
proof (cases "b \<le> a")
  case True
  then obtain n where "a = b + int n" using zle_iff_zadd by auto
  then show ?thesis by (simp add: pow2_add pow2_nat)
next
  case False
  then obtain n where b: "b = a + int n" using zle_iff_zadd [of a b] by auto
  have "pow2 (- int n) = 1 / 2 ^ n" by (simp add: pow2_def)
  then show ?thesis by (simp add: b pow2_add)
qed

lemma ilog2_bounds:
  assumes "0 < n"
  shows "0 \<le> ilog2 n" and "2 ^ nat (ilog2 n) \<le> n" and "n < 2 * 2 ^ nat (ilog2 n)"
proof -
  have "0 \<le> ilog2 n \<and> 2 ^ nat (ilog2 n) \<le> n \<and> n < 2 * 2 ^ nat (ilog2 n)"
    using assms
  proof (induction n rule: ilog2.induct)
    case (1 n)
    show ?case
    proof (cases "n < 2")
      case True
      with 1(2) show ?thesis by (simp add: ilog2.simps [of n])
    next
      case False
      have IH: "0 \<le> ilog2 (n div 2)" "2 ^ nat (ilog2 (n div 2)) \<le> n div 2"
        "n div 2 < 2 * 2 ^ nat (ilog2 (n div 2))"
        using 1(1) [OF False] False by auto
      have "ilog2 n = 1 + ilog2 (n div 2)" using False by (simp add: ilog2.simps [of n])
      moreover have "nat (1 + ilog2 (n div 2)) = Suc (nat (ilog2 (n div 2)))" using IH(1) by simp
      moreover define p where "p = (2 :: int) ^ nat (ilog2 (n div 2))"
      moreover have "n = 2 * (n div 2) + n mod 2" "0 \<le> n mod 2" "n mod 2 < 2" by simp_all
      then have "2 * p \<le> n \<and> n < 4 * p" if "p \<le> n div 2" and "n div 2 < 2 * p"
        using that by linarith
      ultimately show ?thesis using IH by simp
    qed
  qed
  then show "0 \<le> ilog2 n" "2 ^ nat (ilog2 n) \<le> n" "n < 2 * 2 ^ nat (ilog2 n)" by auto
qed

lemma ilog2_pow2:
  assumes "0 < n"
  shows "pow2 (ilog2 n) \<le> of_int n" and "of_int n < 2 * pow2 (ilog2 n)"
proof -
  have "of_int (2 ^ nat (ilog2 n)) \<le> (of_int n :: rat)" "of_int n < (of_int (2 * 2 ^ nat (ilog2 n)) :: rat)"
    using ilog2_bounds [OF assms] by (simp_all only: of_int_le_iff of_int_less_iff)
  then show "pow2 (ilog2 n) \<le> of_int n" "of_int n < 2 * pow2 (ilog2 n)"
    using ilog2_bounds(1) [OF assms] by (simp_all add: pow2_def)
qed

lemma floor_log2_bounds:
  assumes "0 < x"
  shows "pow2 (floor_log2 x) \<le> x" and "x < 2 * pow2 (floor_log2 x)"
proof -
  obtain n d where q: "quotient_of x = (n, d)" by force
  then have d: "0 < d" by (rule quotient_of_denom_pos)
  have x: "x = of_int n / of_int d" using q by (rule quotient_of_div)
  have n: "0 < n" using assms d by (simp add: x zero_less_divide_iff)
  let ?k = "ilog2 n - ilog2 d"
  have k: "pow2 ?k = pow2 (ilog2 n) / pow2 (ilog2 d)" by (rule pow2_diff)
  note bn = ilog2_pow2 [OF n] and bd = ilog2_pow2 [OF d]
  have dpos: "(0 :: rat) < of_int d" using d by simp
  have "pow2 (ilog2 n) * of_int d \<le> of_int n * (2 * pow2 (ilog2 d))"
    using mult_mono [OF bn(1) less_imp_le [OF bd(2)]] n dpos by (simp add: less_imp_le)
  then have lo: "pow2 ?k / 2 \<le> x" using dpos by (simp add: k x field_simps)
  have "of_int n * pow2 (ilog2 d) < 2 * pow2 (ilog2 n) * of_int d"
    using mult_less_le_imp_less [OF bn(2) bd(1)] n by simp
  then have hi: "x < 2 * pow2 ?k" using dpos by (simp add: k x field_simps)
  have half: "pow2 (?k - 1) = pow2 ?k / 2" using pow2_diff [of ?k 1] by (simp add: pow2_def)
  show "pow2 (floor_log2 x) \<le> x"
    using lo half by (simp add: floor_log2_def q Let_def)
  show "x < 2 * pow2 (floor_log2 x)"
    using hi half by (simp add: floor_log2_def q Let_def)
qed

section \<open>Rounding\<close>

lemma round_even_error: "\<bar>of_int (round_even x) - x\<bar> \<le> 1 / 2"
proof -
  have "of_int \<lfloor>x\<rfloor> \<le> x" "x < of_int \<lfloor>x\<rfloor> + 1" by linarith+
  then show ?thesis by (auto simp: round_even_def Let_def)
qed

lemma round_even_of_int [simp]: "round_even (of_int n) = n"
  by (simp add: round_even_def)

lemma round_even_nonneg: "0 \<le> x \<Longrightarrow> 0 \<le> round_even x"
  by (simp add: round_even_def Let_def)

lemma fl_round_error:
  assumes "1 \<le> p"
  shows "\<bar>fl_round p x - x\<bar> \<le> \<bar>x\<bar> / 2 ^ nat p"
proof (cases "x = 0")
  case False
  define e where "e = floor_log2 \<bar>x\<bar> - (p - 1)"
  define r where "r = (of_int (round_even (x / pow2 e)) :: rat)"
  have fl: "fl_round p x = r * pow2 e" using False by (simp add: fl_round_def e_def r_def Let_def)
  have err: "\<bar>r - x / pow2 e\<bar> \<le> 1 / 2"
    unfolding r_def by (rule round_even_error)
  have "r * pow2 e - x = (r - x / pow2 e) * pow2 e" by (simp add: field_simps)
  then have "\<bar>r * pow2 e - x\<bar> = \<bar>r - x / pow2 e\<bar> * pow2 e"
    by (simp add: abs_mult abs_of_pos)
  also have "\<dots> \<le> (1 / 2) * pow2 e"
    using err by (rule mult_right_mono) (simp add: less_imp_le)
  also have "\<dots> \<le> \<bar>x\<bar> / 2 ^ nat p"
  proof -
    have "pow2 (e + int (nat p - 1)) \<le> \<bar>x\<bar>"
      using floor_log2_bounds(1) [of "\<bar>x\<bar>"] False assms by (simp add: e_def of_nat_diff)
    then have "pow2 e * 2 ^ (nat p - 1) \<le> \<bar>x\<bar>" by (simp add: pow2_add)
    moreover have "(2 :: rat) ^ nat p = 2 * 2 ^ (nat p - 1)"
      using assms by (cases "nat p") auto
    ultimately show ?thesis by (simp add: field_simps)
  qed
  finally show ?thesis by (simp add: fl)
qed (simp add: fl_round_def)

lemma fl_round_abs:
  assumes "1 \<le> p"
  shows "\<bar>fl_round p x\<bar> \<le> 2 * \<bar>x\<bar>"
proof -
  have "\<bar>x\<bar> / 2 ^ nat p \<le> \<bar>x\<bar> / 1"
    by (rule divide_left_mono) simp_all
  with fl_round_error [OF assms, of x] show ?thesis by linarith
qed

lemma fl_round_nonneg: "0 \<le> x \<Longrightarrow> 0 \<le> fl_round p x"
  by (auto simp: fl_round_def Let_def less_imp_le intro!: mult_nonneg_nonneg round_even_nonneg divide_nonneg_nonneg)

text \<open>Integers with at most as many bits as the significand are represented exactly.\<close>

lemma fl_round_of_int:
  assumes "1 \<le> p" and "\<bar>n\<bar> < 2 ^ nat p"
  shows "fl_round p (of_int n) = of_int n"
proof (cases "n = 0")
  case False
  define l where "l = floor_log2 \<bar>of_int n\<bar>"
  have pos: "(0 :: rat) < \<bar>of_int n\<bar>" using False by simp
  have "\<bar>n\<bar> \<le> 2 ^ nat p - 1" using assms(2) by simp
  have "l < p"
  proof (rule ccontr)
    assume "\<not> l < p"
    then obtain m where "l = p + int m" using zle_iff_zadd [of p l] by auto
    then have l: "l = int (nat p) + int m" using assms(1) by simp
    have "(2 :: rat) ^ nat p \<le> pow2 l"
      unfolding l pow2_add pow2_nat by (simp add: mult_le_cancel_left1)
    also have "\<dots> \<le> \<bar>of_int n\<bar>" unfolding l_def using pos by (rule floor_log2_bounds)
    finally have "of_int (2 ^ nat p) \<le> (of_int \<bar>n\<bar> :: rat)" by simp
    then show False using assms(2) by (simp only: of_int_le_iff)
  qed
  then obtain m where m: "p - 1 - l = int m" using zle_iff_zadd [of l "p - 1"] by auto
  define e where "e = l - (p - 1)"
  have e: "pow2 e = 1 / 2 ^ m"
  proof -
    have "e = - int m" using m by (simp add: e_def)
    then show ?thesis by (simp add: pow2_def)
  qed
  have "(of_int n :: rat) / pow2 e = of_int (n * 2 ^ m)" by (simp add: e)
  then have "round_even (of_int n / pow2 e) = n * 2 ^ m" by (simp only: round_even_of_int)
  then show ?thesis using False by (simp add: fl_round_def e_def [symmetric] l_def [symmetric] Let_def e)
qed (simp add: fl_round_def)

lemma dbl_of_int: "\<bar>n\<bar> < 2 ^ 53 \<Longrightarrow> dbl (of_int n) = of_int n"
  unfolding dbl_def by (rule fl_round_of_int) simp_all

lemma dbl_abs: "\<bar>dbl x\<bar> \<le> 2 * \<bar>x\<bar>"
  unfolding dbl_def by (rule fl_round_abs) simp

section \<open>Conversions\<close>

lemma truncate_toward_0_abs: "\<bar>of_int (truncate_toward_0 x)\<bar> \<le> \<bar>x\<bar>"
proof (cases "x < 0")
  case True
  then have "0 \<le> \<lfloor>- x\<rfloor>" "of_int \<lfloor>- x\<rfloor> \<le> - x" by simp_all
  with True show ?thesis by (simp add: truncate_toward_0_def)
qed (simp add: truncate_toward_0_def)

lemma sint_word_of_int:
  assumes "- (2 ^ (LENGTH('a) - 1)) \<le> n" and "n < 2 ^ (LENGTH('a) - 1)"
  shows "sint (word_of_int n :: 'a::len word) = n"
  using signed_take_bit_int_eq_self [OF assms] by (simp add: signed_of_int)

lemma truncate_toward_0_of_int [simp]: "truncate_toward_0 (of_int n) = n"
  by (simp add: truncate_toward_0_def flip: of_int_minus)

lemma to_s32_Some:
  assumes "\<bar>x\<bar> < 2147483648"
  shows "\<exists>n. to_s32 x = Some n \<and> sint n = truncate_toward_0 x"
proof -
  have "\<bar>of_int (truncate_toward_0 x) :: rat\<bar> < 2147483648"
    using truncate_toward_0_abs [of x] assms by linarith
  then have "(of_int \<bar>truncate_toward_0 x\<bar> :: rat) < of_int 2147483648" by simp
  then have *: "\<bar>truncate_toward_0 x\<bar> < 2147483648" by (simp only: of_int_less_iff)
  then have "sint (word_of_int (truncate_toward_0 x) :: u32) = truncate_toward_0 x"
    by (intro sint_word_of_int) simp_all
  moreover from * have "- 2147483648 \<le> truncate_toward_0 x" "truncate_toward_0 x < 2147483648" by linarith+
  ultimately show ?thesis by (simp add: to_s32_def Let_def)
qed

lemma to_s32_bound:
  assumes "to_s32 x = Some n" and "\<bar>x\<bar> \<le> of_int b"
  shows "\<bar>sint n\<bar> \<le> b"
proof -
  from assms(1) have "n = word_of_int (truncate_toward_0 x)"
    and "- 2147483648 \<le> truncate_toward_0 x" and "truncate_toward_0 x < 2147483648"
    by (auto simp: to_s32_def Let_def split: if_splits)
  then have "sint n = truncate_toward_0 x" by (simp add: sint_word_of_int)
  moreover have "(of_int \<bar>truncate_toward_0 x\<bar> :: rat) \<le> of_int b"
    using truncate_toward_0_abs [of x] assms(2) by simp
  ultimately show ?thesis by (simp only: of_int_le_iff)
qed

end
