(* ===== verification/PS2_SynapticsPad.thy ===== *)
theory PS2_SynapticsPad
  imports PS2_ALPS PS2_SynapticsTables
begin

text \<open>
  The data of \<^verbatim>\<open>ApplePS2SynapticsTouchPad\<close> and what it does with one packet: decoding of
  the absolute format, scaling and acceleration, counting of fingers, the event state
  machine with its settling, tapping and dragging rules, and the events that result. All of
  it works on the driver's own fields; the events and timer calls are returned as a list.
\<close>

section \<open>Constants\<close>

definition RELATIVE_PACKET_SIZE :: u8 where [ps2_consts]: "RELATIVE_PACKET_SIZE = 3"
definition ABSOLUTE_PACKET_SIZE :: u8 where [ps2_consts]: "ABSOLUTE_PACKET_SIZE = 6"
definition TAP_LENGTH_MIN :: u64 where [ps2_consts]: "TAP_LENGTH_MIN = 10000"
definition LEFT_CLICK :: u8 where [ps2_consts]: "LEFT_CLICK = 0x01"
definition RIGHT_CLICK :: u8 where [ps2_consts]: "RIGHT_CLICK = 0x02"
definition ABSOLUTE_X_MAX :: double where [ps2_consts]: "ABSOLUTE_X_MAX = 5312"
definition ABSOLUTE_Y_MIN :: double where [ps2_consts]: "ABSOLUTE_Y_MIN = 1568"
definition ABSOLUTE_MODE_BIT :: u8 where [ps2_consts]: "ABSOLUTE_MODE_BIT = 0x80"
definition RATE_MODE_BIT :: u8 where [ps2_consts]: "RATE_MODE_BIT = 0x40"
definition GESTURES_MODE_BIT :: u8 where [ps2_consts]: "GESTURES_MODE_BIT = 0x04"
definition W_MODE_BIT :: u8 where [ps2_consts]: "W_MODE_BIT = 0x01"
definition W_TWOFINGERS :: u8 where [ps2_consts]: "W_TWOFINGERS = 0"
definition W_THREEPLUS :: u8 where [ps2_consts]: "W_THREEPLUS = 1"
definition W_RESERVED :: u8 where [ps2_consts]: "W_RESERVED = 3"
definition W_FINGER_MIN :: u8 where [ps2_consts]: "W_FINGER_MIN = 4"
definition Z_LIGHT_FINGER :: u32 where [ps2_consts]: "Z_LIGHT_FINGER = 30"
definition DEFAULT_EVENT :: u8 where [ps2_consts]: "DEFAULT_EVENT = 0"
definition DRAGGING :: u8 where [ps2_consts]: "DRAGGING = 1"
definition SCROLLING :: u8 where [ps2_consts]: "SCROLLING = 2"
definition HORIZONTAL_SCROLLING :: u8 where [ps2_consts]: "HORIZONTAL_SCROLLING = 4"
definition VERTICAL_SCROLLING :: u8 where [ps2_consts]: "VERTICAL_SCROLLING = 8"
definition ZOOMING :: u8 where [ps2_consts]: "ZOOMING = 16"
definition MOVEMENT :: u8 where [ps2_consts]: "MOVEMENT = 32"
definition SWIPE :: u8 where [ps2_consts]: "SWIPE = 64"
definition kST_IdentifyTouchpad :: u8 where [ps2_consts]: "kST_IdentifyTouchpad = 0x00"
definition kST_getCapabilities :: u8 where [ps2_consts]: "kST_getCapabilities = 0x02"
definition kST_getModelID :: u8 where [ps2_consts]: "kST_getModelID = 0x03"
definition kST_getSerialNumberPrefix :: u8 where [ps2_consts]: "kST_getSerialNumberPrefix = 0x06"
definition kST_getSerialNumberSuffix :: u8 where [ps2_consts]: "kST_getSerialNumberSuffix = 0x07"
definition kST_getExtendedModelID :: u8 where [ps2_consts]: "kST_getExtendedModelID = 0x09"
definition SCROLL_MODE_NONE :: u8 where [ps2_consts]: "SCROLL_MODE_NONE = 0"
definition SCROLL_MODE_TWO_FINGER :: u8 where [ps2_consts]: "SCROLL_MODE_TWO_FINGER = 1"
definition SCROLL_MODE_EDGE :: u8 where [ps2_consts]: "SCROLL_MODE_EDGE = 2"
definition GESTURE_MODE_NONE :: u8 where [ps2_consts]: "GESTURE_MODE_NONE = 0"
definition GESTURE_MODE_SCROLL :: u8 where [ps2_consts]: "GESTURE_MODE_SCROLL = 1"

section \<open>The driver's fields\<close>

text \<open>
  The instance variables of the class. A pointer is "is not null". The preferences are in
  the second half. The object is cleared when it is allocated.
\<close>

record synaptics =
  tp_device :: bool
  tp_keyboard :: bool
  tp_interruptHandlerInstalled :: bool
  tp_powerControlHandlerInstalled :: bool
  tp_packetBuffer :: "u8 list"
  tp_packetByteCount :: u8
  tp_resolution :: u32
  tp_touchPadVersion :: u16
  tp_touchPadModeByte :: u8
  tp_touchpadIntormation :: u32
  tp_capabilties :: u16
  tp_extendedCapabilitied :: u32
  tp_modelId :: u32
  tp_event :: u8
  tp_serialNumber :: u64
  tp_scaleFactor :: double
  tp_tapped :: bool
  tp_dragging :: bool
  tp_dragLocked :: bool
  tp_streamdx :: u32
  tp_streamdy :: u32
  tp_dragTimeout :: bool
  tp_prevX :: u32
  tp_prevY :: u32
  tp_prevButtons :: u8
  tp_prevNumFingers :: u8
  tp_prevPacketTime :: u32
  tp_prevPacketSecond :: u32
  tp_streamdt :: u64
  tp_settleTime :: u32
  prefClickDelay :: u32
  prefReleaseDelay :: u32
  prefScrollMode :: u8
  prefGestureMode :: u8
  prefHysteresis :: double
  prefHorizScroll :: bool
  prefClicking :: bool
  prefDragging :: bool
  prefDragLock :: bool
  prefSecondaryClick :: bool
  prefSwapButtons :: bool
  prefIgnoreAccidental :: bool
  prefOneFingerThreshold :: double
  prefTwoFingerThreshold :: double
  prefThreeFingerThreshold :: double
  prefScrollArea :: double
  prefScrollSpeed :: double
  prefTrackSpeed :: double

text \<open>What the bits of the mode byte, of the capabilities and of the model mean.\<close>

definition ABSOLUTE_MODE :: "synaptics \<Rightarrow> bool" where
  "ABSOLUTE_MODE p \<longleftrightarrow> drop_bit 7 (tp_touchPadModeByte p AND ABSOLUTE_MODE_BIT) \<noteq> 0"

definition RELATIVE_MODE :: "synaptics \<Rightarrow> bool" where
  "RELATIVE_MODE p \<longleftrightarrow> \<not> ABSOLUTE_MODE p"

definition GESTURES :: "synaptics \<Rightarrow> u8" where
  "GESTURES p = drop_bit 2 (tp_touchPadModeByte p AND GESTURES_MODE_BIT)"

definition W_MODE :: "synaptics \<Rightarrow> bool" where
  "W_MODE p \<longleftrightarrow> tp_touchPadModeByte p AND W_MODE_BIT \<noteq> 0"

definition CAP_PALM_DETECT :: "synaptics \<Rightarrow> bool" where
  "CAP_PALM_DETECT p \<longleftrightarrow> tp_capabilties p AND 0x0001 \<noteq> 0"

definition CAP_MULTIFINGER :: "synaptics \<Rightarrow> bool" where
  "CAP_MULTIFINGER p \<longleftrightarrow> tp_capabilties p AND 0x0002 \<noteq> 0"

definition CAP_N_EXTENDED_QUERY :: "synaptics \<Rightarrow> u16" where
  "CAP_N_EXTENDED_QUERY p = drop_bit 12 (tp_capabilties p AND 0x7000)"

definition CAP_W_MODE :: "synaptics \<Rightarrow> bool" where
  "CAP_W_MODE p \<longleftrightarrow> tp_capabilties p AND 0x8000 \<noteq> 0"

definition EXT_PEAK_DETECT :: "synaptics \<Rightarrow> bool" where
  "EXT_PEAK_DETECT p \<longleftrightarrow> tp_extendedCapabilitied p AND 0x200000 \<noteq> 0"

definition EXT_W_MODE :: "synaptics \<Rightarrow> bool" where
  "EXT_W_MODE p \<longleftrightarrow> tp_extendedCapabilitied p AND 0x040000 \<noteq> 0"

definition INFO_SENSOR :: "synaptics \<Rightarrow> u32" where
  "INFO_SENSOR p = drop_bit 16 (tp_modelId p AND 0x3F0000)"

section \<open>One absolute packet\<close>

subsection \<open>Decoding\<close>

definition absButtons :: "bool \<Rightarrow> u8 list \<Rightarrow> u8" where
  "absButtons swap packet =
     (if \<not> swap then packet ! 0 AND 0x3
      else push_bit 1 (packet ! 0 AND 0x01) OR drop_bit 1 (packet ! 0 AND 0x02))"

definition absoluteX :: "u8 list \<Rightarrow> u32" where
  "absoluteX packet =
     ucast (packet ! 4) OR push_bit 8 (ucast (packet ! 1 AND 0x0F)) OR
     push_bit 8 (ucast (packet ! 3 AND 0x10))"

definition absoluteY :: "u8 list \<Rightarrow> u32" where
  "absoluteY packet =
     ucast (packet ! 5) OR push_bit 4 (ucast (packet ! 1 AND 0xF0)) OR
     push_bit 7 (ucast (packet ! 3 AND 0x20))"

definition absoluteW :: "synaptics \<Rightarrow> u8 list \<Rightarrow> u8" where
  "absoluteW p packet =
     (if W_MODE p
      then drop_bit 2 (packet ! 3 AND 0x4) OR drop_bit 2 (packet ! 0 AND 0x30) OR
           drop_bit 1 (packet ! 0 AND 0x4)
      else W_FINGER_MIN)"

subsection \<open>Scaling and acceleration\<close>

text \<open>\<open>ABS\<close>, which leaves the least number as it is, and comparisons of signed numbers.\<close>

definition ABS :: "u32 \<Rightarrow> u32" where
  "ABS a = (if a <s 0 then - a else a)"

definition scaleDelta :: "synaptics \<Rightarrow> u32 \<Rightarrow> u32 \<Rightarrow> (u32 \<times> u32) option" where
  "scaleDelta p absX absY =
     do { let dx = absX - tp_prevX p;
          let dy = absY - tp_prevY p;
          q \<leftarrow> dbl_div (of_s32 dy) (tp_scaleFactor p);
          dy \<leftarrow> to_s32 q;
          if tp_event p AND (SCROLLING OR VERTICAL_SCROLLING OR HORIZONTAL_SCROLLING) = 0 then
            do { dx \<leftarrow> to_s32 (dbl (of_s32 dx * prefTrackSpeed p));
                 dy \<leftarrow> to_s32 (dbl (of_s32 dy * prefTrackSpeed p));
                 Some (dx, dy) }
          else
            do { dx \<leftarrow> to_s32 (dbl (of_s32 (push_bit 1 dx) * prefScrollSpeed p));
                 dy \<leftarrow> to_s32 (dbl (of_s32 dy * prefScrollSpeed p));
                 Some (dx, dy) } }"

text \<open>An index into the table that is negative or too large is an access outside it.\<close>

definition table_at :: "u32 \<Rightarrow> u32 option" where
  "table_at i =
     (if 0 \<le> sint i \<and> nat (sint i) < length accelerationTable
      then Some (word_of_int (accelerationTable ! nat (sint i))) else None)"

definition accelerate :: "u32 \<Rightarrow> u32 option" where
  "accelerate d =
     (if ABS d <s 1867
      then do { t \<leftarrow> table_at (ABS d);
                Some (if ABS d = d then t else - 1 * t) }
      else Some d)"

subsection \<open>Counting fingers\<close>

definition fingerCount :: "synaptics \<Rightarrow> u8 \<Rightarrow> u8 \<Rightarrow> u8" where
  "fingerCount p pressureZ Wvalue =
     (let z = of_int (uint pressureZ);
          wz = of_int (uint Wvalue * uint pressureZ);
          one = prefOneFingerThreshold p;
          two = prefTwoFingerThreshold p;
          three = prefThreeFingerThreshold p;
          less = dbl (1 - prefHysteresis p)
      in if W_MODE p \<and> CAP_MULTIFINGER p then
           if z < one then 0
           else if Wvalue = W_TWOFINGERS then 2
           else if Wvalue = W_THREEPLUS then 3
           else 1
         else if W_MODE p then
           if tp_prevNumFingers p = 0 then
             if z < one then 0 else if wz < two then 1 else if wz < three then 2 else 3
           else if tp_prevNumFingers p = 1 then
             if z < dbl (one * less) then 0
             else if wz < two then 1 else if wz < three then 2 else 3
           else if tp_prevNumFingers p = 2 then
             if z < dbl (one * less) then 0
             else if wz < dbl (two * less) then 1 else if wz < three then 2 else 3
           else if tp_prevNumFingers p = 3 then
             if z < dbl (one * less) then 0
             else if wz < dbl (two * less) then 1
             else if Wvalue < 12 \<or> wz < dbl (three * less) then 2 else 3
           else 4
         else 1)"

definition gestureFingers :: "synaptics \<Rightarrow> u8 \<Rightarrow> u8" where
  "gestureFingers p numFingers =
     (if numFingers = 3 then
        if prefGestureMode p = GESTURE_MODE_NONE then 0
        else if prefGestureMode p = GESTURE_MODE_SCROLL then 2
        else numFingers
      else numFingers)"

subsection \<open>The event of this packet\<close>

definition fingersEvent :: "synaptics \<Rightarrow> u8 \<Rightarrow> u8" where
  "fingersEvent p numFingers =
     (if numFingers = 1 then MOVEMENT
      else if numFingers = 2 then
        (if prefScrollMode p = SCROLL_MODE_TWO_FINGER then SCROLLING else DEFAULT_EVENT)
      else if numFingers = 3 then SWIPE
      else DEFAULT_EVENT)"

definition selectEvent :: "synaptics \<Rightarrow> u64 \<Rightarrow> u8 \<Rightarrow> u8 \<Rightarrow> u8" where
  "selectEvent p dt numFingers Wvalue =
     (let prevEvent = tp_event p;
          event =
            (if dt > 20000 \<or> numFingers = 0 then DEFAULT_EVENT
             else if tp_event p AND (VERTICAL_SCROLLING OR HORIZONTAL_SCROLLING OR DRAGGING) \<noteq> 0
             then tp_event p
             else if W_MODE p \<and> \<not> CAP_MULTIFINGER p \<and> Wvalue < W_RESERVED then tp_event p
             else fingersEvent p numFingers)
      in if prevEvent = SWIPE \<and> tp_settleTime p \<noteq> 0 then SWIPE else event)"

text \<open>
  The rest works on the driver's fields, among them the event selected above, and on the
  local variables \<open>buttons\<close>, \<open>dx\<close> and \<open>dy\<close>; \<open>l_fired\<close> lists the events dispatched so far.
\<close>

record locals =
  l_buttons :: u8
  l_dx :: u32
  l_dy :: u32
  l_fired :: "effect list"

type_synonym packet_state = "locals \<times> synaptics"

definition fire :: "effect list \<Rightarrow> locals \<Rightarrow> locals" where
  "fire es l = l\<lparr>l_fired := l_fired l @ es\<rparr>"

definition halt :: "locals \<Rightarrow> locals" where
  "halt l = l\<lparr>l_dx := 0, l_dy := 0\<rparr>"

text \<open>Calls of the timer, which does not exist before \<open>start\<close> has created it.\<close>

definition setTimeoutUS :: "u32 \<Rightarrow> packet_state \<Rightarrow> packet_state option" where
  "setTimeoutUS us s = (if tp_dragTimeout (snd s) then Some (fire [SetTimeoutUS us] (fst s), snd s) else None)"

definition cancelTimeout :: "packet_state \<Rightarrow> packet_state option" where
  "cancelTimeout s = (if tp_dragTimeout (snd s) then Some (fire [CancelTimeout] (fst s), snd s) else None)"

definition TAPPING :: "synaptics \<Rightarrow> bool" where
  "TAPPING p \<longleftrightarrow>
     (tp_streamdt p < ucast (prefClickDelay p) \<and> tp_streamdt p > TAP_LENGTH_MIN) \<and>
     ABS (tp_streamdx p) \<le>s 50 \<and> ABS (tp_streamdy p) \<le>s 50"

subsection \<open>Swipes\<close>

datatype IOHIDSwipeMask = kIOHIDSwipeUp | kIOHIDSwipeDown | kIOHIDSwipeLeft | kIOHIDSwipeRight

definition dispatchSwipeEvent :: "IOHIDSwipeMask \<Rightarrow> u64 \<Rightarrow> packet_state \<Rightarrow> packet_state option" where
  "dispatchSwipeEvent swipeType now s =
     (let chord = (\<lambda>text key.
            if tp_keyboard (snd s)
            then Some (fire [IOLog (LogNote text),
                   KeyEvent 0x37 True (Some now), KeyEvent key True (Some now),
                   KeyEvent 0x37 False (Some now), KeyEvent key False (Some now)] (fst s), snd s)
            else None)
      in case swipeType of
           kIOHIDSwipeUp \<Rightarrow> Some s
         | kIOHIDSwipeDown \<Rightarrow> Some s
         | kIOHIDSwipeLeft \<Rightarrow> chord ''Swipe left'' 0x21
         | kIOHIDSwipeRight \<Rightarrow> chord ''Swipe right'' 0x1e)"

subsection \<open>Changes of the event\<close>

definition edgeScrolling :: "u8 \<Rightarrow> u32 \<Rightarrow> u32 \<Rightarrow> synaptics \<Rightarrow> synaptics" where
  "edgeScrolling prevEvent absX absY p =
     (if prevEvent = DEFAULT_EVENT \<and> prefScrollMode p = SCROLL_MODE_EDGE \<and>
         of_int (uint absX) > dbl (ABSOLUTE_X_MAX * dbl (1 - prefScrollArea p))
      then p\<lparr>tp_event := VERTICAL_SCROLLING\<rparr>
      else if prevEvent = DEFAULT_EVENT \<and> prefScrollMode p = SCROLL_MODE_EDGE \<and> prefHorizScroll p \<and>
         of_int (uint absY) < dbl (ABSOLUTE_Y_MIN * dbl (1 + dbl (prefScrollArea p / 2)))
      then p\<lparr>tp_event := HORIZONTAL_SCROLLING\<rparr>
      else p)"

definition scrollingCalculations :: "u8 \<Rightarrow> packet_state \<Rightarrow> packet_state" where
  "scrollingCalculations prevEvent s =
     (let (l, p) = s
      in if prevEvent \<noteq> SCROLLING \<or> tp_event p \<noteq> SCROLLING \<or> tp_settleTime p = 1 then (halt l, p)
         else if tp_event p \<noteq> SCROLLING then (l, p\<lparr>tp_event := SCROLLING\<rparr>)
         else (l, p))"

definition newStream :: "packet_state \<Rightarrow> packet_state option" where
  "newStream s =
     (let (l, p) = s;
          p = p\<lparr>tp_settleTime := 2, tp_streamdx := 0, tp_streamdy := 0\<rparr>;
          l = (if tp_event p \<noteq> SCROLLING then halt l else l);
          p = p\<lparr>tp_streamdt := 0\<rparr>
      in if tp_dragging p
         then do { (l, p) \<leftarrow> cancelTimeout (l, p);
                   Some (l, p\<lparr>tp_dragging := False, tp_event := DRAGGING\<rparr>) }
         else Some (l, p))"

definition endOfScrolling :: "u8 \<Rightarrow> packet_state \<Rightarrow> packet_state" where
  "endOfScrolling numFingers s =
     (let (l, p) = s;
          p = p\<lparr>tp_settleTime := (if numFingers = 3 then 5 else 10), tp_event := SCROLLING\<rparr>
      in if prefClicking p \<and> prefSecondaryClick p \<and> TAPPING p
         then (l\<lparr>l_buttons := RIGHT_CLICK\<rparr>, p\<lparr>tp_event := MOVEMENT\<rparr>)
         else (l, p))"

definition endOfMovement :: "packet_state \<Rightarrow> packet_state option" where
  "endOfMovement s =
     (let (l, p) = s;
          p = p\<lparr>tp_settleTime := 5\<rparr>
      in if \<not> prefClicking p then Some (l, p)
         else if TAPPING p then
           if \<not> prefDragging p then Some (l\<lparr>l_buttons := LEFT_CLICK\<rparr>, p)
           else if tp_dragLocked p then Some (l, p\<lparr>tp_dragLocked := False\<rparr>)
           else setTimeoutUS (prefClickDelay p) (l, p\<lparr>tp_tapped := True\<rparr>)
         else Some (l, p))"

definition endOfDragging :: "u64 \<Rightarrow> packet_state \<Rightarrow> packet_state option" where
  "endOfDragging now s =
     (let (l, p) = s;
          p = p\<lparr>tp_settleTime := 10\<rparr>
      in if TAPPING p then
           let (l, p) =
             (if tp_dragLocked p then (l, p\<lparr>tp_dragLocked := False, tp_event := DEFAULT_EVENT\<rparr>)
              else ((fire [PointerEvent 0 0 1 now, PointerEvent 0 0 0 now] l)\<lparr>l_buttons := 0x01\<rparr>,
                    p\<lparr>tp_tapped := False, tp_event := MOVEMENT\<rparr>))
           in Some (l, p\<lparr>tp_event := DEFAULT_EVENT\<rparr>)
         else
           do { (l, p) \<leftarrow> setTimeoutUS (prefReleaseDelay p) (l, p\<lparr>tp_dragging := True\<rparr>);
                Some (l, p\<lparr>tp_event := DEFAULT_EVENT\<rparr>) })"

text \<open>The case for a swipe runs on into the next ones, which set the settling time again.\<close>

definition endOfSwipe :: "u8 \<Rightarrow> u64 \<Rightarrow> packet_state \<Rightarrow> packet_state option" where
  "endOfSwipe numFingers now s =
     do { (l, p) \<leftarrow>
            (if numFingers = 0 then
               do { (l, p) \<leftarrow> (if 25 <s tp_streamdx (snd s) then dispatchSwipeEvent kIOHIDSwipeRight now s
                               else if tp_streamdx (snd s) <s - 25
                               then dispatchSwipeEvent kIOHIDSwipeLeft now s
                               else Some s);
                    Some (l, p\<lparr>tp_event := DEFAULT_EVENT\<rparr>) }
             else if tp_settleTime (snd s) = 0
             then Some (fst s, (snd s)\<lparr>tp_settleTime := 15\<rparr>) else Some s);
          Some (l, p\<lparr>tp_settleTime := 10\<rparr>) }"

definition endOfStream :: "u8 \<Rightarrow> u8 \<Rightarrow> u64 \<Rightarrow> packet_state \<Rightarrow> packet_state option" where
  "endOfStream prevEvent numFingers now s =
     (if prevEvent = SCROLLING then Some (endOfScrolling numFingers s)
      else if prevEvent = MOVEMENT then endOfMovement s
      else if prevEvent = DRAGGING then endOfDragging now s
      else if prevEvent = ZOOMING \<or> prevEvent = SWIPE then endOfSwipe numFingers now s
      else if prevEvent = HORIZONTAL_SCROLLING \<or> prevEvent = VERTICAL_SCROLLING \<or>
              prevEvent = DEFAULT_EVENT
      then Some (fst s, (snd s)\<lparr>tp_settleTime := 10\<rparr>)
      else Some s)"

definition eventCalculations :: "u8 \<Rightarrow> u8 \<Rightarrow> u64 \<Rightarrow> packet_state \<Rightarrow> packet_state option" where
  "eventCalculations prevEvent numFingers now s =
     (if tp_settleTime (snd s) = 0 then
        if prevEvent = DEFAULT_EVENT then newStream s
        else if tp_event (snd s) = DEFAULT_EVENT then endOfStream prevEvent numFingers now s
        else let (l, p) = s;
                 p = (if tp_event p \<noteq> SCROLLING then p\<lparr>tp_settleTime := 10\<rparr> else p)
             in Some (halt l, p)
      else Some (fst s, (snd s)\<lparr>tp_settleTime := tp_settleTime (snd s) - 1\<rparr>))"

definition draggingCalculations :: "packet_state \<Rightarrow> packet_state option" where
  "draggingCalculations s =
     (let (l, p) = s
      in if tp_event p = DRAGGING then Some s
         else if prefClicking p \<and> prefDragging p \<and> tp_tapped p \<and>
                 tp_streamdt p < ucast (prefClickDelay p) \<and> tp_event p = MOVEMENT
         then let p = p\<lparr>tp_event := DRAGGING, tp_tapped := False, tp_dragging := False\<rparr>;
                  p = (if prefDragLock p then p\<lparr>tp_dragLocked := True\<rparr> else p)
              in cancelTimeout (l, p)
         else Some s)"

definition changeEvent ::
  "u8 \<Rightarrow> u8 \<Rightarrow> u32 \<Rightarrow> u32 \<Rightarrow> u64 \<Rightarrow> packet_state \<Rightarrow> packet_state option" where
  "changeEvent prevEvent numFingers absX absY now s =
     (if (prevEvent XOR tp_event (snd s)) \<noteq> 0 \<or> tp_settleTime (snd s) \<noteq> 0 then
        do { let s = (fst s, edgeScrolling prevEvent absX absY (snd s));
             let s = scrollingCalculations prevEvent s;
             s \<leftarrow> eventCalculations prevEvent numFingers now s;
             draggingCalculations s }
      else Some s)"

subsection \<open>The events dispatched\<close>

definition scrollAxes :: "bool \<Rightarrow> u32 \<times> u32 \<Rightarrow> u32 \<times> u32" where
  "scrollAxes horiz d =
     (let (dx, dy) = d
      in if \<not> horiz then (0, dy)
         else if ABS dx <s push_bit 2 (ABS dy) then (0, dy)
         else if ABS dy <s signed_drop_bit 2 (ABS dx) then (dx, 0)
         else (dx, dy))"

definition movementEvent :: "u64 \<Rightarrow> packet_state \<Rightarrow> packet_state" where
  "movementEvent now s =
     (let (l, p) = s;
          l = l\<lparr>l_buttons := l_buttons l OR (if tp_dragging p then 1 else 0), l_dy := l_dy l * - 1\<rparr>
      in (fire [PointerEvent (l_dx l) (l_dy l) (ucast (l_buttons l)) now] l, p))"

definition dispatchEvent :: "u64 \<Rightarrow> packet_state \<Rightarrow> packet_state" where
  "dispatchEvent now s =
     (let (l, p) = s
      in if tp_event p = HORIZONTAL_SCROLLING
         then (fire [ScrollEvent 0 (ucast (- 1 * l_dx l)) 0 now] l, p)
         else if tp_event p = VERTICAL_SCROLLING then (fire [ScrollEvent (ucast (l_dy l)) 0 0 now] l, p)
         else if tp_event p = SCROLLING
         then let (x, y) = scrollAxes (prefHorizScroll p) (l_dx l, l_dy l);
                  l = l\<lparr>l_dx := x, l_dy := y\<rparr>
              in (fire [ScrollEvent (ucast (l_dy l)) (ucast (- 1 * l_dx l)) 0 now] l, p)
         else if tp_event p = DRAGGING
         then movementEvent now
                (if l_buttons l \<noteq> 0
                 then (l\<lparr>l_buttons := 0\<rparr>,
                       p\<lparr>tp_event := MOVEMENT, tp_tapped := False, tp_dragging := False,
                         tp_dragLocked := False\<rparr>)
                 else (l\<lparr>l_buttons := 0x01\<rparr>, p))
         else if tp_event p = MOVEMENT then movementEvent now s
         else let l = l\<lparr>l_buttons := l_buttons l OR (if tp_dragging p then 1 else 0)\<rparr>
              in (fire [PointerEvent 0 0 (ucast (l_buttons l)) now] l, p))"

subsection \<open>The whole packet\<close>

text \<open>\<open>clock\<close> is the system time in seconds and microseconds.\<close>

definition packetInterval :: "u32 \<times> u32 \<Rightarrow> synaptics \<Rightarrow> u64" where
  "packetInterval clock p =
     ucast ((fst clock - tp_prevPacketSecond p) * 1000000 + (snd clock - tp_prevPacketTime p))"

definition absolutePacket ::
  "u32 \<times> u32 \<Rightarrow> u64 \<Rightarrow> u8 list \<Rightarrow> synaptics \<Rightarrow> (effect list \<times> synaptics) option" where
  "absolutePacket clock now packet p =
     do { let prevEvent = tp_event p;
          let dt = packetInterval clock p;
          let p = p\<lparr>tp_streamdt := tp_streamdt p + dt\<rparr>;
          let buttons = absButtons (prefSwapButtons p) packet;
          let pressureZ = packet ! 2;
          let absX = absoluteX packet;
          let absY = absoluteY packet;
          let Wvalue = absoluteW p packet;
          (dx, dy) \<leftarrow> scaleDelta p absX absY;
          dx \<leftarrow> accelerate dx;
          dy \<leftarrow> accelerate dy;
          let p = p\<lparr>tp_streamdx := tp_streamdx p + dx, tp_streamdy := tp_streamdy p + dy\<rparr>;
          let numFingers = gestureFingers p (fingerCount p pressureZ Wvalue);
          let p = p\<lparr>tp_event := selectEvent p dt numFingers Wvalue\<rparr>;
          s \<leftarrow> changeEvent prevEvent numFingers absX absY now
                 (\<lparr>l_buttons = buttons, l_dx = dx, l_dy = dy, l_fired = []\<rparr>, p);
          let (l, p) = dispatchEvent now s;
          Some (l_fired l,
            p\<lparr>tp_prevX := absX, tp_prevY := absY, tp_prevNumFingers := numFingers,
              tp_prevPacketSecond := fst clock, tp_prevPacketTime := snd clock\<rparr>) }"

section \<open>One relative packet\<close>

definition relativeButtons :: "u8 list \<Rightarrow> synaptics \<Rightarrow> u32 \<times> synaptics" where
  "relativeButtons packet p =
     (let buttons = ucast (packet ! 0 AND 0x7) :: u32
      in if buttons AND 0x3 = 0x03 then (0, p\<lparr>tp_event := MOVEMENT, tp_prevButtons := 0x4\<rparr>)
         else if tp_prevButtons p AND 0x4 = 0x4
         then (0, if buttons = 0 then p\<lparr>tp_prevButtons := 0\<rparr> else p)
         else (buttons, p\<lparr>tp_prevButtons := ucast buttons\<rparr>))"

definition relativePacket ::
  "u32 \<times> u32 \<Rightarrow> u64 \<Rightarrow> u8 list \<Rightarrow> synaptics \<Rightarrow> (effect list \<times> synaptics) option" where
  "relativePacket clock now packet p =
     do { let (buttons, p) = relativeButtons packet p;
          let dx = packetDx packet;
          let dy = packetDy packet;
          e \<leftarrow> (if tp_event p = SCROLLING then
                  do { y \<leftarrow> to_s16 (dbl (of_s32 dy * - dbl (2 / 10)));
                       x \<leftarrow> to_s16 (dbl (of_s32 dx * - dbl (2 / 10)));
                       Some (ScrollEvent y x 0 now) }
                else Some (PointerEvent dx dy buttons now));
          Some ([e], p\<lparr>tp_prevPacketSecond := fst clock, tp_prevPacketTime := snd clock\<rparr>) }"

section \<open>What a packet leaves alone\<close>

text \<open>
  The fields that the framing of packets depends on, the resources and the speeds. No part of the
  packet handlers changes any of them.
\<close>

definition framing ::
  "synaptics \<Rightarrow> u8 list \<times> u8 \<times> u8 \<times> bool \<times> bool \<times> double \<times> double \<times> double" where
  "framing p = (tp_packetBuffer p, tp_packetByteCount p, tp_touchPadModeByte p, tp_keyboard p,
                tp_dragTimeout p, tp_scaleFactor p, prefTrackSpeed p, prefScrollSpeed p)"

lemma framing_timers:
  "setTimeoutUS us s = Some s' \<Longrightarrow> framing (snd s') = framing (snd s)"
  "cancelTimeout s = Some s' \<Longrightarrow> framing (snd s') = framing (snd s)"
  "dispatchSwipeEvent m now s = Some s' \<Longrightarrow> framing (snd s') = framing (snd s)"
  by (auto simp: setTimeoutUS_def cancelTimeout_def dispatchSwipeEvent_def Let_def
      split: if_splits IOHIDSwipeMask.splits)

lemma framing_edgeScrolling: "framing (edgeScrolling e x y p) = framing p"
  by (simp add: edgeScrolling_def framing_def)

lemma framing_scrolling: "framing (snd (scrollingCalculations e s)) = framing (snd s)"
  by (cases s) (simp add: scrollingCalculations_def framing_def)

lemma framing_newStream: "newStream s = Some s' \<Longrightarrow> framing (snd s') = framing (snd s)"
  by (cases s) (auto simp: newStream_def framing_def Let_def cancelTimeout_def split: if_splits)

lemma framing_endOfScrolling: "framing (snd (endOfScrolling n s)) = framing (snd s)"
  by (cases s) (simp add: endOfScrolling_def framing_def Let_def)

lemma framing_endOfMovement: "endOfMovement s = Some s' \<Longrightarrow> framing (snd s') = framing (snd s)"
  by (cases s) (auto simp: endOfMovement_def framing_def Let_def setTimeoutUS_def split: if_splits)

lemma framing_endOfDragging: "endOfDragging now s = Some s' \<Longrightarrow> framing (snd s') = framing (snd s)"
  by (cases s) (auto simp: endOfDragging_def framing_def Let_def setTimeoutUS_def split: if_splits)

lemma framing_endOfSwipe: "endOfSwipe n now s = Some s' \<Longrightarrow> framing (snd s') = framing (snd s)"
  by (cases s) (auto simp: endOfSwipe_def framing_def dispatchSwipeEvent_def Let_def
      split: if_splits)

lemma framing_endOfStream: "endOfStream e n now s = Some s' \<Longrightarrow> framing (snd s') = framing (snd s)"
  by (auto simp: endOfStream_def framing_endOfScrolling framing_endOfMovement framing_endOfDragging
      framing_endOfSwipe split: if_splits) (simp_all add: framing_def)

lemma framing_eventCalculations:
  "eventCalculations e n now s = Some s' \<Longrightarrow> framing (snd s') = framing (snd s)"
  by (cases s) (auto simp: eventCalculations_def Let_def dest: framing_newStream framing_endOfStream
      split: if_splits, simp_all add: framing_def)

lemma framing_draggingCalculations:
  "draggingCalculations s = Some s' \<Longrightarrow> framing (snd s') = framing (snd s)"
  by (cases s) (auto simp: draggingCalculations_def framing_def Let_def cancelTimeout_def
      split: if_splits)

lemma framing_changeEvent:
  assumes "changeEvent e n x y now s = Some s'"
  shows "framing (snd s') = framing (snd s)"
  using assms framing_scrolling [of e "(fst s, edgeScrolling e x y (snd s))"]
  by (auto simp: changeEvent_def Let_def framing_edgeScrolling split: if_splits
      dest!: framing_eventCalculations framing_draggingCalculations)

lemma framing_dispatchEvent: "dispatchEvent now s = (l, u) \<Longrightarrow> framing u = framing (snd s)"
  by (cases s) (auto simp: dispatchEvent_def movementEvent_def framing_def Let_def
      split: prod.splits if_splits)

lemma framing_absolutePacket: "absolutePacket c now pk p = Some (es, p') \<Longrightarrow> framing p' = framing p"
  by (auto simp: absolutePacket_def Let_def split: prod.splits
      dest!: framing_changeEvent framing_dispatchEvent) (simp add: framing_def)

lemma framing_relativePacket: "relativePacket c now pk p = Some (es, p') \<Longrightarrow> framing p' = framing p"
  by (auto simp: relativePacket_def relativeButtons_def framing_def Let_def split: if_splits)

end
