(* ===== verification/PS2_Synaptics.thy ===== *)
theory PS2_Synaptics
  imports PS2_SynapticsPad
begin

text \<open>
  The driver for Synaptics touch pads, \<^verbatim>\<open>ApplePS2SynapticsTouchPad\<close>, as a client of the mouse
  nub: identification and queries through the encoded command sequences, the mode byte,
  packet framing in the two formats, the preferences, the timer, life cycle and power.
\<close>

section \<open>Definitions\<close>

subsection \<open>State\<close>

text \<open>
  The driver's own fields are one component of the system's state. The last two fields
  belong to the keyboard's superclass, \<open>IOHIKeyboard\<close>, which this driver reads.
\<close>

record 'h syn = "'h alps" +
  pad :: synaptics
  codeToRepeat :: u32
  lastEventTime :: u64

definition emits :: "effect list \<Rightarrow> ('h, 'z) ctl_scheme \<Rightarrow> ('h, 'z) ctl_scheme" where
  "emits es w = w\<lparr>effects := effects w @ es\<rparr>"

subsection \<open>Command sequences\<close>

text \<open>Eight bits of an argument travel as the arguments of four resolution commands.\<close>

definition encodedByte :: "u8 \<Rightarrow> u8 list" where
  "encodedByte b =
     [kDP_SetMouseResolution, drop_bit 6 b AND 0x3, kDP_SetMouseResolution, drop_bit 4 b AND 0x3,
      kDP_SetMouseResolution, drop_bit 2 b AND 0x3, kDP_SetMouseResolution, drop_bit 0 b AND 0x3]"

definition tp_setTouchPadEnable ::
  "('h, 'z) syn_scheme nub \<Rightarrow> bool \<Rightarrow> ('h, 'z) syn_scheme \<Rightarrow> ('h, 'z) syn_scheme option" where
  "tp_setTouchPadEnable D enable w =
     do { (_, w) \<leftarrow> send_blocking D [ack_command (if enable then kDP_Enable else kDP_SetDefaultsAndDisable)] w;
          Some w }"

definition touchPadData :: "PS2Request \<Rightarrow> u32" where
  "touchPadData q =
     (if commandsCount q = 13
      then push_bit 16 (ucast (inOrOut (commands q ! 10))) OR
           push_bit 8 (ucast (inOrOut (commands q ! 11))) OR
           ucast (inOrOut (commands q ! 12))
      else - 1)"

definition querySequence :: "u8 \<Rightarrow> PS2Command list" where
  "querySequence dataSelector =
     map ack_command ([kDP_SetDefaultsAndDisable] @ encodedByte dataSelector @ [kDP_GetMouseInformation]) @
     [read_command, read_command, read_command]"

definition tp_getTouchPadData ::
  "('h, 'z) syn_scheme nub \<Rightarrow> u8 \<Rightarrow> ('h, 'z) syn_scheme \<Rightarrow> (u32 \<times> ('h, 'z) syn_scheme) option" where
  "tp_getTouchPadData D dataSelector w =
     do { (q, w) \<leftarrow> send_blocking D (querySequence dataSelector) w;
          Some (touchPadData q, w) }"

definition modeSequence :: "u8 \<Rightarrow> bool \<Rightarrow> PS2Command list" where
  "modeSequence modeByteValue enableStreamMode =
     map ack_command
       ([kDP_SetDefaultsAndDisable] @ encodedByte modeByteValue @
        [kDP_SetMouseSampleRate, 20, if enableStreamMode then kDP_Enable else kDP_SetMouseScaling1To1])"

definition tp_setTouchPadModeByte ::
  "('h, 'z) syn_scheme nub \<Rightarrow> u8 \<Rightarrow> bool \<Rightarrow> ('h, 'z) syn_scheme
     \<Rightarrow> (bool \<times> ('h, 'z) syn_scheme) option" where
  "tp_setTouchPadModeByte D modeByteValue enableStreamMode w =
     do { (q, w) \<leftarrow> send_blocking D (modeSequence modeByteValue enableStreamMode) w;
          Some (commandsCount q = 12, w) }"

definition tp_setStreamMode ::
  "('h, 'z) syn_scheme nub \<Rightarrow> ('h, 'z) syn_scheme \<Rightarrow> (bool \<times> ('h, 'z) syn_scheme) option" where
  "tp_setStreamMode D w =
     do { (q, w) \<leftarrow> send_blocking D [ack_command kDP_SetMouseStreamMode] w;
          Some (commandsCount q = 1, w) }"

definition tp_setCommandByte ::
  "('h, 'z) syn_scheme nub \<Rightarrow> u8 \<Rightarrow> u8 \<Rightarrow> ('h, 'z) syn_scheme \<Rightarrow> ('h, 'z) syn_scheme option" where
  "tp_setCommandByte D setBits clearBits w = readModifyWriteCommandByte D setBits clearBits w"

definition tp_setRelativeMode ::
  "('h, 'z) syn_scheme nub \<Rightarrow> ('h, 'z) syn_scheme \<Rightarrow> (bool \<times> ('h, 'z) syn_scheme) option" where
  "tp_setRelativeMode D w =
     (let mode = tp_touchPadModeByte (pad w)
      in if mode AND ABSOLUTE_MODE_BIT \<noteq> 0
         then do { let mode = mode AND NOT ABSOLUTE_MODE_BIT;
                   let w = w\<lparr>pad := (pad w)\<lparr>tp_touchPadModeByte := mode\<rparr>\<rparr>;
                   (_, w) \<leftarrow> tp_setTouchPadModeByte D mode True w;
                   Some (True, w) }
         else Some (True, w))"

definition tp_setAbsoluteMode ::
  "('h, 'z) syn_scheme nub \<Rightarrow> ('h, 'z) syn_scheme \<Rightarrow> (bool \<times> ('h, 'z) syn_scheme) option" where
  "tp_setAbsoluteMode D w =
     (let mode = tp_touchPadModeByte (pad w)
      in if mode AND ABSOLUTE_MODE_BIT = 0
         then do { let mode = mode OR ABSOLUTE_MODE_BIT;
                   let w = w\<lparr>pad := (pad w)\<lparr>tp_touchPadModeByte := mode\<rparr>\<rparr>;
                   (_, w) \<leftarrow> tp_setTouchPadModeByte D mode True w;
                   Some (True, w) }
         else Some (True, w))"

subsection \<open>Queries\<close>

definition tp_getModelID ::
  "('h, 'z) syn_scheme nub \<Rightarrow> ('h, 'z) syn_scheme \<Rightarrow> (bool \<times> ('h, 'z) syn_scheme) option" where
  "tp_getModelID D w =
     do { (n, w) \<leftarrow> tp_getTouchPadData D kST_getModelID w;
          Some (n \<noteq> 0, w\<lparr>pad := (pad w)\<lparr>tp_modelId := n\<rparr>\<rparr>) }"

text \<open>In the source's condition, \<open>==\<close> binds more tightly than \<open>&\<close>.\<close>

definition tp_getCapabilities ::
  "('h, 'z) syn_scheme nub \<Rightarrow> ('h, 'z) syn_scheme \<Rightarrow> (bool \<times> ('h, 'z) syn_scheme) option" where
  "tp_getCapabilities D w =
     do { (capabilities, w) \<leftarrow> tp_getTouchPadData D kST_getCapabilities w;
          let success = (capabilities AND (if (0x00FF00 :: u32) = 0x004700 then 1 else 0) \<noteq> 0);
          Some (success, w\<lparr>pad := (pad w)\<lparr>tp_capabilties :=
                  ucast (drop_bit 8 (capabilities AND 0xFF0000) OR (capabilities AND 0x0000FF))\<rparr>\<rparr>) }"

definition tp_getExtendedCapabilities ::
  "('h, 'z) syn_scheme nub \<Rightarrow> ('h, 'z) syn_scheme \<Rightarrow> (bool \<times> ('h, 'z) syn_scheme) option" where
  "tp_getExtendedCapabilities D w =
     (if CAP_N_EXTENDED_QUERY (pad w) \<noteq> 0
      then do { (n, w) \<leftarrow> tp_getTouchPadData D kST_getExtendedModelID w;
                Some (True, w\<lparr>pad := (pad w)\<lparr>tp_extendedCapabilitied := n\<rparr>\<rparr>) }
      else Some (False, w\<lparr>pad := (pad w)\<lparr>tp_extendedCapabilitied := 0\<rparr>\<rparr>))"

definition tp_identifyTouchpad ::
  "('h, 'z) syn_scheme nub \<Rightarrow> ('h, 'z) syn_scheme \<Rightarrow> (bool \<times> ('h, 'z) syn_scheme) option" where
  "tp_identifyTouchpad D w =
     do { (n, w) \<leftarrow> tp_getTouchPadData D kST_IdentifyTouchpad w;
          Some (True, w\<lparr>pad := (pad w)\<lparr>tp_touchpadIntormation := n\<rparr>\<rparr>) }"

definition tp_getSerialNumber ::
  "('h, 'z) syn_scheme nub \<Rightarrow> ('h, 'z) syn_scheme \<Rightarrow> (bool \<times> ('h, 'z) syn_scheme) option" where
  "tp_getSerialNumber D w =
     do { (prefix, w) \<leftarrow> tp_getTouchPadData D kST_getSerialNumberPrefix w;
          (serialNumber, w) \<leftarrow> tp_getTouchPadData D kST_getSerialNumberSuffix w;
          let n = (ucast (serialNumber OR push_bit 24 (prefix AND 0xFFF)) :: u64);
          let w = w\<lparr>pad := (pad w)\<lparr>tp_serialNumber := n\<rparr>\<rparr>;
          Some (True, emit (SetSerialNumber n) w) }"

subsection \<open>Power\<close>

definition tp_setDevicePowerState ::
  "('h, 'z) syn_scheme nub \<Rightarrow> PS2PowerControl \<Rightarrow> ('h, 'z) syn_scheme
     \<Rightarrow> ('h, 'z) syn_scheme option" where
  "tp_setDevicePowerState D whatToDo w =
     (case whatToDo of
        kPS2C_DisableDevice \<Rightarrow> tp_setTouchPadEnable D False w
      | kPS2C_EnableDevice \<Rightarrow>
          do { let w = emit (SleepMilliseconds 1000) w;
               (_, w) \<leftarrow> tp_setTouchPadModeByte D (tp_touchPadModeByte (pad w)) False w;
               w \<leftarrow> tp_setCommandByte D kCB_EnableMouseIRQ kCB_DisableMouseClock w;
               let w = w\<lparr>pad := (pad w)\<lparr>tp_packetByteCount := 0, tp_streamdx := 0, tp_streamdy := 0,
                           tp_settleTime := 0, tp_tapped := False, tp_dragLocked := False\<rparr>\<rparr>;
               tp_setTouchPadEnable D True w })"

subsection \<open>Interrupts and the timer\<close>

definition tp_storeByte :: "u8 \<Rightarrow> synaptics \<Rightarrow> synaptics option" where
  "tp_storeByte b p =
     (if unat (tp_packetByteCount p) < length (tp_packetBuffer p)
      then Some (p\<lparr>tp_packetBuffer := (tp_packetBuffer p)[unat (tp_packetByteCount p) := b],
                   tp_packetByteCount := tp_packetByteCount p + 1\<rparr>)
      else None)"

text \<open>
  Packets are ignored while a key repeats; reading the keyboard's fields needs a keyboard.
\<close>

definition ignoredWhileTyping :: "u64 \<Rightarrow> ('h, 'z) syn_scheme \<Rightarrow> bool option" where
  "ignoredWhileTyping now w =
     (if \<not> prefIgnoreAccidental (pad w) then Some False
      else if \<not> tp_keyboard (pad w) then None
      else Some (codeToRepeat w \<noteq> - 1 \<and> (ucast now - ucast (lastEventTime w) :: u32) < 501000000))"

definition handlePacket ::
  "('h, 'w) env \<Rightarrow> (u32 \<times> u32 \<Rightarrow> u64 \<Rightarrow> u8 list \<Rightarrow> synaptics \<Rightarrow> (effect list \<times> synaptics) option)
     \<Rightarrow> ('h, 'z) syn_scheme \<Rightarrow> ('h, 'z) syn_scheme option" where
  "handlePacket E dispatch w =
     do { let now = uptime E (hw w);
          ignored \<leftarrow> ignoredWhileTyping now w;
          w \<leftarrow> (if ignored then Some w
                else do { (es, p) \<leftarrow> dispatch (microtime E (hw w)) now (tp_packetBuffer (pad w)) (pad w);
                          Some (emits es (w\<lparr>pad := p\<rparr>)) });
          Some (w\<lparr>pad := (pad w)\<lparr>tp_packetByteCount := 0\<rparr>\<rparr>) }"

definition tp_interruptOccurred ::
  "('h, 'w) env \<Rightarrow> ('h, 'z) syn_scheme nub \<Rightarrow> u8 \<Rightarrow> ('h, 'z) syn_scheme
     \<Rightarrow> ('h, 'z) syn_scheme option" where
  "tp_interruptOccurred E D datum w =
     (let p = pad w
      in if tp_packetByteCount p = 0 \<and> datum = kSC_Acknowledge then Some w
         else if tp_packetByteCount p = 0 \<and> RELATIVE_MODE p \<and> datum AND 0x08 = 0 then Some w
         else if tp_packetByteCount p = 0 \<and> ABSOLUTE_MODE p \<and> datum AND 0x08 \<noteq> 0
         then tp_setDevicePowerState D kPS2C_EnableDevice w
         else
           do { p \<leftarrow> tp_storeByte datum p;
                let w = w\<lparr>pad := p\<rparr>;
                if RELATIVE_MODE p \<and> tp_packetByteCount p = RELATIVE_PACKET_SIZE
                then handlePacket E relativePacket w
                else if ABSOLUTE_MODE p \<and> tp_packetByteCount p = ABSOLUTE_PACKET_SIZE
                then handlePacket E absolutePacket w
                else Some w })"

definition tp_draggingTimeout ::
  "('h, 'w) env \<Rightarrow> ('h, 'z) syn_scheme \<Rightarrow> ('h, 'z) syn_scheme option" where
  "tp_draggingTimeout E w =
     (let w = w\<lparr>pad := (pad w)\<lparr>tp_dragLocked := False, tp_tapped := False, tp_dragging := False,
                   tp_event := MOVEMENT\<rparr>\<rparr>;
          now = uptime E (hw w)
      in if tp_dragTimeout (pad w)
         then Some (emits [CancelTimeout, PointerEvent 0 0 0x01 now, PointerEvent 0 0 0x00 now] w)
         else None)"

subsection \<open>Initialisation and identification\<close>

definition tp_init :: "bool \<Rightarrow> ('h, 'z) syn_scheme \<Rightarrow> (bool \<times> ('h, 'z) syn_scheme) option" where
  "tp_init superOk w =
     (if \<not> superOk then Some (False, w)
      else do { dpi \<leftarrow> to_s32 (dbl (85 * dbl (254 / 10)));
                Some (True, w\<lparr>pad := (pad w)
                  \<lparr>tp_device := False, tp_prevButtons := 0, tp_interruptHandlerInstalled := False,
                   tp_packetByteCount := 0, tp_resolution := push_bit 16 dpi,
                   tp_touchPadModeByte := 0, tp_tapped := False, tp_dragging := False,
                   tp_dragLocked := False, tp_settleTime := 0, tp_streamdt := 0,
                   tp_streamdx := 0, tp_streamdy := 0,
                   prefScrollMode := SCROLL_MODE_NONE, prefGestureMode := GESTURE_MODE_SCROLL,
                   prefHorizScroll := False, prefClicking := False, prefDragging := False,
                   prefDragLock := False, prefSwapButtons := False, prefIgnoreAccidental := True,
                   prefOneFingerThreshold := of_int (uint Z_LIGHT_FINGER),
                   prefTwoFingerThreshold := 250, prefThreeFingerThreshold := 650,
                   prefHysteresis := dbl (8 / 100), prefScrollArea := dbl (5 / 100),
                   prefScrollSpeed := dbl (13 / 10), prefTrackSpeed := dbl (12 / 10),
                   prefClickDelay := 280000, prefReleaseDelay := 400000, tp_keyboard := False\<rparr>\<rparr>) })"

definition identifySequence :: "PS2Command list" where
  "identifySequence =
     map ack_command ([kDP_SetDefaultsAndDisable] @ encodedByte kST_IdentifyTouchpad @
                      [kDP_GetMouseInformation]) @
     [read_command, read_command, read_command] @ [ack_command kDP_SetDefaultsAndDisable]"

definition tp_probe ::
  "('h, 'z) syn_scheme nub \<Rightarrow> bool \<Rightarrow> ('h, 'z) syn_scheme
     \<Rightarrow> (bool \<times> ('h, 'z) syn_scheme) option" where
  "tp_probe D superOk w =
     do { let (r, w) = nubAllocateRequest D w;
          if \<not> superOk then Some (False, w)
          else do { w \<leftarrow> fill_request r identifySequence w;
                    w \<leftarrow> nubSubmitRequestAndBlock D r w;
                    q \<leftarrow> requests w r;
                    let b10 = inOrOut (commands q ! 10);
                    let b11 = inOrOut (commands q ! 11);
                    let b12 = inOrOut (commands q ! 12);
                    let w = w\<lparr>pad := (pad w)\<lparr>tp_touchpadIntormation :=
                              ucast b10 OR push_bit 8 (ucast b11) OR push_bit 16 (ucast b12)\<rparr>\<rparr>;
                    let found = (commandsCount q = 14 \<and> b11 = 0x47);
                    let version = (push_bit 8 (ucast (b12 AND 0x0f)) OR ucast b10 :: u16);
                    let w = (if found then w\<lparr>pad := (pad w)\<lparr>tp_touchPadVersion := version\<rparr>\<rparr> else w);
                    w \<leftarrow> nubFreeRequest D r w;
                    Some (found \<and> version \<ge> 0x400, w) } }"

subsection \<open>Start and stop\<close>

definition sensor :: "synaptics \<Rightarrow> nat" where
  "sensor p = unat (INFO_SENSOR p AND 0x0f)"

text \<open>
  The ratio of the two resolutions; the denominator is a product of type \<open>float\<close>, the
  numerator one of type \<open>double\<close>.
\<close>

definition scaleFactorOf :: "nat \<Rightarrow> double option" where
  "scaleFactorOf i =
     dbl_div (dbl (of_int (snd (model_resolution ! i)) * fst (model_dimensions ! i)))
             (flt (of_int (fst (model_resolution ! i)) * snd (model_dimensions ! i)))"

definition dotsPerInch :: "nat \<Rightarrow> u32 option" where
  "dotsPerInch i = to_s32 (dbl (of_int (fst (model_resolution ! i)) * dbl (254 / 10)))"

definition modeFromCapabilities :: "synaptics \<Rightarrow> synaptics \<times> effect list" where
  "modeFromCapabilities p =
     (if CAP_W_MODE p \<or> EXT_W_MODE p
      then (p\<lparr>tp_touchPadModeByte := tp_touchPadModeByte p OR (W_MODE_BIT OR ABSOLUTE_MODE_BIT OR RATE_MODE_BIT)\<rparr>,
            [IOLog (LogNote ''W Mode Supported'')] @
            (if CAP_PALM_DETECT p then [IOLog (LogNote ''Palm detection Supported'')] else []) @
            (if CAP_MULTIFINGER p then [IOLog (LogNote ''Multiple finger detection Supported'')]
             else [IOLog (LogNote ''Multiple finger detection NOT Supported'')]) @
            (if EXT_W_MODE p then [IOLog (LogNote ''Trackpad supports extended W mode'')] else []) @
            (if EXT_PEAK_DETECT p then [IOLog (LogNote ''Using peak detection method'')] else []))
      else (p\<lparr>tp_touchPadModeByte := tp_touchPadModeByte p OR (ABSOLUTE_MODE_BIT OR RATE_MODE_BIT)\<rparr>,
            [IOLog (LogNote ''W Mode not available, defaulting to Z mode'')]))"

text \<open>The first part of \<open>start\<close>: the hardware's properties and the mode byte.\<close>

definition announceHardware ::
  "('h, 'z) syn_scheme nub \<Rightarrow> ('h, 'z) syn_scheme \<Rightarrow> ('h, 'z) syn_scheme option" where
  "announceHardware D w =
     do { let version = tp_touchPadVersion (pad w);
          let w = emits [IOLog (LogSynapticsVersion (ucast (drop_bit 8 version)) (ucast version)),
                         SetTouchpadInfo (tp_touchpadIntormation (pad w))] w;
          (_, w) \<leftarrow> tp_getCapabilities D w;
          (_, w) \<leftarrow> tp_getExtendedCapabilities D w;
          (_, w) \<leftarrow> tp_getModelID D w;
          let i = sensor (pad w);
          scale \<leftarrow> scaleFactorOf i;
          dpi \<leftarrow> dotsPerInch i;
          q \<leftarrow> dbl_div (of_s32 (push_bit 16 dpi)) scale;
          resolution \<leftarrow> to_s32 q;
          let w = w\<lparr>pad := (pad w)\<lparr>tp_scaleFactor := scale, tp_resolution := resolution\<rparr>\<rparr>;
          let w = emits [IOLog (LogSynapticsModel (model_names ! i) (tp_modelId (pad w))),
                         IOLog (LogDotsPerInch ''Initializing resolution'' dpi),
                         IOLog (LogDotsPerInch ''Compensating for geometry''
                                  (signed_drop_bit 16 resolution)),
                         IOLog (LogCapabilities (tp_capabilties (pad w)))] w;
          let (p, es) = modeFromCapabilities (pad w);
          let w = emits es (w\<lparr>pad := p\<rparr>);
          Some (emits [SetResolution ''HIDScrollResolution'' resolution,
                       SetResolution ''HIDPointerResolution'' resolution] w) }"

text \<open>The last part: the mode byte is sent, the handlers are installed, the pad is enabled.\<close>

definition activate ::
  "('h, 'z) syn_scheme nub \<Rightarrow> bool \<Rightarrow> ('h, 'z) syn_scheme \<Rightarrow> ('h, 'z) syn_scheme option" where
  "activate D timerOk w =
     do { (_, w) \<leftarrow> tp_setTouchPadModeByte D (tp_touchPadModeByte (pad w)) False w;
          let w = emit (SetClicking (ucast (GESTURES (pad w)))) w;
          let w = nubInstallInterruptAction D SynapticsDriver SynapticsDriver w;
          let w = w\<lparr>pad := (pad w)\<lparr>tp_interruptHandlerInstalled := True\<rparr>\<rparr>;
          w \<leftarrow> tp_setCommandByte D kCB_EnableMouseIRQ kCB_DisableMouseClock w;
          w \<leftarrow> tp_setTouchPadEnable D True w;
          (_, w) \<leftarrow> tp_setStreamMode D w;
          let w = nubInstallPowerControlAction D SynapticsDriver SynapticsDriver w;
          let w = w\<lparr>pad := (pad w)\<lparr>tp_powerControlHandlerInstalled := True\<rparr>\<rparr>;
          let w = w\<lparr>pad := (pad w)\<lparr>tp_dragTimeout := timerOk\<rparr>\<rparr>;
          Some (emit AddTimerEventSource w) }"

text \<open>
  \<open>isKeyboard\<close>: the service found is an \<open>IOHIKeyboard\<close>; \<open>hasTarget\<close>: it has an event target;
  \<open>timerOk\<close>: the timer event source was created. Without a keyboard the driver goes on to
  read a field through the null pointer.
\<close>

definition tp_start ::
  "('h, 'z) syn_scheme nub \<Rightarrow> bool \<Rightarrow> bool \<Rightarrow> bool \<Rightarrow> bool \<Rightarrow> ('h, 'z) syn_scheme
     \<Rightarrow> (bool \<times> ('h, 'z) syn_scheme) option" where
  "tp_start D superOk isKeyboard hasTarget timerOk w =
     (if \<not> superOk then Some (False, w)
      else do { let w = emit (RetainDevice SynapticsDriver) (w\<lparr>pad := (pad w)\<lparr>tp_device := True\<rparr>\<rparr>);
                w \<leftarrow> announceHardware D w;
                let w = w\<lparr>pad := (pad w)\<lparr>tp_keyboard := isKeyboard\<rparr>\<rparr>;
                w \<leftarrow> (if \<not> isKeyboard then None
                      else if \<not> hasTarget
                      then Some (emit (IOLog (LogNote ''IOHIKeyboard does not have any target'')) w)
                      else Some w);
                w \<leftarrow> activate D timerOk w;
                Some (True, w) })"

definition tp_stop ::
  "('h, 'z) syn_scheme nub \<Rightarrow> ('h, 'z) syn_scheme \<Rightarrow> ('h, 'z) syn_scheme option" where
  "tp_stop D w =
     do { w \<leftarrow> tp_setTouchPadEnable D False w;
          w \<leftarrow> tp_setCommandByte D kCB_DisableMouseClock kCB_EnableMouseIRQ w;
          let w = emit RemoveTimerEventSource w;
          w \<leftarrow> (if tp_interruptHandlerInstalled (pad w) then nubUninstallInterruptAction D w
                else Some w);
          let w = w\<lparr>pad := (pad w)\<lparr>tp_interruptHandlerInstalled := False\<rparr>\<rparr>;
          w \<leftarrow> (if tp_powerControlHandlerInstalled (pad w) then nubUninstallPowerControlAction D w
                else Some w);
          let w = w\<lparr>pad := (pad w)\<lparr>tp_powerControlHandlerInstalled := False\<rparr>\<rparr>;
          Some (emit (SuperStop SynapticsDriver) w) }"

definition tp_free :: "('h, 'z) syn_scheme \<Rightarrow> ('h, 'z) syn_scheme" where
  "tp_free w =
     (if tp_device (pad w)
      then (emit (ReleaseDevice SynapticsDriver) w)\<lparr>pad := (pad w)\<lparr>tp_device := False\<rparr>\<rparr>
      else w)"

subsection \<open>Preferences\<close>

text \<open>The values of the dictionary, as far as their class matters here.\<close>

datatype OSObject = OSNumber u64 | OSBoolean bool | OSOther

definition numberOf :: "(string \<rightharpoonup> OSObject) \<Rightarrow> string \<Rightarrow> u64 option" where
  "numberOf dict key = (case dict key of Some (OSNumber n) \<Rightarrow> Some n | _ \<Rightarrow> None)"

definition booleanOf :: "(string \<rightharpoonup> OSObject) \<Rightarrow> string \<Rightarrow> bool option" where
  "booleanOf dict key = (case dict key of Some (OSBoolean b) \<Rightarrow> Some b | _ \<Rightarrow> None)"

definition if_given :: "'a option \<Rightarrow> ('a \<Rightarrow> 'b) \<Rightarrow> 'b \<Rightarrow> 'b" where
  "if_given x f old = (case x of None \<Rightarrow> old | Some a \<Rightarrow> f a)"

definition u32_value :: "u64 \<Rightarrow> u32" where
  "u32_value n = ucast n"

definition tp_preferences :: "(string \<rightharpoonup> OSObject) \<Rightarrow> synaptics \<Rightarrow> synaptics" where
  "tp_preferences dict p =
     (let number = (\<lambda>key (f :: u32 \<Rightarrow> double). if_given (numberOf dict key) (\<lambda>n. f (u32_value n)));
          count = (\<lambda>key. if_given (numberOf dict key) u32_value);
          mode = (\<lambda>key. if_given (numberOf dict key) (\<lambda>n. ucast n :: u8));
          flag = (\<lambda>key. if_given (booleanOf dict key) (\<lambda>b. b));
          dbl_of = (\<lambda>n :: u32. of_int (uint n) :: double)
      in p\<lparr>prefScrollMode := mode ''kTPScrollMode'' (prefScrollMode p),
           prefHorizScroll := flag ''kTPHorizScroll'' (prefHorizScroll p),
           prefScrollArea := number ''kTPScrollArea'' (\<lambda>n. dbl (dbl (6 / 1000) * dbl_of n)) (prefScrollArea p),
           prefGestureMode := mode ''kTPGestureMode'' (prefGestureMode p),
           prefClicking := flag ''kTPTapToClick'' (prefClicking p),
           prefDragging := flag ''kTPDraggin'' (prefDragging p),
           prefDragLock := flag ''kTPDragLock'' (prefDragLock p),
           prefSecondaryClick := flag ''kTPSecondaryClick'' (prefSecondaryClick p),
           prefSwapButtons := flag ''kTPSwapButtons'' (prefSwapButtons p),
           prefOneFingerThreshold :=
             number ''kTPOneFingerThreshold'' (\<lambda>n. dbl_of (Z_LIGHT_FINGER + 2 * (10 - n)))
               (prefOneFingerThreshold p),
           prefTwoFingerThreshold :=
             number ''kTPTwoFingerThreshold'' (\<lambda>n. dbl_of (215 + 20 * (10 - n)))
               (prefTwoFingerThreshold p),
           prefThreeFingerThreshold :=
             number ''kTPThreeFingerThreshold'' (\<lambda>n. dbl_of (650 + 20 * (10 - n)))
               (prefThreeFingerThreshold p),
           prefScrollSpeed :=
             number ''kTPScrollSpeed'' (\<lambda>n. dbl (dbl (9 / 10) + dbl (dbl (2 / 10) * dbl_of n)))
               (prefScrollSpeed p),
           prefTrackSpeed :=
             number ''kTPTrackSpeed'' (\<lambda>n. dbl (dbl (4 / 10) + dbl (dbl (2 / 10) * dbl_of n)))
               (prefTrackSpeed p),
           prefClickDelay := count ''kTPClickDelay'' (prefClickDelay p),
           prefReleaseDelay := count ''kTPReleaseDelay'' (prefReleaseDelay p),
           tp_dragLocked := False, tp_dragging := False, tp_tapped := False\<rparr>)"

definition tp_setParamProperties ::
  "(string \<rightharpoonup> OSObject) \<Rightarrow> ('h, 'z) syn_scheme \<Rightarrow> ('h, 'z) syn_scheme" where
  "tp_setParamProperties dict w = w\<lparr>pad := tp_preferences dict (pad w)\<rparr>"

end
