(* ===== verification/PS2_System.thy ===== *)
theory PS2_System
  imports PS2_Synaptics
begin

text \<open>
  The stack put together: the environment in which the handlers registered with the
  controller are the routines of the four drivers, and the invariants of the drivers'
  own fields, which hold across every operation, however deeply the handlers are nested.
\<close>

section \<open>Definitions\<close>

text \<open>The hardware and the clock, which the sources only use.\<close>

record 'h ports =
  portIn :: "u16 \<Rightarrow> 'h \<Rightarrow> u8 \<times> 'h"
  portOut :: "u16 \<Rightarrow> u8 \<Rightarrow> 'h \<Rightarrow> 'h"
  clockUptime :: "'h \<Rightarrow> u64"
  clockMicrotime :: "'h \<Rightarrow> u32 \<times> u32"

text \<open>
  A registered pair of an object and a method, \<open>OSMemberFunctionCast\<close> of a routine of the
  same class in every case.
\<close>

definition driverInterrupt ::
  "('h, 'h syn) env \<Rightarrow> driver \<Rightarrow> driver \<Rightarrow> u8 \<Rightarrow> 'h syn \<Rightarrow> 'h syn option" where
  "driverInterrupt E action target datum w =
     (if action \<noteq> target then None
      else case target of
        KeyboardDriver \<Rightarrow> kb_interruptOccurred E datum w
      | MouseDriver \<Rightarrow> ms_interruptOccurred E (mouseNubOf E) datum w
      | ALPSDriver \<Rightarrow> al_interruptOccurred E datum w
      | SynapticsDriver \<Rightarrow> tp_interruptOccurred E (mouseNubOf E) datum w)"

definition driverPowerControl ::
  "('h, 'h syn) env \<Rightarrow> driver \<Rightarrow> driver \<Rightarrow> PS2PowerControl \<Rightarrow> 'h syn \<Rightarrow> 'h syn option" where
  "driverPowerControl E action target whatToDo w =
     (if action \<noteq> target then None
      else case target of
        KeyboardDriver \<Rightarrow> kb_setDevicePowerState (keyboardNubOf E) whatToDo w
      | MouseDriver \<Rightarrow> ms_setDevicePowerState (mouseNubOf E) whatToDo w
      | ALPSDriver \<Rightarrow> al_setDevicePowerState (mouseNubOf E) whatToDo w
      | SynapticsDriver \<Rightarrow> tp_setDevicePowerState (mouseNubOf E) whatToDo w)"

text \<open>
  The handlers of the mouse driver and of the Synaptics driver submit blocking requests,
  during which further bytes may be dispatched to them. \<open>n\<close> bounds how deeply handlers may be nested; a computation that
  nests deeper has the value \<open>None\<close>, the same as one that does not return.
\<close>

fun system_env :: "'h ports \<Rightarrow> nat \<Rightarrow> ('h, 'h syn) env" where
  "system_env P 0 =
     \<lparr>inb = portIn P, outb = portOut P, uptime = clockUptime P, microtime = clockMicrotime P,
      callInterruptAction = (\<lambda>_ _ _ _. None), callPowerControlAction = (\<lambda>_ _ _ _. None)\<rparr>"
| "system_env P (Suc n) =
     \<lparr>inb = portIn P, outb = portOut P, uptime = clockUptime P, microtime = clockMicrotime P,
      callInterruptAction = driverInterrupt (system_env P n),
      callPowerControlAction = driverPowerControl (system_env P n)\<rparr>"

section \<open>Invariants of the drivers\<close>

definition kb_wf :: "('h, 'z) kbd_scheme \<Rightarrow> bool" where
  "kb_wf w \<longleftrightarrow> length (kb_keyBitVector w) = KBV_NUNITS"

definition ms_wf :: "('h, 'z) mouse_scheme \<Rightarrow> bool" where
  "ms_wf w \<longleftrightarrow> length (ms_packetBuffer w) = kPacketLengthMax \<and>
     ms_packetLength w = (if ms_type w = kMouseTypeStandard then kPacketLengthStandard
                          else kPacketLengthIntellimouse) \<and>
     ms_packetByteCount w < ms_packetLength w \<and> ms_mouseResetCount w \<le> 5 \<and>
     ms_buttonCount w = (if ms_type w = kMouseTypeIntellimouseExplorer then 5 else 3)"

definition al_wf :: "('h, 'z) alps_scheme \<Rightarrow> bool" where
  "al_wf w \<longleftrightarrow> length (al_packetBuffer w) = 3 \<and> al_packetByteCount w < 3"

text \<open>The packet under construction fits the format that the mode byte selects.\<close>

definition tp_wf :: "synaptics \<Rightarrow> bool" where
  "tp_wf p \<longleftrightarrow> length (tp_packetBuffer p) = 6 \<and>
     tp_packetByteCount p < (if ABSOLUTE_MODE p then ABSOLUTE_PACKET_SIZE else RELATIVE_PACKET_SIZE)"

text \<open>The elements of the keyboard queue are never lost and never duplicated.\<close>

definition kq_wf :: "('h, 'z) ctl_scheme \<Rightarrow> bool" where
  "kq_wf w \<longleftrightarrow> length (keyboardQueue w) + length (keyboardQueueUnused w) = kKeyboardQueueSize"

definition drivers_wf :: "'h syn \<Rightarrow> bool" where
  "drivers_wf w \<longleftrightarrow> kq_wf w \<and> kb_wf w \<and> ms_wf w \<and> al_wf w \<and> tp_wf (pad w)"

lemma drivers_wf_more:
  "drivers_wf w \<Longrightarrow> ctl.more w' = ctl.more w \<Longrightarrow> keyboardQueue w' = keyboardQueue w
    \<Longrightarrow> keyboardQueueUnused w' = keyboardQueueUnused w \<Longrightarrow> drivers_wf w'"
  by (cases w; cases w') (simp add: drivers_wf_def kq_wf_def kb_wf_def ms_wf_def al_wf_def)

lemma drivers_wf_enqueue: "drivers_wf w \<Longrightarrow> drivers_wf (enqueueKeyboardData key w)"
  by (auto simp: enqueueKeyboardData_def drivers_wf_def kq_wf_def kb_wf_def ms_wf_def al_wf_def
      split: list.split)

lemma drivers_wf_dequeue:
  "dequeueKeyboardData w = (k, w') \<Longrightarrow> drivers_wf w \<Longrightarrow> drivers_wf w'"
  by (auto simp: dequeueKeyboardData_def drivers_wf_def kq_wf_def kb_wf_def ms_wf_def al_wf_def
      split: list.splits)

lemma drivers_wf_free [simp]:
  "drivers_wf (w\<lparr>kb_device := x0\<rparr>) = drivers_wf w"
  "drivers_wf (w\<lparr>kb_extendCount := x1\<rparr>) = drivers_wf w"
  "drivers_wf (w\<lparr>kb_interruptHandlerInstalled := x2\<rparr>) = drivers_wf w"
  "drivers_wf (w\<lparr>kb_powerControlHandlerInstalled := x3\<rparr>) = drivers_wf w"
  "drivers_wf (w\<lparr>kb_ledState := x4\<rparr>) = drivers_wf w"
  "drivers_wf (w\<lparr>kb_emacsMode := x5\<rparr>) = drivers_wf w"
  "drivers_wf (w\<lparr>kb_macintoshMode := x6\<rparr>) = drivers_wf w"
  "drivers_wf (w\<lparr>kb_saveSS := x7\<rparr>) = drivers_wf w"
  "drivers_wf (w\<lparr>kb_rootDomain := x8\<rparr>) = drivers_wf w"
  "drivers_wf (w\<lparr>ms_device := x9\<rparr>) = drivers_wf w"
  "drivers_wf (w\<lparr>ms_interruptHandlerInstalled := x10\<rparr>) = drivers_wf w"
  "drivers_wf (w\<lparr>ms_powerControlHandlerInstalled := x11\<rparr>) = drivers_wf w"
  "drivers_wf (w\<lparr>ms_resolution := x12\<rparr>) = drivers_wf w"
  "drivers_wf (w\<lparr>ms_mouseInfoBytes := x15\<rparr>) = drivers_wf w"
  "drivers_wf (w\<lparr>al_device := x17\<rparr>) = drivers_wf w"
  "drivers_wf (w\<lparr>al_interruptHandlerInstalled := x18\<rparr>) = drivers_wf w"
  "drivers_wf (w\<lparr>al_powerControlHandlerInstalled := x19\<rparr>) = drivers_wf w"
  "drivers_wf (w\<lparr>al_resolution := x20\<rparr>) = drivers_wf w"
  "drivers_wf (w\<lparr>al_touchPadVersion := x21\<rparr>) = drivers_wf w"
  "drivers_wf (w\<lparr>al_touchPadModeByte := x22\<rparr>) = drivers_wf w"
  by (simp_all add: drivers_wf_def kq_wf_def kb_wf_def ms_wf_def al_wf_def)

lemma drivers_wf_pad:
  "drivers_wf w \<Longrightarrow> tp_wf p \<Longrightarrow> drivers_wf (w\<lparr>pad := p\<rparr>)"
  by (auto simp: drivers_wf_def kq_wf_def kb_wf_def ms_wf_def al_wf_def split: if_splits)

lemma pad_emit [simp]: "pad (emit e w) = pad w" "pad (emits es w) = pad w"
  by (simp_all add: emit_def emits_def)

lemma drivers_wf_pad_eq: "tp_wf p = tp_wf (pad w) \<Longrightarrow> drivers_wf (w\<lparr>pad := p\<rparr>) = drivers_wf w"
  by (auto simp: drivers_wf_def kq_wf_def kb_wf_def ms_wf_def al_wf_def split: if_splits)

lemma drivers_wf_emits: "drivers_wf (emit e w) = drivers_wf w" "drivers_wf (emits es w) = drivers_wf w"
  by (auto simp: emit_def emits_def drivers_wf_def kq_wf_def kb_wf_def ms_wf_def al_wf_def
      split: if_splits)

lemma drivers_wf_padD: "drivers_wf w \<Longrightarrow> tp_wf (pad w)"
  by (simp add: drivers_wf_def)

lemma drivers_wf_vector:
  "drivers_wf w \<Longrightarrow> length bits = KBV_NUNITS \<Longrightarrow> drivers_wf (w\<lparr>kb_keyBitVector := bits\<rparr>)"
  by (auto simp: drivers_wf_def kq_wf_def kb_wf_def ms_wf_def al_wf_def split: if_splits)

lemma drivers_wf_lengthD: "drivers_wf w \<Longrightarrow> length (kb_keyBitVector w) = KBV_NUNITS"
  by (simp add: drivers_wf_def kq_wf_def kb_wf_def)

lemma drivers_wf_count0:
  "drivers_wf w \<Longrightarrow> drivers_wf (w\<lparr>ms_packetByteCount := 0\<rparr>)"
  "drivers_wf w \<Longrightarrow> drivers_wf (w\<lparr>ms_packetByteCount := 0, ms_mouseResetCount := 0\<rparr>)"
  "drivers_wf w \<Longrightarrow> x \<le> 5 \<Longrightarrow> drivers_wf (w\<lparr>ms_mouseResetCount := x\<rparr>)"
  by (auto simp: drivers_wf_def kq_wf_def kb_wf_def ms_wf_def al_wf_def ps2_consts)

lemma word_inc_less: "(a :: 'a::len word) < b \<Longrightarrow> a + 1 \<noteq> b \<Longrightarrow> a + 1 < b"
  using inc_le [of a b] by (simp add: order.strict_iff_order)

lemma word_inc_less_3: "(a :: u32) < 3 \<Longrightarrow> a \<noteq> 2 \<Longrightarrow> a + 1 < 3"
  by (rule word_inc_less) (auto simp: eq_diff_eq [symmetric])

lemma wf_storeByte_full:
  "ms_storeByte d w = Some u \<Longrightarrow> drivers_wf w \<Longrightarrow> drivers_wf (u\<lparr>ms_packetByteCount := 0\<rparr>)"
  by (auto simp: ms_storeByte_def drivers_wf_def kq_wf_def kb_wf_def ms_wf_def al_wf_def ps2_consts
      split: if_splits)

lemma wf_storeByte_part:
  "ms_storeByte d w = Some u \<Longrightarrow> drivers_wf w \<Longrightarrow> ms_packetByteCount u \<noteq> ms_packetLength u
    \<Longrightarrow> drivers_wf u"
  by (auto simp: ms_storeByte_def drivers_wf_def kq_wf_def kb_wf_def ms_wf_def al_wf_def
      split: if_splits intro: word_inc_less)

lemma dispatchPacket_wf_fields:
  "drivers_wf ((ms_dispatchPacket E p n w)\<lparr>ms_packetByteCount := 0\<rparr>) =
   drivers_wf (w\<lparr>ms_packetByteCount := 0\<rparr>)"
  by (simp add: ms_dispatchPacket_def emit_def Let_def drivers_wf_def kq_wf_def kb_wf_def ms_wf_def al_wf_def)

locale wf_drivers = driver_invariant E drivers_wf for E :: "('h, 'h syn) env"
begin

lemma wf_dispatchKeyCode:
  fixes w :: "'h syn"
  shows "dispatchKeyCode E' k d w = Some (b, w') \<Longrightarrow> drivers_wf w \<Longrightarrow> drivers_wf w'"
  unfolding dispatchKeyCode_def
  by (auto simp: Let_def KBV_KEYDOWN_def KBV_KEYUP_def drivers_wf_lengthD split: if_splits
      intro!: I_emit drivers_wf_vector)

lemma wf_dispatchEject:
  fixes w :: "'h syn"
  shows "dispatchEject d w = Some (b, w') \<Longrightarrow> drivers_wf w \<Longrightarrow> drivers_wf w'"
  unfolding dispatchEject_def by (auto simp: Let_def intro!: I_emit)

lemma wf_dispatchScancode:
  fixes w :: "'h syn"
  assumes "dispatchKeyboardEventWithScancode E' c w = Some (b, w')" and "drivers_wf w"
  shows "drivers_wf w'"
proof -
  have "drivers_wf w \<longrightarrow> drivers_wf (snd (b, w'))"
  proof (rule dispatchKeyboardEventWithScancode.raw_induct
      [where P = "\<lambda>E' c w r. drivers_wf w \<longrightarrow> drivers_wf (snd r)", OF _ assms(1)], intro impI, goal_cases)
    case (1 f E' c v r)
    have rest: "f E' x u = Some (b, u') \<Longrightarrow> drivers_wf u \<Longrightarrow> drivers_wf u'" for x b and u u' :: "'h syn"
      using 1(1) by fastforce
    obtain b' v' where r: "r = (b', v')" by force
    from 1(2-) show ?case unfolding r
      by (auto simp: Let_def split: if_splits option.splits
          dest!: wf_dispatchKeyCode wf_dispatchEject dest!: rest intro!: I_emit)
  qed
  with assms show ?thesis by simp
qed

lemma wf_kb_interruptOccurred:
  fixes w :: "'h syn"
  shows "kb_interruptOccurred E' c w = Some w' \<Longrightarrow> drivers_wf w \<Longrightarrow> drivers_wf w'"
  unfolding kb_interruptOccurred_def
  by (auto split: if_splits dest: wf_dispatchScancode intro!: I_emit)

lemmas wf_kb_nub = I_send_async [OF is_nub_of(1)] I_readModifyWrite [OF is_nub_of(1)]
  I_uninstall [OF _ is_nub_of(1)]

lemma wf_kb_setDevicePowerState:
  fixes w :: "'h syn"
  shows "kb_setDevicePowerState (keyboardNubOf E) p w = Some w' \<Longrightarrow> drivers_wf w \<Longrightarrow> drivers_wf w'"
  unfolding kb_setDevicePowerState_def kb_setKeyboardEnable_def kb_setLEDs_def kb_setCommandByte_def
  by (auto simp: Let_def simp del: nub_simps split: PS2PowerControl.splits if_splits
      dest!: wf_kb_nub intro!: I_install [OF is_nub_of(1)])

lemmas wf_mouse_nub = I_send_async [OF is_nub_of(2)] I_send_blocking [OF is_nub_of(2)]
  I_readModifyWrite [OF is_nub_of(2)]

lemma wf_ms_setMouseEnable:
  fixes w :: "'h syn"
  shows "ms_setMouseEnable (mouseNubOf E) e w = Some w' \<Longrightarrow> drivers_wf w \<Longrightarrow> drivers_wf w'"
  unfolding ms_setMouseEnable_def by (auto simp del: nub_simps dest!: wf_mouse_nub)

lemma wf_ms_setMouseSampleRate:
  fixes w :: "'h syn"
  shows "ms_setMouseSampleRate (mouseNubOf E) x w = Some w' \<Longrightarrow> drivers_wf w \<Longrightarrow> drivers_wf w'"
  unfolding ms_setMouseSampleRate_def by (auto simp del: nub_simps dest!: wf_mouse_nub)

lemma wf_ms_getMouseID:
  fixes w :: "'h syn"
  shows "ms_getMouseID (mouseNubOf E) w = Some (x, w') \<Longrightarrow> drivers_wf w \<Longrightarrow> drivers_wf w'"
  unfolding ms_getMouseID_def by (auto simp del: nub_simps dest!: wf_mouse_nub)

lemma wf_ms_setIntellimouseMode:
  fixes w :: "'h syn"
  shows "ms_setIntellimouseMode (mouseNubOf E) w = Some (x, w') \<Longrightarrow> drivers_wf w \<Longrightarrow> drivers_wf w'"
  unfolding ms_setIntellimouseMode_def
  by (auto simp: Let_def simp del: nub_simps split: if_splits prod.splits
      dest!: wf_ms_setMouseSampleRate wf_ms_getMouseID intro!: I_emit)

lemma wf_setMode_count0:
  fixes w :: "'h syn"
  shows "drivers_wf w \<Longrightarrow> drivers_wf ((ms_setMode t w)\<lparr>ms_packetByteCount := 0\<rparr>)"
  by (auto simp: ms_setMode_def emit_def Let_def drivers_wf_def kq_wf_def kb_wf_def ms_wf_def al_wf_def ps2_consts)

lemma wf_ms_resetMouse:
  fixes w :: "'h syn"
  shows "ms_resetMouse (mouseNubOf E) w = Some w' \<Longrightarrow> drivers_wf w \<Longrightarrow> drivers_wf w'"
  unfolding ms_resetMouse_def ms_getMouseInformation_def ms_setMouseResolution_def ms_setCommandByte_def
  by (auto simp: Let_def simp del: nub_simps split: if_splits prod.splits
      dest!: wf_mouse_nub wf_ms_setIntellimouseMode wf_ms_setMouseEnable intro!: wf_setMode_count0)

lemma wf_ms_scheduleMouseReset:
  fixes w :: "'h syn"
  shows "ms_scheduleMouseReset (mouseNubOf E) w = Some w' \<Longrightarrow> drivers_wf w \<Longrightarrow> drivers_wf w'"
  unfolding ms_scheduleMouseReset_def
  by (auto simp del: nub_simps dest!: wf_ms_setMouseEnable wf_ms_resetMouse)

lemma wf_dispatchPacket:
  fixes w :: "'h syn"
  shows "drivers_wf w \<Longrightarrow> drivers_wf (ms_dispatchPacket E' p n w)"
  unfolding ms_dispatchPacket_def by (auto simp: Let_def intro!: I_emit)

lemma wf_ms_interruptOccurred:
  fixes w :: "'h syn"
  assumes "ms_interruptOccurred E' (mouseNubOf E) d w = Some w'" and wf: "drivers_wf w"
  shows "drivers_wf w'"
proof (cases "ms_packetByteCount w = 0 \<and> (d = kSC_Acknowledge \<or> d AND 0x08 = 0)")
  case True
  have "drivers_wf (emit (IOLog LogUnexpectedData) w)" using wf by (rule I_emit)
  with True assms(1) show ?thesis
    by (auto simp: ms_interruptOccurred_def Let_def simp del: nub_simps split: if_splits
        dest!: wf_ms_scheduleMouseReset intro!: drivers_wf_count0(3) inc_le)
next
  case False
  with assms(1) obtain u where u: "ms_storeByte d w = Some u"
    and rest: "(if ms_packetByteCount u = ms_packetLength u
       then let u = ms_dispatchPacket E' (ms_packetBuffer u) (ms_packetLength u) u
            in Some (u\<lparr>ms_packetByteCount := 0, ms_mouseResetCount := 0\<rparr>)
       else if ms_packetByteCount u = 2 \<and> ms_packetBuffer u ! 0 = 0xAA
       then ms_scheduleMouseReset (mouseNubOf E) u else Some u) = Some w'"
    by (auto simp: ms_interruptOccurred_def simp del: nub_simps)
  show ?thesis
  proof (cases "ms_packetByteCount u = ms_packetLength u")
    case True
    have "drivers_wf (u\<lparr>ms_packetByteCount := 0\<rparr>)"
      using u wf by (rule wf_storeByte_full)
    then have "drivers_wf ((ms_dispatchPacket E' (ms_packetBuffer u) (ms_packetLength u) u)
        \<lparr>ms_packetByteCount := 0, ms_mouseResetCount := 0\<rparr>)"
      using drivers_wf_count0(3) [of "(ms_dispatchPacket E' (ms_packetBuffer u) (ms_packetLength u) u)
        \<lparr>ms_packetByteCount := 0\<rparr>" 0] by (simp add: dispatchPacket_wf_fields)
    with rest True show ?thesis by (simp add: Let_def)
  next
    case False
    with u wf have "drivers_wf u" by (rule wf_storeByte_part)
    with rest False show ?thesis
      by (auto simp del: nub_simps split: if_splits dest!: wf_ms_scheduleMouseReset)
  qed
qed

lemma wf_ms_setDevicePowerState:
  fixes w :: "'h syn"
  shows "ms_setDevicePowerState (mouseNubOf E) p w = Some w' \<Longrightarrow> drivers_wf w \<Longrightarrow> drivers_wf w'"
  unfolding ms_setDevicePowerState_def
  by (auto simp del: nub_simps split: PS2PowerControl.splits
      dest!: wf_ms_setMouseEnable wf_ms_resetMouse)

lemma drivers_wf_al:
  fixes w w' :: "'h syn"
  assumes "drivers_wf w" and "al_wf w'" and "mouse.truncate w' = mouse.truncate (w\<lparr>effects := effects w'\<rparr>)"
    and "pad w' = pad w"
  shows "drivers_wf w'"
  using assms by (cases w; cases w') (simp add: mouse.truncate_def mouse.defs drivers_wf_def kq_wf_def kb_wf_def ms_wf_def)

lemma wf_al_interruptOccurred:
  fixes w :: "'h syn"
  assumes "al_interruptOccurred E' d w = Some w'" and "drivers_wf w"
  shows "drivers_wf w'"
proof (rule drivers_wf_al [OF assms(2)])
  have "al_wf w" using assms(2) by (simp add: drivers_wf_def)
  with assms(1) show "al_wf w'"
    by (auto simp: al_interruptOccurred_def al_dispatchPacket_def emit_def Let_def al_wf_def
        split: if_splits intro: word_inc_less_3)
  from assms(1) show "mouse.truncate w' = mouse.truncate (w\<lparr>effects := effects w'\<rparr>)"
    by (auto simp: al_interruptOccurred_def al_dispatchPacket_def emit_def Let_def mouse.truncate_def
        mouse.defs split: if_splits)
  from assms(1) show "pad w' = pad w"
    by (auto simp: al_interruptOccurred_def al_dispatchPacket_def emit_def Let_def split: if_splits)
qed

lemma wf_al_setTapEnable:
  fixes w :: "'h syn"
  shows "al_setTapEnable (mouseNubOf E) e w = Some w' \<Longrightarrow> drivers_wf w \<Longrightarrow> drivers_wf w'"
  using I_allocateRequest [of w]
  unfolding al_setTapEnable_def al_setSampleRateAndResolution_def
  by (auto simp: is_nub_simps [OF is_nub_of(2)] simp del: nub_simps split: prod.splits if_splits
      dest!: I_fill_request I_submitRequestAndBlock I_freeRequest wf_mouse_nub)

lemma wf_al_setDevicePowerState:
  fixes w :: "'h syn"
  shows "al_setDevicePowerState (mouseNubOf E) p w = Some w' \<Longrightarrow> drivers_wf w \<Longrightarrow> drivers_wf w'"
  unfolding al_setDevicePowerState_def al_setTouchPadEnable_def al_setCommandByte_def
  by (auto simp del: nub_simps split: PS2PowerControl.splits dest!: wf_mouse_nub wf_al_setTapEnable)

lemmas wf_tp = wf_mouse_nub drivers_wf_padD

lemma wf_tp_setTouchPadEnable:
  fixes w :: "'h syn"
  shows "tp_setTouchPadEnable (mouseNubOf E) e w = Some w' \<Longrightarrow> drivers_wf w \<Longrightarrow> drivers_wf w'"
  unfolding tp_setTouchPadEnable_def by (auto simp del: nub_simps dest!: wf_mouse_nub)

lemma wf_tp_setTouchPadModeByte:
  fixes w :: "'h syn"
  shows "tp_setTouchPadModeByte (mouseNubOf E) m e w = Some (b, w') \<Longrightarrow> drivers_wf w \<Longrightarrow> drivers_wf w'"
  unfolding tp_setTouchPadModeByte_def by (auto simp del: nub_simps dest!: wf_mouse_nub)

lemma tp_wf_reset: "tp_wf p \<Longrightarrow> tp_wf (p\<lparr>tp_packetByteCount := 0, tp_streamdx := a, tp_streamdy := b,
    tp_settleTime := c, tp_tapped := d, tp_dragLocked := e\<rparr>)"
  by (simp add: tp_wf_def ABSOLUTE_MODE_def ps2_consts)

lemma wf_tp_setDevicePowerState:
  fixes w :: "'h syn"
  shows "tp_setDevicePowerState (mouseNubOf E) p w = Some w' \<Longrightarrow> drivers_wf w \<Longrightarrow> drivers_wf w'"
  unfolding tp_setDevicePowerState_def tp_setCommandByte_def
  by (auto simp: Let_def simp del: nub_simps split: PS2PowerControl.splits
      dest!: wf_tp_setTouchPadEnable wf_tp_setTouchPadModeByte wf_mouse_nub
      intro!: drivers_wf_pad tp_wf_reset drivers_wf_padD I_emit)

lemma wf_handlePacket:
  fixes w :: "'h syn"
  assumes "handlePacket E' f (w\<lparr>pad := p\<rparr>) = Some w'" and "drivers_wf w"
    and "length (tp_packetBuffer p) = 6"
    and "\<And>c now pk es p'. f c now pk p = Some (es, p') \<Longrightarrow> framing p' = framing p"
  shows "drivers_wf w'"
proof -
  have ok: "tp_wf (q\<lparr>tp_packetByteCount := 0\<rparr>)" if "framing q = framing p" for q
    using that assms(3) by (simp add: framing_def tp_wf_def ABSOLUTE_MODE_def ps2_consts)
  from assms(1) consider "w' = w\<lparr>pad := p\<lparr>tp_packetByteCount := 0\<rparr>\<rparr>"
    | es q where "f (microtime E' (hw w)) (uptime E' (hw w)) (tp_packetBuffer p) p = Some (es, q)"
      and "w' = w\<lparr>effects := effects w @ es, pad := q\<lparr>tp_packetByteCount := 0\<rparr>\<rparr>"
    by (auto simp: handlePacket_def emits_def Let_def split: if_splits)
  then show ?thesis
    using assms(2) by cases (auto intro!: drivers_wf_pad I_prims ok dest: assms(4))
qed

lemma tp_storeByte_wf:
  assumes "tp_storeByte d p = Some q" and "tp_wf p"
  shows "length (tp_packetBuffer q) = 6"
    and "\<lbrakk>RELATIVE_MODE q \<longrightarrow> tp_packetByteCount q \<noteq> RELATIVE_PACKET_SIZE;
          ABSOLUTE_MODE q \<longrightarrow> tp_packetByteCount q \<noteq> ABSOLUTE_PACKET_SIZE\<rbrakk> \<Longrightarrow> tp_wf q"
  using assms
  by (auto simp: tp_storeByte_def tp_wf_def RELATIVE_MODE_def ABSOLUTE_MODE_def split: if_splits
      intro!: word_inc_less)

lemma wf_tp_interruptOccurred:
  fixes w :: "'h syn"
  assumes "tp_interruptOccurred E' (mouseNubOf E) d w = Some w'" and wf: "drivers_wf w"
  shows "drivers_wf w'"
proof (cases "tp_packetByteCount (pad w) = 0 \<and>
    (d = kSC_Acknowledge \<or> RELATIVE_MODE (pad w) \<and> d AND 0x08 = 0 \<or> ABSOLUTE_MODE (pad w) \<and> d AND 0x08 \<noteq> 0)")
  case True
  with assms show ?thesis
    by (auto simp: tp_interruptOccurred_def Let_def simp del: nub_simps split: if_splits
        dest!: wf_tp_setDevicePowerState)
next
  case False
  with assms(1) obtain p where p: "tp_storeByte d (pad w) = Some p"
    and rest: "(if RELATIVE_MODE p \<and> tp_packetByteCount p = RELATIVE_PACKET_SIZE
         then handlePacket E' relativePacket (w\<lparr>pad := p\<rparr>)
         else if ABSOLUTE_MODE p \<and> tp_packetByteCount p = ABSOLUTE_PACKET_SIZE
         then handlePacket E' absolutePacket (w\<lparr>pad := p\<rparr>) else Some (w\<lparr>pad := p\<rparr>)) = Some w'"
    by (auto simp: tp_interruptOccurred_def Let_def simp del: nub_simps split: if_splits)
  note stored = tp_storeByte_wf [OF p drivers_wf_padD [OF wf]]
  from rest stored wf show ?thesis
    by (auto split: if_splits intro: wf_handlePacket framing_relativePacket framing_absolutePacket
        intro!: drivers_wf_pad)
qed

lemma wf_driverInterrupt:
  "driverInterrupt E a t d w = Some w' \<Longrightarrow> drivers_wf w \<Longrightarrow> drivers_wf w'"
  unfolding driverInterrupt_def
  by (auto simp del: nub_simps split: driver.splits if_splits
      dest: wf_kb_interruptOccurred wf_ms_interruptOccurred wf_al_interruptOccurred
        wf_tp_interruptOccurred)

lemma wf_driverPowerControl:
  "driverPowerControl E a t p w = Some w' \<Longrightarrow> drivers_wf w \<Longrightarrow> drivers_wf w'"
  unfolding driverPowerControl_def
  by (auto simp del: nub_simps split: driver.splits if_splits
      dest: wf_kb_setDevicePowerState wf_ms_setDevicePowerState wf_al_setDevicePowerState
        wf_tp_setDevicePowerState)

end

text \<open>The nesting depth does not matter: by induction, every environment keeps the invariants.\<close>

lemma system_wf_drivers: "wf_drivers (system_env P n)"
proof (induction n)
  case 0
  show ?case by unfold_locales (auto intro: drivers_wf_enqueue elim: drivers_wf_more drivers_wf_dequeue)
next
  case (Suc n)
  note inner = wf_drivers.wf_driverInterrupt [OF Suc] wf_drivers.wf_driverPowerControl [OF Suc]
  show ?case
    by unfold_locales (auto intro: drivers_wf_enqueue elim: drivers_wf_more drivers_wf_dequeue inner)
qed

interpretation sys: wf_drivers "system_env P n" for P n
  by (rule system_wf_drivers)

text \<open>What the invariants say about array bounds.\<close>

lemma drivers_wf_safe:
  assumes "drivers_wf w"
  shows "(\<exists>u. ms_storeByte b w = Some u) \<and> ms_packetByteCount w < ms_packetLength w \<and>
    ms_mouseResetCount w \<le> 5 \<and>
    ms_packetLength w = (if ms_type w = kMouseTypeStandard then kPacketLengthStandard
                         else kPacketLengthIntellimouse) \<and>
    unat (al_packetByteCount w) < length (al_packetBuffer w) \<and>
    unat (tp_packetByteCount (pad w)) < length (tp_packetBuffer (pad w)) \<and>
    length (kb_keyBitVector w) = KBV_NUNITS \<and>
    length (keyboardQueue w) + length (keyboardQueueUnused w) = kKeyboardQueueSize"
  using assms
  by (auto simp: drivers_wf_def kq_wf_def kb_wf_def ms_wf_def al_wf_def ms_storeByte_def tp_wf_def
      ps2_consts word_less_nat_alt split: if_splits)

end
