(* ===== verification/PS2_Frames.thy ===== *)
theory PS2_Frames
  imports PS2_System
begin

text \<open>
  The drivers' handlers frame the heap of requests: whatever a handler submits, and however
  deeply bytes are dispatched while it waits, every request that was held before is
  unchanged afterwards and no other is left behind.
\<close>

section \<open>Frames of the drivers\<close>

text \<open>Fields that the heap does not consist of.\<close>

definition same_heap :: "('h, 'z) ctl_scheme \<Rightarrow> ('h, 'z) ctl_scheme \<Rightarrow> bool" where
  "same_heap w w' \<longleftrightarrow> requests w' = requests w \<and> requestQueue w' = requestQueue w \<and>
     nextRequest w' = nextRequest w"

lemma same_heap_refl: "same_heap w w"
  by (simp add: same_heap_def)

lemma same_heap_emit [simp]: "same_heap v (emit e w) = same_heap v w" "same_heap (emit e w) v = same_heap w v"
  by (simp_all add: same_heap_def emit_def)

lemma frame_same_heap: "same_heap w w' \<Longrightarrow> frame_upto A B v w \<Longrightarrow> frame_upto A B v w'"
  by (auto simp: same_heap_def intro: frame_if_same_heap)

lemma same_heap_free [simp]:
  "same_heap v (w\<lparr>kb_keyBitVector := x\<rparr>) = same_heap v w"
  "same_heap v (w\<lparr>kb_extendCount := y\<rparr>) = same_heap v w"
  by (simp_all add: same_heap_def)

lemma dispatchKeyCode_heap:
  "dispatchKeyCode E k d w = Some (b, w') \<Longrightarrow> same_heap v w \<Longrightarrow> same_heap v w'"
  by (auto simp: dispatchKeyCode_def Let_def split: if_splits)

lemma dispatchEject_heap: "dispatchEject d w = Some (b, w') \<Longrightarrow> same_heap v w \<Longrightarrow> same_heap v w'"
  by (auto simp: dispatchEject_def Let_def)

lemma dispatchScancode_heap:
  "dispatchKeyboardEventWithScancode E c w = Some (b, w') \<Longrightarrow> same_heap w w'"
proof -
  assume *: "dispatchKeyboardEventWithScancode E c w = Some (b, w')"
  have "\<forall>v. same_heap v w \<longrightarrow> same_heap v (snd (b, w'))"
  proof (rule dispatchKeyboardEventWithScancode.raw_induct
      [where P = "\<lambda>E c w r. \<forall>v. same_heap v w \<longrightarrow> same_heap v (snd r)", OF _ *], intro impI allI, goal_cases)
    case (1 f E' c u r v)
    have rest: "f E' x y = Some (b, z) \<Longrightarrow> same_heap v y \<Longrightarrow> same_heap v z" for x y b z
      using 1(1) by fastforce
    obtain b' v' where r: "r = (b', v')" by force
    from 1(2-) show ?case unfolding r
      by (auto simp: Let_def split: if_splits option.splits 
          dest!: dispatchKeyCode_heap dispatchEject_heap rest)
  qed
  then show ?thesis by (simp add: same_heap_refl)
qed

lemma kb_interruptOccurred_heap: "kb_interruptOccurred E c w = Some w' \<Longrightarrow> same_heap w w'"
  unfolding kb_interruptOccurred_def
  by (auto simp: same_heap_refl split: if_splits dest: dispatchScancode_heap)

lemma al_interruptOccurred_heap: "al_interruptOccurred E c w = Some w' \<Longrightarrow> same_heap w w'"
  by (auto simp: al_interruptOccurred_def al_dispatchPacket_def same_heap_def emit_def Let_def
      split: if_splits)

lemma ms_dispatchPacket_heap: "same_heap w (ms_dispatchPacket E p n w)"
  by (simp add: ms_dispatchPacket_def same_heap_def emit_def Let_def)

locale heap_drivers = heap_handlers E for E :: "('h, 'h syn) env"
begin

lemma frame_chain: "(heap_ok w \<Longrightarrow> frame w w') \<Longrightarrow> frame v w \<Longrightarrow> frame v w'"
  using frame_trans [of "{}" "{}" v w "{}" "{}" w'] by (auto dest: frame_ok)

lemma frame_of_uninstall:
  fixes w :: "'h syn"
  shows "uninstallInterruptAction d w = Some w' \<Longrightarrow> heap_ok w \<Longrightarrow> frame w w'"
  by (auto dest!: uninstall_heap intro!: frame_unchanged)

lemma kbd_install:
  "nubInstallInterruptAction (keyboardNubOf E) = installInterruptAction kDT_Keyboard"
  "nubUninstallInterruptAction (keyboardNubOf E) = uninstallInterruptAction kDT_Keyboard"
  by simp_all

lemma fr_nub:
  fixes v w :: "'h syn"
  shows "send_async (keyboardNubOf E) cs w = Some w' \<Longrightarrow> frame v w \<Longrightarrow> frame v w'"
    and "readModifyWriteCommandByte (keyboardNubOf E) s c w = Some w' \<Longrightarrow> frame v w \<Longrightarrow> frame v w'"
    and "send_async (mouseNubOf E) cs w = Some w' \<Longrightarrow> frame v w \<Longrightarrow> frame v w'"
    and "send_blocking (mouseNubOf E) cs w = Some (q, w') \<Longrightarrow> frame v w \<Longrightarrow> frame v w'"
    and "readModifyWriteCommandByte (mouseNubOf E) s c w = Some w' \<Longrightarrow> frame v w \<Longrightarrow> frame v w'"
    and "uninstallInterruptAction d w = Some w' \<Longrightarrow> frame v w \<Longrightarrow> frame v w'"
  by (auto simp del: nub_simps intro: kbd.send_async_frame kbd.readModifyWrite_frame
      mse.send_async_frame mse.send_blocking_frame(1) mse.readModifyWrite_frame
      frame_of_uninstall elim!: frame_chain [rotated])

lemma fr_free [simp]:
  fixes v w :: "'h syn"
  shows "frame_upto A B v (w\<lparr>kb_interruptHandlerInstalled := x1\<rparr>) = frame_upto A B v w"
    and "frame_upto A B v (w\<lparr>kb_ledState := x2\<rparr>) = frame_upto A B v w"
    and "frame_upto A B v (w\<lparr>ms_packetByteCount := x3\<rparr>) = frame_upto A B v w"
    and "frame_upto A B v (w\<lparr>ms_mouseResetCount := x4\<rparr>) = frame_upto A B v w"
    and "frame_upto A B v (w\<lparr>ms_mouseInfoBytes := x5\<rparr>) = frame_upto A B v w"
    and "frame_upto A B v (w\<lparr>ms_resolution := x6\<rparr>) = frame_upto A B v w"
    and "frame_upto A B v (emit e w) = frame_upto A B v w"
    and "frame_upto A B v (ms_setMode t w) = frame_upto A B v w"
    and "frame_upto A B v (installInterruptAction d tg a w) = frame_upto A B v w"
    and "frame_upto A B v (ms_dispatchPacket E' p n w) = frame_upto A B v w"
  by (rule frame_fields(3);
      simp add: emit_def ms_setMode_def install_heap ms_dispatchPacket_def Let_def)+

lemma fr_storeByte:
  fixes v w :: "'h syn"
  shows "ms_storeByte d w = Some w' \<Longrightarrow> frame v w \<Longrightarrow> frame v w'"
  by (auto simp: ms_storeByte_def same_heap_def split: if_splits elim!: frame_same_heap [rotated])

lemma fr_kb_setDevicePowerState:
  fixes v w :: "'h syn"
  shows "kb_setDevicePowerState (keyboardNubOf E) p w = Some w' \<Longrightarrow> frame v w \<Longrightarrow> frame v w'"
  unfolding kb_setDevicePowerState_def kb_setKeyboardEnable_def kb_setLEDs_def kb_setCommandByte_def
  by (auto simp: Let_def kbd_install simp del: nub_simps split: PS2PowerControl.splits if_splits dest!: fr_nub)

lemma fr_ms_setMouseEnable:
  fixes v w :: "'h syn"
  shows "ms_setMouseEnable (mouseNubOf E) e w = Some w' \<Longrightarrow> frame v w \<Longrightarrow> frame v w'"
  unfolding ms_setMouseEnable_def by (auto simp del: nub_simps dest!: fr_nub)

lemma fr_ms_setIntellimouseMode:
  fixes v w :: "'h syn"
  shows "ms_setIntellimouseMode (mouseNubOf E) w = Some (x, w') \<Longrightarrow> frame v w \<Longrightarrow> frame v w'"
  unfolding ms_setIntellimouseMode_def ms_setMouseSampleRate_def ms_getMouseID_def
  by (auto simp: Let_def simp del: nub_simps split: if_splits prod.splits dest!: fr_nub)

lemma fr_ms_resetMouse:
  fixes v w :: "'h syn"
  shows "ms_resetMouse (mouseNubOf E) w = Some w' \<Longrightarrow> frame v w \<Longrightarrow> frame v w'"
  unfolding ms_resetMouse_def ms_getMouseInformation_def ms_setMouseResolution_def ms_setCommandByte_def
  by (auto simp: Let_def simp del: nub_simps split: if_splits prod.splits
      dest!: fr_nub fr_ms_setIntellimouseMode fr_ms_setMouseEnable)

lemma fr_ms_interruptOccurred:
  fixes v w :: "'h syn"
  shows "ms_interruptOccurred E' (mouseNubOf E) d w = Some w' \<Longrightarrow> frame v w \<Longrightarrow> frame v w'"
  unfolding ms_interruptOccurred_def ms_scheduleMouseReset_def
  by (auto simp: Let_def simp del: nub_simps split: if_splits
      dest!: fr_ms_setMouseEnable fr_ms_resetMouse fr_storeByte)

lemma fr_al_setTapEnable:
  fixes v w :: "'h syn"
  assumes "al_setTapEnable (mouseNubOf E) e w = Some w'" and "frame v w"
  shows "frame v w'"
proof (rule frame_chain [OF _ assms(2)])
  assume ok: "heap_ok w"
  obtain r u x y q z where a: "nubAllocateRequest (mouseNubOf E) w = (r, u)"
    and f: "fill_request r (tapSequence e) u = Some x"
    and b: "nubSubmitRequestAndBlock (mouseNubOf E) r x = Some y" and q: "requests y r = Some q"
    and n: "(if commandsCount q = 14 then al_setSampleRateAndResolution (mouseNubOf E) y
      else Some y) = Some z"
    and w': "nubFreeRequest (mouseNubOf E) r z = Some w'"
    using assms(1) by (auto simp: al_setTapEnable_def simp del: nub_simps split: prod.splits)
  have "frame y z" if "heap_ok y"
    using n frame_refl [OF that, of "{}"]
    by (auto simp: al_setSampleRateAndResolution_def simp del: nub_simps split: if_splits
        dest!: fr_nub)
  with a f b w' ok show "frame w w'" by (rule mse.scoped_use_frame)
qed

lemma fr_al_setDevicePowerState:
  fixes v w :: "'h syn"
  shows "al_setDevicePowerState (mouseNubOf E) p w = Some w' \<Longrightarrow> frame v w \<Longrightarrow> frame v w'"
  unfolding al_setDevicePowerState_def al_setTouchPadEnable_def al_setCommandByte_def
  by (auto simp del: nub_simps split: PS2PowerControl.splits dest!: fr_nub fr_al_setTapEnable)

lemma fr_pad [simp]:
  fixes v w :: "'h syn"
  shows "frame_upto A B v (w\<lparr>pad := p\<rparr>) = frame_upto A B v w"
    and "frame_upto A B v (w\<lparr>codeToRepeat := c\<rparr>) = frame_upto A B v w"
    and "frame_upto A B v (w\<lparr>lastEventTime := l\<rparr>) = frame_upto A B v w"
    and "frame_upto A B v (emits es w) = frame_upto A B v w"
  by (rule frame_fields(3); simp add: emits_def)+

lemma fr_tp_setTouchPadEnable:
  fixes v w :: "'h syn"
  shows "tp_setTouchPadEnable (mouseNubOf E) e w = Some w' \<Longrightarrow> frame v w \<Longrightarrow> frame v w'"
  unfolding tp_setTouchPadEnable_def by (auto simp del: nub_simps dest!: fr_nub)

lemma fr_tp_setTouchPadModeByte:
  fixes v w :: "'h syn"
  shows "tp_setTouchPadModeByte (mouseNubOf E) m e w = Some (b, w') \<Longrightarrow> frame v w \<Longrightarrow> frame v w'"
  unfolding tp_setTouchPadModeByte_def by (auto simp del: nub_simps dest!: fr_nub)

lemma fr_tp_setDevicePowerState:
  fixes v w :: "'h syn"
  shows "tp_setDevicePowerState (mouseNubOf E) p w = Some w' \<Longrightarrow> frame v w \<Longrightarrow> frame v w'"
  unfolding tp_setDevicePowerState_def tp_setCommandByte_def
  by (auto simp: Let_def simp del: nub_simps split: PS2PowerControl.splits
      dest!: fr_nub fr_tp_setTouchPadEnable fr_tp_setTouchPadModeByte)

lemma fr_handlePacket:
  fixes v w :: "'h syn"
  shows "handlePacket E' f w = Some w' \<Longrightarrow> frame v w \<Longrightarrow> frame v w'"
  by (auto simp: handlePacket_def Let_def split: if_splits)

lemma fr_tp_interruptOccurred:
  fixes v w :: "'h syn"
  shows "tp_interruptOccurred E' (mouseNubOf E) d w = Some w' \<Longrightarrow> frame v w \<Longrightarrow> frame v w'"
  unfolding tp_interruptOccurred_def
  by (auto simp: Let_def simp del: nub_simps split: if_splits
      dest!: fr_tp_setDevicePowerState fr_handlePacket)

lemma driverInterrupt_frame:
  assumes "driverInterrupt E a t d w = Some w'" and ok: "heap_ok w"
  shows "frame w w'"
proof (cases t)
  case MouseDriver
  with assms frame_refl [OF ok, of "{}"] show ?thesis
    by (auto simp: driverInterrupt_def simp del: nub_simps split: if_splits
        dest: fr_ms_interruptOccurred)
next
  case SynapticsDriver
  with assms frame_refl [OF ok, of "{}"] show ?thesis
    by (auto simp: driverInterrupt_def simp del: nub_simps split: if_splits
        dest: fr_tp_interruptOccurred)
qed (use assms frame_refl [OF ok, of "{}"] in \<open>auto simp: driverInterrupt_def split: if_splits
      dest!: kb_interruptOccurred_heap al_interruptOccurred_heap elim: frame_same_heap\<close>)

lemma driverPowerControl_frame:
  assumes "driverPowerControl E a t p w = Some w'" and ok: "heap_ok w"
  shows "frame w w'"
  using assms frame_refl [OF ok, of "{}"]
  unfolding driverPowerControl_def ms_setDevicePowerState_def
  by (auto simp del: nub_simps split: driver.splits PS2PowerControl.splits if_splits
      dest: fr_kb_setDevicePowerState fr_ms_setMouseEnable fr_ms_resetMouse fr_al_setDevicePowerState
        fr_tp_setDevicePowerState)

end

lemma system_heap_drivers: "heap_drivers (system_env P n)"
proof (induction n)
  case 0
  show ?case by unfold_locales simp
next
  case (Suc n)
  show ?case by unfold_locales (auto intro: heap_drivers.driverInterrupt_frame [OF Suc])
qed

interpretation sysheap: heap_drivers "system_env P n" for P n
  by (rule system_heap_drivers)

end
