(* ===== verification/PS2_Steps.thy ===== *)
theory PS2_Steps
  imports PS2_Frames
begin

text \<open>
  The stack as a transition system: the hardware may change at any time, and the kernel calls
  the entry points of the controller, of its nubs and of the four drivers, each of which is a
  rule. Every step keeps the drivers' invariants, and none changes which requests are held.
  Two kinds of call stand outside \<open>sys_step\<close>: the \<open>init\<close> and \<open>start\<close> of the controller, which
  lead to the state that a run begins with, and the probes that the superclass refuses, each
  of which leaks the request that it allocated; \<open>sys_run\<close> counts them.
\<close>

section \<open>Steps\<close>

text \<open>
  The actions of the event sources run with the gate held. The drivers use the nub of their
  device; \<open>ok\<close> is the answer of the superclass. The last step is the keyboard's superclass
  noting which key repeats.
\<close>

inductive sys_step :: "'h ports \<Rightarrow> 'h syn \<Rightarrow> 'h syn \<Rightarrow> bool" for P where
  hardware: "sys_step P w (w\<lparr>hw := h\<rparr>)"
| keyboard_irq: "interruptHandlerKeyboard (system_env P n) w = Some w' \<Longrightarrow> sys_step P w w'"
| mouse_irq: "sys_step P w (interruptHandlerMouse w)"
| work_loop: "interruptOccurred (system_env P n) (w\<lparr>inGate := True\<rparr>) = Some w'
    \<Longrightarrow> sys_step P w (w'\<lparr>inGate := False\<rparr>)"
| queue: "processRequestQueue (system_env P n) (w\<lparr>inGate := True\<rparr>) = Some w'
    \<Longrightarrow> sys_step P w (w'\<lparr>inGate := False\<rparr>)"
| power: "setPowerStateCallout (system_env P n) s w = Some w' \<Longrightarrow> sys_step P w w'"
| power_request: "sys_step P w (snd (setPowerState pending s w))"
| caps_lock: "kb_setAlphaLockFeedback (keyboardNubOf (system_env P n)) on w = Some w' \<Longrightarrow> sys_step P w w'"
| num_lock: "kb_setNumLockFeedback (keyboardNubOf (system_env P n)) on w = Some w' \<Longrightarrow> sys_step P w w'"
| tapping: "al_setParamProperties (mouseNubOf (system_env P n)) c w = Some w' \<Longrightarrow> sys_step P w w'"
| keyboard_start: "kb_start (keyboardNubOf (system_env P n)) ok p1 p2 p3 w = Some (b, w') \<Longrightarrow> sys_step P w w'"
| keyboard_stop: "kb_stop (keyboardNubOf (system_env P n)) w = Some w' \<Longrightarrow> sys_step P w w'"
| mouse_start: "ms_start (mouseNubOf (system_env P n)) ok w = Some (b, w') \<Longrightarrow> sys_step P w w'"
| mouse_stop: "ms_stop (mouseNubOf (system_env P n)) w = Some w' \<Longrightarrow> sys_step P w w'"
| touchpad_start: "al_start (mouseNubOf (system_env P n)) ok w = Some (b, w') \<Longrightarrow> sys_step P w w'"
| touchpad_stop: "al_stop (mouseNubOf (system_env P n)) w = Some w' \<Longrightarrow> sys_step P w w'"
| synaptics_start: "tp_start (mouseNubOf (system_env P n)) ok k t tm w = Some (b, w') \<Longrightarrow> sys_step P w w'"
| synaptics_stop: "tp_stop (mouseNubOf (system_env P n)) w = Some w' \<Longrightarrow> sys_step P w w'"
| synaptics_timer: "tp_draggingTimeout (system_env P n) w = Some w' \<Longrightarrow> sys_step P w w'"
| synaptics_preferences: "sys_step P w (tp_setParamProperties dict w)"
| nub_attach: "sys_step P w (snd (attach_nub ok w))"
| nub_detach: "sys_step P w (detach_nub w)"
| controller_stop: "stop_controller (system_env P n) w = Some w' \<Longrightarrow> sys_step P w w'"
| controller_free: "sys_step P w (free_controller w)"
| keyboard_init: "sys_step P w (snd (kb_init ok w))"
| keyboard_probe: "kb_probe (keyboardNubOf (system_env P n)) True w = Some (b, w') \<Longrightarrow> sys_step P w w'"
| mouse_init: "sys_step P w (snd (ms_init ok w))"
| mouse_probe: "ms_probe (mouseNubOf (system_env P n)) True w = Some (b, w') \<Longrightarrow> sys_step P w w'"
| touchpad_init: "sys_step P w (snd (al_init ok w))"
| touchpad_probe: "al_probe (mouseNubOf (system_env P n)) True w = Some (b, w') \<Longrightarrow> sys_step P w w'"
| touchpad_free: "sys_step P w (al_free w)"
| synaptics_init: "tp_init ok w = Some (b, w') \<Longrightarrow> sys_step P w w'"
| synaptics_probe: "tp_probe (mouseNubOf (system_env P n)) True w = Some (b, w') \<Longrightarrow> sys_step P w w'"
| synaptics_free: "sys_step P w (tp_free w)"
| key_repeat: "sys_step P w (w\<lparr>codeToRepeat := c, lastEventTime := l\<rparr>)"

text \<open>A probe that the superclass refuses.\<close>

inductive probe_refused :: "'h ports \<Rightarrow> 'h syn \<Rightarrow> 'h syn \<Rightarrow> bool" for P where
  keyboard_refused: "kb_probe (keyboardNubOf (system_env P n)) False w = Some (b, w') \<Longrightarrow> probe_refused P w w'"
| mouse_refused: "ms_probe (mouseNubOf (system_env P n)) False w = Some (b, w') \<Longrightarrow> probe_refused P w w'"
| touchpad_refused: "al_probe (mouseNubOf (system_env P n)) False w = Some (b, w') \<Longrightarrow> probe_refused P w w'"
| synaptics_refused: "tp_probe (mouseNubOf (system_env P n)) False w = Some (b, w') \<Longrightarrow> probe_refused P w w'"

text \<open>A run of the stack, with the number of probes that were refused.\<close>

inductive sys_run :: "'h ports \<Rightarrow> nat \<Rightarrow> 'h syn \<Rightarrow> 'h syn \<Rightarrow> bool" for P where
  run_start: "sys_run P 0 w w"
| run_step: "sys_run P k w u \<Longrightarrow> sys_step P u v \<Longrightarrow> sys_run P k w v"
| run_refused: "sys_run P k w u \<Longrightarrow> probe_refused P u v \<Longrightarrow> sys_run P (Suc k) w v"

section \<open>The drivers' invariants\<close>

context wf_drivers
begin

lemmas wf_life = wf_kb_nub wf_mouse_nub I_uninstall [OF _ is_nub_of(2)]
  wf_al_setTapEnable wf_ms_resetMouse wf_ms_setMouseEnable

lemma wf_kb_setLEDs:
  fixes w :: "'h syn"
  shows "kb_setLEDs (keyboardNubOf E) s w = Some w' \<Longrightarrow> drivers_wf w \<Longrightarrow> drivers_wf w'"
  unfolding kb_setLEDs_def by (auto simp del: nub_simps dest!: wf_life)

lemma wf_feedback:
  fixes w :: "'h syn"
  shows "kb_setAlphaLockFeedback (keyboardNubOf E) on w = Some w' \<Longrightarrow> drivers_wf w \<Longrightarrow> drivers_wf w'"
    and "kb_setNumLockFeedback (keyboardNubOf E) on w = Some w' \<Longrightarrow> drivers_wf w \<Longrightarrow> drivers_wf w'"
  unfolding kb_setAlphaLockFeedback_def kb_setNumLockFeedback_def
  by (auto simp: Let_def simp del: nub_simps dest!: wf_kb_setLEDs)

lemma wf_kb_start:
  fixes w :: "'h syn"
  shows "kb_start (keyboardNubOf E) ok p1 p2 p3 w = Some (b, w') \<Longrightarrow> drivers_wf w \<Longrightarrow> drivers_wf w'"
  unfolding kb_start_def kb_setKeyboardEnable_def kb_setCommandByte_def
  by (auto simp: Let_def simp del: nub_simps split: if_splits dest!: wf_life wf_kb_setLEDs
      intro!: I_install [OF is_nub_of(1)] I_emit)

lemma wf_kb_stop:
  fixes w :: "'h syn"
  shows "kb_stop (keyboardNubOf E) w = Some w' \<Longrightarrow> drivers_wf w \<Longrightarrow> drivers_wf w'"
  unfolding kb_stop_def kb_setKeyboardEnable_def kb_setCommandByte_def
  by (auto simp: Let_def simp del: nub_simps split: if_splits dest!: wf_life intro!: I_emit)

lemma wf_ms_start:
  fixes w :: "'h syn"
  shows "ms_start (mouseNubOf E) ok w = Some (b, w') \<Longrightarrow> drivers_wf w \<Longrightarrow> drivers_wf w'"
  unfolding ms_start_def
  by (auto simp: Let_def simp del: nub_simps split: if_splits dest!: wf_life
      intro!: I_install [OF is_nub_of(2)] I_emit)

lemma wf_ms_stop:
  fixes w :: "'h syn"
  shows "ms_stop (mouseNubOf E) w = Some w' \<Longrightarrow> drivers_wf w \<Longrightarrow> drivers_wf w'"
  unfolding ms_stop_def ms_setCommandByte_def
  by (auto simp: Let_def simp del: nub_simps split: if_splits dest!: wf_life intro!: I_emit)

lemma wf_al_start:
  fixes w :: "'h syn"
  shows "al_start (mouseNubOf E) ok w = Some (b, w') \<Longrightarrow> drivers_wf w \<Longrightarrow> drivers_wf w'"
  unfolding al_start_def al_setTouchPadEnable_def al_setCommandByte_def
  by (auto simp: Let_def simp del: nub_simps split: if_splits dest!: wf_life
      intro!: I_install [OF is_nub_of(2)] I_emit)

lemma wf_al_stop:
  fixes w :: "'h syn"
  shows "al_stop (mouseNubOf E) w = Some w' \<Longrightarrow> drivers_wf w \<Longrightarrow> drivers_wf w'"
  unfolding al_stop_def al_setTouchPadEnable_def al_setCommandByte_def
  by (auto simp: Let_def simp del: nub_simps split: if_splits dest!: wf_life intro!: I_emit)

lemma wf_al_setParamProperties:
  fixes w :: "'h syn"
  shows "al_setParamProperties (mouseNubOf E) c w = Some w' \<Longrightarrow> drivers_wf w \<Longrightarrow> drivers_wf w'"
  unfolding al_setParamProperties_def
  by (auto simp: Let_def simp del: nub_simps split: option.splits if_splits dest!: wf_life intro!: I_emit)

lemma wf_tp_queries:
  fixes w :: "'h syn"
  shows "tp_getTouchPadData (mouseNubOf E) s w = Some (n, w') \<Longrightarrow> drivers_wf w \<Longrightarrow> drivers_wf w'"
    and "tp_setStreamMode (mouseNubOf E) w = Some (b, w') \<Longrightarrow> drivers_wf w \<Longrightarrow> drivers_wf w'"
  unfolding tp_getTouchPadData_def tp_setStreamMode_def by (auto simp del: nub_simps dest!: wf_life)

lemma tp_wf_free [simp]:
  "tp_wf (p\<lparr>tp_device := x1\<rparr>) = tp_wf p"
  "tp_wf (p\<lparr>tp_capabilties := x2\<rparr>) = tp_wf p"
  "tp_wf (p\<lparr>tp_extendedCapabilitied := x3\<rparr>) = tp_wf p"
  "tp_wf (p\<lparr>tp_modelId := x4\<rparr>) = tp_wf p"
  "tp_wf (p\<lparr>tp_scaleFactor := x5\<rparr>) = tp_wf p"
  "tp_wf (p\<lparr>tp_resolution := x6\<rparr>) = tp_wf p"
  "tp_wf (p\<lparr>tp_keyboard := x7\<rparr>) = tp_wf p"
  "tp_wf (p\<lparr>tp_interruptHandlerInstalled := x8\<rparr>) = tp_wf p"
  "tp_wf (p\<lparr>tp_powerControlHandlerInstalled := x9\<rparr>) = tp_wf p"
  "tp_wf (p\<lparr>tp_dragTimeout := x10\<rparr>) = tp_wf p"
  "tp_wf (p\<lparr>tp_dragLocked := x11, tp_tapped := x12, tp_dragging := x13, tp_event := x14\<rparr>) = tp_wf p"
  "tp_wf (tp_preferences dict p) = tp_wf p"
  by (simp_all add: tp_wf_def ABSOLUTE_MODE_def tp_preferences_def Let_def)

lemma tp_wf_mode:
  assumes "modeFromCapabilities p = (q, es)" and "tp_wf p"
  shows "tp_wf q"
proof -
  have "tp_wf (p\<lparr>tp_touchPadModeByte := tp_touchPadModeByte p OR m\<rparr>)" if "bit m 7" for m
  proof -
    have "bit (drop_bit 7 ((tp_touchPadModeByte p OR m) AND 0x80)) 0"
      using that by (simp add: bit_simps)
    then have "drop_bit 7 ((tp_touchPadModeByte p OR m) AND 0x80) \<noteq> 0" by auto
    moreover have "tp_packetByteCount p < 6"
      using assms(2) by (auto simp: tp_wf_def ps2_consts split: if_splits elim: order.strict_trans)
    ultimately show ?thesis
      using assms(2) by (simp add: tp_wf_def ABSOLUTE_MODE_def ps2_consts)
  qed
  with assms(1) show ?thesis
    by (auto simp: modeFromCapabilities_def ps2_consts split: if_splits)
qed

lemmas wf_tp_simps = drivers_wf_pad_eq drivers_wf_emits

lemmas wf_tp_life = wf_life wf_tp_queries wf_tp_setTouchPadEnable wf_tp_setTouchPadModeByte

lemma wf_tp_identify:
  fixes w :: "'h syn"
  shows "tp_getCapabilities (mouseNubOf E) w = Some (b, w') \<Longrightarrow> drivers_wf w \<Longrightarrow> drivers_wf w'"
    and "tp_getExtendedCapabilities (mouseNubOf E) w = Some (b, w') \<Longrightarrow> drivers_wf w \<Longrightarrow> drivers_wf w'"
    and "tp_getModelID (mouseNubOf E) w = Some (b, w') \<Longrightarrow> drivers_wf w \<Longrightarrow> drivers_wf w'"
  unfolding tp_getCapabilities_def tp_getExtendedCapabilities_def tp_getModelID_def
  by (auto simp: Let_def wf_tp_simps simp del: nub_simps split: if_splits dest!: wf_tp_queries)

lemma wf_tp_mode:
  fixes w :: "'h syn"
  shows "modeFromCapabilities q = (p, es) \<Longrightarrow> tp_wf q = tp_wf (pad w) \<Longrightarrow> drivers_wf w
    \<Longrightarrow> drivers_wf (w\<lparr>pad := p\<rparr>)"
  by (blast intro: drivers_wf_pad tp_wf_mode drivers_wf_padD)

lemma wf_tp_start:
  fixes w :: "'h syn"
  shows "announceHardware (mouseNubOf E) w = Some w' \<Longrightarrow> drivers_wf w \<Longrightarrow> drivers_wf w'"
    and "activate (mouseNubOf E) tm w = Some w' \<Longrightarrow> drivers_wf w \<Longrightarrow> drivers_wf w'"
    and "tp_start (mouseNubOf E) ok k t tm w = Some (b, w') \<Longrightarrow> drivers_wf w \<Longrightarrow> drivers_wf w'"
proof -
  show announce: "drivers_wf w'" if "announceHardware (mouseNubOf E) w = Some w'" and "drivers_wf w"
    for w w' :: "'h syn"
    using that unfolding announceHardware_def
    by (auto simp: Let_def wf_tp_simps simp del: nub_simps split: prod.splits
        dest!: wf_tp_identify elim!: wf_tp_mode)
  show activate: "drivers_wf w'" if "activate (mouseNubOf E) tm w = Some w'" and "drivers_wf w"
    for w w' :: "'h syn"
    using that unfolding activate_def tp_setCommandByte_def
    by (auto simp: Let_def wf_tp_simps simp del: nub_simps
        dest!: wf_tp_life intro!: I_install [OF is_nub_of(2)])
  show "tp_start (mouseNubOf E) ok k t tm w = Some (b, w') \<Longrightarrow> drivers_wf w \<Longrightarrow> drivers_wf w'"
    unfolding tp_start_def
    by (auto simp: Let_def wf_tp_simps simp del: nub_simps split: if_splits dest!: announce activate)
qed

lemma wf_tp_stop:
  fixes w :: "'h syn"
  shows "tp_stop (mouseNubOf E) w = Some w' \<Longrightarrow> drivers_wf w \<Longrightarrow> drivers_wf w'"
  unfolding tp_stop_def tp_setCommandByte_def
  by (auto simp: Let_def wf_tp_simps simp del: nub_simps split: if_splits dest!: wf_tp_life)

lemma wf_tp_timer:
  fixes w :: "'h syn"
  shows "tp_draggingTimeout E' w = Some w' \<Longrightarrow> drivers_wf w \<Longrightarrow> drivers_wf w'"
    and "drivers_wf w \<Longrightarrow> drivers_wf (tp_setParamProperties dict w)"
  by (auto simp: tp_draggingTimeout_def tp_setParamProperties_def emits_def Let_def
      split: if_splits intro!: I_prims drivers_wf_pad dest: drivers_wf_padD)

end

context wf_drivers
begin

lemma wf_probe:
  fixes w :: "'h syn"
  shows "kb_probe (keyboardNubOf E) ok w = Some (b, w') \<Longrightarrow> drivers_wf w \<Longrightarrow> drivers_wf w'"
    and "ms_probe (mouseNubOf E) ok w = Some (b, w') \<Longrightarrow> drivers_wf w \<Longrightarrow> drivers_wf w'"
    and "al_probe (mouseNubOf E) ok w = Some (b, w') \<Longrightarrow> drivers_wf w \<Longrightarrow> drivers_wf w'"
    and "tp_probe (mouseNubOf E) ok w = Some (b, w') \<Longrightarrow> drivers_wf w \<Longrightarrow> drivers_wf w'"
  using I_allocateRequest [of w]
  unfolding kb_probe_def ms_probe_def al_probe_def tp_probe_def
  by (auto simp: is_nub_simps [OF is_nub_of(1)] is_nub_simps [OF is_nub_of(2)] Let_def
      drivers_wf_pad_eq tp_wf_def ABSOLUTE_MODE_def
      simp del: nub_simps split: prod.splits if_splits
      dest!: I_fill_request I_submitRequestAndBlock I_freeRequest)

end

lemma drivers_wf_controller:
  "drivers_wf w \<Longrightarrow> drivers_wf (snd (attach_nub ok w))"
  "drivers_wf w \<Longrightarrow> drivers_wf (detach_nub w)"
  "drivers_wf w \<Longrightarrow> drivers_wf (free_controller w)"
  "drivers_wf w \<Longrightarrow> drivers_wf (al_free w)"
  "drivers_wf w \<Longrightarrow> drivers_wf (tp_free w)"
  by (auto simp: attach_nub_def detach_nub_def free_controller_def al_free_def tp_free_def
      drivers_wf_emits drivers_wf_pad_eq elim: drivers_wf_more)

lemma drivers_wf_init:
  "drivers_wf w \<Longrightarrow> drivers_wf (snd (kb_init ok w))"
  "drivers_wf w \<Longrightarrow> drivers_wf (snd (ms_init ok w))"
  "drivers_wf w \<Longrightarrow> drivers_wf (snd (al_init ok w))"
  by (auto simp: kb_init_def ms_init_def al_init_def drivers_wf_def kq_wf_def kb_wf_def
      ms_wf_def al_wf_def ps2_consts)

lemma drivers_wf_tp_init:
  assumes "tp_init ok w = Some (b, w')" and wf: "drivers_wf w"
  shows "drivers_wf w'"
proof -
  have "tp_wf q" if "length (tp_packetBuffer q) = 6" "tp_packetByteCount q = 0" for q
    using that by (simp add: tp_wf_def ps2_consts)
  moreover have "length (tp_packetBuffer (pad w)) = 6"
    using drivers_wf_padD [OF wf] by (simp add: tp_wf_def)
  ultimately show ?thesis
    using assms by (clarsimp simp: tp_init_def simp del: split_paired_All split: if_splits)
      (intro drivers_wf_pad; simp)
qed

lemma drivers_wf_key_repeat: "drivers_wf w \<Longrightarrow> drivers_wf (w\<lparr>codeToRepeat := c, lastEventTime := l\<rparr>)"
  by (auto simp: drivers_wf_def kq_wf_def kb_wf_def ms_wf_def al_wf_def split: if_splits)

lemma sys_step_drivers_wf:
  assumes "sys_step P w w'" and "drivers_wf w"
  shows "drivers_wf w'"
  using assms
proof (cases rule: sys_step.cases)
  case (work_loop n u)
  then show ?thesis using assms(2) by (auto intro!: sys.I_fields dest!: sys.I_interruptOccurred)
next
  case (queue n u)
  then show ?thesis using assms(2) by (auto intro!: sys.I_fields dest!: sys.I_processRequestQueue)
next
  case (power_request pending s)
  then show ?thesis using assms(2)
    by (auto simp: setPowerState_def Let_def intro!: sys.I_emit)
qed (use assms(2) in \<open>auto simp: interruptHandlerMouse_def simp del: nub_simps
    intro!: sys.I_fields sys.I_prims sys.I_emit drivers_wf_controller drivers_wf_init
    dest: sys.I_interruptHandlerKeyboard sys.I_setPowerStateCallout sys.wf_feedback
      sys.wf_al_setParamProperties sys.wf_kb_start sys.wf_kb_stop sys.wf_ms_start sys.wf_ms_stop
      sys.wf_al_start sys.wf_al_stop sys.wf_tp_start sys.wf_tp_stop sys.wf_tp_timer
      sys.wf_probe sys.I_stop_controller drivers_wf_tp_init drivers_wf_key_repeat\<close>)

section \<open>Frames\<close>

text \<open>Every field update that the heap does not notice.\<close>

lemma frame_of_same_heap: "same_heap w w' \<Longrightarrow> frame_upto A B v w' = frame_upto A B v w"
  by (rule frame_fields(3)) (simp_all add: same_heap_def)

lemma enqueue_heap: "same_heap v w \<Longrightarrow> same_heap v (enqueueKeyboardData k w)"
  by (auto simp: same_heap_def enqueueKeyboardData_def split: list.split)

lemma releaseModifierKeys_heap: "same_heap v w \<Longrightarrow> same_heap v (releaseModifierKeys table w)"
  by (induction table w rule: releaseModifierKeys.induct) (simp_all add: enqueue_heap)

lemma same_heap_release:
  "requests (releaseModifierKeys table w) = requests w"
  "requestQueue (releaseModifierKeys table w) = requestQueue w"
  "nextRequest (releaseModifierKeys table w) = nextRequest w"
  using releaseModifierKeys_heap [of w w table] by (simp_all add: same_heap_def)

context heap_drivers
begin

lemmas fr_life = fr_nub fr_al_setTapEnable fr_ms_resetMouse fr_ms_setMouseEnable

lemma fr_steps [simp]:
  fixes v w :: "'h syn"
  shows "frame_upto A B v (w\<lparr>kb_device := x1\<rparr>) = frame_upto A B v w"
    and "frame_upto A B v (w\<lparr>kb_emacsMode := x2, kb_macintoshMode := x3, kb_saveSS := x4\<rparr>) = frame_upto A B v w"
    and "frame_upto A B v (w\<lparr>kb_powerControlHandlerInstalled := x5\<rparr>) = frame_upto A B v w"
    and "frame_upto A B v (w\<lparr>ms_device := x6\<rparr>) = frame_upto A B v w"
    and "frame_upto A B v (w\<lparr>ms_interruptHandlerInstalled := x7\<rparr>) = frame_upto A B v w"
    and "frame_upto A B v (w\<lparr>ms_powerControlHandlerInstalled := x8\<rparr>) = frame_upto A B v w"
    and "frame_upto A B v (w\<lparr>al_device := x9\<rparr>) = frame_upto A B v w"
    and "frame_upto A B v (w\<lparr>al_interruptHandlerInstalled := x10\<rparr>) = frame_upto A B v w"
    and "frame_upto A B v (w\<lparr>al_powerControlHandlerInstalled := x11\<rparr>) = frame_upto A B v w"
    and "frame_upto A B v (w\<lparr>al_touchPadModeByte := x12\<rparr>) = frame_upto A B v w"
    and "frame_upto A B v (w\<lparr>hardwareOffline := x13\<rparr>) = frame_upto A B v w"
    and "frame_upto A B v (w\<lparr>currentPowerState := x14\<rparr>) = frame_upto A B v w"
    and "frame_upto A B v (w\<lparr>inGate := x15\<rparr>) = frame_upto A B v w"
    and "frame_upto A B v (w\<lparr>hw := x16\<rparr>) = frame_upto A B v w"
    and "frame_upto A B v (w\<lparr>extendedState := x17\<rparr>) = frame_upto A B v w"
    and "frame_upto A B v (w\<lparr>modifierState := x18\<rparr>) = frame_upto A B v w"
    and "frame_upto A B v (releaseModifierKeys table w) = frame_upto A B v w"
    and "frame_upto A B v (installPowerControlAction d tg a w) = frame_upto A B v w"
    and "frame_upto A B v (nubInstallInterruptAction (keyboardNubOf E) tg a w) = frame_upto A B v w"
    and "frame_upto A B v (nubInstallInterruptAction (mouseNubOf E) tg a w) = frame_upto A B v w"
    and "frame_upto A B v (nubInstallPowerControlAction (keyboardNubOf E) tg a w) = frame_upto A B v w"
    and "frame_upto A B v (nubInstallPowerControlAction (mouseNubOf E) tg a w) = frame_upto A B v w"
  by (rule frame_of_same_heap;
      simp add: same_heap_def install_heap same_heap_release)+

lemma fr_uninstall:
  fixes v w :: "'h syn"
  shows "nubUninstallInterruptAction (keyboardNubOf E) w = Some w' \<Longrightarrow> frame v w \<Longrightarrow> frame v w'"
    and "nubUninstallInterruptAction (mouseNubOf E) w = Some w' \<Longrightarrow> frame v w \<Longrightarrow> frame v w'"
    and "nubUninstallPowerControlAction (keyboardNubOf E) w = Some w' \<Longrightarrow> frame v w \<Longrightarrow> frame v w'"
    and "nubUninstallPowerControlAction (mouseNubOf E) w = Some w' \<Longrightarrow> frame v w \<Longrightarrow> frame v w'"
  by (auto dest!: uninstall_heap intro: frame_if_same_heap)

lemma fr_kb_setLEDs:
  fixes v w :: "'h syn"
  shows "kb_setLEDs (keyboardNubOf E) s w = Some w' \<Longrightarrow> frame v w \<Longrightarrow> frame v w'"
  unfolding kb_setLEDs_def by (auto simp del: nub_simps dest!: fr_life)

lemma fr_feedback:
  fixes v w :: "'h syn"
  shows "kb_setAlphaLockFeedback (keyboardNubOf E) on w = Some w' \<Longrightarrow> frame v w \<Longrightarrow> frame v w'"
    and "kb_setNumLockFeedback (keyboardNubOf E) on w = Some w' \<Longrightarrow> frame v w \<Longrightarrow> frame v w'"
  unfolding kb_setAlphaLockFeedback_def kb_setNumLockFeedback_def
  by (auto simp: Let_def simp del: nub_simps dest!: fr_kb_setLEDs)

lemma fr_driver_life:
  fixes v w :: "'h syn"
  shows "kb_start (keyboardNubOf E) ok p1 p2 p3 w = Some (b, w') \<Longrightarrow> frame v w \<Longrightarrow> frame v w'"
    and "kb_stop (keyboardNubOf E) w = Some w' \<Longrightarrow> frame v w \<Longrightarrow> frame v w'"
    and "ms_start (mouseNubOf E) ok w = Some (b, w') \<Longrightarrow> frame v w \<Longrightarrow> frame v w'"
    and "ms_stop (mouseNubOf E) w = Some w' \<Longrightarrow> frame v w \<Longrightarrow> frame v w'"
    and "al_start (mouseNubOf E) ok w = Some (b, w') \<Longrightarrow> frame v w \<Longrightarrow> frame v w'"
    and "al_stop (mouseNubOf E) w = Some w' \<Longrightarrow> frame v w \<Longrightarrow> frame v w'"
    and "al_setParamProperties (mouseNubOf E) c w = Some w' \<Longrightarrow> frame v w \<Longrightarrow> frame v w'"
  unfolding kb_start_def kb_stop_def ms_start_def ms_stop_def al_start_def al_stop_def
    kb_setKeyboardEnable_def kb_setCommandByte_def ms_setCommandByte_def al_setTouchPadEnable_def
    al_setCommandByte_def al_setParamProperties_def
  by (auto simp: Let_def simp del: nub_simps split: if_splits option.splits
      dest!: fr_life fr_kb_setLEDs fr_uninstall)

lemma fr_tp_queries:
  fixes v w :: "'h syn"
  shows "tp_getTouchPadData (mouseNubOf E) s w = Some (n, w') \<Longrightarrow> frame v w \<Longrightarrow> frame v w'"
    and "tp_setStreamMode (mouseNubOf E) w = Some (b, w') \<Longrightarrow> frame v w \<Longrightarrow> frame v w'"
  unfolding tp_getTouchPadData_def tp_setStreamMode_def by (auto simp del: nub_simps dest!: fr_life)

lemma fr_tp_life:
  fixes v w :: "'h syn"
  shows "tp_start (mouseNubOf E) ok k t tm w = Some (b, w') \<Longrightarrow> frame v w \<Longrightarrow> frame v w'"
    and "tp_stop (mouseNubOf E) w = Some w' \<Longrightarrow> frame v w \<Longrightarrow> frame v w'"
    and "tp_draggingTimeout E' w = Some w' \<Longrightarrow> frame v w \<Longrightarrow> frame v w'"
    and "frame v w \<Longrightarrow> frame v (tp_setParamProperties dict w)"
    and "frame v w \<Longrightarrow> frame v (w\<lparr>codeToRepeat := c, lastEventTime := l\<rparr>)"
  unfolding tp_start_def announceHardware_def activate_def tp_stop_def tp_getCapabilities_def tp_getExtendedCapabilities_def
    tp_getModelID_def tp_setCommandByte_def tp_draggingTimeout_def tp_setParamProperties_def
  by (auto simp: Let_def simp del: nub_simps split: if_splits prod.splits
      dest!: fr_life fr_uninstall fr_tp_queries fr_tp_setTouchPadEnable fr_tp_setTouchPadModeByte)

lemma fr_probe:
  fixes v w :: "'h syn"
  shows "kb_probe (keyboardNubOf E) True w = Some (b, w') \<Longrightarrow> frame v w \<Longrightarrow> frame v w'"
    and "ms_probe (mouseNubOf E) True w = Some (b, w') \<Longrightarrow> frame v w \<Longrightarrow> frame v w'"
    and "al_probe (mouseNubOf E) True w = Some (b, w') \<Longrightarrow> frame v w \<Longrightarrow> frame v w'"
    and "tp_probe (mouseNubOf E) True w = Some (b, w') \<Longrightarrow> frame v w \<Longrightarrow> frame v w'"
  unfolding kb_probe_def ms_probe_def al_probe_def tp_probe_def
  by (erule frame_chain [rotated];
      clarsimp simp: Let_def simp del: nub_simps split: prod.splits;
      erule (4) kbd.scoped_use_frame mse.scoped_use_frame; rule frame_unchanged; simp)+

lemma fr_controller:
  fixes v w :: "'h syn"
  shows "frame v w \<Longrightarrow> frame v (snd (attach_nub ok w))"
    and "frame v w \<Longrightarrow> frame v (detach_nub w)"
    and "frame v w \<Longrightarrow> frame v (free_controller w)"
    and "frame v w \<Longrightarrow> frame v (al_free w)"
    and "frame v w \<Longrightarrow> frame v (tp_free w)"
    and "frame v w \<Longrightarrow> frame v (snd (kb_init ok w))"
    and "frame v w \<Longrightarrow> frame v (snd (ms_init ok w))"
    and "frame v w \<Longrightarrow> frame v (snd (al_init ok w))"
    and "tp_init ok w = Some (b, w') \<Longrightarrow> frame v w \<Longrightarrow> frame v w'"
  by (erule frame_if_same_heap [rotated 3];
      simp add: attach_nub_def detach_nub_def free_controller_def al_free_def tp_free_def kb_init_def
        ms_init_def al_init_def emit_def)+
    (auto simp: tp_init_def split: if_splits)

lemma fr_stop_controller:
  fixes v w :: "'h syn"
  assumes stop: "stop_controller E w = Some w'" and fr: "frame v w"
  shows "frame v w'"
proof -
  have queue: "processRequestQueue E x = Some y \<Longrightarrow> frame v x \<Longrightarrow> frame v y" for x y :: "'h syn"
    by (auto intro: processRequestQueue_frame elim!: frame_chain [rotated])
  have res: "frame v (x\<lparr>resources := q\<rparr>) = frame v x"
    "frame v (x\<lparr>resources := q, hardwareOffline := b\<rparr>) = frame v x" for x :: "'h syn" and q b
    by (rule frame_fields(3); simp)+
  from stop fr show ?thesis
    unfolding stop_controller_def
    by (auto simp: Let_def res split: if_splits dest!: queue)
qed

lemma fr_doEscape:
  fixes v w :: "'h syn"
  shows "doEscape E k w = Some (b, w') \<Longrightarrow> frame v w \<Longrightarrow> frame v w'"
  unfolding doEscape_def
  by (auto simp: Let_def split: if_splits option.splits
      dest!: fr.I_waitInputFree [where v = v] intro!: fr.I_updates)

lemma fr_interruptHandlerKeyboard:
  fixes v w :: "'h syn"
  assumes "interruptHandlerKeyboard E w = Some w'" and "frame v w"
  shows "frame v w'"
proof -
  note step = fr.I_lock [where v = v] fr.I_port_in [where v = v] fr_doEscape [where v = v]
  from assms show ?thesis
    unfolding interruptHandlerKeyboard_def interruptHandlerMouse_def
    by (auto simp: Let_def split: if_splits prod.splits dest!: step intro!: fr.I_updates)
qed

end

text \<open>Power control actions frame the heap as well.\<close>

locale heap_power = heap_drivers +
  assumes power_frame:
    "callPowerControlAction E action target what w = Some w' \<Longrightarrow> heap_ok w \<Longrightarrow> frame w w'"
begin

lemma fr_dispatchDriverPowerControl:
  fixes v w :: "'a syn"
  shows "dispatchDriverPowerControl E what w = Some w' \<Longrightarrow> frame v w \<Longrightarrow> frame v w'"
proof -
  have step: "callPowerControlAction E action target what w = Some w' \<Longrightarrow> frame v w \<Longrightarrow> frame v w'"
    for action target and w w' :: "'a syn"
    by (auto intro: power_frame elim!: frame_chain [rotated])
  show "dispatchDriverPowerControl E what w = Some w' \<Longrightarrow> frame v w \<Longrightarrow> frame v w'"
    unfolding dispatchDriverPowerControl_def by (auto split: if_splits dest!: step)
qed

lemma fr_setPowerStateCallout:
  fixes v w :: "'a syn"
  assumes "setPowerStateCallout E s w = Some w'" and "frame v w"
  shows "frame v w'"
proof -
  note step = fr.I_enablePort [where v = v] fr_dispatchDriverPowerControl [where v = v]
  from assms show ?thesis
    unfolding setPowerStateCallout_def setPowerStateGated_def
    by (auto simp: Let_def split: if_splits dest!: step)
qed

end

lemma system_heap_power: "heap_power (system_env P n)"
proof (cases n)
  case 0
  show ?thesis unfolding 0 by unfold_locales simp
next
  case (Suc m)
  show ?thesis
    unfolding Suc by unfold_locales (auto intro: heap_drivers.driverPowerControl_frame [OF system_heap_drivers])
qed

interpretation syspower: heap_power "system_env P n" for P n
  by (rule system_heap_power)

lemma fr_processRequestQueue:
  "processRequestQueue (system_env P n) w = Some w' \<Longrightarrow> frame v w \<Longrightarrow> frame v w'"
  by (auto intro: sysheap.processRequestQueue_frame elim!: sysheap.frame_chain [rotated])

lemma sys_step_frame:
  assumes step: "sys_step P w w'" and ok: "heap_ok w"
  shows "frame w w'"
proof -
  have refl: "frame w w" using ok by (rule frame_refl)
  from step show ?thesis
  proof (cases rule: sys_step.cases)
    case (work_loop n u)
    then show ?thesis using refl by (auto dest!: sysheap.fr.I_interruptOccurred [where v = w])
  next
    case (queue n u)
    then show ?thesis using refl by (auto dest!: fr_processRequestQueue [where v = w])
  next
    case (power_request pending s)
    then show ?thesis using refl by (auto simp: setPowerState_def Let_def)
  qed (use refl in \<open>auto simp: interruptHandlerMouse_def simp del: nub_simps
      intro: sysheap.fr_controller
      dest: sysheap.fr_interruptHandlerKeyboard syspower.fr_setPowerStateCallout sysheap.fr_feedback
        sysheap.fr_driver_life sysheap.fr_tp_life sysheap.fr_probe sysheap.fr_stop_controller\<close>)
qed

section \<open>Refused probes\<close>

text \<open>The request that such a probe allocated stays allocated, and nobody has a reference to it.\<close>

lemma refused_probe_leaks:
  assumes "probe_refused P w w'" and ok: "heap_ok w"
  shows "heap_ok w' \<and> nextRequest w \<notin> held w \<and> held w' = insert (nextRequest w) (held w) \<and>
    (\<forall>r\<in>held w. requests w' r = requests w r)"
proof -
  from assms(1) have w': "w' = snd (allocateRequest w)"
    by (auto simp: probe_refused.simps kb_probe_def ms_probe_def al_probe_def tp_probe_def
        split: prod.splits)
  have "nextRequest w \<notin> dom (requests w)" using ok by (auto simp: heap_ok_def)
  moreover from this have "nextRequest w \<notin> set (requestQueue w)" using ok by (auto simp: heap_ok_def)
  ultimately show ?thesis
    using ok unfolding w' by (auto simp: allocateRequest_def heap_ok_def held_def less_Suc_eq)
qed

lemma sys_run_requests:
  assumes "sys_run P k w w'" and "heap_ok w"
  shows "heap_ok w' \<and> held w \<subseteq> held w' \<and> finite (held w' - held w) \<and> card (held w' - held w) = k \<and>
    (\<forall>r\<in>held w. requests w' r = requests w r)"
  using assms
proof (induction rule: sys_run.induct)
  case (run_step k w u v)
  then have "frame u v" by (blast intro: sys_step_frame)
  with run_step show ?case by (auto simp: frame_upto_def)
next
  case (run_refused k w u v)
  note IH = run_refused.IH [OF run_refused.prems]
  from IH refused_probe_leaks [OF run_refused.hyps(2)]
  have leak: "heap_ok v" "nextRequest u \<notin> held u" "held v = insert (nextRequest u) (held u)"
    "\<forall>r\<in>held u. requests v r = requests u r" by blast+
  then have "held v - held w = insert (nextRequest u) (held u - held w)" using IH by auto
  with IH leak show ?case by auto
qed simp

lemma sys_run_drivers_wf: "sys_run P k w w' \<Longrightarrow> drivers_wf w \<Longrightarrow> drivers_wf w'"
proof (induction rule: sys_run.induct)
  case (run_refused k w u v)
  then show ?case by (auto simp: probe_refused.simps simp del: nub_simps dest: sys.wf_probe)
qed (blast intro: sys_step_drivers_wf)+

section \<open>The state that a run begins with\<close>

text \<open>
  A controller that was initialised and started, on memory that holds no request yet and with
  a block of memory large enough for its keyboard queue: all the assumptions of a run hold.
  The drivers' own fields are those that \<open>init\<close> and the allocation of the objects give.
\<close>

lemma started_controller_ready:
  fixes w w' :: "'h syn"
  assumes start: "start_controller (system_env P n) K (snd (init_controller True lock w)) = Some (True, w')"
    and bytes: "mallocBytes K = Some bytes" "kKeyboardQueueSize \<le> length bytes"
    and fresh: "requests w = Map.empty"
    and fields: "kb_wf w" "ms_wf w" "al_wf w" "tp_wf (pad w)"
  shows "heap_ok w' \<and> held w' = {} \<and> drivers_wf w'"
proof -
  define u where "u = (let u = snd (init_controller True lock w);
      u = (if debugBootArg K then u\<lparr>debuggingEnabled := True\<rparr> else u)
    in u\<lparr>resources := (resources u)\<lparr>keyboardQueueAlloc := True\<rparr>,
         keyboardQueueUnused := keyboardQueueUnused u @ take kKeyboardQueueSize bytes\<rparr>)"
  from start bytes(1) obtain x y where x: "quietDevices (system_env P n) u = Some x"
    and y: "drainInput (system_env P n) x = Some y" and w': "startServices K y = (True, w')"
    by (auto simp: start_controller_def u_def Let_def split: if_splits prod.splits bool.splits)
  have "drivers_wf u"
    using fields bytes(2)
    by (auto simp: u_def Let_def init_controller_def drivers_wf_def kq_wf_def kb_wf_def ms_wf_def al_wf_def)
  with x y have "drivers_wf y" by (blast intro: sys.I_quietDevices sys.I_drainInput)
  have "heap_ok u" "held u = {}"
    using fresh by (auto simp: u_def Let_def init_controller_def heap_ok_def held_def)
  with x y have "frame u y"
    by (blast intro: frame_refl sysheap.fr.I_quietDevices sysheap.fr.I_drainInput)
  from w' have same: "ctl.more w' = ctl.more y" "keyboardQueue w' = keyboardQueue y"
    "keyboardQueueUnused w' = keyboardQueueUnused y" "requests w' = requests y"
    "requestQueue w' = requestQueue y" "nextRequest w' = nextRequest y"
    by (auto simp: startServices_def Let_def emit_def split: if_splits)
  have "drivers_wf w'" using \<open>drivers_wf y\<close> same(1-3) by (rule drivers_wf_more)
  with \<open>frame u y\<close> \<open>held u = {}\<close> show ?thesis
    using frame_fields(1,2) [OF same(4-6)] by (simp add: frame_upto_def)
qed

end
