(* ===== verification/PS2_Example.thy ===== *)
theory PS2_Example
  imports PS2_Steps PS2_Stream
begin

text \<open>
  A concrete machine on which the properties are exercised: a keyboard controller chip
  that is always ready to be written to and holds a finite list of bytes to be read, each
  with the stream it belongs to; and a system state right after all drivers started.
\<close>

definition example_ports :: "(bool \<times> u8) list ports" where
  "example_ports = \<lparr>portIn = list_chip_in, portOut = (\<lambda>_ _ h. h), clockUptime = (\<lambda>_. 7),
     clockMicrotime = (\<lambda>_. (0, 0))\<rparr>"

definition example_env :: "nat \<Rightarrow> ((bool \<times> u8) list, (bool \<times> u8) list syn) env" where
  "example_env n = system_env example_ports n"

definition example_pad :: synaptics where
  "example_pad =
     \<lparr>tp_device = False, tp_keyboard = False, tp_interruptHandlerInstalled = False,
      tp_powerControlHandlerInstalled = False, tp_packetBuffer = replicate 6 0,
      tp_packetByteCount = 0, tp_resolution = 0, tp_touchPadVersion = 0, tp_touchPadModeByte = 0,
      tp_touchpadIntormation = 0, tp_capabilties = 0, tp_extendedCapabilitied = 0, tp_modelId = 0,
      tp_event = 0, tp_serialNumber = 0, tp_scaleFactor = 1, tp_tapped = False,
      tp_dragging = False, tp_dragLocked = False, tp_streamdx = 0, tp_streamdy = 0,
      tp_dragTimeout = False, tp_prevX = 0, tp_prevY = 0, tp_prevButtons = 0,
      tp_prevNumFingers = 0, tp_prevPacketTime = 0, tp_prevPacketSecond = 0, tp_streamdt = 0,
      tp_settleTime = 0, prefClickDelay = 280000, prefReleaseDelay = 400000,
      prefScrollMode = SCROLL_MODE_NONE, prefGestureMode = GESTURE_MODE_SCROLL,
      prefHysteresis = 8 / 100, prefHorizScroll = False, prefClicking = False,
      prefDragging = False, prefDragLock = False, prefSecondaryClick = False,
      prefSwapButtons = False, prefIgnoreAccidental = True, prefOneFingerThreshold = 30,
      prefTwoFingerThreshold = 250, prefThreeFingerThreshold = 650, prefScrollArea = 5 / 100,
      prefScrollSpeed = 13 / 10, prefTrackSpeed = 12 / 10\<rparr>"

definition example_world :: "(bool \<times> u8) list \<Rightarrow> (bool \<times> u8) list syn" where
  "example_world h =
     \<lparr>hw = h, delayed = 0, effects = [], resources = all_resources, requests = Map.empty,
      nextRequest = 0, syncers = [], inGate = True, requestQueue = [],
      interruptTargetKeyboard = Some KeyboardDriver, interruptTargetMouse = Some MouseDriver,
      interruptActionKeyboard = Some KeyboardDriver, interruptActionMouse = Some MouseDriver,
      interruptInstalledKeyboard = True, interruptInstalledMouse = True,
      powerControlTargetKeyboard = Some KeyboardDriver,
      powerControlTargetMouse = Some MouseDriver,
      powerControlActionKeyboard = Some KeyboardDriver,
      powerControlActionMouse = Some MouseDriver,
      powerControlInstalledKeyboard = True, powerControlInstalledMouse = True,
      debuggingEnabled = False, controllerLocked = False,
      keyboardQueue = [], keyboardQueueUnused = replicate kKeyboardQueueSize 0,
      extendedState = False, modifierState = 0,
      currentPowerState = kPS2PowerStateNormal, hardwareOffline = False,
      kb_device = True, kb_keyBitVector = replicate KBV_NUNITS 0, kb_extendCount = 0,
      kb_interruptHandlerInstalled = True, kb_powerControlHandlerInstalled = True,
      kb_ledState = 0, kb_emacsMode = False, kb_macintoshMode = False, kb_saveSS = False,
      kb_rootDomain = True,
      ms_device = True, ms_interruptHandlerInstalled = True,
      ms_powerControlHandlerInstalled = True, ms_packetBuffer = replicate kPacketLengthMax 0,
      ms_packetByteCount = 0, ms_packetLength = kPacketLengthStandard,
      ms_resolution = push_bit 16 150, ms_type = kMouseTypeStandard, ms_buttonCount = 3,
      ms_mouseInfoBytes = - 1, ms_mouseResetCount = 0,
      al_device = False, al_interruptHandlerInstalled = False,
      al_powerControlHandlerInstalled = False, al_packetBuffer = replicate 3 0,
      al_packetByteCount = 0, al_resolution = push_bit 16 100, al_touchPadVersion = 0,
      al_touchPadModeByte = kTapEnabled, pad = example_pad, codeToRepeat = - 1,
      lastEventTime = 0\<rparr>"

lemma example_world_ok: "heap_ok (example_world h)" "drivers_wf (example_world h)"
  by (simp_all add: heap_ok_def drivers_wf_def kq_wf_def kb_wf_def ms_wf_def al_wf_def
      tp_wf_def
      ABSOLUTE_MODE_def example_world_def example_pad_def ps2_consts)

end
