(* ===== verification/PS2_KeyEvents.thy ===== *)
theory PS2_KeyEvents
  imports PS2_Example
begin

text \<open>
  Scan codes to key events: the bit vector of the keyboard driver implements a set of
  keys, the parser returns on every byte, and what it dispatches for single keys and for
  the multi-byte sequences.
\<close>

section \<open>The set of keys that are down\<close>

definition keySet :: "u32 list \<Rightarrow> nat set" where
  "keySet bits = {k. k < KBV_NUM_KEYCODES \<and> bit (bits ! (k div 32)) (k mod 32)}"

abbreviation keysDown :: "('h, 'z) kbd_scheme \<Rightarrow> nat set" where
  "keysDown w \<equiv> keySet (kb_keyBitVector w)"

lemma kbv_index:
  fixes n :: u32
  shows "kbv_unit n = unat n div 32" and "kbv_mask n = push_bit (unat n mod 32) 1"
proof -
  show "kbv_unit n = unat n div 32"
    by (simp add: kbv_unit_def KBV_BITS_SHIFT_def drop_bit_eq_div unat_div)
  have "n AND 31 = n mod 32"
    using take_bit_eq_mask [of 5 n] take_bit_eq_mod [of 5 n] by (simp add: mask_eq_exp_minus_1)
  then show "kbv_mask n = push_bit (unat n mod 32) 1"
    by (simp add: kbv_mask_def KBV_BITS_MASK_def unat_mod)
qed

lemma keyBitVector_set:
  assumes l: "length bits = KBV_NUNITS" and n: "unat (n :: u32) < KBV_NUM_KEYCODES"
  shows "KBV_IS_KEYDOWN n bits = Some (unat n \<in> keySet bits)"
    and "\<exists>bits'. KBV_KEYDOWN n bits = Some bits' \<and> length bits' = KBV_NUNITS \<and>
           keySet bits' = insert (unat n) (keySet bits)"
    and "\<exists>bits'. KBV_KEYUP n bits = Some bits' \<and> length bits' = KBV_NUNITS \<and>
           keySet bits' = keySet bits - {unat n}"
proof -
  have u: "unat n div 32 < length bits" using l n by (simp add: ps2_consts)
  have m: "unat n mod 32 < 32" by simp
  show "KBV_IS_KEYDOWN n bits = Some (unat n \<in> keySet bits)"
    using u n m and_push_bit_nonzero [of "bits ! (unat n div 32)" "unat n mod 32"]
    by (simp add: KBV_IS_KEYDOWN_def kbv_index keySet_def del: push_bit_of_1)
  let ?d = "bits[unat n div 32 := bits ! (unat n div 32) OR push_bit (unat n mod 32) 1]"
  have "k \<in> keySet ?d \<longleftrightarrow> k \<in> insert (unat n) (keySet bits)" for k
    using u n m same_bit [of k "unat n"] by (auto simp: keySet_def nth_list_update bit_simps)
  then have "keySet ?d = insert (unat n) (keySet bits)" by blast
  with u l show "\<exists>bits'. KBV_KEYDOWN n bits = Some bits' \<and> length bits' = KBV_NUNITS \<and>
      keySet bits' = insert (unat n) (keySet bits)"
    by (auto simp: KBV_KEYDOWN_def kbv_index simp del: push_bit_of_1)
  let ?u = "bits[unat n div 32 := bits ! (unat n div 32) AND NOT (push_bit (unat n mod 32) 1)]"
  have "k \<in> keySet ?u \<longleftrightarrow> k \<in> keySet bits - {unat n}" for k
    using u n m same_bit [of k "unat n"] by (auto simp: keySet_def nth_list_update bit_simps)
  then have "keySet ?u = keySet bits - {unat n}" by blast
  with u l show "\<exists>bits'. KBV_KEYUP n bits = Some bits' \<and> length bits' = KBV_NUNITS \<and>
      keySet bits' = keySet bits - {unat n}"
    by (auto simp: KBV_KEYUP_def kbv_index simp del: push_bit_of_1)
qed

section \<open>Dispatching one key code\<close>

text \<open>
  What dispatching key code \<open>k\<close> means on the set of keys that are down: whether an event
  is sent, and the set afterwards. Key code 0 and auto-repeats are dropped.
\<close>

definition keySpec :: "nat \<Rightarrow> bool \<Rightarrow> nat set \<Rightarrow> bool \<times> nat set" where
  "keySpec k goingDown K =
     (if k = 0 \<or> goingDown \<and> k \<in> K then (False, K)
      else (True, if goingDown then insert k K else K - {k}))"

text \<open>The state \<open>w\<close> with other keys down and more events sent.\<close>

definition after_key ::
  "('h, 'w) env \<Rightarrow> nat \<Rightarrow> bool \<Rightarrow> ('h, 'z) kbd_scheme \<Rightarrow> bool \<Rightarrow> ('h, 'z) kbd_scheme \<Rightarrow> bool" where
  "after_key E k goingDown w sent w' \<longleftrightarrow> kb_wf w' \<and>
     keySpec k goingDown (keysDown w) = (sent, keysDown w') \<and>
     w' = w\<lparr>effects := effects w @
              (if sent then [KeyEvent (PS2ToADBMap ! k) goingDown (Some (uptime E (hw w)))] else []),
            kb_keyBitVector := kb_keyBitVector w'\<rparr>"

lemma PS2ToADBMap_length: "length PS2ToADBMap = 130"
  by (simp add: PS2ToADBMap_def)

lemma dispatchKeyCode_spec:
  assumes wf: "kb_wf w" and n: "unat n < KBV_NUM_KEYCODES"
  shows "\<exists>sent w'. dispatchKeyCode E n goingDown w = Some (sent, w') \<and>
    after_key E (unat n) goingDown w sent w'"
proof (cases "n = 0 \<or> goingDown \<and> unat n \<in> keysDown w")
  case True
  have "dispatchKeyCode E n goingDown w = Some (False, w)"
    using True keyBitVector_set(1) [OF wf [unfolded kb_wf_def] n]
    by (auto simp: dispatchKeyCode_def)
  moreover have "after_key E (unat n) goingDown w False w"
    using True wf by (auto simp: after_key_def keySpec_def unat_eq_0)
  ultimately show ?thesis by blast
next
  case False
  then have n0: "n \<noteq> 0" "unat n \<noteq> 0" by (simp_all add: unat_eq_0)
  note set = keyBitVector_set [OF wf [unfolded kb_wf_def] n]
  have adb: "adbCode n = Some (PS2ToADBMap ! unat n)"
    using n by (simp add: adbCode_def PS2ToADBMap_length KBV_NUM_KEYCODES_def)
  obtain bits' where b: "(if goingDown then KBV_KEYDOWN n (kb_keyBitVector w)
      else KBV_KEYUP n (kb_keyBitVector w)) = Some bits'" "length bits' = KBV_NUNITS"
    "keySet bits' = (if goingDown then insert (unat n) (keysDown w) else keysDown w - {unat n})"
    using set(2,3) by (cases goingDown) auto
  let ?w' = "emit (KeyEvent (PS2ToADBMap ! unat n) goingDown (Some (uptime E (hw w)))) (w\<lparr>kb_keyBitVector := bits'\<rparr>)"
  have "dispatchKeyCode E n goingDown w = Some (True, ?w')"
    using False n0 b(1) set(1) adb by (auto simp: dispatchKeyCode_def Let_def emit_def)
  moreover have "after_key E (unat n) goingDown w True ?w'"
    using False n0 b(2,3) by (auto simp: after_key_def keySpec_def kb_wf_def emit_def)
  ultimately show ?thesis by blast
qed

lemma UpBit_bit: "bit kSC_UpBit n \<longleftrightarrow> n = 7"
proof (cases "n < 8")
  case True
  then have "n \<in> {0, 1, 2, 3, 4, 5, 6, 7}" by auto
  then show ?thesis by (auto simp: kSC_UpBit_def)
next
  case False
  then show ?thesis using bit_imp_le_length [of kSC_UpBit n] by auto
qed

lemma strip_UpBit: "sc AND NOT kSC_UpBit = take_bit 7 sc"
proof (rule bit_word_eqI)
  fix n assume "n < LENGTH(8)"
  then show "bit (sc AND NOT kSC_UpBit) n = bit (take_bit 7 sc) n"
    by (auto simp: bit_simps UpBit_bit)
qed

lemma plainKeyCode_bound: "unat (plainKeyCode emacs mac sc) < KBV_NUM_KEYCODES"
proof -
  have "unat (sc mod 128) < 128" by (simp add: unat_mod)
  then have "unat (sc AND NOT kSC_UpBit) < 128"
    by (simp add: strip_UpBit take_bit_eq_mod)
  moreover have "unat (ucast x :: u32) = unat x" for x :: u8
    using order.strict_trans [OF unat_u8_less [of x], of "2 ^ 32"]
    by (simp add: unsigned_ucast_eq take_bit_nat_eq_self_iff)
  ultimately show ?thesis by (simp add: plainKeyCode_def Let_def KBV_NUM_KEYCODES_def)
qed

lemma extendedKeyCode_bound:
  assumes "extendedKeyCode mac c = Some n"
  shows "unat n < KBV_NUM_KEYCODES" and "n \<noteq> 0"
  using assms by (auto simp: extendedKeyCode_def KBV_NUM_KEYCODES_def split: if_splits)


section \<open>The parser on every byte\<close>

lemma dispatch_plain:
  assumes "kb_wf w" and "kb_extendCount w = 0" and "sc \<noteq> kSC_Extend" and "sc \<noteq> kSC_Pause"
  shows "\<exists>sent w'. dispatchKeyboardEventWithScancode E sc w = Some (sent, w') \<and>
    after_key E (unat (plainKeyCode (kb_emacsMode w) (kb_macintoshMode w) sc))
      (sc AND kSC_UpBit = 0) w sent w'"
  using dispatchKeyCode_spec [OF assms(1) plainKeyCode_bound, where E = E] assms(2-)
  by (subst dispatchKeyboardEventWithScancode.simps) simp

lemma after_key_keeps:
  assumes "after_key E k d w sent w'"
  shows "kb_wf w'" and "kb_extendCount w' = kb_extendCount w" and "kb_saveSS w' = kb_saveSS w"
    and "kb_emacsMode w' = kb_emacsMode w" and "kb_macintoshMode w' = kb_macintoshMode w"
    and "hw w' = hw w" and "keySpec k d (keysDown w) = (sent, keysDown w')"
    and "effects w' = effects w @
      (if sent then [KeyEvent (PS2ToADBMap ! k) d (Some (uptime E (hw w)))] else [])"
proof -
  from assms have w': "w' = w\<lparr>effects := effects w @
      (if sent then [KeyEvent (PS2ToADBMap ! k) d (Some (uptime E (hw w)))] else []),
      kb_keyBitVector := kb_keyBitVector w'\<rparr>" (is "w' = ?u")
    and "kb_wf w'" and "keySpec k d (keysDown w) = (sent, keysDown w')"
    by (auto simp: after_key_def)
  then show "kb_wf w'" "keySpec k d (keysDown w) = (sent, keysDown w')" by blast+
  show "kb_extendCount w' = kb_extendCount w" "kb_saveSS w' = kb_saveSS w"
    "kb_emacsMode w' = kb_emacsMode w" "kb_macintoshMode w' = kb_macintoshMode w" "hw w' = hw w"
    "effects w' = effects w @
      (if sent then [KeyEvent (PS2ToADBMap ! k) d (Some (uptime E (hw w)))] else [])"
    by (subst w', simp)+
qed

text \<open>One synthetic code of the print-screen chord.\<close>

lemma dispatch_plain_step:
  assumes "kb_wf w" and "kb_extendCount w = 0" and "sc \<noteq> kSC_Extend" and "sc \<noteq> kSC_Pause"
  obtains sent w' where "dispatchKeyboardEventWithScancode E sc w = Some (sent, w')"
    and "kb_wf w'" and "kb_extendCount w' = 0"
  using dispatch_plain [OF assms, of E] assms(2) after_key_keeps(1,2) by metis

lemma kb_wf_fields [simp]:
  "kb_wf (w\<lparr>kb_extendCount := x\<rparr>) = kb_wf w"
  "kb_wf (w\<lparr>effects := e\<rparr>) = kb_wf w"
  by (simp_all add: kb_wf_def)

lemma kb_wf_emit [simp]: "kb_wf (emit e w) = kb_wf w" "kb_extendCount (emit e w) = kb_extendCount w"
  by (simp_all add: emit_def kb_wf_def)

lemma dispatchKeyCode_returns:
  assumes "kb_wf w" and "unat n < KBV_NUM_KEYCODES"
  shows "\<exists>sent w'. dispatchKeyCode E n d w = Some (sent, w') \<and> kb_wf w'"
  using dispatchKeyCode_spec [OF assms, of E d] after_key_keeps(1) by blast

lemma adbCode_total: "unat n < KBV_NUM_KEYCODES \<Longrightarrow> adbCode n = Some (PS2ToADBMap ! unat n)"
  by (simp add: adbCode_def PS2ToADBMap_length KBV_NUM_KEYCODES_def)

lemma chord_codes:
  "(if d then 0x1d else 0x9d) \<noteq> kSC_Extend" "(if d then 0x1d else 0x9d) \<noteq> kSC_Pause"
  "(if d then 0x38 else 0xb8) \<noteq> kSC_Extend" "(if d then 0x38 else 0xb8) \<noteq> kSC_Pause"
  "(if d then 0x2a else 0xaa) \<noteq> kSC_Extend" "(if d then 0x2a else 0xaa) \<noteq> kSC_Pause"
  "(if d then 0x5 else 0x85) \<noteq> kSC_Extend" "(if d then 0x5 else 0x85) \<noteq> kSC_Pause"
  by (cases d; simp add: ps2_consts)+

text \<open>The print-screen key stands for a chord of up to four keys, each dispatched by its own code.\<close>

definition chordCodes ::
  "('h, 'w) env \<Rightarrow> bool \<Rightarrow> ('h, 'z) kbd_scheme \<Rightarrow> (bool \<times> ('h, 'z) kbd_scheme) option" where
  "chordCodes E goingDown w =
     do { w \<leftarrow> (if \<not> kb_saveSS w
                then do { (_, w) \<leftarrow> dispatchKeyboardEventWithScancode E (if goingDown then 0x1d else 0x9d) w;
                          Some w }
                else Some w);
          (_, w) \<leftarrow> dispatchKeyboardEventWithScancode E (if goingDown then 0x38 else 0xb8) w;
          (_, w) \<leftarrow> dispatchKeyboardEventWithScancode E (if goingDown then 0x2a else 0xaa) w;
          (_, w) \<leftarrow> dispatchKeyboardEventWithScancode E (if goingDown then 0x5 else 0x85) w;
          Some (True, w) }"

lemma dispatch_printScreen:
  assumes "sc AND NOT kSC_UpBit = 0x37" and "kb_extendCount w = 1"
  shows "dispatchKeyboardEventWithScancode E sc w =
    chordCodes E (sc AND kSC_UpBit = 0) (w\<lparr>kb_extendCount := 0\<rparr>)"
proof -
  have "sc \<noteq> kSC_Extend" "sc \<noteq> kSC_Pause" using assms(1) by (auto simp: ps2_consts)
  with assms show ?thesis
    by (subst dispatchKeyboardEventWithScancode.simps) (simp only: Let_def chordCodes_def, simp)
qed

lemma chordCodes_returns:
  assumes "kb_wf v" and "kb_extendCount v = 0"
  shows "\<exists>b w'. chordCodes E d v = Some (b, w') \<and> kb_wf w'"
proof -
  obtain u where u: "(if \<not> kb_saveSS v then do { (_, w) \<leftarrow> dispatchKeyboardEventWithScancode E
      (if d then 0x1d else 0x9d) v; Some w } else Some v) = Some u" "kb_wf u" "kb_extendCount u = 0"
  proof (cases "kb_saveSS v")
    case True
    with that assms show ?thesis by auto
  next
    case False
    from assms obtain s u where "dispatchKeyboardEventWithScancode E (if d then 0x1d else 0x9d) v = Some (s, u)"
      "kb_wf u" "kb_extendCount u = 0"
      by (rule dispatch_plain_step) (rule chord_codes)+
    with that False show ?thesis by simp
  qed
  obtain s1 u1 where u1: "dispatchKeyboardEventWithScancode E (if d then 0x38 else 0xb8) u = Some (s1, u1)"
    "kb_wf u1" "kb_extendCount u1 = 0"
    using u(2,3) by (rule dispatch_plain_step) (rule chord_codes)+
  obtain s2 u2 where u2: "dispatchKeyboardEventWithScancode E (if d then 0x2a else 0xaa) u1 = Some (s2, u2)"
    "kb_wf u2" "kb_extendCount u2 = 0"
    using u1(2,3) by (rule dispatch_plain_step) (rule chord_codes)+
  obtain s3 u3 where u3: "dispatchKeyboardEventWithScancode E (if d then 0x5 else 0x85) u2 = Some (s3, u3)"
    "kb_wf u3"
    using u2(2,3) by (rule dispatch_plain_step) (rule chord_codes)+
  have "chordCodes E d v = Some (True, u3)"
    unfolding chordCodes_def u(1)
    by (simp only: Option.bind.simps prod.case u1(1) u2(1) u3(1))
  with u3(2) show ?thesis by blast
qed

text \<open>The parser returns on every byte, whatever the state of the key bit vector.\<close>

lemma scancode_returns:
  assumes wf: "kb_wf w"
  shows "\<exists>b w'. dispatchKeyboardEventWithScancode E sc w = Some (b, w') \<and> kb_wf w'"
proof -
  consider (prefix) "sc = kSC_Extend \<or> sc = kSC_Pause"
    | (plain) "sc \<noteq> kSC_Extend" "sc \<noteq> kSC_Pause" "kb_extendCount w = 0"
    | (extended) "sc \<noteq> kSC_Extend" "sc \<noteq> kSC_Pause" "kb_extendCount w \<noteq> 0"
    by blast
  then show ?thesis
  proof cases
    case prefix
    with wf show ?thesis by (subst dispatchKeyboardEventWithScancode.simps) auto
  next
    case plain
    show ?thesis by (rule dispatch_plain_step [OF wf plain(3,1,2), of E]) blast
  next
    case extended
    let ?v = "w\<lparr>kb_extendCount := kb_extendCount w - 1\<rparr>" and ?code = "sc AND NOT kSC_UpBit"
    let ?d = "sc AND kSC_UpBit = 0"
    have v: "kb_wf ?v" using wf by simp
    show ?thesis
    proof (cases "kb_extendCount ?v = 0 \<and> ?code = 0x37")
      case True
      then have "kb_extendCount w = 1" by simp
      show ?thesis
        unfolding dispatch_printScreen [OF conjunct2 [OF True] \<open>kb_extendCount w = 1\<close>]
        by (rule chordCodes_returns) (simp_all add: wf)
    next
      case False
      have key: "\<exists>b w'. dispatchKeyCode E n ?d x = Some (b, w') \<and> kb_wf w'"
        if "n = 0 \<or> extendedKeyCode m ?code = Some n" "kb_wf x" for n m and x :: "('a, 'b) kbd_scheme"
        using that extendedKeyCode_bound [of m ?code n]
        by (intro dispatchKeyCode_returns) (auto simp: KBV_NUM_KEYCODES_def)
      have eject: "\<exists>b w'. dispatchEject ?d ?v = Some (b, w') \<and> kb_wf w'"
        using v by (auto simp: dispatchEject_def adbCode_def PS2ToADBMap_length Let_def)
      show ?thesis
        using False extended v eject key [of 0 _ "emit ReceiveSleepNow ?v"] key [of 0 _ ?v]
          key [of _ "kb_macintoshMode w" ?v]
        by (subst dispatchKeyboardEventWithScancode.simps)
          (auto simp: Let_def split: option.split)
    qed
  qed
qed

text \<open>The keys of the chord, in the order in which they are pressed and released.\<close>

definition chordKeys :: "bool \<Rightarrow> bool \<Rightarrow> nat list" where
  "chordKeys saveSS mac = (if saveSS then [] else [0x1d]) @ [if mac then 0x70 else 0x38, 0x2a, 5]"

lemma chord_plainKeyCodes:
  "unat (plainKeyCode em mac (if d then 0x1d else 0x9d)) = 0x1d"
  "unat (plainKeyCode em mac (if d then 0x38 else 0xb8)) = (if mac then 0x70 else 0x38)"
  "unat (plainKeyCode em mac (if d then 0x2a else 0xaa)) = 0x2a"
  "unat (plainKeyCode em mac (if d then 0x5 else 0x85)) = 5"
  "(if d then 0x1d else 0x9d) AND kSC_UpBit = 0 \<longleftrightarrow> d"
  "(if d then 0x38 else 0xb8) AND kSC_UpBit = 0 \<longleftrightarrow> d"
  "(if d then 0x2a else 0xaa) AND kSC_UpBit = 0 \<longleftrightarrow> d"
  "(if d then 0x5 else 0x85) AND kSC_UpBit = 0 \<longleftrightarrow> d"
  by (cases d; simp add: plainKeyCode_def kSC_UpBit_def)+

lemma chord_step:
  assumes "kb_wf w" and "kb_extendCount w = 0" and "sc \<noteq> kSC_Extend" and "sc \<noteq> kSC_Pause"
    and "unat (plainKeyCode (kb_emacsMode w) (kb_macintoshMode w) sc) = k" and "k \<noteq> 0"
    and "sc AND kSC_UpBit = 0 \<longleftrightarrow> d" and "d \<longrightarrow> k \<notin> keysDown w"
  shows "\<exists>w'. dispatchKeyboardEventWithScancode E sc w = Some (True, w') \<and>
    kb_wf w' \<and> kb_extendCount w' = 0 \<and> kb_saveSS w' = kb_saveSS w \<and>
    kb_emacsMode w' = kb_emacsMode w \<and> kb_macintoshMode w' = kb_macintoshMode w \<and>
    hw w' = hw w \<and> keysDown w' = (if d then insert k (keysDown w) else keysDown w - {k}) \<and>
    effects w' = effects w @ [KeyEvent (PS2ToADBMap ! k) d (Some (uptime E (hw w)))]"
proof -
  from dispatch_plain [OF assms(1-4), of E] obtain sent w' where
    r: "dispatchKeyboardEventWithScancode E sc w = Some (sent, w')" and a: "after_key E k d w sent w'"
    unfolding assms(5,7) by blast
  note keep = after_key_keeps [OF a]
  from keep(7) assms(6,8) have "sent" by (auto simp: keySpec_def split: if_splits)
  with r keep assms(2,6,8) show ?thesis by (auto simp: keySpec_def split: if_splits)
qed

lemma chordCodes_events:
  assumes wf: "kb_wf v" "kb_extendCount v = 0" and d: "d \<longrightarrow> keysDown v = {}"
  defines "ks \<equiv> chordKeys (kb_saveSS v) (kb_macintoshMode v)"
  shows "\<exists>w. chordCodes E d v = Some (True, w) \<and>
    effects w = effects v @ map (\<lambda>k. KeyEvent (PS2ToADBMap ! k) d (Some (uptime E (hw v)))) ks \<and>
    keysDown w = (if d then set ks else keysDown v - set ks) \<and> kb_wf w \<and> kb_extendCount w = 0 \<and>
    hw w = hw v \<and> kb_saveSS w = kb_saveSS v \<and> kb_macintoshMode w = kb_macintoshMode v"
proof -
  let ?ev = "\<lambda>k. KeyEvent (PS2ToADBMap ! k) d (Some (uptime E (hw v)))"
  have nz: "(0x1d :: nat) \<noteq> 0" "(0x2a :: nat) \<noteq> 0" "(5 :: nat) \<noteq> 0"
    "(if m then 0x70 else 0x38 :: nat) \<noteq> 0" for m
    by simp_all
  have n0: "d \<longrightarrow> 0x1d \<notin> keysDown v" using d by blast
  obtain u where u: "(if \<not> kb_saveSS v then do { (_, w) \<leftarrow> dispatchKeyboardEventWithScancode E
      (if d then 0x1d else 0x9d) v; Some w } else Some v) = Some u" "kb_wf u" "kb_extendCount u = 0"
    "kb_emacsMode u = kb_emacsMode v" "kb_macintoshMode u = kb_macintoshMode v" "hw u = hw v"
    "keysDown u = (if kb_saveSS v then keysDown v else if d then insert 0x1d (keysDown v) else keysDown v - {0x1d})"
    "effects u = effects v @ (if kb_saveSS v then [] else [?ev 0x1d])" "kb_saveSS u = kb_saveSS v"
  proof (cases "kb_saveSS v")
    case True
    with wf show ?thesis by (intro that [of v]) simp_all
  next
    case False
    obtain u where "dispatchKeyboardEventWithScancode E (if d then 0x1d else 0x9d) v = Some (True, u)"
      "kb_wf u" "kb_extendCount u = 0" "kb_emacsMode u = kb_emacsMode v" "kb_saveSS u = kb_saveSS v"
      "kb_macintoshMode u = kb_macintoshMode v" "hw u = hw v"
      "keysDown u = (if d then insert 0x1d (keysDown v) else keysDown v - {0x1d})"
      "effects u = effects v @ [?ev 0x1d]"
      using chord_step [OF wf chord_codes(1,2) chord_plainKeyCodes(1) nz(1) chord_plainKeyCodes(5) n0, of E]
      by blast
    with False show ?thesis by (intro that [of u]) simp_all
  qed
  let ?k = "if kb_macintoshMode v then 0x70 else 0x38 :: nat"
  have n1: "d \<longrightarrow> (if kb_macintoshMode u then 0x70 else 0x38) \<notin> keysDown u" using d u(5,7) by auto
  obtain u1 where u1: "dispatchKeyboardEventWithScancode E (if d then 0x38 else 0xb8) u = Some (True, u1)"
    "kb_wf u1" "kb_extendCount u1 = 0" "kb_emacsMode u1 = kb_emacsMode u"
    "kb_macintoshMode u1 = kb_macintoshMode u" "hw u1 = hw u"
    "keysDown u1 = (if d then insert ?k (keysDown u) else keysDown u - {?k})"
    "effects u1 = effects u @ [?ev ?k]" "kb_saveSS u1 = kb_saveSS u"
    using chord_step [OF u(2,3) chord_codes(3,4) chord_plainKeyCodes(2) nz(4) chord_plainKeyCodes(6) n1, of E]
      u(4-6) by auto
  have n2: "d \<longrightarrow> 0x2a \<notin> keysDown u1" using d u(7) u1(7) by auto
  obtain u2 where u2: "dispatchKeyboardEventWithScancode E (if d then 0x2a else 0xaa) u1 = Some (True, u2)"
    "kb_wf u2" "kb_extendCount u2 = 0" "kb_emacsMode u2 = kb_emacsMode u1"
    "kb_macintoshMode u2 = kb_macintoshMode u1" "hw u2 = hw u1"
    "keysDown u2 = (if d then insert 0x2a (keysDown u1) else keysDown u1 - {0x2a})"
    "effects u2 = effects u1 @ [?ev 0x2a]" "kb_saveSS u2 = kb_saveSS u1"
    using chord_step [OF u1(2,3) chord_codes(5,6) chord_plainKeyCodes(3) nz(2) chord_plainKeyCodes(7) n2, of E]
      u(6) u1(6) by auto
  have n3: "d \<longrightarrow> 5 \<notin> keysDown u2" using d u(7) u1(7) u2(7) by auto
  obtain u3 where u3: "dispatchKeyboardEventWithScancode E (if d then 0x5 else 0x85) u2 = Some (True, u3)"
    "kb_wf u3" "kb_extendCount u3 = 0"
    "keysDown u3 = (if d then insert 5 (keysDown u2) else keysDown u2 - {5})"
    "effects u3 = effects u2 @ [?ev 5]" "hw u3 = hw u2" "kb_saveSS u3 = kb_saveSS u2"
    "kb_macintoshMode u3 = kb_macintoshMode u2"
    using chord_step [OF u2(2,3) chord_codes(7,8) chord_plainKeyCodes(4) nz(3) chord_plainKeyCodes(8) n3, of E]
      u(6) u1(6) u2(6) by auto
  have "chordCodes E d v = Some (True, u3)"
    unfolding chordCodes_def u(1)
    by (simp only: Option.bind.simps prod.case u1(1) u2(1) u3(1))
  moreover have "effects u3 = effects v @ map ?ev ks"
    using u(8) u1(8) u2(8) u3(5) by (simp add: ks_def chordKeys_def)
  moreover have "keysDown u3 = (if d then set ks else keysDown v - set ks)"
    using d u(7) u1(7) u2(7) u3(4) by (auto simp: ks_def chordKeys_def)
  moreover have "hw u3 = hw v" "kb_saveSS u3 = kb_saveSS v" "kb_macintoshMode u3 = kb_macintoshMode v"
    using u3(6-8) u2(5,6,9) u1(5,6,9) u(5,6,9) by simp_all
  ultimately show ?thesis using u3(2,3) by blast
qed

section \<open>Properties\<close>

text \<open>Feeding the driver a sequence of bytes.\<close>

fun kb_feed :: "('h, 'w) env \<Rightarrow> u8 list \<Rightarrow> ('h, 'z) kbd_scheme \<Rightarrow> ('h, 'z) kbd_scheme option" where
  "kb_feed E [] w = Some w"
| "kb_feed E (b # bs) w = do { w \<leftarrow> kb_interruptOccurred E b w; kb_feed E bs w }"

lemma kb_interruptOccurred_returns:
  assumes "kb_wf w"
  shows "\<exists>w'. kb_interruptOccurred E b w = Some w' \<and> kb_wf w'"
  using assms scancode_returns [OF assms, of E b] by (auto simp: kb_interruptOccurred_def)

text \<open>
  C11. Totality of the scan code parser: the interrupt handler of the keyboard driver
  returns on every sequence of bytes whatever, without an access outside its bit vector or
  its tables, even though the parser calls itself for the print-screen chord.
\<close>

theorem keyboard_parser_total:
  assumes "kb_wf w"
  shows "\<exists>w'. kb_feed E bytes w = Some w' \<and> kb_wf w'"
  using assms
proof (induction bytes arbitrary: w)
  case (Cons b bytes)
  obtain u where "kb_interruptOccurred E b w = Some u" "kb_wf u"
    using kb_interruptOccurred_returns [OF Cons.prems] by blast
  with Cons.IH [of u] show ?case by simp
qed simp

lemma example_kb_wf: "kb_wf (example_world h)"
  by (simp add: kb_wf_def example_world_def ps2_consts)

theorem keyboard_parser_total_witness:
  "\<exists>w'. kb_feed (example_env 0) [0xE0, 0x37, 0xE0, 0xB7, 0xFF, 0x00] (example_world []) = Some w'"
  using keyboard_parser_total [OF example_kb_wf] by blast

text \<open>
  C12. The parser refines a set of keys: for a scan code without a prefix, an event is sent
  exactly if the key code is not 0 and the key is not already known to be down, the event
  carries the ADB code of the key and the direction of the scan code, and the bit vector
  afterwards is the set with the key added or removed. Auto-repeats are dropped.
\<close>

theorem scancode_refines_key_set:
  assumes "kb_wf w" and "kb_extendCount w = 0" and "scanCode \<noteq> kSC_Extend" and "scanCode \<noteq> kSC_Pause"
  defines "k \<equiv> unat (plainKeyCode (kb_emacsMode w) (kb_macintoshMode w) scanCode)"
    and "goingDown \<equiv> scanCode AND kSC_UpBit = 0"
  shows "\<exists>sent w'. dispatchKeyboardEventWithScancode E scanCode w = Some (sent, w') \<and>
    keySpec k goingDown (keysDown w) = (sent, keysDown w') \<and>
    effects w' = effects w @
      (if sent then [KeyEvent (PS2ToADBMap ! k) goingDown (Some (uptime E (hw w)))] else []) \<and>
    kb_wf w' \<and> kb_extendCount w' = 0"
proof -
  from dispatch_plain [OF assms(1-4), of E] obtain sent w' where
    "dispatchKeyboardEventWithScancode E scanCode w = Some (sent, w')" and a: "after_key E k goingDown w sent w'"
    unfolding k_def goingDown_def by blast
  with after_key_keeps [OF a] assms(2) show ?thesis by auto
qed

theorem scancode_refines_key_set_witness:
  "\<exists>w'. dispatchKeyboardEventWithScancode (example_env 0) 0x1E (example_world []) = Some (True, w') \<and>
     keysDown w' = {0x1E} \<and> effects w' = [KeyEvent 0 True (Some 7)]"
proof -
  let ?w = "example_world []"
  have w: "kb_extendCount ?w = 0" "\<not> kb_emacsMode ?w" "\<not> kb_macintoshMode ?w" "effects ?w = []"
    "keysDown ?w = {}"
    by (auto simp: example_world_def keySet_def ps2_consts nth_Cons' split: if_splits)
  have e: "uptime (example_env 0) h = 7" for h by (simp add: example_env_def example_ports_def)
  show ?thesis
    using scancode_refines_key_set [OF example_kb_wf w(1), where scanCode = "0x1E" and E = "example_env 0"]
    by (auto simp: w e plainKeyCode_def keySpec_def PS2ToADBMap_def ps2_consts)
qed

text \<open>
  C13. The same with the extension prefix: after the two bytes \<open>E0\<close> and \<open>scanCode\<close>, for every
  code that the switch maps to a key, the key is the one that the switch names, whatever
  prefix was pending before, and no prefix is pending afterwards.
\<close>

theorem extended_scancode_refines_key_set:
  assumes "kb_wf w"
    and "extendedKeyCode (kb_macintoshMode w) (scanCode AND NOT kSC_UpBit) = Some k"
    and "scanCode \<noteq> kSC_Extend" and "scanCode \<noteq> kSC_Pause"
  defines "goingDown \<equiv> scanCode AND kSC_UpBit = 0"
  shows "\<exists>sent w'. kb_feed E [kSC_Extend, scanCode] w = Some w' \<and>
    keySpec (unat k) goingDown (keysDown w) = (sent, keysDown w') \<and>
    effects w' = effects w @
      (if sent then [KeyEvent (PS2ToADBMap ! unat k) goingDown (Some (uptime E (hw w)))] else []) \<and>
    kb_wf w' \<and> kb_extendCount w' = 0"
proof -
  let ?v = "w\<lparr>kb_extendCount := 0\<rparr>" and ?code = "scanCode AND NOT kSC_UpBit"
  have code: "?code \<noteq> 0x34" "?code \<noteq> 0x5f" "?code \<noteq> 0x37"
    using assms(2) by (auto simp: extendedKeyCode_def)
  have ack: "scanCode \<noteq> kSC_Acknowledge" "scanCode \<noteq> kSC_Resend"
    using assms(2) by (auto simp: extendedKeyCode_def ps2_consts)
  have "kb_wf ?v" using assms(1) by simp
  from dispatchKeyCode_spec [OF this extendedKeyCode_bound(1) [OF assms(2)], of E goingDown]
  obtain sent w' where d: "dispatchKeyCode E k goingDown ?v = Some (sent, w')"
    and a: "after_key E (unat k) goingDown ?v sent w'" by blast
  have "dispatchKeyboardEventWithScancode E scanCode (w\<lparr>kb_extendCount := 1\<rparr>) = Some (sent, w')"
    using assms(2-4) code d
    by (subst dispatchKeyboardEventWithScancode.simps) (simp add: Let_def goingDown_def)
  moreover have "dispatchKeyboardEventWithScancode E kSC_Extend w = Some (False, w\<lparr>kb_extendCount := 1\<rparr>)"
    by (subst dispatchKeyboardEventWithScancode.simps) simp
  ultimately have "kb_feed E [kSC_Extend, scanCode] w = Some w'"
    using ack by (simp add: kb_interruptOccurred_def ps2_consts)
  with after_key_keeps [OF a] show ?thesis by auto
qed

theorem extended_scancode_refines_key_set_witness:
  "\<exists>sent w'. kb_feed (example_env 0) [kSC_Extend, 0x48] (example_world []) = Some w' \<and>
    keySpec 0x64 True (keysDown (example_world [])) = (sent, keysDown w')"
proof -
  have "extendedKeyCode (kb_macintoshMode (example_world [])) (0x48 AND NOT kSC_UpBit) = Some 0x64"
    by (simp add: extendedKeyCode_def ps2_consts)
  from extended_scancode_refines_key_set [OF example_kb_wf this, where E = "example_env 0"]
  show ?thesis by (auto simp: ps2_consts)
qed

text \<open>
  C14. The print-screen key with no other key down: pressing it presses Control (unless the
  option to save screen shots to a file is set), Option or Command, Shift and 4, in this
  order and with one time stamp; releasing it releases them in the same order; no key is
  down afterwards. The second key is key code \<open>0x38\<close>, the Option key, unless the Alt and
  Windows keys are swapped.
\<close>

theorem print_screen_chord:
  assumes "kb_wf w" and "keysDown w = {}"
  defines "keys \<equiv> chordKeys (kb_saveSS w) (kb_macintoshMode w)"
  shows "\<exists>w'. kb_feed E [kSC_Extend, 0x37, kSC_Extend, 0xB7] w = Some w' \<and> keysDown w' = {} \<and>
    effects w' = effects w @
      map (\<lambda>k. KeyEvent (PS2ToADBMap ! k) True (Some (uptime E (hw w)))) keys @
      map (\<lambda>k. KeyEvent (PS2ToADBMap ! k) False (Some (uptime E (hw w)))) keys"
proof -
  have prefix: "kb_interruptOccurred E kSC_Extend x = Some (x\<lparr>kb_extendCount := 1\<rparr>)"
    for x :: "('a, 'b) kbd_scheme"
    by (simp add: kb_interruptOccurred_def ps2_consts) (subst dispatchKeyboardEventWithScancode.simps, simp add: ps2_consts)
  have chord: "kb_interruptOccurred E sc (x\<lparr>kb_extendCount := 1\<rparr>) = Some y"
    if "chordCodes E d (x\<lparr>kb_extendCount := 0\<rparr>) = Some (True, y)" "sc = 0x37 \<and> d \<or> sc = 0xB7 \<and> \<not> d"
    for sc d and x y :: "('a, 'b) kbd_scheme"
  proof -
    have "sc AND NOT kSC_UpBit = 0x37" "(sc AND kSC_UpBit = 0) = d" using that(2) by (auto simp: ps2_consts)
    with that(1) dispatch_printScreen [of sc "x\<lparr>kb_extendCount := 1\<rparr>" E]
    have "dispatchKeyboardEventWithScancode E sc (x\<lparr>kb_extendCount := 1\<rparr>) = Some (True, y)" by simp
    with that(2) show ?thesis by (auto simp: kb_interruptOccurred_def ps2_consts)
  qed
  let ?v = "w\<lparr>kb_extendCount := 0\<rparr>"
  have v: "kb_wf ?v" "kb_extendCount ?v = 0" "True \<longrightarrow> keysDown ?v = {}" using assms(1,2) by simp_all
  from chordCodes_events [OF v, of E] obtain u where u: "chordCodes E True ?v = Some (True, u)"
    "effects u = effects w @ map (\<lambda>k. KeyEvent (PS2ToADBMap ! k) True (Some (uptime E (hw w)))) keys"
    "keysDown u = set keys" "kb_wf u" "hw u = hw w" "kb_saveSS u = kb_saveSS w"
    "kb_macintoshMode u = kb_macintoshMode w" by (auto simp: keys_def)
  let ?x = "u\<lparr>kb_extendCount := 0\<rparr>"
  have x: "kb_wf ?x" "kb_extendCount ?x = 0" "False \<longrightarrow> keysDown ?x = {}" using u(4) by simp_all
  from chordCodes_events [OF x, of E] u obtain y where y: "chordCodes E False ?x = Some (True, y)"
    "effects y = effects u @ map (\<lambda>k. KeyEvent (PS2ToADBMap ! k) False (Some (uptime E (hw w)))) keys"
    "keysDown y = set keys - set keys" by (auto simp: keys_def)
  have "kb_feed E [kSC_Extend, 0x37, kSC_Extend, 0xB7] w = Some y"
    using chord [OF u(1), of "0x37"] chord [OF y(1), of "0xB7"] by (simp add: prefix)
  with y u(2) show ?thesis by auto
qed

theorem print_screen_chord_witness:
  "\<exists>w'. kb_feed (example_env 0) [kSC_Extend, 0x37, kSC_Extend, 0xB7] (example_world []) = Some w' \<and>
    effects w' = map (\<lambda>(c, d). KeyEvent c d (Some 7))
      [(0x3b, True), (0x3a, True), (0x38, True), (0x15, True),
       (0x3b, False), (0x3a, False), (0x38, False), (0x15, False)]"
proof -
  let ?w = "example_world []"
  have w: "\<not> kb_saveSS ?w" "\<not> kb_macintoshMode ?w" "effects ?w = []" "keysDown ?w = {}"
    by (auto simp: example_world_def keySet_def ps2_consts nth_Cons' split: if_splits)
  have e: "uptime (example_env 0) h = 7" for h by (simp add: example_env_def example_ports_def)
  show ?thesis
    using print_screen_chord [OF example_kb_wf w(4), of "example_env 0"]
    by (auto simp: w e chordKeys_def PS2ToADBMap_def)
qed

text \<open>
  C15. The six bytes of the Pause key are swallowed: the driver ends in the state in which
  it began, with no prefix pending, and no event is dispatched.
\<close>

theorem pause_key_ignored:
  "kb_feed E [kSC_Pause, 0x1D, 0x45, kSC_Pause, 0x9D, 0xC5] w = Some (w\<lparr>kb_extendCount := 0\<rparr>)"
proof -
  have p: "kb_interruptOccurred E kSC_Pause x = Some (x\<lparr>kb_extendCount := 2\<rparr>)" for x :: "('a, 'b) kbd_scheme"
    by (simp add: kb_interruptOccurred_def ps2_consts) (subst dispatchKeyboardEventWithScancode.simps, simp add: ps2_consts)
  have c: "kb_interruptOccurred E sc (x\<lparr>kb_extendCount := 2\<rparr>) = Some (x\<lparr>kb_extendCount := 1\<rparr>)"
    if "sc \<noteq> kSC_Extend" "sc \<noteq> kSC_Pause" "sc \<noteq> kSC_Acknowledge" "sc \<noteq> kSC_Resend"
    for sc and x :: "('a, 'b) kbd_scheme"
  proof -
    have "dispatchKeyboardEventWithScancode E sc (x\<lparr>kb_extendCount := 2\<rparr>) = Some (False, x\<lparr>kb_extendCount := 1\<rparr>)"
      by (subst dispatchKeyboardEventWithScancode.simps) (simp add: that)
    with that show ?thesis by (simp add: kb_interruptOccurred_def)
  qed
  have d: "kb_interruptOccurred E sc (x\<lparr>kb_extendCount := 1\<rparr>) = Some (x\<lparr>kb_extendCount := 0\<rparr>)"
    if "sc AND NOT kSC_UpBit = 0x45" for sc and x :: "('a, 'b) kbd_scheme"
  proof -
    have sc: "sc \<noteq> kSC_Extend" "sc \<noteq> kSC_Pause" "sc \<noteq> kSC_Acknowledge" "sc \<noteq> kSC_Resend"
      using that by (auto simp: ps2_consts)
    have "dispatchKeyboardEventWithScancode E sc (x\<lparr>kb_extendCount := 1\<rparr>) = Some (False, x\<lparr>kb_extendCount := 0\<rparr>)"
      by (subst dispatchKeyboardEventWithScancode.simps) (simp add: that sc extendedKeyCode_def)
    with sc show ?thesis by (simp add: kb_interruptOccurred_def)
  qed
  have "kb_interruptOccurred E 0x1D (x\<lparr>kb_extendCount := 2\<rparr>) = Some (x\<lparr>kb_extendCount := 1\<rparr>)"
    "kb_interruptOccurred E 0x9D (x\<lparr>kb_extendCount := 2\<rparr>) = Some (x\<lparr>kb_extendCount := 1\<rparr>)"
    "kb_interruptOccurred E 0x45 (x\<lparr>kb_extendCount := 1\<rparr>) = Some (x\<lparr>kb_extendCount := 0\<rparr>)"
    "kb_interruptOccurred E 0xC5 (x\<lparr>kb_extendCount := 1\<rparr>) = Some (x\<lparr>kb_extendCount := 0\<rparr>)"
    for x :: "('a, 'b) kbd_scheme"
    by (rule c d; simp add: ps2_consts)+
  then show ?thesis by (simp add: p)
qed

end
