(* ===== verification/PS2_PointerEvents.thy ===== *)
theory PS2_PointerEvents
  imports PS2_Example
begin

text \<open>
  Packets to pointer events: the decoding of a packet inverts the encoding that the
  devices use, and the interrupt handlers of the mouse and of the touch pad cut the
  stream of bytes into packets.
\<close>

section \<open>Encoding of packets\<close>

text \<open>
  A device with three buttons sends the buttons and the signs of the two movements in the
  first byte, together with a bit that is always set, and the low eight bits of each
  movement in the next two. A wheel adds a byte, with its movement in the low nibble and
  two more buttons above it.
\<close>

definition encodePacket :: "u8 \<Rightarrow> int \<Rightarrow> int \<Rightarrow> u8 list" where
  "encodePacket buttons dx dy =
     [0x08 OR (buttons AND 7) OR (if dx < 0 then 0x10 else 0) OR (if dy < 0 then 0x20 else 0),
      word_of_int dx, word_of_int dy]"

definition encodeWheel :: "u8 \<Rightarrow> int \<Rightarrow> u8" where
  "encodeWheel buttons dz = (word_of_int dz AND 0x0F) OR push_bit 4 (drop_bit 3 buttons AND 3)"

section \<open>Signed numbers of nine and of four bits\<close>

lemma bit_sign_extended:
  fixes d :: int
  assumes "- (2 ^ n) \<le> d" and "d < 2 ^ n" and "n \<le> k"
  shows "bit d k \<longleftrightarrow> d < 0"
proof -
  have "(2 :: int) ^ n \<le> 2 ^ k" using assms(3) by (simp add: power_increasing)
  with assms have d: "- (2 ^ k) \<le> d" "d < 2 ^ k" by linarith+
  show ?thesis
  proof (cases "d < 0")
    case True
    then have "d div 2 ^ k = - 1"
      using d by (intro int_div_pos_eq [where r = "d + 2 ^ k"]) auto
    with True show ?thesis by (simp add: bit_iff_odd)
  next
    case False
    with d show ?thesis by (simp add: bit_iff_odd)
  qed
qed

lemma nine_bits:
  assumes "- 256 \<le> d" and "d < 256"
  shows "(if d < 0 then 0xffffff00 else 0) OR ucast (word_of_int d :: u8) = (word_of_int d :: u32)"
proof (rule bit_word_eqI)
  fix k assume k: "k < LENGTH(32)"
  show "bit ((if d < 0 then 0xffffff00 else 0) OR ucast (word_of_int d :: u8) :: u32) k = bit (word_of_int d :: u32) k"
  proof (cases "k < 8")
    case True
    with k show ?thesis using high_ones [of k] by (auto simp: bit_simps)
  next
    case False
    then have "bit d k \<longleftrightarrow> d < 0" using assms by (intro bit_sign_extended [of 8]) auto
    with k False show ?thesis using high_ones [of k] by (auto simp: bit_simps)
  qed
qed

lemma four_bits:
  assumes "- 8 \<le> d" and "d < 8"
  shows "scast (signed_drop_bit 4 (push_bit 4 (word_of_int d AND 0x0F OR push_bit 4 b :: u8))) = (word_of_int d :: u16)"
proof (rule bit_word_eqI)
  fix k assume k: "k < LENGTH(16)"
  have s: "bit d j \<longleftrightarrow> d < 0" if "3 \<le> j" for j
    using assms that by (intro bit_sign_extended [of 3]) auto
  show "bit (scast (signed_drop_bit 4 (push_bit 4 (word_of_int d AND 0x0F OR push_bit 4 b :: u8))) :: u16) k =
      bit (word_of_int d :: u16) k"
    using k s [of 3] s [of k] nibble_ones [of "4 + k"] nibble_ones [of 7] by (cases "k < 4") (auto simp: bit_simps low_ones)
qed

section \<open>Decoding inverts encoding\<close>

text \<open>The first byte of a packet, for the eight button states and four pairs of signs.\<close>

lemma encodePacket_first:
  fixes dx dy :: int
  assumes "b < 8"
  defines "f \<equiv> 0x08 OR (b AND 7) OR (if dx < 0 then 0x10 else 0) OR (if dy < 0 then 0x20 else 0) :: u8"
  shows "f AND 0x10 \<noteq> 0 \<longleftrightarrow> dx < 0" and "f AND 0x20 \<noteq> 0 \<longleftrightarrow> dy < 0" and "f AND 0x08 \<noteq> 0"
    and "f \<noteq> 0xFA" and "f \<noteq> 0xAA" and "packetButtons (f # p) = ucast b"
  by (rule low3_cases [OF assms(1)]; simp add: f_def packetButtons_def Let_def)+

lemma decode_encodePacket:
  assumes "b < 8" and "- 256 \<le> dx" "dx < 256" and "- 256 \<le> dy" "dy < 256"
  shows "packetButtons (encodePacket b dx dy @ p) = ucast b"
    and "packetDx (encodePacket b dx dy @ p) = word_of_int dx"
    and "packetDy (encodePacket b dx dy @ p) = - word_of_int dy"
  using encodePacket_first [OF assms(1), where dx = dx and dy = dy] nine_bits [OF assms(2,3)] nine_bits [OF assms(4,5)]
  by (auto simp: encodePacket_def packetDx_def packetDy_def split: if_splits)

lemma decode_encodeWheel:
  assumes "- 8 \<le> dz" and "dz < 8" and "length p = 3"
  shows "packetDz (p @ [encodeWheel b dz]) = word_of_int dz"
  using four_bits [OF assms(1,2)] assms(3) by (simp add: packetDz_def encodeWheel_def nth_append)

section \<open>Cutting the mouse's stream into packets\<close>

fun ms_feed ::
  "('h, 'w) env \<Rightarrow> ('h, 'z) mouse_scheme nub \<Rightarrow> u8 list \<Rightarrow> ('h, 'z) mouse_scheme
     \<Rightarrow> ('h, 'z) mouse_scheme option" where
  "ms_feed E D [] w = Some w"
| "ms_feed E D (b # bs) w = do { w \<leftarrow> ms_interruptOccurred E D b w; ms_feed E D bs w }"

lemma ms_feed_append: "ms_feed E D (xs @ ys) w = do { w \<leftarrow> ms_feed E D xs w; ms_feed E D ys w }"
  by (induction xs arbitrary: w) (auto split: Option.bind_splits)

text \<open>What one packet means for a mouse of a given type.\<close>

definition packetEvents :: "PS2MouseId \<Rightarrow> u64 \<Rightarrow> u8 list \<Rightarrow> effect list" where
  "packetEvents t now p =
     (if t = kMouseTypeStandard
      then [PointerEvent (packetDx p) (packetDy p) (packetButtons p) now]
      else PointerEvent (packetDx p) (packetDy p)
             (if t = kMouseTypeIntellimouseExplorer then explorerButtons p (packetButtons p)
              else packetButtons p) now #
           (if packetDz p \<noteq> 0 then [ScrollEvent (- packetDz p) 0 0 now] else []))"

text \<open>A packet that the framing accepts: its first byte cannot be taken for something else.\<close>

definition goodPacket :: "PS2MouseId \<Rightarrow> u8 list \<Rightarrow> bool" where
  "goodPacket t p \<longleftrightarrow> length p = (if t = kMouseTypeStandard then 3 else 4) \<and>
     p ! 0 AND 0x08 \<noteq> 0 \<and> p ! 0 \<noteq> kSC_Acknowledge \<and> p ! 0 \<noteq> 0xAA"

text \<open>The state of the mouse between two packets.\<close>

definition between_packets :: "PS2MouseId \<Rightarrow> u64 \<Rightarrow> ('h, 'w) env \<Rightarrow> ('h, 'z) mouse_scheme \<Rightarrow> bool" where
  "between_packets t now E w \<longleftrightarrow> ms_wf w \<and> ms_packetByteCount w = 0 \<and> ms_type w = t \<and>
     uptime E (hw w) = now"

lemma list3: "length xs = 3 \<Longrightarrow> \<exists>a b c. xs = [a, b, c]"
  by (auto simp: numeral_3_eq_3 length_Suc_conv)

lemma list4: "length xs = 4 \<Longrightarrow> \<exists>a b c d. xs = [a, b, c, d]"
  by (auto simp: numeral_eq_Suc length_Suc_conv)

lemma feed_packet_standard:
  assumes "between_packets kMouseTypeStandard now E w" and "goodPacket kMouseTypeStandard p"
  shows "\<exists>w'. ms_feed E D p w = Some w' \<and> between_packets kMouseTypeStandard now E w' \<and>
    ms_mouseResetCount w' = 0 \<and> effects w' = effects w @ packetEvents kMouseTypeStandard now p"
proof -
  have "length p = 3" using assms(2) by (simp add: goodPacket_def)
  then obtain a b c where p: "p = [a, b, c]" using list3 by blast
  have "length (ms_packetBuffer w) = 4" using assms(1) by (simp add: between_packets_def ms_wf_def kPacketLengthMax_def)
  then obtain x0 x1 x2 x3 where buf: "ms_packetBuffer w = [x0, x1, x2, x3]" using list4 by blast
  have w: "ms_packetByteCount w = 0" "ms_packetLength w = 3" "ms_type w = kMouseTypeStandard"
    "uptime E (hw w) = now" "ms_buttonCount w = 3"
    using assms(1) by (auto simp: between_packets_def ms_wf_def kPacketLengthStandard_def)
  have a: "a AND 8 \<noteq> 0" "a \<noteq> kSC_Acknowledge" "a \<noteq> 0xAA"
    using assms(2) by (simp_all add: p goodPacket_def)
  let ?w1 = "w\<lparr>ms_packetBuffer := [a, x1, x2, x3], ms_packetByteCount := 1\<rparr>"
  let ?w2 = "w\<lparr>ms_packetBuffer := [a, b, x2, x3], ms_packetByteCount := 2\<rparr>"
  let ?w3 = "(emit (PointerEvent (packetDx p) (packetDy p) (packetButtons p) now) w)
    \<lparr>ms_packetBuffer := [a, b, c, x3], ms_packetByteCount := 0, ms_mouseResetCount := 0\<rparr>"
  have "ms_interruptOccurred E D a w = Some ?w1"
    using w a buf by (simp add: ms_interruptOccurred_def ms_storeByte_def)
  moreover have "ms_interruptOccurred E D b ?w1 = Some ?w2"
    using w a buf by (simp add: ms_interruptOccurred_def ms_storeByte_def)
  moreover have "ms_interruptOccurred E D c ?w2 = Some ?w3"
    using w a buf by (simp add: ms_interruptOccurred_def ms_storeByte_def ms_dispatchPacket_def Let_def emit_def
        p packetDx_def packetDy_def packetButtons_def)
  ultimately have "ms_feed E D p w = Some ?w3" by (simp add: p)
  moreover have "between_packets kMouseTypeStandard now E ?w3"
    using w by (simp add: between_packets_def ms_wf_def ps2_consts emit_def)
  ultimately show ?thesis by (simp add: emit_def packetEvents_def)
qed

lemma feed_packet_wheel:
  assumes "between_packets t now E w" and "goodPacket t p" and t: "t \<noteq> kMouseTypeStandard"
  shows "\<exists>w'. ms_feed E D p w = Some w' \<and> between_packets t now E w' \<and>
    ms_mouseResetCount w' = 0 \<and> effects w' = effects w @ packetEvents t now p"
proof -
  have "length p = 4" using assms(2) t by (simp add: goodPacket_def)
  then obtain a b c d where p: "p = [a, b, c, d]" using list4 by blast
  have "length (ms_packetBuffer w) = 4" using assms(1) by (simp add: between_packets_def ms_wf_def kPacketLengthMax_def)
  then obtain x0 x1 x2 x3 where buf: "ms_packetBuffer w = [x0, x1, x2, x3]" using list4 by blast
  have w: "ms_packetByteCount w = 0" "ms_packetLength w = 4" "ms_type w = t"
    "uptime E (hw w) = now" "ms_buttonCount w = (if t = kMouseTypeIntellimouseExplorer then 5 else 3)"
    using assms(1) t by (auto simp: between_packets_def ms_wf_def kPacketLengthIntellimouse_def)
  have a: "a AND 8 \<noteq> 0" "a \<noteq> kSC_Acknowledge" "a \<noteq> 0xAA"
    using assms(2) by (simp_all add: p goodPacket_def)
  let ?w1 = "w\<lparr>ms_packetBuffer := [a, x1, x2, x3], ms_packetByteCount := 1\<rparr>"
  let ?w2 = "w\<lparr>ms_packetBuffer := [a, b, x2, x3], ms_packetByteCount := 2\<rparr>"
  let ?w3 = "w\<lparr>ms_packetBuffer := [a, b, c, x3], ms_packetByteCount := 3\<rparr>"
  let ?w4 = "w\<lparr>effects := effects w @ packetEvents t now p, ms_packetBuffer := p,
    ms_packetByteCount := 0, ms_mouseResetCount := 0\<rparr>"
  have "ms_interruptOccurred E D a w = Some ?w1"
    using w a buf by (simp add: ms_interruptOccurred_def ms_storeByte_def)
  moreover have "ms_interruptOccurred E D b ?w1 = Some ?w2"
    using w a buf by (simp add: ms_interruptOccurred_def ms_storeByte_def)
  moreover have "ms_interruptOccurred E D c ?w2 = Some ?w3"
    using w a buf by (simp add: ms_interruptOccurred_def ms_storeByte_def)
  moreover have "ms_dispatchPacket E p 4 (w\<lparr>ms_packetBuffer := p, ms_packetByteCount := 4\<rparr>) =
      w\<lparr>effects := effects w @ packetEvents t now p, ms_packetBuffer := p, ms_packetByteCount := 4\<rparr>"
    using w t by (simp add: ms_dispatchPacket_def Let_def emit_def packetEvents_def)
  then have "ms_interruptOccurred E D d ?w3 = Some ?w4"
    using w a buf by (simp add: ms_interruptOccurred_def ms_storeByte_def p)
  ultimately have "ms_feed E D p w = Some ?w4" by (simp add: p)
  moreover have "between_packets t now E ?w4"
    using w t p by (simp add: between_packets_def ms_wf_def ps2_consts)
  ultimately show ?thesis by simp
qed

lemma feed_packets:
  assumes "between_packets t now E w" and "\<And>p. p \<in> set ps \<Longrightarrow> goodPacket t p"
  shows "\<exists>w'. ms_feed E D (concat ps) w = Some w' \<and> between_packets t now E w' \<and>
    effects w' = effects w @ concat (map (packetEvents t now) ps)"
  using assms
proof (induction ps arbitrary: w)
  case (Cons p ps)
  obtain u where u: "ms_feed E D p w = Some u" "between_packets t now E u"
    "effects u = effects w @ packetEvents t now p"
    using feed_packet_standard [of now E w p D] feed_packet_wheel [of t now E w p D] Cons.prems
    by (cases "t = kMouseTypeStandard") auto
  from Cons.IH [OF u(2)] Cons.prems(2) obtain w' where "ms_feed E D (concat ps) u = Some w'"
    "between_packets t now E w'" "effects w' = effects u @ concat (map (packetEvents t now) ps)" by auto
  with u show ?case by (auto simp: ms_feed_append)
qed simp

section \<open>Properties of the mouse\<close>

text \<open>
  C16. From the device's movements to pointer events and back, for a mouse with three
  buttons: whatever sequence of movements of up to nine bits with buttons the device encodes,
  the driver, fed with the bytes between two packets, returns and dispatches exactly one
  event for each movement, in order, with the same movement (the vertical one with its sign
  changed) and the same buttons, and is between two packets again.
\<close>

theorem mouse_movements_roundtrip:
  assumes "between_packets kMouseTypeStandard now E w"
    and "\<forall>(b, dx, dy)\<in>set ms. b < 8 \<and> - 256 \<le> dx \<and> dx < 256 \<and> - 256 \<le> dy \<and> dy < 256"
  shows "\<exists>w'. ms_feed E D (concat (map (\<lambda>(b, dx, dy). encodePacket b dx dy) ms)) w = Some w' \<and>
    effects w' = effects w @
      map (\<lambda>(b, dx, dy). PointerEvent (word_of_int dx) (- word_of_int dy) (ucast b) now) ms \<and>
    between_packets kMouseTypeStandard now E w'"
proof -
  let ?enc = "\<lambda>(b, dx, dy). encodePacket b dx dy"
  have good: "goodPacket kMouseTypeStandard p" if "p \<in> set (map ?enc ms)" for p
    using that assms(2) encodePacket_first(3-5)
    by (force simp: goodPacket_def encodePacket_def kSC_Acknowledge_def)
  have one: "packetEvents kMouseTypeStandard now (?enc m) =
      [(\<lambda>(b, dx, dy). PointerEvent (word_of_int dx) (- word_of_int dy) (ucast b) now) m]" if "m \<in> set ms" for m
    using that assms(2) decode_encodePacket [where p = "[]"] by (auto simp: packetEvents_def)
  have "concat (map (packetEvents kMouseTypeStandard now) (map ?enc ms)) =
      map (\<lambda>(b, dx, dy). PointerEvent (word_of_int dx) (- word_of_int dy) (ucast b) now) ms"
    using one by (induction ms) auto
  moreover obtain w' where "ms_feed E D (concat (map ?enc ms)) w = Some w'"
    "between_packets kMouseTypeStandard now E w'"
    "effects w' = effects w @ concat (map (packetEvents kMouseTypeStandard now) (map ?enc ms))"
    using feed_packets [OF assms(1), of "map ?enc ms" D] good by blast
  ultimately show ?thesis by auto
qed

lemma example_between_packets: "between_packets kMouseTypeStandard 7 (example_env n) (example_world h)"
proof -
  have "uptime (example_env n) x = 7" for x by (cases n) (simp_all add: example_env_def example_ports_def)
  then show ?thesis by (simp add: between_packets_def ms_wf_def example_world_def ps2_consts)
qed

theorem mouse_movements_roundtrip_witness:
  "\<exists>w'. ms_feed (example_env 0) (mouseNubOf (example_env 0)) [0x19, - 1, 2, 8, 0, 0] (example_world []) = Some w' \<and>
    effects w' = [PointerEvent (- 1) (- 2) 1 7, PointerEvent 0 0 0 7]"
proof -
  have "\<forall>(b, dx, dy)\<in>set [(1 :: u8, - 1 :: int, 2 :: int), (0, 0, 0)].
      b < 8 \<and> - 256 \<le> dx \<and> dx < 256 \<and> - 256 \<le> dy \<and> dy < 256" by simp
  from mouse_movements_roundtrip [OF example_between_packets this, of 0 "mouseNubOf (example_env 0)" "[]"]
  show ?thesis
    by (auto simp: encodePacket_def example_world_def simp del: ms_feed.simps nub_simps)
qed

text \<open>The five buttons of a packet with a wheel byte.\<close>

lemma below_32:
  assumes "(b :: u8) < 32"
  shows "b \<in> set (map of_nat [0..<32])"
proof -
  have "unat b \<in> {0..<32}" using assms by (simp add: word_less_nat_alt)
  then have "of_nat (unat b) \<in> (of_nat :: nat \<Rightarrow> u8) ` {0..<32}" by (rule imageI)
  then show ?thesis by simp
qed

lemma wheel_bits:
  "encodeWheel b dz AND 0x10 = push_bit 4 (drop_bit 3 b AND 3) AND 0x10"
  "encodeWheel b dz AND 0x20 = push_bit 4 (drop_bit 3 b AND 3) AND 0x20"
  by (simp_all add: encodeWheel_def bit.conj_disj_distrib2 and.assoc)

definition fiveButtons :: "u8 \<Rightarrow> u32" where
  "fiveButtons b =
     (let buttons = ucast (b AND 7);
          buttons = (if push_bit 4 (drop_bit 3 b AND 3) AND 0x10 \<noteq> 0 then buttons OR 0x8 else buttons)
      in if push_bit 4 (drop_bit 3 b AND 3) AND 0x20 \<noteq> 0 then buttons OR 0x10 else buttons)"

lemma fiveButtons: "b < 32 \<Longrightarrow> fiveButtons b = ucast b"
proof -
  have "list_all (\<lambda>b. fiveButtons b = ucast b) (map of_nat [0..<32])" by code_simp
  then show "b < 32 \<Longrightarrow> fiveButtons b = ucast b" using below_32 unfolding list_all_iff by blast
qed

lemma five_buttons:
  assumes "b < 32" and "length p = 3"
  shows "explorerButtons (p @ [encodeWheel b dz]) (ucast (b AND 7)) = ucast b"
proof -
  have last3: "(p @ [x]) ! 3 = x" for x using assms(2) by (simp add: nth_append)
  have "explorerButtons (p @ [encodeWheel b dz]) (ucast (b AND 7)) = fiveButtons b"
    unfolding explorerButtons_def fiveButtons_def Let_def last3 wheel_bits ..
  then show ?thesis using fiveButtons [OF assms(1)] by simp
qed

lemma goodPacket_wheel:
  assumes "t \<noteq> kMouseTypeStandard"
  shows "goodPacket t (encodePacket (b AND 7) dx dy @ [encodeWheel b dz])"
proof -
  have "b AND 7 < 8"
    using word_and_le1 [of b 7] by (simp add: word_less_nat_alt word_le_nat_alt)
  then show ?thesis
    using encodePacket_first(3-5) [of "b AND 7" dx dy] assms
    by (simp add: goodPacket_def encodePacket_def ps2_consts)
qed

text \<open>
  C17. The same for a mouse with a wheel, of either type: each movement yields a pointer
  event and, if the wheel moved, a scroll event with the wheel's movement of four bits, its
  sign changed. The pointer event has all five buttons for an Intellimouse Explorer; for a
  plain wheel mouse it has the three buttons of the first byte, and the two bits of the
  fourth byte where the Explorer has its side buttons are ignored.
\<close>

theorem wheel_movements_roundtrip:
  assumes "between_packets t now E w" and "t \<noteq> kMouseTypeStandard"
    and "\<forall>(b, dx, dy, dz)\<in>set ms. b < 32 \<and> - 256 \<le> dx \<and> dx < 256 \<and> - 256 \<le> dy \<and> dy < 256 \<and>
           - 8 \<le> dz \<and> dz < 8"
  shows "\<exists>w'. ms_feed E D
      (concat (map (\<lambda>(b, dx, dy, dz). encodePacket (b AND 7) dx dy @ [encodeWheel b dz]) ms)) w = Some w' \<and>
    effects w' = effects w @ concat (map (\<lambda>(b, dx, dy, dz).
      PointerEvent (word_of_int dx) (- word_of_int dy)
        (if t = kMouseTypeIntellimouseExplorer then ucast b else ucast (b AND 7)) now #
      (if dz = 0 then [] else [ScrollEvent (- word_of_int dz) 0 0 now])) ms) \<and>
    between_packets t now E w'"
proof -
  let ?enc = "\<lambda>(b, dx, dy, dz). encodePacket (b AND 7) dx dy @ [encodeWheel b dz]"
  let ?ev = "\<lambda>(b, dx, dy, dz). PointerEvent (word_of_int dx) (- word_of_int dy)
        (if t = kMouseTypeIntellimouseExplorer then ucast (b :: u8) else ucast (b AND 7)) now #
      (if dz = 0 then [] else [ScrollEvent (- word_of_int dz) 0 0 now])"
  have good: "goodPacket t p" if "p \<in> set (map ?enc ms)" for p
    using that goodPacket_wheel [OF assms(2)] by fastforce
  have one: "packetEvents t now (?enc m) = ?ev m" if "m \<in> set ms" for m
  proof -
    obtain b dx dy dz where m: "m = (b, dx, dy, dz)" by (cases m)
    have r: "b < 32" "- 256 \<le> dx" "dx < 256" "- 256 \<le> dy" "dy < 256" "- 8 \<le> dz" "dz < 8"
      using that assms(3) by (auto simp: m)
    have "b AND 7 < 8"
      using word_and_le1 [of b 7] by (simp add: word_less_nat_alt word_le_nat_alt)
    note dec = decode_encodePacket [OF this r(2-5)]
    have "length (encodePacket (b AND 7) dx dy) = 3" by (simp add: encodePacket_def)
    note whl = decode_encodeWheel [OF r(6,7) this, where b = b] five_buttons [OF r(1) this, where dz = dz]
    have "(word_of_int dz :: u16) = 0 \<longleftrightarrow> dz = 0"
    proof
      assume "(word_of_int dz :: u16) = 0"
      then have "65536 dvd dz" by (simp add: word_of_int_eq_0_iff)
      with r(6,7) show "dz = 0" by (auto elim!: dvdE)
    qed simp
    then show ?thesis by (simp add: m packetEvents_def assms(2) dec whl)
  qed
  have "concat (map (packetEvents t now) (map ?enc ms)) = concat (map ?ev ms)"
    using one by (induction ms) auto
  moreover obtain w' where "ms_feed E D (concat (map ?enc ms)) w = Some w'" "between_packets t now E w'"
    "effects w' = effects w @ concat (map (packetEvents t now) (map ?enc ms))"
    using feed_packets [OF assms(1), of "map ?enc ms" D] good by blast
  ultimately show ?thesis by auto
qed

definition wheel_world :: "PS2MouseId \<Rightarrow> (bool \<times> u8) list syn" where
  "wheel_world t = (example_world [])\<lparr>ms_packetLength := kPacketLengthIntellimouse,
     ms_type := t, ms_buttonCount := (if t = kMouseTypeIntellimouseExplorer then 5 else 3)\<rparr>"

theorem wheel_movements_roundtrip_witness:
  "(\<exists>w'. ms_feed (example_env 0) (mouseNubOf (example_env 0)) [0x08, 5, 0, 0x1F]
      (wheel_world kMouseTypeIntellimouseExplorer) = Some w' \<and>
    effects w' = [PointerEvent 5 0 8 7, ScrollEvent 1 0 0 7]) \<and>
   (\<exists>w'. ms_feed (example_env 0) (mouseNubOf (example_env 0)) [0x08, 5, 0, 0x1F]
      (wheel_world kMouseTypeIntellimouse) = Some w' \<and>
    effects w' = [PointerEvent 5 0 0 7, ScrollEvent 1 0 0 7])"
proof -
  have w: "between_packets t 7 (example_env 0) (wheel_world t)" if "t \<noteq> kMouseTypeStandard" for t
    using that example_between_packets [of 0 "[]"]
    by (simp add: wheel_world_def between_packets_def ms_wf_def example_world_def ps2_consts)
  have m: "\<forall>(b, dx, dy, dz)\<in>set [(8 :: u8, 5 :: int, 0 :: int, - 1 :: int)].
      b < 32 \<and> - 256 \<le> dx \<and> dx < 256 \<and> - 256 \<le> dy \<and> dy < 256 \<and> - 8 \<le> dz \<and> dz < 8" by simp
  have "\<exists>w'. ms_feed (example_env 0) (mouseNubOf (example_env 0)) [0x08, 5, 0, 0x1F] (wheel_world t) = Some w' \<and>
      effects w' = [PointerEvent 5 0 (if t = kMouseTypeIntellimouseExplorer then 8 else 0) 7, ScrollEvent 1 0 0 7]"
    if "t \<noteq> kMouseTypeStandard" for t
    using wheel_movements_roundtrip [OF w [OF that] that m, of "mouseNubOf (example_env 0)"]
    by (auto simp: encodePacket_def encodeWheel_def wheel_world_def example_world_def
        simp del: ms_feed.simps nub_simps)
  from this [of kMouseTypeIntellimouseExplorer] this [of kMouseTypeIntellimouse] show ?thesis
    by (simp del: ms_feed.simps nub_simps)
qed

section \<open>Cutting the touch pad's stream into packets\<close>

fun al_feed :: "('h, 'w) env \<Rightarrow> u8 list \<Rightarrow> ('h, 'z) alps_scheme \<Rightarrow> ('h, 'z) alps_scheme option" where
  "al_feed E [] w = Some w"
| "al_feed E (b # bs) w = do { w \<leftarrow> al_interruptOccurred E b w; al_feed E bs w }"

text \<open>
  The specification: bytes that cannot begin a packet are skipped between packets, and
  three bytes make a packet. The result is the list of packets and the packet begun.
\<close>

fun alpsPackets :: "u8 list \<Rightarrow> u8 list \<Rightarrow> u8 list list \<times> u8 list" where
  "alpsPackets begun [] = ([], begun)"
| "alpsPackets begun (b # bs) =
     (if begun = [] \<and> (b = kSC_Acknowledge \<or> b AND 0x08 = 0) then alpsPackets [] bs
      else if length begun = 2
           then (let (ps, rest) = alpsPackets [] bs in ((begun @ [b]) # ps, rest))
           else alpsPackets (begun @ [b]) bs)"

definition begunPacket :: "('h, 'z) alps_scheme \<Rightarrow> u8 list" where
  "begunPacket w = take (unat (al_packetByteCount w)) (al_packetBuffer w)"

definition packetEvent :: "u64 \<Rightarrow> u8 list \<Rightarrow> effect" where
  "packetEvent now p = PointerEvent (packetDx p) (packetDy p) (packetButtons p) now"

lemma below_3: "(c :: u32) < 3 \<Longrightarrow> c = 0 \<or> c = 1 \<or> c = 2"
proof -
  assume "c < 3"
  then have "unat c < 3" by (simp add: word_less_nat_alt)
  then have "unat c = 0 \<or> unat c = 1 \<or> unat c = 2" by linarith
  moreover have "c = of_nat k" if "unat c = k" for k
    by (simp flip: that)
  ultimately show ?thesis by fastforce
qed

lemma al_interrupt_step:
  assumes "al_wf w"
  shows "\<exists>w'. al_interruptOccurred E b w = Some w' \<and> al_wf w' \<and> hw w' = hw w \<and>
    (if begunPacket w = [] \<and> (b = kSC_Acknowledge \<or> b AND 0x08 = 0) then w' = w
     else if length (begunPacket w) = 2
          then begunPacket w' = [] \<and> effects w' = effects w @ [packetEvent (uptime E (hw w)) (begunPacket w @ [b])]
          else begunPacket w' = begunPacket w @ [b] \<and> effects w' = effects w)"
proof -
  have "length (al_packetBuffer w) = 3" and c: "al_packetByteCount w < 3"
    using assms by (simp_all add: al_wf_def)
  then obtain x0 x1 x2 where buf: "al_packetBuffer w = [x0, x1, x2]" using list3 by blast
  from below_3 [OF c] show ?thesis
  proof (elim disjE)
    assume "al_packetByteCount w = 0"
    then show ?thesis using buf by (auto simp: al_interruptOccurred_def begunPacket_def al_wf_def)
  next
    assume "al_packetByteCount w = 1"
    then show ?thesis using buf by (auto simp: al_interruptOccurred_def begunPacket_def al_wf_def)
  next
    assume "al_packetByteCount w = 2"
    then show ?thesis using buf
      by (auto simp: al_interruptOccurred_def begunPacket_def al_wf_def al_dispatchPacket_def emit_def
          packetEvent_def packetDx_def packetDy_def packetButtons_def Let_def)
  qed
qed

text \<open>
  C18. Framing of the touch pad's stream refines the specification for every sequence of
  bytes whatever, from every well-formed state: the handler returns, it dispatches one
  event for each packet of the specification, in order, and the bytes that it keeps are the
  packet that the specification has begun.
\<close>

theorem touchpad_framing_refines:
  assumes "al_wf w"
  shows "\<exists>w'. al_feed E bytes w = Some w' \<and> al_wf w' \<and>
    effects w' = effects w @
      map (packetEvent (uptime E (hw w))) (fst (alpsPackets (begunPacket w) bytes)) \<and>
    begunPacket w' = snd (alpsPackets (begunPacket w) bytes)"
  using assms
proof (induction bytes arbitrary: w)
  case (Cons b bytes)
  obtain u where u: "al_interruptOccurred E b w = Some u" "al_wf u" "hw u = hw w"
    "if begunPacket w = [] \<and> (b = kSC_Acknowledge \<or> b AND 0x08 = 0) then u = w
     else if length (begunPacket w) = 2
          then begunPacket u = [] \<and> effects u = effects w @ [packetEvent (uptime E (hw w)) (begunPacket w @ [b])]
          else begunPacket u = begunPacket w @ [b] \<and> effects u = effects w"
    using al_interrupt_step [OF Cons.prems, of E b] by blast
  from Cons.IH [OF u(2)] u show ?case
    by (cases "alpsPackets [] bytes") (auto split: if_splits)
qed simp

theorem touchpad_framing_refines_witness:
  "\<exists>w'. al_feed (example_env 0) [0xFA, 0x07, 0x19, 0xFF, 2, 0x08] (example_world []) = Some w' \<and>
    effects w' = [PointerEvent (- 1) (- 2) 1 7] \<and> begunPacket w' = [8]"
proof -
  have "al_wf (example_world [])" by (simp add: al_wf_def example_world_def)
  moreover have "uptime (example_env 0) h = 7" for h by (simp add: example_env_def example_ports_def)
  ultimately show ?thesis
    using touchpad_framing_refines [where w = "example_world []" and E = "example_env 0"
      and bytes = "[0xFA, 0x07, 0x19, 0xFF, 2, 0x08]"]
    by (auto simp: begunPacket_def example_world_def packetEvent_def packetDx_def packetDy_def
        packetButtons_def Let_def kSC_Acknowledge_def simp del: al_feed.simps)
qed

end
