(* ===== verification/PS2_PowerStates.thy ===== *)
theory PS2_PowerStates
  imports PS2_Example
begin

text \<open>
  The power state machine: no handler, however deeply nested, changes the power state or
  takes the hardware offline, so that both follow the policy maker's requests alone.
\<close>

section \<open>What handlers leave alone\<close>

definition same_power :: "('h, 'z) ctl_scheme \<Rightarrow> ('h, 'z) ctl_scheme \<Rightarrow> bool" where
  "same_power v w \<longleftrightarrow> hardwareOffline w = hardwareOffline v \<and> currentPowerState w = currentPowerState v"

lemma same_power_refl: "same_power w w"
  by (simp add: same_power_def)

lemma same_power_fields:
  "hardwareOffline w' = hardwareOffline w \<Longrightarrow> currentPowerState w' = currentPowerState w
    \<Longrightarrow> same_power v w' = same_power v w"
  by (simp add: same_power_def)

locale power_kept =
  fixes E :: "('h, ('h, 'z) ctl_scheme) env"
  assumes handler_kept: "callInterruptAction E action target datum w = Some w' \<Longrightarrow> same_power v w
    \<Longrightarrow> same_power v w'"

sublocale power_kept \<subseteq> pk: request_invariant E "same_power v" for v
  by unfold_locales
    (auto simp: touch_ports_def touch_requests_def same_power_def enqueueKeyboardData_def
      dequeueKeyboardData_def split: list.splits dest: handler_kept [unfolded same_power_def])

locale power_drivers = power_kept E for E :: "('h, 'h syn) env"
begin

lemma pw_uninstall:
  fixes w :: "'h syn"
  shows "uninstallInterruptAction d w = Some w' \<Longrightarrow> same_power v w \<Longrightarrow> same_power v w'"
  by (auto simp: uninstallInterruptAction_def same_power_def emit_def Let_def split: if_splits)

lemmas pw_kb_nub = pk.I_send_async [OF is_nub_of(1)] pk.I_readModifyWrite [OF is_nub_of(1)]

lemmas pw_ms_nub = pk.I_send_async [OF is_nub_of(2)] pk.I_send_blocking [OF is_nub_of(2)]
  pk.I_readModifyWrite [OF is_nub_of(2)]

lemma pw_free [simp]:
  fixes v w :: "'h syn"
  shows "same_power v (w\<lparr>kb_interruptHandlerInstalled := x1\<rparr>) = same_power v w"
    and "same_power v (w\<lparr>kb_keyBitVector := x2\<rparr>) = same_power v w"
    and "same_power v (w\<lparr>kb_extendCount := x3\<rparr>) = same_power v w"
    and "same_power v (w\<lparr>ms_packetByteCount := x4\<rparr>) = same_power v w"
    and "same_power v (w\<lparr>ms_mouseResetCount := x5\<rparr>) = same_power v w"
    and "same_power v (w\<lparr>ms_mouseInfoBytes := x6\<rparr>) = same_power v w"
    and "same_power v (w\<lparr>ms_resolution := x7\<rparr>) = same_power v w"
    and "same_power v (emit e w) = same_power v w"
    and "same_power v (ms_setMode t w) = same_power v w"
    and "same_power v (installInterruptAction d tg a w) = same_power v w"
    and "same_power v (ms_dispatchPacket E' p n w) = same_power v w"
  by (rule same_power_fields;
      simp add: emit_def ms_setMode_def installInterruptAction_def ms_dispatchPacket_def Let_def)+

lemma pw_dispatchKeyCode:
  fixes v w :: "'h syn"
  shows "dispatchKeyCode E' k d w = Some (b, w') \<Longrightarrow> same_power v w \<Longrightarrow> same_power v w'"
    and "dispatchEject d w = Some (b, w') \<Longrightarrow> same_power v w \<Longrightarrow> same_power v w'"
  by (auto simp: dispatchKeyCode_def dispatchEject_def Let_def split: if_splits)

lemma pw_dispatchScancode:
  fixes v w :: "'h syn"
  assumes "dispatchKeyboardEventWithScancode E' c w = Some (b, w')" and "same_power v w"
  shows "same_power v w'"
proof -
  have "\<forall>v. same_power v w \<longrightarrow> same_power v (snd (b, w'))"
  proof (rule dispatchKeyboardEventWithScancode.raw_induct
      [where P = "\<lambda>E' c w r. \<forall>v. same_power v w \<longrightarrow> same_power v (snd r)", OF _ assms(1)], intro impI allI, goal_cases)
    case (1 f E' c u r v)
    have rest: "f E' x y = Some (b, z) \<Longrightarrow> same_power v y \<Longrightarrow> same_power v z" for x y b z
      using 1(1) by fastforce
    obtain b' v' where r: "r = (b', v')" by force
    from 1(2-) show ?case unfolding r
      by (auto simp: Let_def split: if_splits option.splits dest!: pw_dispatchKeyCode rest)
  qed
  with assms(2) show ?thesis by simp
qed

lemma pw_kb_interruptOccurred:
  fixes v w :: "'h syn"
  shows "kb_interruptOccurred E' c w = Some w' \<Longrightarrow> same_power v w \<Longrightarrow> same_power v w'"
  unfolding kb_interruptOccurred_def by (auto split: if_splits dest: pw_dispatchScancode)

lemma kbd_installs:
  "nubInstallInterruptAction (keyboardNubOf E) = installInterruptAction kDT_Keyboard"
  "nubUninstallInterruptAction (keyboardNubOf E) = uninstallInterruptAction kDT_Keyboard"
  by simp_all

lemma pw_kb_setDevicePowerState:
  fixes v w :: "'h syn"
  shows "kb_setDevicePowerState (keyboardNubOf E) p w = Some w' \<Longrightarrow> same_power v w \<Longrightarrow> same_power v w'"
  unfolding kb_setDevicePowerState_def kb_setKeyboardEnable_def kb_setLEDs_def kb_setCommandByte_def
  by (auto simp: Let_def kbd_installs simp del: nub_simps split: PS2PowerControl.splits if_splits
      dest!: pw_kb_nub pw_uninstall)

lemma pw_ms_setMouseEnable:
  fixes v w :: "'h syn"
  shows "ms_setMouseEnable (mouseNubOf E) e w = Some w' \<Longrightarrow> same_power v w \<Longrightarrow> same_power v w'"
  unfolding ms_setMouseEnable_def by (auto simp del: nub_simps dest!: pw_ms_nub)

lemma pw_ms_setIntellimouseMode:
  fixes v w :: "'h syn"
  shows "ms_setIntellimouseMode (mouseNubOf E) w = Some (x, w') \<Longrightarrow> same_power v w \<Longrightarrow> same_power v w'"
  unfolding ms_setIntellimouseMode_def ms_setMouseSampleRate_def ms_getMouseID_def
  by (auto simp: Let_def simp del: nub_simps split: if_splits prod.splits dest!: pw_ms_nub)

lemma pw_ms_resetMouse:
  fixes v w :: "'h syn"
  shows "ms_resetMouse (mouseNubOf E) w = Some w' \<Longrightarrow> same_power v w \<Longrightarrow> same_power v w'"
  unfolding ms_resetMouse_def ms_getMouseInformation_def ms_setMouseResolution_def ms_setCommandByte_def
  by (auto simp: Let_def simp del: nub_simps split: if_splits prod.splits
      dest!: pw_ms_nub pw_ms_setIntellimouseMode pw_ms_setMouseEnable)

lemma pw_storeByte:
  fixes v w :: "'h syn"
  shows "ms_storeByte d w = Some w' \<Longrightarrow> same_power v w \<Longrightarrow> same_power v w'"
  by (auto simp: ms_storeByte_def same_power_def split: if_splits)

lemma pw_ms_interruptOccurred:
  fixes v w :: "'h syn"
  shows "ms_interruptOccurred E' (mouseNubOf E) d w = Some w' \<Longrightarrow> same_power v w \<Longrightarrow> same_power v w'"
  unfolding ms_interruptOccurred_def ms_scheduleMouseReset_def
  by (auto simp: Let_def simp del: nub_simps split: if_splits
      dest!: pw_ms_setMouseEnable pw_ms_resetMouse pw_storeByte)

lemma pw_al_interruptOccurred:
  fixes v w :: "'h syn"
  shows "al_interruptOccurred E' d w = Some w' \<Longrightarrow> same_power v w \<Longrightarrow> same_power v w'"
  by (auto simp: al_interruptOccurred_def al_dispatchPacket_def same_power_def emit_def Let_def split: if_splits)

lemma pw_al_setTapEnable:
  fixes v w :: "'h syn"
  shows "al_setTapEnable (mouseNubOf E) e w = Some w' \<Longrightarrow> same_power v w \<Longrightarrow> same_power v w'"
  using pk.I_allocateRequest [of v w]
  unfolding al_setTapEnable_def al_setSampleRateAndResolution_def
  by (auto simp: is_nub_simps [OF is_nub_of(2)] simp del: nub_simps split: prod.splits if_splits
      dest!: pk.I_fill_request pk.I_submitRequestAndBlock pk.I_freeRequest pw_ms_nub)

lemma pw_al_setDevicePowerState:
  fixes v w :: "'h syn"
  shows "al_setDevicePowerState (mouseNubOf E) p w = Some w' \<Longrightarrow> same_power v w \<Longrightarrow> same_power v w'"
  unfolding al_setDevicePowerState_def al_setTouchPadEnable_def al_setCommandByte_def
  by (auto simp del: nub_simps split: PS2PowerControl.splits dest!: pw_ms_nub pw_al_setTapEnable)

lemma pw_pad [simp]:
  fixes v w :: "'h syn"
  shows "same_power v (w\<lparr>pad := p\<rparr>) = same_power v w" and "same_power v (emits es w) = same_power v w"
  by (simp_all add: same_power_def emits_def)

lemma pw_tp_setDevicePowerState:
  fixes v w :: "'h syn"
  shows "tp_setDevicePowerState (mouseNubOf E) p w = Some w' \<Longrightarrow> same_power v w \<Longrightarrow> same_power v w'"
  unfolding tp_setDevicePowerState_def tp_setTouchPadEnable_def tp_setTouchPadModeByte_def
    tp_setCommandByte_def
  by (auto simp: Let_def simp del: nub_simps split: PS2PowerControl.splits dest!: pw_ms_nub)

lemma pw_tp_interruptOccurred:
  fixes v w :: "'h syn"
  shows "tp_interruptOccurred E' (mouseNubOf E) d w = Some w' \<Longrightarrow> same_power v w \<Longrightarrow> same_power v w'"
  unfolding tp_interruptOccurred_def handlePacket_def
  by (auto simp: Let_def simp del: nub_simps split: if_splits dest!: pw_tp_setDevicePowerState)

lemma pw_driverInterrupt:
  fixes v w :: "'h syn"
  shows "driverInterrupt E a t d w = Some w' \<Longrightarrow> same_power v w \<Longrightarrow> same_power v w'"
  unfolding driverInterrupt_def
  by (auto simp del: nub_simps split: driver.splits if_splits
      dest: pw_kb_interruptOccurred pw_ms_interruptOccurred pw_al_interruptOccurred
        pw_tp_interruptOccurred)

lemma pw_driverPowerControl:
  fixes v w :: "'h syn"
  shows "driverPowerControl E a t p w = Some w' \<Longrightarrow> same_power v w \<Longrightarrow> same_power v w'"
  unfolding driverPowerControl_def ms_setDevicePowerState_def
  by (auto simp del: nub_simps split: driver.splits PS2PowerControl.splits if_splits
      dest: pw_kb_setDevicePowerState pw_ms_setMouseEnable pw_ms_resetMouse pw_al_setDevicePowerState
        pw_tp_setDevicePowerState)

end

lemma system_power_drivers: "power_drivers (system_env P n)"
proof (induction n)
  case 0
  show ?case by unfold_locales simp
next
  case (Suc n)
  show ?case by unfold_locales (auto intro: power_drivers.pw_driverInterrupt [OF Suc])
qed

interpretation syspw: power_drivers "system_env P n" for P n
  by (rule system_power_drivers)

lemma sys_dispatchPower:
  fixes v w :: "'h syn"
  assumes "dispatchDriverPowerControl (system_env P n) p w = Some w'" and "same_power v w"
  shows "same_power v w'"
proof -
  have call: "callPowerControlAction (system_env P n) a t p u = Some u' \<Longrightarrow> same_power v u \<Longrightarrow> same_power v u'"
    for a t and u u' :: "'h syn"
    by (cases n) (auto intro: syspw.pw_driverPowerControl)
  from assms show ?thesis
    unfolding dispatchDriverPowerControl_def by (auto split: if_splits dest!: call)
qed

section \<open>The state machine\<close>

text \<open>Every power state other than the three that the class registers is rejected with a message.\<close>

definition valid_power :: "u32 \<Rightarrow> bool" where
  "valid_power s \<longleftrightarrow> s = kPS2PowerStateSleep \<or> s = kPS2PowerStateDoze \<or> s = kPS2PowerStateNormal"

definition power_wf :: "('h, 'z) ctl_scheme \<Rightarrow> bool" where
  "power_wf w \<longleftrightarrow> (hardwareOffline w \<longleftrightarrow> currentPowerState w = kPS2PowerStateSleep)"

lemma setPowerStateGated_power:
  fixes w :: "'h syn"
  assumes run: "setPowerStateGated (system_env P n) s w = Some w'"
  shows "currentPowerState w' = s"
    and "hardwareOffline w' \<longleftrightarrow>
      (if currentPowerState w \<noteq> s \<and> s = kPS2PowerStateSleep then True
       else if currentPowerState w = kPS2PowerStateSleep \<and> (s = kPS2PowerStateDoze \<or> s = kPS2PowerStateNormal)
       then False else hardwareOffline w)"
proof -
  have dp: "hardwareOffline u' = hardwareOffline u \<and> currentPowerState u' = currentPowerState u"
    if "dispatchDriverPowerControl (system_env P n) p u = Some u'" for p and u u' :: "'h syn"
    using sys_dispatchPower [OF that same_power_refl] by (simp add: same_power_def)
  have ep: "hardwareOffline u' = hardwareOffline u \<and> currentPowerState u' = currentPowerState u"
    if "enablePort (system_env P n) u = Some u'" for u u' :: "'h syn"
    using syspw.pk.I_enablePort [OF that same_power_refl] by (simp add: same_power_def)
  from run show "currentPowerState w' = s"
    by (auto simp: setPowerStateGated_def Let_def emit_def split: if_splits)
  from run show "hardwareOffline w' \<longleftrightarrow>
      (if currentPowerState w \<noteq> s \<and> s = kPS2PowerStateSleep then True
       else if currentPowerState w = kPS2PowerStateSleep \<and> (s = kPS2PowerStateDoze \<or> s = kPS2PowerStateNormal)
       then False else hardwareOffline w)"
    by (auto simp: setPowerStateGated_def Let_def emit_def ps2_consts split: if_splits dest!: dp ep)
qed

section \<open>Properties\<close>

text \<open>
  C19. The power state machine: after a request for any of the three power states that the
  controller registers, the state is the one requested, and the hardware is offline exactly
  in the sleep state, whatever the drivers do when they are told to disable or enable their
  devices and whatever bytes arrive meanwhile.
\<close>

theorem power_state_machine:
  fixes w :: "'h syn"
  assumes "setPowerStateGated (system_env P n) s w = Some w'" and "valid_power s" and "power_wf w"
  shows "currentPowerState w' = s \<and> power_wf w'"
  using setPowerStateGated_power [OF assms(1)] assms(2,3)
  by (auto simp: power_wf_def valid_power_def ps2_consts split: if_splits)

definition quiet_world :: "(bool \<times> u8) list syn" where
  "quiet_world = (example_world [])\<lparr>powerControlInstalledKeyboard := False, powerControlInstalledMouse := False\<rparr>"

lemma quiet_to_sleep:
  "setPowerStateGated (system_env example_ports 0) kPS2PowerStateSleep quiet_world = Some
     (quiet_world\<lparr>hardwareOffline := True, currentPowerState := kPS2PowerStateSleep,
       effects := [AcknowledgeSetPowerState]\<rparr>)"
  by (simp add: setPowerStateGated_def dispatchDriverPowerControl_def quiet_world_def example_world_def
      emit_def ps2_consts)

theorem power_state_machine_witness:
  "power_wf (quiet_world\<lparr>hardwareOffline := True, currentPowerState := kPS2PowerStateSleep,
     effects := [AcknowledgeSetPowerState]\<rparr>)"
proof -
  have "power_wf quiet_world" by (simp add: power_wf_def quiet_world_def example_world_def ps2_consts)
  from power_state_machine [OF quiet_to_sleep _ this] show ?thesis by (simp add: valid_power_def)
qed

text \<open>
  C20. An unknown power state requested while the controller sleeps strands the hardware:
  it is rejected with a message but stored, so the next request for a working state finds
  the controller not asleep, does not enable the port, and leaves the hardware offline in
  the normal state.
\<close>

theorem bad_power_state_strands_hardware:
  fixes w :: "'h syn"
  assumes "setPowerStateGated (system_env P n) bad w = Some u" and "\<not> valid_power bad"
    and "setPowerStateGated (system_env P m) s u = Some w'" and "s = kPS2PowerStateDoze \<or> s = kPS2PowerStateNormal"
    and "hardwareOffline w"
  shows "currentPowerState w' = s \<and> hardwareOffline w'"
  using setPowerStateGated_power [OF assms(1)] setPowerStateGated_power [OF assms(3)] assms(2,4,5)
  by (auto simp: valid_power_def ps2_consts split: if_splits)

theorem bad_power_state_strands_hardware_witness:
  "\<exists>u w'. setPowerStateGated (system_env example_ports 0) 7 (quiet_world\<lparr>hardwareOffline := True,
       currentPowerState := kPS2PowerStateSleep\<rparr>) = Some u \<and>
     setPowerStateGated (system_env example_ports 0) kPS2PowerStateNormal u = Some w' \<and> hardwareOffline w'"
proof -
  let ?w = "quiet_world\<lparr>hardwareOffline := True, currentPowerState := kPS2PowerStateSleep\<rparr>"
  let ?u = "?w\<lparr>effects := [IOLog (LogBadPowerState 7), AcknowledgeSetPowerState], currentPowerState := 7\<rparr>"
  have u: "setPowerStateGated (system_env example_ports 0) 7 ?w = Some ?u"
    by (simp add: setPowerStateGated_def quiet_world_def example_world_def emit_def ps2_consts)
  have "setPowerStateGated (system_env example_ports 0) kPS2PowerStateNormal ?u =
      Some (emit AcknowledgeSetPowerState (?u\<lparr>currentPowerState := kPS2PowerStateNormal\<rparr>))"
    by (simp add: setPowerStateGated_def quiet_world_def example_world_def emit_def ps2_consts)
  from bad_power_state_strands_hardware [OF u _ this] u this show ?thesis
    by (auto simp: valid_power_def ps2_consts)
qed

end
