(* ===== verification/PS2_Escape.thy ===== *)
theory PS2_Escape
  imports PS2_Example
begin

text \<open>
  The debugger escape sequence: the controller's bit set of modifiers and its flag for the
  extension prefix implement a set of keys that are held, and the debugger is called for
  exactly one set of keys.
\<close>

section \<open>Specification\<close>

text \<open>A key is a scan code without the up bit, and whether the prefix came before it.\<close>

type_synonym modifier_key = "u8 \<times> bool"

definition is_modifier :: "modifier_key \<Rightarrow> bool" where
  "is_modifier k \<longleftrightarrow> lookupModifier (fst k) (snd k) \<noteq> None"

definition keysHeld :: "('h, 'z) ctl_scheme \<Rightarrow> modifier_key set" where
  "keysHeld w =
     {k. \<exists>m. lookupModifier (fst k) (snd k) = Some m \<and> modifierState w AND m \<noteq> 0}"

definition modifiers_wf :: "('h, 'z) ctl_scheme \<Rightarrow> bool" where
  "modifiers_wf w \<longleftrightarrow> modifierState w AND NOT 0xFF = 0"

text \<open>
  What a scan code means: the result tells whether the debugger is called (and the scan
  code dropped), which keys are held afterwards, and whether a prefix is pending.
\<close>

definition escapeSpec :: "u8 \<Rightarrow> modifier_key set \<Rightarrow> bool \<Rightarrow> bool \<times> modifier_key set \<times> bool" where
  "escapeSpec scancode K extended =
     (let key = (scancode AND NOT kSC_UpBit, extended)
      in if scancode = kSC_Extend then (False, K, True)
         else if is_modifier key
         then (False, if scancode AND kSC_UpBit \<noteq> 0 then K - {key} else insert key K, False)
         else if fst key = kSC_Delete \<and> K = {(kSC_Alt, False), (kSC_Alt, True)}
         then (True, {}, False)
         else (False, K, False))"

section \<open>The table of modifiers\<close>

lemma lookupModifier_iff:
  "lookupModifier s e = Some m \<longleftrightarrow>
     (s, e, m) \<in> {(0x38, False, 0x10), (0x38, True, 0x20), (0x1D, False, 0x04), (0x1D, True, 0x08),
       (0x2A, False, 0x01), (0x36, False, 0x02), (0x5B, True, 0x40), (0x5C, True, 0x80)}"
  by (auto simp: lookupModifier_def modifierTable_def ps2_consts)

lemma modifier_bit:
  assumes "lookupModifier s e = Some m"
  obtains n where "n < 8" and "m = push_bit n 1"
  using assms that [of 0] that [of 1] that [of 2] that [of 3] that [of 4] that [of 5] that [of 6] that [of 7]
  by (auto simp: lookupModifier_iff)

lemma bit_modifier:
  assumes "n < 8"
  obtains s e where "lookupModifier s e = Some (push_bit n 1)"
proof -
  have "\<exists>s e. lookupModifier s e = Some (push_bit n 1)"
  proof -
    from assms have "n \<in> {0, 1, 2, 3, 4, 5, 6, 7}" by auto
    moreover have "\<exists>s e. lookupModifier s e = Some (push_bit k 1)" if "lookupModifier a b = Some (push_bit k 1)" for k a b
      using that by blast
    moreover have "lookupModifier 0x2A False = Some (push_bit 0 1)"
      "lookupModifier 0x36 False = Some (push_bit 1 1)" "lookupModifier 0x1D False = Some (push_bit 2 1)"
      "lookupModifier 0x1D True = Some (push_bit 3 1)" "lookupModifier 0x38 False = Some (push_bit 4 1)"
      "lookupModifier 0x38 True = Some (push_bit 5 1)" "lookupModifier 0x5B True = Some (push_bit 6 1)"
      "lookupModifier 0x5C True = Some (push_bit 7 1)"
      by (simp_all add: lookupModifier_iff)
    ultimately show ?thesis by blast
  qed
  with that show thesis by blast
qed

text \<open>The masks are single bits, different for different keys.\<close>

lemma masks_disjoint:
  assumes "lookupModifier s e = Some m" and "lookupModifier s' e' = Some m'"
  shows "m AND m' \<noteq> 0 \<longleftrightarrow> (s, e) = (s', e')"
  using assms by (auto simp: lookupModifier_iff)

lemma mask_and:
  assumes "lookupModifier s e = Some m" and "lookupModifier s' e' = Some m'"
  shows "(x OR m) AND m' \<noteq> 0 \<longleftrightarrow> x AND m' \<noteq> 0 \<or> (s, e) = (s', e')"
    and "(x AND NOT m) AND m' \<noteq> 0 \<longleftrightarrow> x AND m' \<noteq> 0 \<and> (s, e) \<noteq> (s', e')"
proof -
  obtain n where n: "n < 8" "m = push_bit n 1" using assms(1) by (rule modifier_bit)
  obtain n' where n': "n' < 8" "m' = push_bit n' 1" using assms(2) by (rule modifier_bit)
  have eq: "n = n' \<longleftrightarrow> (s, e) = (s', e')"
    using masks_disjoint [OF assms] n n' and_push_bit_nonzero [of m n'] by (auto simp: bit_simps)
  show "(x OR m) AND m' \<noteq> 0 \<longleftrightarrow> x AND m' \<noteq> 0 \<or> (s, e) = (s', e')"
    unfolding n'(2) and_push_bit_nonzero using n n'(1) eq by (auto simp: bit_simps)
  show "(x AND NOT m) AND m' \<noteq> 0 \<longleftrightarrow> x AND m' \<noteq> 0 \<and> (s, e) \<noteq> (s', e')"
    unfolding n'(2) and_push_bit_nonzero using n n'(1) eq by (auto simp: bit_simps)
qed

text \<open>The set of keys held determines the bit set.\<close>

lemma and_not_low:
  assumes "x AND NOT 0xFF = (0 :: u16)" and "bit x n"
  shows "n < 8"
proof (rule ccontr)
  assume "\<not> n < 8"
  have "bit (x AND NOT 0xFF) n"
  proof -
    have "\<not> bit (0xFF :: u16) n"
      using \<open>\<not> n < 8\<close> bit_mask_iff [of 8 n, where 'a = u16] by (simp add: mask_eq_exp_minus_1)
    moreover have "n < 16" using assms(2) bit_imp_le_length [of x n] by simp
    ultimately show ?thesis using assms(2) by (simp add: bit_simps)
  qed
  with assms(1) show False by simp
qed

lemma bit_of_keysHeld:
  assumes "modifiers_wf u"
  shows "bit (modifierState u) n \<longleftrightarrow>
    n < 8 \<and> (\<exists>k. k \<in> keysHeld u \<and> lookupModifier (fst k) (snd k) = Some (push_bit n 1))"
proof
  assume b: "bit (modifierState u) n"
  then have n: "n < 8" using assms and_not_low unfolding modifiers_wf_def by blast
  then obtain s e where "lookupModifier s e = Some (push_bit n 1)" by (rule bit_modifier)
  then have "(s, e) \<in> keysHeld u \<and> lookupModifier (fst (s, e)) (snd (s, e)) = Some (push_bit n 1)"
    using b n and_push_bit_nonzero [of "modifierState u" n] by (simp add: keysHeld_def)
  with n show "n < 8 \<and> (\<exists>k. k \<in> keysHeld u \<and> lookupModifier (fst k) (snd k) = Some (push_bit n 1))"
    by blast
next
  assume "n < 8 \<and> (\<exists>k. k \<in> keysHeld u \<and> lookupModifier (fst k) (snd k) = Some (push_bit n 1))"
  then show "bit (modifierState u) n"
    using and_push_bit_nonzero [of "modifierState u" n] by (auto simp: keysHeld_def)
qed

lemma keysHeld_inject:
  assumes "modifiers_wf v" and "modifiers_wf w" and "keysHeld v = keysHeld w"
  shows "modifierState v = modifierState w"
  by (rule bit_word_eqI) (simp only: bit_of_keysHeld [OF assms(1)] bit_of_keysHeld [OF assms(2)] assms(3))

lemma keysHeld_Alts:
  assumes "modifiers_wf w"
  shows "modifierState w = kModifierAltLeft OR kModifierAltRight \<longleftrightarrow>
    keysHeld w = {(kSC_Alt, False), (kSC_Alt, True)}"
proof -
  let ?a = "w\<lparr>modifierState := 0x30\<rparr>"
  have a: "modifiers_wf ?a" "keysHeld ?a = {(0x38, False), (0x38, True)}"
    by (auto simp: modifiers_wf_def keysHeld_def lookupModifier_iff)
  have "modifierState w = 0x30 \<longleftrightarrow> keysHeld w = keysHeld ?a"
  proof
    assume "modifierState w = 0x30"
    then show "keysHeld w = keysHeld ?a" by (simp add: keysHeld_def)
  next
    assume "keysHeld w = keysHeld ?a"
    from keysHeld_inject [OF assms a(1) this] show "modifierState w = 0x30" by simp
  qed
  then show ?thesis by (simp add: a(2) ps2_consts)
qed

section \<open>The effects of \<open>doEscape\<close>\<close>

lemma waitInputFree_only:
  assumes "waitInputFree E w = Some w'"
  shows "\<exists>h n. w' = w\<lparr>hw := h, delayed := n\<rparr>"
proof (rule waitInputFree.raw_induct
    [where P = "\<lambda>E w w'. \<exists>h n. w' = w\<lparr>hw := h, delayed := n\<rparr>", OF _ assms], goal_cases)
  case (1 f E v v')
  obtain b h where i: "inb E kCommandPort (hw v) = (b, h)" by force
  show ?case
  proof (cases "b AND kInputBusy \<noteq> 0")
    case True
    with 1(2) i have "f E (ioDelay kDataDelay (v\<lparr>hw := h\<rparr>)) = Some v'" by (simp add: port_in_def)
    from 1(1) [OF this] obtain h' n' where "v' = (ioDelay kDataDelay (v\<lparr>hw := h\<rparr>))\<lparr>hw := h', delayed := n'\<rparr>"
      by blast
    then have "v' = v\<lparr>hw := h', delayed := n'\<rparr>" by (simp add: ioDelay_def)
    then show ?thesis by blast
  next
    case False
    with 1(2) i have "v' = v\<lparr>hw := h\<rparr>" by (simp add: port_in_def)
    then have "v' = v\<lparr>hw := h, delayed := delayed v\<rparr>" by simp
    then show ?thesis by blast
  qed
qed

lemma release_Alts:
  assumes "modifierState w = 0x30"
  shows "releaseModifierKeys modifierTable w =
    enqueueKeyboardData 0xB8 (enqueueKeyboardData 0xE0 (enqueueKeyboardData 0xB8 w))"
proof -
  have m: "modifierState (enqueueKeyboardData b v) = modifierState v" for b and v :: "('a, 'b) ctl_scheme"
    by (simp add: enqueueKeyboardData_def split: list.split)
  show ?thesis using assms by (simp add: modifierTable_def m ps2_consts)
qed

lemma enqueue_three:
  fixes w :: "('h, 'z) ctl_scheme" and a b c
  defines "v \<equiv> enqueueKeyboardData c (enqueueKeyboardData b (enqueueKeyboardData a w))"
  shows "keyboardQueue v = keyboardQueue w @ take (length (keyboardQueueUnused w)) [a, b, c]"
    and "effects v = effects w" and "modifierState v = modifierState w"
  by (auto simp: v_def enqueueKeyboardData_def split: list.split)

text \<open>What \<open>doEscape\<close> does on the chord, in one step.\<close>

lemma doEscape_chord:
  assumes "doEscape E scancode w = Some (True, w')"
  shows "scancode AND NOT kSC_UpBit = kSC_Delete" and "modifierState w = 0x30"
    and "lookupModifier kSC_Delete (extendedState w) = None"
    and "effects w' = effects w @ [CallDebugger]"
    and "modifierState w' = 0" and "\<not> extendedState w'"
    and "keyboardQueue w' = keyboardQueue w @ take (length (keyboardQueueUnused w)) [0xB8, 0xE0, 0xB8]"
proof -
  obtain u v where u: "waitInputFree E w = Some u"
    and v: "waitInputFree E (emit CallDebugger (port_out E kCommandPort kCP_DisableMouseClock u)) = Some v"
    and m: "modifierState w = 0x30" and s: "scancode AND NOT kSC_UpBit = kSC_Delete"
    and l: "lookupModifier kSC_Delete (extendedState w) = None"
    and w': "w' = (releaseModifierKeys modifierTable (port_out E kCommandPort kCP_EnableMouseClock v))
      \<lparr>modifierState := 0, extendedState := False\<rparr>"
    using assms by (auto simp: doEscape_def Let_def kModifierAltLeft_def kModifierAltRight_def
        split: if_splits option.splits)
  obtain h n where u': "u = w\<lparr>hw := h, delayed := n\<rparr>" using waitInputFree_only [OF u] by blast
  obtain h2 n2 where v': "v = (emit CallDebugger (port_out E kCommandPort kCP_DisableMouseClock u))
      \<lparr>hw := h2, delayed := n2\<rparr>"
    using waitInputFree_only [OF v] by blast
  let ?x = "port_out E kCommandPort kCP_EnableMouseClock v"
  have x: "effects ?x = effects w @ [CallDebugger]" "modifierState ?x = 0x30"
    "keyboardQueue ?x = keyboardQueue w" "keyboardQueueUnused ?x = keyboardQueueUnused w"
    using m by (simp_all add: v' u' port_out_def emit_def)
  show "scancode AND NOT kSC_UpBit = kSC_Delete" "modifierState w = 0x30"
    "lookupModifier kSC_Delete (extendedState w) = None" by (fact s m l)+
  show "effects w' = effects w @ [CallDebugger]" "modifierState w' = 0" "\<not> extendedState w'"
    "keyboardQueue w' = keyboardQueue w @ take (length (keyboardQueueUnused w)) [0xB8, 0xE0, 0xB8]"
    using x by (simp_all add: w' release_Alts enqueue_three)
qed

text \<open>Any other scan code changes the two fields and nothing else.\<close>

lemma doEscape_no_chord:
  assumes "doEscape E scancode w = Some (False, w')"
  shows "w' = w\<lparr>modifierState := modifierState w', extendedState := extendedState w'\<rparr>"
  using assms by (auto simp: doEscape_def Let_def split: if_splits option.splits)

lemma keysHeld_extended [simp]:
  "keysHeld (w\<lparr>extendedState := x\<rparr>) = keysHeld w"
  "modifiers_wf (w\<lparr>extendedState := x\<rparr>) = modifiers_wf w"
  by (simp_all add: keysHeld_def modifiers_wf_def)

lemma keysHeld_update:
  assumes "lookupModifier s e = Some m"
  shows "keysHeld (w\<lparr>modifierState := modifierState w OR m, extendedState := x\<rparr>) = insert (s, e) (keysHeld w)"
    and "keysHeld (w\<lparr>modifierState := modifierState w AND NOT m, extendedState := x\<rparr>) = keysHeld w - {(s, e)}"
  using mask_and [OF assms] assms unfolding keysHeld_def by (fastforce simp del: not_gr_zero)+

lemma modifiers_wf_update:
  assumes "modifiers_wf w" and "lookupModifier s e = Some m"
  shows "modifiers_wf (w\<lparr>modifierState := modifierState w OR m, extendedState := x\<rparr>)"
    and "modifiers_wf (w\<lparr>modifierState := modifierState w AND NOT m, extendedState := x\<rparr>)"
proof -
  have "m AND NOT 0xFF = 0" using assms(2) by (auto simp: lookupModifier_iff)
  with assms(1) show "modifiers_wf (w\<lparr>modifierState := modifierState w OR m, extendedState := x\<rparr>)"
    by (simp add: modifiers_wf_def bit.conj_disj_distrib2)
  have "(modifierState w AND NOT m) AND NOT 0xFF = (modifierState w AND NOT 0xFF) AND NOT m"
    by (simp only: ac_simps)
  with assms(1) show "modifiers_wf (w\<lparr>modifierState := modifierState w AND NOT m, extendedState := x\<rparr>)"
    by (simp add: modifiers_wf_def)
qed

section \<open>Properties\<close>

text \<open>
  C9. Modifier tracking refines the set of held keys: whatever the scan code, press or
  release, prefixed or not, the answer, the set of held modifiers and the pending prefix
  after \<open>doEscape\<close> are those of the specification; in particular the debugger is called when,
  and only when, the held modifiers are exactly the two Alt keys and the Delete key is
  pressed or released.
\<close>

theorem doEscape_refines:
  assumes "doEscape E scancode w = Some (dropped, w')" and "modifiers_wf w"
  shows "escapeSpec scancode (keysHeld w) (extendedState w) = (dropped, keysHeld w', extendedState w') \<and>
    modifiers_wf w'"
proof (cases dropped)
  case True
  with assms(1) have d: "doEscape E scancode w = Some (True, w')" by simp
  note ch = doEscape_chord [OF d]
  have "scancode \<noteq> kSC_Extend" using ch(1) by (auto simp: ps2_consts)
  moreover have "keysHeld w = {(kSC_Alt, False), (kSC_Alt, True)}"
    using keysHeld_Alts [OF assms(2)] ch(2) by (simp add: ps2_consts)
  moreover have "keysHeld w' = {}" using ch(5) by (simp add: keysHeld_def)
  ultimately show ?thesis
    using True ch by (simp add: escapeSpec_def is_modifier_def modifiers_wf_def)
next
  case False
  show ?thesis
  proof (cases "lookupModifier (scancode AND NOT kSC_UpBit) (extendedState w)")
    case None
    then have "w' = w\<lparr>extendedState := (scancode = kSC_Extend)\<rparr> \<and> (scancode = kSC_Extend \<or>
        \<not> (scancode AND NOT kSC_UpBit = kSC_Delete \<and> modifierState w = kModifierAltLeft OR kModifierAltRight))"
      using assms(1) False by (auto simp: doEscape_def Let_def split: if_splits)
    with None False assms(2) show ?thesis
      unfolding keysHeld_Alts [OF assms(2)] by (auto simp: escapeSpec_def is_modifier_def Let_def)
  next
    case (Some m)
    then have sc: "scancode \<noteq> kSC_Extend"
      by (auto simp: lookupModifier_def modifierTable_def ps2_consts)
    then have w': "w' = w\<lparr>modifierState := (if scancode AND kSC_UpBit \<noteq> 0 then modifierState w AND NOT m
        else modifierState w OR m), extendedState := False\<rparr>"
      using assms(1) Some by (simp add: doEscape_def Let_def)
    show ?thesis
    proof (cases "scancode AND kSC_UpBit \<noteq> 0")
      case True
      with w' have "w' = w\<lparr>modifierState := modifierState w AND NOT m, extendedState := False\<rparr>" by simp
      then show ?thesis
        using True sc Some False keysHeld_update(2) [OF Some, where w = w] modifiers_wf_update(2) [OF assms(2) Some]
        by (simp add: escapeSpec_def is_modifier_def)
    next
      case False
      with w' have "w' = w\<lparr>modifierState := modifierState w OR m, extendedState := False\<rparr>" by simp
      then show ?thesis
        using False sc Some \<open>\<not> dropped\<close> keysHeld_update(1) [OF Some, where w = w] modifiers_wf_update(1) [OF assms(2) Some]
        by (simp add: escapeSpec_def is_modifier_def)
    qed
  qed
qed

definition chord_world :: "(bool \<times> u8) list syn" where
  "chord_world = (example_world [])\<lparr>modifierState := 0x30\<rparr>"

definition chord_after :: "(bool \<times> u8) list syn" where
  "chord_after = snd (the (doEscape (example_env 0) 0x53 chord_world))"

lemma example_waitInputFree: "waitInputFree (example_env n) w = Some w"
proof -
  have "inb (example_env n) kCommandPort (hw w) = list_chip_in kCommandPort (hw w)"
    by (cases n) (simp_all add: example_env_def example_ports_def)
  then show ?thesis
    by (subst waitInputFree.simps)
      (auto simp: port_in_def list_chip_in_def Let_def ps2_consts split: list.split prod.split)
qed

lemma chord_runs: "doEscape (example_env 0) 0x53 chord_world = Some (True, chord_after)"
proof -
  have "modifierState chord_world = 0x30" "\<not> extendedState chord_world"
    by (simp_all add: chord_world_def example_world_def)
  moreover have "lookupModifier 0x53 False = None" by (simp add: lookupModifier_def modifierTable_def ps2_consts)
  ultimately have "\<exists>w. doEscape (example_env 0) 0x53 chord_world = Some (True, w)"
    by (simp add: doEscape_def example_waitInputFree Let_def ps2_consts)
  then show ?thesis by (auto simp: chord_after_def)
qed

theorem doEscape_refines_witness:
  "escapeSpec 0x53 (keysHeld chord_world) False = (True, keysHeld chord_after, False)"
proof -
  have wf: "modifiers_wf chord_world" "\<not> extendedState chord_world"
    by (simp_all add: modifiers_wf_def chord_world_def example_world_def)
  have "\<not> extendedState chord_after" using chord_runs by (rule doEscape_chord)
  with doEscape_refines [OF chord_runs wf(1)] wf(2) show ?thesis by simp
qed

text \<open>
  C10. When the debugger has been entered, the scan code is dropped, the modifiers are
  forgotten, and the release codes of the two Alt keys are put in the keyboard queue behind
  what was there, as far as it has room, so that the keyboard driver sees the keys go up.
\<close>

theorem debugger_releases_modifiers:
  assumes "doEscape E scancode w = Some (True, w')"
  shows "effects w' = effects w @ [CallDebugger] \<and> keysHeld w' = {} \<and> \<not> extendedState w' \<and>
    keyboardQueue w' = keyboardQueue w @ take (length (keyboardQueueUnused w))
      [kSC_Alt OR kSC_UpBit, kSC_Extend, kSC_Alt OR kSC_UpBit]"
  using doEscape_chord [OF assms] by (simp add: keysHeld_def ps2_consts)

theorem debugger_releases_modifiers_witness:
  "keyboardQueue chord_after = [0xB8, 0xE0, 0xB8]"
  using debugger_releases_modifiers [OF chord_runs]
  by (simp add: chord_world_def example_world_def ps2_consts)

end
