(* ===== verification/PS2_CommandByte.thy ===== *)
theory PS2_CommandByte
  imports PS2_Escape
begin

text \<open>
  The test-and-set loop on the controller's command byte, which all drivers share: which
  byte it writes when it returns; and the runs of the example machine that exercise it.
\<close>

section \<open>Runs of the example machine\<close>

lemma example_in:
  "port_in (example_env n) kCommandPort w =
     (case hw w of [] \<Rightarrow> 0 | (m, _) # _ \<Rightarrow> if m then kOutputReady OR kMouseData else kOutputReady, w)"
  "hw w = (m, b) # h \<Longrightarrow> port_in (example_env n) kDataPort w = (b, w\<lparr>hw := h\<rparr>)"
  by (cases n; auto simp: example_env_def example_ports_def port_in_def list_chip_in_def ps2_consts
      split: list.split)+

lemma example_out: "port_out (example_env n) p b w = w"
  by (cases n) (simp_all add: example_env_def example_ports_def port_out_def)

lemma example_write:
  "writeDataPort (example_env n) b w = Some w" "writeCommandPort (example_env n) b w = Some w"
  by (simp_all add: writeDataPort_def writeCommandPort_def example_waitInputFree example_out)

lemma example_acquire:
  assumes "\<not> controllerLocked w" and "keyboardQueue w = []" and "hw w = (False, b) # h"
  shows "acquireByte (example_env n) kDT_Keyboard (Suc t) w =
    Some (Acquired True b (Suc t), w\<lparr>hw := h, delayed := delayed w + kDataDelay\<rparr>)"
proof -
  let ?l = "w\<lparr>controllerLocked := True\<rparr>"
  have "waitOutputReady (example_env n) (Suc t) ?l = (kOutputReady, Suc t, ?l)"
    using assms(3) by (simp add: example_in(1) kOutputReady_def)
  moreover have "port_in (example_env n) kDataPort (ioDelay kDataDelay ?l) =
      (b, (ioDelay kDataDelay ?l)\<lparr>hw := h\<rparr>)"
    using assms(3) by (intro example_in(2) [where m = False]) (simp add: ioDelay_def)
  moreover have "kOutputReady AND kMouseData = 0" by (simp add: ps2_consts)
  ultimately show ?thesis
    using assms by (simp add: acquireByte_def lockController_def dequeueKeyboardData_def
        unlockController_def ioDelay_def)
qed

lemma example_read:
  assumes "\<not> controllerLocked w" and "keyboardQueue w = []" and "hw w = (False, b) # h"
  shows "readDataPort (example_env n) kDT_Keyboard w =
      Some (b, w\<lparr>hw := h, delayed := delayed w + kDataDelay\<rparr>)"
    and "readDataPortExpecting (example_env n) kDT_Keyboard b w =
      Some (b, w\<lparr>hw := h, delayed := delayed w + kDataDelay\<rparr>)"
proof -
  have "(10000 :: nat) = Suc 9999" by simp
  then have a: "acquireByte (example_env n) kDT_Keyboard 10000 w =
      Some (Acquired True b 10000, w\<lparr>hw := h, delayed := delayed w + kDataDelay\<rparr>)"
    using example_acquire [OF assms] by (simp only:)
  show "readDataPort (example_env n) kDT_Keyboard w =
      Some (b, w\<lparr>hw := h, delayed := delayed w + kDataDelay\<rparr>)"
    unfolding readDataPort_def by (subst readDataPort_loop.simps) (simp add: a)
  show "readDataPortExpecting (example_env n) kDT_Keyboard b w =
      Some (b, w\<lparr>hw := h, delayed := delayed w + kDataDelay\<rparr>)"
    unfolding readDataPortExpecting_def
    by (subst readDataPortExpecting_loop.simps) (simp add: a decideByte_def)
qed

lemma example_command:
  assumes "command_at r i w = Some c"
  shows "command c = kPS2C_WriteCommandPort \<Longrightarrow> inOrOut c \<noteq> kCP_TransmitToMouse \<Longrightarrow>
      processCommand (example_env n) r i d t w = Some ((False, d, t), w)"
    and "command c = kPS2C_WriteDataPort \<Longrightarrow>
      processCommand (example_env n) r i d False w = Some ((False, kDT_Keyboard, False), w)"
  using assms by (simp_all add: processCommand_def example_write)

lemma processCommands_step:
  assumes "processCommands E r (Suc i) d' t' w' = R"
    and "requests w r = Some q" and "i < unat (commandsCount q)"
    and "processCommand E r i d t w = Some ((False, d', t'), w')"
  shows "processCommands E r i d t w = R"
  by (subst processCommands.simps) (simp add: assms)

lemma processCommands_end:
  assumes "requests w r = Some q" and "i = unat (commandsCount q)"
  shows "processCommands E r i d t w = Some ((False, i), w)"
  by (subst processCommands.simps) (simp add: assms)

text \<open>The two requests of a round of the loop, with the byte that the machine answers.\<close>

lemma example_getByte:
  assumes "requests w r = Some q" and "commandsCount q = 2" and "commands q = getByte @ cs"
    and "\<not> controllerLocked w" and "keyboardQueue w = []" and "hw w = (False, b) # h"
  shows "processCommands (example_env n) r 0 kDT_Keyboard False w = Some ((False, 2),
    w\<lparr>requests := (requests w)(r \<mapsto> q\<lparr>commands := (hd getByte) # \<lparr>command = kPS2C_ReadDataPort, inOrOut = b\<rparr> # cs\<rparr>),
      hw := h, delayed := delayed w + kDataDelay\<rparr>)"
proof -
  let ?w1 = "w\<lparr>requests := (requests w)(r \<mapsto> q\<lparr>commands := (hd getByte) # \<lparr>command = kPS2C_ReadDataPort, inOrOut = b\<rparr> # cs\<rparr>),
      hw := h, delayed := delayed w + kDataDelay\<rparr>"
  have c0: "command_at r 0 w = Some (getByte ! 0)" and c1: "command_at r 1 w = Some (getByte ! 1)"
    using assms(1,3) by (simp_all add: command_at_def)
  have s0: "processCommand (example_env n) r 0 kDT_Keyboard False w = Some ((False, kDT_Keyboard, False), w)"
    by (rule example_command(1) [OF c0]) (simp_all add: ps2_consts)
  have s1: "processCommand (example_env n) r 1 kDT_Keyboard False w = Some ((False, kDT_Keyboard, False), ?w1)"
    using assms(1,3) c1 example_read(1) [OF assms(4-6), of n]
    by (simp add: processCommand_def set_inOrOut_def command_at_def)
  let ?q1 = "q\<lparr>commands := (hd getByte) # \<lparr>command = kPS2C_ReadDataPort, inOrOut = b\<rparr> # cs\<rparr>"
  have q1: "requests ?w1 r = Some ?q1" "2 = unat (commandsCount ?q1)" by (simp_all add: assms(2))
  have q: "unat (commandsCount q) = 2" by (simp add: assms(2))
  have p2: "processCommands (example_env n) r 2 kDT_Keyboard False ?w1 = Some ((False, 2), ?w1)"
    by (rule processCommands_end [OF q1])
  have p1: "processCommands (example_env n) r 1 kDT_Keyboard False w = Some ((False, 2), ?w1)"
    by (rule processCommands_step [OF _ assms(1) _ s1]) (use p2 in \<open>simp_all add: q flip: numeral_2_eq_2\<close>)
  show ?thesis
    by (rule processCommands_step [OF _ assms(1) _ s0]) (use p1 in \<open>simp_all add: q\<close>)
qed

lemma example_setByte:
  assumes "requests w r = Some q" and "commandsCount q = 4" and "commands q = setByte b new @ cs"
    and "\<not> controllerLocked w" and "keyboardQueue w = []" and "hw w = (False, b) # h"
  shows "processCommands (example_env n) r 0 kDT_Keyboard False w = Some ((False, 4),
    w\<lparr>hw := h, delayed := delayed w + kDataDelay\<rparr>)"
proof -
  let ?w1 = "w\<lparr>hw := h, delayed := delayed w + kDataDelay\<rparr>"
  have c: "command_at r 0 w = Some (setByte b new ! 0)" "command_at r 1 w = Some (setByte b new ! 1)"
    "command_at r 2 ?w1 = Some (setByte b new ! 2)" "command_at r 3 ?w1 = Some (setByte b new ! 3)"
    "command_at r 1 ?w1 = Some (setByte b new ! 1)"
    using assms(1,3) by (simp_all add: command_at_def)
  have s0: "processCommand (example_env n) r 0 kDT_Keyboard False w = Some ((False, kDT_Keyboard, False), w)"
    by (rule example_command(1) [OF c(1)]) (simp_all add: ps2_consts)
  have s1: "processCommand (example_env n) r 1 kDT_Keyboard False w = Some ((False, kDT_Keyboard, False), ?w1)"
    using c(2,5) example_read(2) [OF assms(4-6), of n] by (simp add: processCommand_def)
  have s2: "processCommand (example_env n) r 2 kDT_Keyboard False ?w1 = Some ((False, kDT_Keyboard, False), ?w1)"
    by (rule example_command(1) [OF c(3)]) (simp_all add: ps2_consts)
  have s3: "processCommand (example_env n) r 3 kDT_Keyboard False ?w1 = Some ((False, kDT_Keyboard, False), ?w1)"
    by (rule example_command(2) [OF c(4)]) simp
  have q: "requests ?w1 r = Some q" "unat (commandsCount q) = 4" using assms(1,2) by simp_all
  have p4: "processCommands (example_env n) r 4 kDT_Keyboard False ?w1 = Some ((False, 4), ?w1)"
    by (rule processCommands_end [OF q(1)]) (simp add: q(2))
  have p3: "processCommands (example_env n) r 3 kDT_Keyboard False ?w1 = Some ((False, 4), ?w1)"
    by (rule processCommands_step [OF _ q(1) _ s3]) (use p4 in \<open>simp_all add: q(2)\<close>)
  have p2: "processCommands (example_env n) r 2 kDT_Keyboard False ?w1 = Some ((False, 4), ?w1)"
    by (rule processCommands_step [OF _ q(1) _ s2]) (use p3 in \<open>simp_all add: q(2)\<close>)
  have p1: "processCommands (example_env n) r 1 kDT_Keyboard False w = Some ((False, 4), ?w1)"
    by (rule processCommands_step [OF _ assms(1) _ s1]) (use p2 in \<open>simp_all add: q(2) flip: numeral_2_eq_2\<close>)
  show ?thesis
    by (rule processCommands_step [OF _ assms(1) _ s0]) (use p1 in \<open>simp_all add: q(2)\<close>)
qed

text \<open>The whole round, with the gate held and nothing queued.\<close>

lemma example_block:
  assumes "requests w r = Some q" and "inGate w" and "requestQueue w = []" and "\<not> hardwareOffline w"
    and "processCommands (example_env n) r 0 kDT_Keyboard False
      (w\<lparr>requests := (requests w)(r \<mapsto> q\<lparr>completionTarget := True,
        completionAction := Some SubmitRequestAndBlockCompletion, completionParam := None\<rparr>)\<rparr>) =
      Some ((False, i), w')"
    and "requests w' r = Some q'" and "completionTarget q'"
    and "completionAction q' = Some SubmitRequestAndBlockCompletion" and "completionParam q' = None"
  shows "submitRequestAndBlock (example_env n) r w = Some w'"
proof -
  have "(requests w')(r \<mapsto> q') = requests w'" using assms(6) by (simp add: fun_upd_idem)
  then have "completeRequest r False i w' = Some w'"
    using assms(6-9) by (simp add: completeRequest_def submitRequestAndBlockCompletion_def)
  moreover have noop: "w\<lparr>requests := R, requestQueue := []\<rparr> = w\<lparr>requests := R\<rparr>" for R
    using assms(3) by (cases w) simp
  ultimately show ?thesis
    using assms(1-5) by (simp add: submitRequestAndBlock_def set_completion_def processRequestQueue_def
        processRequest_def noop)
qed

definition byte_world :: "(bool \<times> u8) list syn" where
  "byte_world = snd (allocateRequest (example_world [(False, 0x65), (False, 0x65)]))"

lemma byte_world_ok:
  "heap_ok byte_world" "0 \<in> held byte_world" "requests byte_world 0 = Some zero_request"
  by (simp_all add: byte_world_def allocateRequest_def example_world_def heap_ok_def held_def)

lemma byte_world_runs: "\<exists>w'. commandByte_loop (keyboardNubOf (example_env n)) 0
  kCB_EnableMouseIRQ kCB_DisableMouseClock byte_world = Some w'"
proof -
  let ?q = "\<lambda>k xs. zero_request\<lparr>commands := xs @ drop (length xs) (replicate kMaxCommands zero_command),
    commandsCount := k\<rparr>"
  let ?blocking = "\<lambda>q. q\<lparr>completionTarget := True,
    completionAction := Some SubmitRequestAndBlockCompletion, completionParam := None\<rparr>"
  let ?rest = "drop 2 (replicate kMaxCommands zero_command)"
  have q0: "requests byte_world 0 = Some zero_request" by (rule byte_world_ok)
  have w0: "inGate byte_world" "requestQueue byte_world = []" "\<not> hardwareOffline byte_world"
    "\<not> controllerLocked byte_world" "keyboardQueue byte_world = []"
    "hw byte_world = [(False, 0x65), (False, 0x65)]"
    by (simp_all add: byte_world_def allocateRequest_def example_world_def)
  let ?q1 = "zero_request\<lparr>commands := getByte @ ?rest, commandsCount := 2\<rparr>"
  let ?w1 = "byte_world\<lparr>requests := (requests byte_world)(0 \<mapsto> ?q1)\<rparr>"
  have f1: "fill_request 0 getByte byte_world = Some ?w1"
    by (simp add: fill_request_def q0 zero_request_def ps2_consts)
  let ?got = "(hd getByte) # \<lparr>command = kPS2C_ReadDataPort, inOrOut = 0x65\<rparr> # ?rest"
  let ?q2 = "(?blocking ?q1)\<lparr>commands := ?got\<rparr>"
  let ?w2 = "byte_world\<lparr>requests := (requests byte_world)(0 \<mapsto> ?q2), hw := [(False, 0x65)],
    delayed := delayed byte_world + kDataDelay\<rparr>"
  have b1: "submitRequestAndBlock (example_env n) 0 ?w1 = Some ?w2"
    using w0 by (intro example_block [where q = ?q1 and q' = ?q2 and i = 2])
      (simp_all add: example_getByte [where q = "?blocking ?q1" and cs = ?rest and b = "0x65" and h = "[(False, 0x65)]"])
  let ?new = "(0x65 OR kCB_EnableMouseIRQ) AND NOT kCB_DisableMouseClock :: u8"
  let ?rest2 = "drop 4 (replicate kMaxCommands zero_command)"
  let ?q3 = "?q2\<lparr>commands := setByte 0x65 ?new @ ?rest2, commandsCount := 4\<rparr>"
  let ?w3 = "?w2\<lparr>requests := (requests ?w2)(0 \<mapsto> ?q3)\<rparr>"
  have g: "command_at 0 1 ?w2 = Some \<lparr>command = kPS2C_ReadDataPort, inOrOut = 0x65\<rparr>"
    by (simp add: command_at_def)
  have f2: "fill_request 0 (setByte 0x65 ?new) ?w2 = Some ?w3"
    by (simp add: fill_request_def zero_request_def ps2_consts)
  let ?w4 = "?w3\<lparr>hw := [], delayed := delayed ?w2 + kDataDelay\<rparr>"
  have bq: "?blocking ?q3 = ?q3" by simp
  have b2: "submitRequestAndBlock (example_env n) 0 ?w3 = Some ?w4"
  proof (rule example_block [where q = ?q3 and q' = ?q3 and i = 4])
    have id: "?w3\<lparr>requests := (requests ?w3)(0 \<mapsto> ?q3)\<rparr> = ?w3" by simp
    show "processCommands (example_env n) 0 0 kDT_Keyboard False
      (?w3\<lparr>requests := (requests ?w3)(0 \<mapsto> ?blocking ?q3)\<rparr>) = Some ((False, 4), ?w4)"
      unfolding bq id
      by (subst example_setByte [where q = ?q3 and cs = ?rest2 and b = "0x65" and h = "[]" and new = ?new])
        (simp_all add: w0)
  qed (simp_all add: w0)
  have q4: "requests ?w4 0 = Some ?q3" by simp
  have "commandByte_loop (keyboardNubOf (example_env n)) 0 kCB_EnableMouseIRQ kCB_DisableMouseClock byte_world
      = Some ?w4"
    by (subst commandByte_loop.simps)
      (simp only: f1 Option.bind.simps nub_simps nub.simps b1 g Let_def PS2Command.simps f2 b2 q4, simp)
  then show ?thesis by blast
qed

section \<open>The last request of the loop\<close>

context heap_handlers
begin

text \<open>One command of a request that does not fail.\<close>

lemma processCommands_unfold:
  assumes "processCommands E r i d t w = Some ((False, j), w')" and "requests w r = Some q"
    and "i < unat (commandsCount q)"
  obtains d' t' u where "processCommand E r i d t w = Some ((False, d', t'), u)"
    and "processCommands E r (Suc i) d' t' u = Some ((False, j), w')"
  using assms by (subst (asm) processCommands.simps) (auto split: option.splits prod.splits if_splits)

lemma setByte_kept:
  assumes "frame w w'" and "r \<in> held w" and "requests w r = Some q"
  shows "r \<in> held w'" "requests w' r = Some q" "heap_ok w'"
  using assms by (simp_all add: frame_held frame_same frame_ok)

lemma processCommands_setByte:
  assumes run: "processCommands E r 0 kDT_Keyboard False w = Some ((False, 4), w')"
    and ok: "heap_ok w" "r \<in> held w" and q: "requests w r = Some q"
    and cs: "commands q = setByte b new @ cs" "commandsCount q = 4"
  shows "\<exists>v1 v2 v3. writeCommandPort E kCP_GetCommandByte w = Some v1 \<and>
    readDataPortExpecting E kDT_Keyboard b v1 = Some (b, v2) \<and>
    writeCommandPort E kCP_SetCommandByte v2 = Some v3 \<and> writeDataPort E new v3 = Some w'"
proof -
  have n: "unat (commandsCount q) = 4" by (simp add: cs(2))
  have at: "command_at r k v = Some (setByte b new ! k)" if "requests v r = Some q" "k < 4" for k v
  proof -
    from that(2) have "k = 0 \<or> k = 1 \<or> k = 2 \<or> k = 3" by auto
    with that(1) show ?thesis by (auto simp: command_at_def cs(1))
  qed
  have ne: "kCP_GetCommandByte \<noteq> kCP_TransmitToMouse" "kCP_SetCommandByte \<noteq> kCP_TransmitToMouse"
    by (simp_all add: ps2_consts)
  obtain d1 t1 v1 where s1: "processCommand E r 0 kDT_Keyboard False w = Some ((False, d1, t1), v1)"
    and r1: "processCommands E r (Suc 0) d1 t1 v1 = Some ((False, 4), w')"
    using run by (rule processCommands_unfold [OF _ q]) (simp add: n)
  have w1: "writeCommandPort E kCP_GetCommandByte w = Some v1" and d1: "d1 = kDT_Keyboard" "t1 = False"
    using s1 at [OF q, of 0] ne by (auto simp: processCommand_def)
  note k1 = setByte_kept [OF frame_of_write(2) [OF w1 ok(1)] ok(2) q]
  obtain d2 t2 v2 where s2: "processCommand E r (Suc 0) kDT_Keyboard False v1 = Some ((False, d2, t2), v2)"
    and r2: "processCommands E r (Suc (Suc 0)) d2 t2 v2 = Some ((False, 4), w')"
    using r1 unfolding d1 by (rule processCommands_unfold [OF _ k1(2)]) (simp add: n)
  obtain x where x: "readDataPortExpecting E kDT_Keyboard b v1 = Some (x, v2)"
    using s2 at [OF k1(2), of "Suc 0"] by (auto simp: processCommand_def)
  note k2 = setByte_kept [OF frame_of_read(2) [OF x k1(3)] k1(1,2)]
  have w2: "readDataPortExpecting E kDT_Keyboard b v1 = Some (b, v2)" and d2: "d2 = kDT_Keyboard" "t2 = False"
    using s2 x at [OF k1(2), of "Suc 0"] at [OF k2(2), of "Suc 0"] by (auto simp: processCommand_def)
  obtain d3 t3 v3 where s3: "processCommand E r 2 kDT_Keyboard False v2 = Some ((False, d3, t3), v3)"
    and r3: "processCommands E r 3 d3 t3 v3 = Some ((False, 4), w')"
    using r2 unfolding d2
    by (rule processCommands_unfold [OF _ k2(2)]) (simp_all add: n eval_nat_numeral)
  have w3: "writeCommandPort E kCP_SetCommandByte v2 = Some v3" and d3: "d3 = kDT_Keyboard" "t3 = False"
    using s3 at [OF k2(2), of 2] ne by (auto simp: processCommand_def)
  note k3 = setByte_kept [OF frame_of_write(2) [OF w3 k2(3)] k2(1,2)]
  obtain d4 t4 v4 where s4: "processCommand E r 3 kDT_Keyboard False v3 = Some ((False, d4, t4), v4)"
    and r4: "processCommands E r 4 d4 t4 v4 = Some ((False, 4), w')"
    using r3 unfolding d3
    by (rule processCommands_unfold [OF _ k3(2)]) (simp_all add: n eval_nat_numeral)
  have w4: "writeDataPort E new v3 = Some v4"
    using s4 at [OF k3(2), of 3] by (auto simp: processCommand_def)
  note k4 = setByte_kept [OF frame_of_write(1) [OF w4 k3(3)] k3(1,2)]
  have "v4 = w'"
    using r4 by (subst (asm) processCommands.simps) (simp add: k4(2) n)
  with w1 w2 w3 w4 show ?thesis by blast
qed

lemma commandByte_loop_written:
  assumes loop: "commandByte_loop D r s c w = Some w'" and D: "is_nub E D"
    and "heap_ok w" "r \<in> held w" "requests w r = Some q" "length (commands q) = kMaxCommands"
  shows "\<exists>b v0 v1 v2 v3 v4. writeCommandPort E kCP_GetCommandByte v0 = Some v1 \<and>
    readDataPortExpecting E kDT_Keyboard b v1 = Some (b, v2) \<and>
    writeCommandPort E kCP_SetCommandByte v2 = Some v3 \<and>
    writeDataPort E ((b OR s) AND NOT c) v3 = Some v4 \<and>
    w' = v4\<lparr>syncers := syncers w', inGate := inGate w'\<rparr>"
proof -
  from nub_service.commandByte_loop_frame [OF nub_contract [OF D] loop assms(3-)]
  obtain b v p p' cs where v: "heap_ok v" "r \<in> held v" "requests v r = Some p"
    and p: "commandsCount p = 4" "commands p = setByte b ((b OR s) AND NOT c) @ cs"
    and sub: "nubSubmitRequestAndBlock D r v = Some w'"
    and p': "requests w' r = Some p'" "commandsCount p' = 4"
    by blast
  have sub': "submitRequestAndBlock E r v = Some w'" using sub by (simp add: is_nub_simps [OF D])
  have count: "commandsCount p \<noteq> 0" "commandsCount p' = commandsCount p"
    and n: "unat (commandsCount p) = 4" by (simp_all add: p(1) p'(2))
  obtain a x u where x: "heap_ok x" "r \<in> held x" "requests x r = Some (p\<lparr>completionTarget := True,
      completionAction := Some SubmitRequestAndBlockCompletion, completionParam := a\<rparr>)"
    and run: "processCommands E r 0 kDT_Keyboard False x = Some ((False, 4), u)"
    and w': "w' = u\<lparr>syncers := syncers w', inGate := inGate w'\<rparr>"
    using submitRequestAndBlock_complete [OF sub' v count(1) p'(1) count(2)] unfolding n by metis
  have "\<exists>v1 v2 v3. writeCommandPort E kCP_GetCommandByte x = Some v1 \<and>
    readDataPortExpecting E kDT_Keyboard b v1 = Some (b, v2) \<and>
    writeCommandPort E kCP_SetCommandByte v2 = Some v3 \<and>
    writeDataPort E ((b OR s) AND NOT c) v3 = Some u"
    by (rule processCommands_setByte [OF run x]) (simp_all add: p)
  with w' show ?thesis by blast
qed

end

section \<open>Property\<close>

text \<open>
  C21. What \<open>setCommandByte\<close> of every driver achieves when it returns, whatever bytes were
  dispatched while it waited: the last thing that was done is the whole of its last request.
  The command to get the command byte was written, and the byte that then came from the
  chip (0 if none came in time) was the one, \<open>old\<close>, that the loop expected; the command to
  set the command byte was written, and then the byte \<open>new\<close>, which is \<open>old\<close> with the bits to
  be set, the bits to be cleared being 0 and every other bit as it was. Nothing happened
  after that but the wake-up of the thread and the release of the gate.
\<close>

theorem setCommandByte_sets_and_clears:
  fixes w :: "'h syn"
  assumes "commandByte_loop (keyboardNubOf (system_env P n)) r setBits clearBits w = Some w' \<or>
      commandByte_loop (mouseNubOf (system_env P n)) r setBits clearBits w = Some w'"
    and "heap_ok w" and "r \<in> held w" and "requests w r = Some q" and "length (commands q) = kMaxCommands"
  shows "\<exists>old new v0 v1 v2 v3 v4.
    writeCommandPort (system_env P n) kCP_GetCommandByte v0 = Some v1 \<and>
    readDataPortExpecting (system_env P n) kDT_Keyboard old v1 = Some (old, v2) \<and>
    writeCommandPort (system_env P n) kCP_SetCommandByte v2 = Some v3 \<and>
    writeDataPort (system_env P n) new v3 = Some v4 \<and>
    w' = v4\<lparr>syncers := syncers w', inGate := inGate w'\<rparr> \<and>
    new AND clearBits = 0 \<and> (setBits AND clearBits = 0 \<longrightarrow> new AND setBits = setBits) \<and>
    (\<forall>m. m AND setBits = 0 \<longrightarrow> m AND clearBits = 0 \<longrightarrow> new AND m = old AND m)"
proof -
  let ?E = "system_env P n"
  obtain D where D: "commandByte_loop D r setBits clearBits w = Some w'" "is_nub ?E D"
    using assms(1) is_nub_of by blast
  obtain b v0 v1 v2 v3 v4 where "writeCommandPort ?E kCP_GetCommandByte v0 = Some v1"
    "readDataPortExpecting ?E kDT_Keyboard b v1 = Some (b, v2)"
    "writeCommandPort ?E kCP_SetCommandByte v2 = Some v3"
    "writeDataPort ?E ((b OR setBits) AND NOT clearBits) v3 = Some v4"
    "w' = v4\<lparr>syncers := syncers w', inGate := inGate w'\<rparr>"
    using sysheap.commandByte_loop_written [OF D assms(2-)] by blast
  then show ?thesis
    using set_clear_cleared [of b setBits clearBits] set_clear_set [of setBits clearBits b]
      set_clear_other [of _ setBits clearBits b] by blast
qed

theorem setCommandByte_sets_and_clears_witness:
  "\<exists>old new w' v1 v2 v3 (v4 :: (bool \<times> u8) list syn). commandByte_loop (keyboardNubOf (example_env 1)) 0 kCB_EnableMouseIRQ
      kCB_DisableMouseClock byte_world = Some w' \<and>
    readDataPortExpecting (example_env 1) kDT_Keyboard old v1 = Some (old, v2) \<and>
    writeDataPort (example_env 1) new v3 = Some v4 \<and> hw w' = hw v4 \<and>
    new AND kCB_DisableMouseClock = 0 \<and> new AND kCB_EnableMouseIRQ = kCB_EnableMouseIRQ"
proof -
  obtain w' where run: "commandByte_loop (keyboardNubOf (example_env 1)) 0 kCB_EnableMouseIRQ
      kCB_DisableMouseClock byte_world = Some w'"
    using byte_world_runs by blast
  have "length (commands zero_request) = kMaxCommands" by (simp add: zero_request_def)
  from setCommandByte_sets_and_clears [OF disjI1 [OF run [unfolded example_env_def]] byte_world_ok this]
  obtain old new v0 v1 v2 v3 v4 where
    r: "readDataPortExpecting (example_env 1) kDT_Keyboard old v1 = Some (old, v2)"
    "writeDataPort (example_env 1) new v3 = Some v4" and w': "w' = v4\<lparr>syncers := syncers w', inGate := inGate w'\<rparr>"
    and bits: "new AND kCB_DisableMouseClock = 0"
      "kCB_EnableMouseIRQ AND kCB_DisableMouseClock = 0 \<longrightarrow> new AND kCB_EnableMouseIRQ = kCB_EnableMouseIRQ"
    unfolding example_env_def by blast
  have "hw w' = hw v4" by (subst w') simp
  moreover have "new AND kCB_EnableMouseIRQ = kCB_EnableMouseIRQ" using bits(2) by (simp add: ps2_consts)
  ultimately show ?thesis using run r bits(1) by blast
qed

end
