(* ===== verification/PS2_SynapticsEvents.thy ===== *)
theory PS2_SynapticsEvents
  imports PS2_Example
begin

text \<open>
  What the Synaptics driver makes of packets: decoding inverts the pad's encoding; from every
  sound state a packet is handled without an undefined conversion or an access outside a
  table, and leaves a sound state; the pointer never jumps when fingers are set down or
  lifted; without tapping the buttons are the physical ones; and the emulation of the middle
  button in relative mode is a machine with two states.
\<close>

section \<open>Decoding inverts encoding\<close>

text \<open>
  The format of an absolute packet in W mode, as the pad sends it: coordinates of thirteen
  bits, a pressure, the width \<open>w\<close> of four bits and two buttons, spread over six bytes of which
  the first and the fourth carry fixed bits.
\<close>

definition encodeAbsolute :: "u32 \<Rightarrow> u32 \<Rightarrow> u8 \<Rightarrow> u8 \<Rightarrow> u8 \<Rightarrow> u8 list" where
  "encodeAbsolute x y z w b =
     [0x80 OR push_bit 2 (w AND 0xC) OR push_bit 1 (w AND 2) OR (b AND 3),
      push_bit 4 (ucast (drop_bit 8 y)) OR (ucast (drop_bit 8 x) AND 0x0F),
      z,
      0xC0 OR push_bit 5 (ucast (drop_bit 12 y) AND 1) OR push_bit 4 (ucast (drop_bit 12 x) AND 1) OR
        push_bit 2 (w AND 1) OR (b AND 3),
      ucast x, ucast y]"

lemma bit_double_u8: "bit (w * 2 :: u8) (Suc n) = (Suc n < 8 \<and> bit w n)"
  using bit_push_bit_iff [of 1 w "Suc n"] by auto

lemma high_bits:
  assumes "(x :: u32) < 8192"
  shows "13 \<le> k \<Longrightarrow> \<not> bit x k"
  using bit_below [of x 13 k] assms by auto

lemma decode_absolute:
  "x < 8192 \<Longrightarrow> absoluteX (encodeAbsolute x y z w b) = x"
  "y < 8192 \<Longrightarrow> absoluteY (encodeAbsolute x y z w b) = y"
  by (rule u32_eqI;
      simp add: absoluteX_def absoluteY_def encodeAbsolute_def bit_simps high_bits)+

lemma decode_absoluteW:
  "W_MODE p \<Longrightarrow> w < 16 \<Longrightarrow> absoluteW p (encodeAbsolute x y z w b) = w"
  using bit_below [of w 4 4] bit_below [of w 4 5] bit_below [of w 4 6] bit_below [of w 4 7]
  by (intro u8_eqI) (auto simp: absoluteW_def encodeAbsolute_def bit_simps bit_double_u8)

lemma decode_absButtons:
  "b < 4 \<Longrightarrow> absButtons False (encodeAbsolute x y z w b) = b"
  using bit_below [of b 2 2] bit_below [of b 2 3] bit_below [of b 2 4] bit_below [of b 2 5]
    bit_below [of b 2 6] bit_below [of b 2 7]
  by (intro u8_eqI) (auto simp: absButtons_def encodeAbsolute_def bit_simps bit_double_u8)

text \<open>
  C22. The decoding of an absolute packet inverts the pad's encoding, for all coordinates of
  thirteen bits, pressures, widths of four bits and button states, and the first byte of
  every encoded packet passes the handler's test for the start of an absolute packet.
\<close>

theorem absolute_packet_roundtrip:
  fixes x y :: u32 and z w b :: u8
  assumes "x < 8192" and "y < 8192" and "w < 16" and "b < 4" and "W_MODE p"
  defines "packet \<equiv> encodeAbsolute x y z w b"
  shows "absoluteX packet = x \<and> absoluteY packet = y \<and> packet ! 2 = z \<and> absoluteW p packet = w \<and>
    absButtons False packet = b \<and> length packet = 6 \<and> packet ! 0 AND 0x08 = 0"
proof -
  have "packet ! 0 AND 0x08 = 0"
    by (rule u8_eqI) (simp add: packet_def encodeAbsolute_def bit_simps)
  moreover have "packet ! 2 = z" "length packet = 6" by (simp_all add: packet_def encodeAbsolute_def)
  ultimately show ?thesis
    using assms(1-5) by (simp add: packet_def decode_absolute decode_absoluteW decode_absButtons)
qed

lemma absolute_below:
  "absoluteX packet < 8192" "absoluteY packet < 8192"
proof -
  have above: "k \<in> set [13, 14, 15, 16, 17, 18, 19, 20, 21, 22, 23, 24, 25, 26, 27, 28, 29, 30, 31]"
    if "\<not> k < 13" and "k < 32" for k :: nat
    using that bits_of_u32 [of k] by auto
  have "\<not> bit (absoluteX packet) k" "\<not> bit (absoluteY packet) k" if "\<not> k < 13" "k < 32" for k
    using above [OF that] by (auto simp: absoluteX_def absoluteY_def bit_simps dest: bit_imp_le_length)
  then have "absoluteX packet < 2 ^ 13" "absoluteY packet < 2 ^ 13"
    by (rule_tac word_less_if_bits; use bit_imp_le_length in force)+
  then show "absoluteX packet < 8192" "absoluteY packet < 8192" by simp_all
qed

section \<open>Scaling and acceleration stay in range\<close>

lemma sint_diff_below:
  assumes "(x :: u32) < 8192" and "(y :: u32) < 8192"
  shows "sint (x - y) = uint x - uint y" and "\<bar>sint (x - y)\<bar> \<le> 8191"
proof -
  have x: "uint x < 8192" "uint y < 8192" using assms by (simp_all add: word_less_def)
  then have d: "- 8192 < uint x - uint y" "uint x - uint y < 8192"
    using uint_ge_0 [of x] uint_ge_0 [of y] by linarith+
  have "x - y = word_of_int (uint x - uint y)" by simp
  then have "sint (x - y) = sint (word_of_int (uint x - uint y) :: u32)" by (simp only:)
  also have "\<dots> = uint x - uint y"
    using d by (intro sint_word_of_int) auto
  finally show *: "sint (x - y) = uint x - uint y" .
  show "\<bar>sint (x - y)\<bar> \<le> 8191" unfolding * using d by auto
qed

lemma sint_double:
  assumes "\<bar>sint (d :: u32)\<bar> \<le> 8191"
  shows "sint (push_bit 1 d) = 2 * sint d"
proof -
  have "push_bit 1 d = word_of_int (2 * sint d)" by simp
  then have "sint (push_bit 1 d) = sint (word_of_int (2 * sint d) :: u32)" by (simp only:)
  also have "\<dots> = 2 * sint d" using assms by (intro sint_word_of_int) auto
  finally show ?thesis .
qed

lemma to_s32_dbl:
  assumes "\<bar>x\<bar> \<le> of_int b" and "b \<le> 500000000"
  shows "\<exists>n. to_s32 (dbl x) = Some n \<and> \<bar>sint n\<bar> \<le> 2 * b"
proof -
  have b: "(of_int b :: rat) \<le> of_int 500000000" using assms(2) by (simp only: of_int_le_iff)
  have *: "\<bar>dbl x\<bar> \<le> of_int (2 * b)" using dbl_abs [of x] assms(1) by simp
  then have "\<bar>dbl x\<bar> < 2147483648" using b by simp
  then obtain n where "to_s32 (dbl x) = Some n" using to_s32_Some by blast
  with to_s32_bound [OF this *] show ?thesis by blast
qed

lemma scaled_s32:
  assumes "\<bar>sint d\<bar> \<le> b" and "0 \<le> f" and "f \<le> 1000" and "b \<le> 500000"
  shows "\<exists>n. to_s32 (dbl (of_s32 d * f)) = Some n \<and> \<bar>sint n\<bar> \<le> 2000 * b"
proof -
  have "\<bar>of_s32 d\<bar> \<le> of_int b"
    using assms(1) by (simp only: of_s32_def of_int_abs [symmetric] of_int_le_iff)
  then have "\<bar>of_s32 d * f\<bar> \<le> of_int b * 1000"
    using assms(2,3) by (auto simp: abs_mult intro!: mult_mono)
  then have "\<bar>of_s32 d * f\<bar> \<le> of_int (1000 * b)" by simp
  from to_s32_dbl [OF this] assms(4) show ?thesis by simp
qed

definition speeds_ok :: "synaptics \<Rightarrow> bool" where
  "speeds_ok p \<longleftrightarrow> 1 \<le> tp_scaleFactor p \<and> 0 \<le> prefTrackSpeed p \<and> prefTrackSpeed p \<le> 1000 \<and>
     0 \<le> prefScrollSpeed p \<and> prefScrollSpeed p \<le> 1000"

lemma scaleDelta_total:
  assumes "speeds_ok p" and "tp_prevX p < 8192" and "tp_prevY p < 8192" and "x < 8192" and "y < 8192"
  shows "\<exists>a b. scaleDelta p x y = Some (a, b) \<and> \<bar>sint a\<bar> \<le> 40000000 \<and> \<bar>sint b\<bar> \<le> 40000000"
proof -
  let ?dx = "x - tp_prevX p" and ?dy = "y - tp_prevY p"
  have dx: "\<bar>sint ?dx\<bar> \<le> 8191" and dy: "\<bar>sint ?dy\<bar> \<le> 8191"
    using assms by (auto intro: sint_diff_below)
  have "\<bar>of_s32 ?dy / tp_scaleFactor p\<bar> \<le> \<bar>of_s32 ?dy\<bar> / 1"
    using assms(1) unfolding abs_divide by (intro divide_left_mono) (auto simp: speeds_ok_def)
  also have "\<dots> \<le> of_int 8191"
    using dy by (simp only: of_s32_def of_int_abs [symmetric] of_int_le_iff div_by_1)
  finally obtain q where q: "to_s32 (dbl (of_s32 ?dy / tp_scaleFactor p)) = Some q" "\<bar>sint q\<bar> \<le> 16382"
    using to_s32_dbl [of _ 8191] by fastforce
  have div: "dbl_div (of_s32 ?dy) (tp_scaleFactor p) = Some (dbl (of_s32 ?dy / tp_scaleFactor p))"
    using assms(1) by (auto simp: dbl_div_def speeds_ok_def)
  have dx2: "\<bar>sint (push_bit 1 ?dx)\<bar> \<le> 16382" using dx sint_double [OF dx] by simp
  have speed: "0 \<le> prefTrackSpeed p" "prefTrackSpeed p \<le> 1000" "0 \<le> prefScrollSpeed p"
    "prefScrollSpeed p \<le> 1000" using assms(1) by (auto simp: speeds_ok_def)
  obtain a1 a2 b1 b2 where
    "to_s32 (dbl (of_s32 ?dx * prefTrackSpeed p)) = Some a1" "\<bar>sint a1\<bar> \<le> 2000 * 8191"
    "to_s32 (dbl (of_s32 (push_bit 1 ?dx) * prefScrollSpeed p)) = Some a2" "\<bar>sint a2\<bar> \<le> 2000 * 16382"
    "to_s32 (dbl (of_s32 q * prefTrackSpeed p)) = Some b1" "\<bar>sint b1\<bar> \<le> 2000 * 16382"
    "to_s32 (dbl (of_s32 q * prefScrollSpeed p)) = Some b2" "\<bar>sint b2\<bar> \<le> 2000 * 16382"
    using scaled_s32 [OF dx speed(1,2)] scaled_s32 [OF dx2 speed(3,4)] scaled_s32 [OF q(2) speed(1,2)]
      scaled_s32 [OF q(2) speed(3,4)] by force
  then show ?thesis using q(1) by (simp add: scaleDelta_def Let_def div)
qed

lemma sint_ABS:
  assumes "- 2147483648 < sint (d :: u32)"
  shows "sint (ABS d) = \<bar>sint d\<bar>"
proof (cases "sint d < 0")
  case True
  have "- d = word_of_int (- sint d)" by simp
  then have "sint (- d) = sint (word_of_int (- sint d) :: u32)" by (simp only:)
  also have "\<dots> = - sint d"
    using True assms by (intro sint_word_of_int) auto
  finally show ?thesis using True by (simp add: ABS_def word_sless_alt)
qed (simp add: ABS_def word_sless_alt)

lemma accelerate_total:
  assumes "\<bar>sint d\<bar> \<le> 40000000"
  shows "\<exists>n. accelerate d = Some n"
proof -
  have "sint (ABS d) = \<bar>sint d\<bar>" using assms by (intro sint_ABS) auto
  then show ?thesis by (auto simp: accelerate_def table_at_def word_sless_alt)
qed

section \<open>Every packet is handled\<close>

text \<open>The resources that the handler calls through pointers.\<close>

definition resources_ok :: "synaptics \<Rightarrow> bool" where
  "resources_ok p \<longleftrightarrow> tp_dragTimeout p \<and> tp_keyboard p"

lemma resources_framing: "framing p = framing q \<Longrightarrow> resources_ok p = resources_ok q"
  by (simp add: framing_def resources_ok_def)

definition tp_events :: "u8 set" where
  "tp_events = {DEFAULT_EVENT, DRAGGING, SCROLLING, HORIZONTAL_SCROLLING, VERTICAL_SCROLLING, MOVEMENT, SWIPE}"

definition event_ok :: "synaptics \<Rightarrow> bool" where
  "event_ok p \<longleftrightarrow> tp_event p \<in> tp_events \<and> tp_settleTime p \<le> 10"

lemma tp_events_members [simp]:
  "DEFAULT_EVENT \<in> tp_events" "DRAGGING \<in> tp_events" "SCROLLING \<in> tp_events"
  "HORIZONTAL_SCROLLING \<in> tp_events" "VERTICAL_SCROLLING \<in> tp_events" "MOVEMENT \<in> tp_events"
  "SWIPE \<in> tp_events"
  by (simp_all add: tp_events_def)

lemma selectEvent_ok: "tp_event p \<in> tp_events \<Longrightarrow> selectEvent p dt n w \<in> tp_events"
  by (simp add: selectEvent_def fingersEvent_def Let_def)

lemma settle_decrement: "(t :: u32) \<noteq> 0 \<Longrightarrow> t \<le> 10 \<Longrightarrow> t - 1 \<le> 10"
  by (simp add: word_le_nat_alt unat_minus_one)

lemma newStream_total:
  assumes "resources_ok p" and "event_ok p"
  shows "\<exists>s'. newStream (l, p) = Some s' \<and> event_ok (snd s')"
  using assms
  by (simp add: newStream_def cancelTimeout_def resources_ok_def event_ok_def Let_def)

lemma endOfMovement_total:
  assumes "resources_ok p" and "event_ok p"
  shows "\<exists>s'. endOfMovement (l, p) = Some s' \<and> event_ok (snd s')"
  using assms by (simp add: endOfMovement_def setTimeoutUS_def resources_ok_def event_ok_def Let_def)

lemma endOfDragging_total:
  assumes "resources_ok p" and "event_ok p"
  shows "\<exists>s'. endOfDragging now (l, p) = Some s' \<and> event_ok (snd s')"
  using assms by (simp add: endOfDragging_def setTimeoutUS_def resources_ok_def event_ok_def Let_def)

lemma endOfSwipe_total:
  assumes "resources_ok p" and "event_ok p"
  shows "\<exists>s'. endOfSwipe n now (l, p) = Some s' \<and> event_ok (snd s')"
  using assms by (simp add: endOfSwipe_def dispatchSwipeEvent_def resources_ok_def event_ok_def Let_def)

lemma endOfStream_total:
  assumes "resources_ok p" and "event_ok p"
  shows "\<exists>s'. endOfStream e n now (l, p) = Some s' \<and> event_ok (snd s')"
  using endOfMovement_total [OF assms] endOfDragging_total [OF assms] endOfSwipe_total [OF assms] assms(2)
  by (simp add: endOfStream_def endOfScrolling_def event_ok_def Let_def)

lemma eventCalculations_total:
  assumes "resources_ok (snd s)" and "event_ok (snd s)"
  shows "\<exists>s'. eventCalculations e n now s = Some s' \<and> event_ok (snd s')"
proof -
  obtain l p where s: "s = (l, p)" by force
  with assms have p: "resources_ok p" "event_ok p" by auto
  then show ?thesis
    using newStream_total [OF p] endOfStream_total [OF p]
    by (auto simp: s eventCalculations_def event_ok_def Let_def settle_decrement)
qed

lemma edgeScrolling_ok: "event_ok p \<Longrightarrow> event_ok (edgeScrolling e x y p)"
  by (simp add: edgeScrolling_def event_ok_def)

lemma scrolling_ok: "event_ok (snd s) \<Longrightarrow> event_ok (snd (scrollingCalculations e s))"
  by (cases s) (simp add: scrollingCalculations_def event_ok_def)

lemma draggingCalculations_total:
  assumes "resources_ok (snd s)" and "event_ok (snd s)"
  shows "\<exists>s'. draggingCalculations s = Some s' \<and> event_ok (snd s')"
proof -
  obtain l p where s: "s = (l, p)" by force
  from assms show ?thesis
    unfolding s resources_ok_def
    by (auto simp: draggingCalculations_def cancelTimeout_def event_ok_def Let_def)
qed

lemma changeEvent_total:
  assumes "resources_ok (snd s)" and "event_ok (snd s)"
  shows "\<exists>s'. changeEvent e n x y now s = Some s' \<and> event_ok (snd s')"
proof (cases "(e XOR tp_event (snd s)) \<noteq> 0 \<or> tp_settleTime (snd s) \<noteq> 0")
  case True
  let ?s1 = "scrollingCalculations e (fst s, edgeScrolling e x y (snd s))"
  have fr1: "framing (snd ?s1) = framing (snd s)"
    using framing_scrolling [of e "(fst s, edgeScrolling e x y (snd s))"] by (simp add: framing_edgeScrolling)
  have ok1: "event_ok (snd ?s1)"
    using scrolling_ok [of "(fst s, edgeScrolling e x y (snd s))"] assms(2) by (simp add: edgeScrolling_ok)
  obtain s2 where s2: "eventCalculations e n now ?s1 = Some s2" and ok2: "event_ok (snd s2)"
    using eventCalculations_total ok1 assms(1) resources_framing [OF fr1] by blast
  have "resources_ok (snd s2)"
    using framing_eventCalculations [OF s2] fr1 assms(1) resources_framing by metis
  from draggingCalculations_total [OF this ok2] True s2 show ?thesis
    by (simp add: changeEvent_def Let_def)
next
  case False
  with assms(2) show ?thesis by (simp add: changeEvent_def)
qed

lemma dispatchEvent_event:
  "dispatchEvent now s = (l, p) \<Longrightarrow>
    (tp_event p = tp_event (snd s) \<or> tp_event p = MOVEMENT) \<and> tp_settleTime p = tp_settleTime (snd s)"
  by (cases s) (auto simp: dispatchEvent_def movementEvent_def Let_def split: prod.splits if_splits)

lemma dispatchEvent_ok: "dispatchEvent now s = (l, p) \<Longrightarrow> event_ok (snd s) \<Longrightarrow> event_ok p"
  using dispatchEvent_event [of now s l p] by (auto simp: event_ok_def)

lemma if_in: "x \<in> A \<Longrightarrow> y \<in> A \<Longrightarrow> (if b then x else y) \<in> A"
  by simp

lemma fingers_ok:
  assumes "tp_prevNumFingers p \<le> 3"
  shows "gestureFingers q (fingerCount p z w) \<le> 3"
proof -
  have "unat (tp_prevNumFingers p) \<in> {0, 1, 2, 3}"
    using assms by (auto simp: word_le_nat_alt)
  moreover have "tp_prevNumFingers p = of_nat k" if "unat (tp_prevNumFingers p) = k" for k
    by (simp flip: that)
  ultimately consider "tp_prevNumFingers p = 0" | "tp_prevNumFingers p = 1"
    | "tp_prevNumFingers p = 2" | "tp_prevNumFingers p = 3" by fastforce
  then have "fingerCount p z w \<in> {0, 1, 2, 3}"
    by cases (simp_all only: fingerCount_def Let_def simp_thms if_True if_False, (intro if_in; simp)+)
  then show ?thesis by (auto simp: gestureFingers_def)
qed

text \<open>
  A sound state: the hardware's ratio and the two speeds are in a sensible range, the timer
  and the keyboard exist, the event is one of the seven that the driver distinguishes, and
  the previous position is one that a packet can have.
\<close>

definition pad_sound :: "synaptics \<Rightarrow> bool" where
  "pad_sound p \<longleftrightarrow> speeds_ok p \<and> resources_ok p \<and> event_ok p \<and>
     tp_prevX p < 8192 \<and> tp_prevY p < 8192 \<and> tp_prevNumFingers p \<le> 3"

definition is_motion :: "u64 \<Rightarrow> effect \<Rightarrow> bool" where
  "is_motion now e =
     (case e of PointerEvent x y b t \<Rightarrow> t = now | ScrollEvent a b c t \<Rightarrow> t = now | _ \<Rightarrow> False)"

lemma dispatchEvent_fired:
  "dispatchEvent now s = (l, p) \<Longrightarrow> \<exists>e. l_fired l = l_fired (fst s) @ [e] \<and> is_motion now e"
  by (cases s) (auto simp: dispatchEvent_def movementEvent_def fire_def is_motion_def Let_def
      split: prod.splits if_splits)

lemma sound_framing:
  assumes "framing p = framing q"
  shows "speeds_ok p = speeds_ok q" and "resources_ok p = resources_ok q"
  using assms by (simp_all add: framing_def speeds_ok_def resources_ok_def)

text \<open>
  C23. From every sound state every packet of bytes whatever is handled to the end: no
  conversion from floating point is out of range, no access leaves the acceleration table
  and no timer or keyboard is missing. The state afterwards is sound again, so the settling
  time stays at most ten packets, and the last of the events dispatched is a pointer or
  scroll event with the packet's time.
\<close>

theorem absolute_packet_total:
  assumes "pad_sound p"
  shows "\<exists>es p'. absolutePacket clock now packet p = Some (es, p') \<and> pad_sound p' \<and>
    es \<noteq> [] \<and> is_motion now (last es)"
proof -
  define X Y where XY: "X = absoluteX packet" "Y = absoluteY packet"
  have below: "X < 8192" "Y < 8192" unfolding XY by (rule absolute_below)+
  define p1 where "p1 = p\<lparr>tp_streamdt := tp_streamdt p + packetInterval clock p\<rparr>"
  have p1: "speeds_ok p1" "tp_prevX p1 < 8192" "tp_prevY p1 < 8192"
    using assms by (simp_all add: pad_sound_def p1_def speeds_ok_def)
  obtain a b where sc: "scaleDelta p1 X Y = Some (a, b)" and "\<bar>sint a\<bar> \<le> 40000000" "\<bar>sint b\<bar> \<le> 40000000"
    using scaleDelta_total [OF p1 below] by blast
  then obtain c d where ac: "accelerate a = Some c" "accelerate b = Some d"
    using accelerate_total by blast
  define p2 where "p2 = p1\<lparr>tp_streamdx := tp_streamdx p1 + c, tp_streamdy := tp_streamdy p1 + d\<rparr>"
  define w where "w = absoluteW p1 packet"
  define n where "n = gestureFingers p2 (fingerCount p2 (packet ! 2) w)"
  have n: "n \<le> 3"
    unfolding n_def using assms by (intro fingers_ok) (simp add: p2_def p1_def pad_sound_def)
  define p3 where "p3 = p2\<lparr>tp_event := selectEvent p2 (packetInterval clock p) n w\<rparr>"
  have "event_ok p2" using assms by (simp add: pad_sound_def event_ok_def p2_def p1_def)
  then have e3: "event_ok p3" using selectEvent_ok [of p2] by (simp add: event_ok_def p3_def)
  have f3: "framing p3 = framing p" by (simp add: p3_def p2_def p1_def framing_def)
  define l where "l = \<lparr>l_buttons = absButtons (prefSwapButtons p1) packet, l_dx = c, l_dy = d, l_fired = []\<rparr>"
  have "resources_ok p3" using assms sound_framing [OF f3] by (simp add: pad_sound_def)
  with e3 obtain s where s: "changeEvent (tp_event p) n X Y now (l, p3) = Some s"
    and "event_ok (snd s)"
    using changeEvent_total [of "(l, p3)" "tp_event p" n X Y now] by (metis snd_conv)
  moreover obtain l' p4 where d4: "dispatchEvent now s = (l', p4)" by force
  ultimately have e4: "event_ok p4" using dispatchEvent_ok by blast
  have f4: "framing p4 = framing p"
    using framing_changeEvent [OF s] framing_dispatchEvent [OF d4] f3 by simp
  let ?p' = "p4\<lparr>tp_prevX := X, tp_prevY := Y, tp_prevNumFingers := n,
    tp_prevPacketSecond := fst clock, tp_prevPacketTime := snd clock\<rparr>"
  have "absolutePacket clock now packet p = Some (l_fired l', ?p')"
    using sc ac s d4
    unfolding p1_def p2_def p3_def XY w_def n_def l_def by (simp add: absolutePacket_def Let_def)
  moreover have "pad_sound ?p'"
    using assms e4 below n sound_framing [OF f4]
    by (simp add: pad_sound_def event_ok_def speeds_ok_def resources_ok_def)
  moreover obtain es e where "l_fired l' = es @ [e]" "is_motion now e"
    using dispatchEvent_fired [OF d4] by blast
  ultimately show ?thesis by fastforce
qed

text \<open>The steps of a packet, with the fields that they do not read taken from the state before.\<close>

lemma unread [simp]:
  "scaleDelta (p\<lparr>tp_streamdt := t\<rparr>) x y = scaleDelta p x y"
  "absoluteW (p\<lparr>tp_streamdt := t\<rparr>) packet = absoluteW p packet"
  "fingerCount (p\<lparr>tp_streamdt := t, tp_streamdx := u, tp_streamdy := v\<rparr>) z w = fingerCount p z w"
  "gestureFingers (p\<lparr>tp_streamdt := t, tp_streamdx := u, tp_streamdy := v\<rparr>) k = gestureFingers p k"
  "selectEvent (p\<lparr>tp_streamdt := t, tp_streamdx := u, tp_streamdy := v\<rparr>) dt k w = selectEvent p dt k w"
  by (simp_all add: scaleDelta_def absoluteW_def fingerCount_def gestureFingers_def selectEvent_def
      fingersEvent_def W_MODE_def CAP_MULTIFINGER_def split del: if_split cong del: if_weak_cong)

definition fingersOf :: "synaptics \<Rightarrow> u8 list \<Rightarrow> u8" where
  "fingersOf p packet = gestureFingers p (fingerCount p (packet ! 2) (absoluteW p packet))"

lemma absolutePacket_steps:
  assumes "absolutePacket clock now packet p = Some (es, p')"
  obtains a b c d s l u where "scaleDelta p (absoluteX packet) (absoluteY packet) = Some (a, b)"
    and "accelerate a = Some c" and "accelerate b = Some d"
    and "changeEvent (tp_event p) (fingersOf p packet) (absoluteX packet) (absoluteY packet) now
      (\<lparr>l_buttons = absButtons (prefSwapButtons p) packet, l_dx = c, l_dy = d, l_fired = []\<rparr>,
       p\<lparr>tp_streamdt := tp_streamdt p + packetInterval clock p,
         tp_streamdx := tp_streamdx p + c, tp_streamdy := tp_streamdy p + d,
         tp_event := selectEvent p (packetInterval clock p) (fingersOf p packet) (absoluteW p packet)\<rparr>)
      = Some s"
    and "dispatchEvent now s = (l, u)" and "es = l_fired l"
    and "p' = u\<lparr>tp_prevX := absoluteX packet, tp_prevY := absoluteY packet,
      tp_prevNumFingers := fingersOf p packet, tp_prevPacketSecond := fst clock,
      tp_prevPacketTime := snd clock\<rparr>"
  using assms
  by (auto simp: absolutePacket_def Let_def fingersOf_def split: prod.splits)

section \<open>The pointer does not jump\<close>

text \<open>Either nothing has changed and nothing settles, or the three calculations are made.\<close>

lemma changeEvent_steps:
  assumes "changeEvent e n x y now (l, p) = Some (l', p')"
  obtains (steady) "e = tp_event p" and "tp_settleTime p = 0" and "l' = l" and "p' = p"
  | (changed) l1 p1 l2 p2 where "e \<noteq> tp_event p \<or> tp_settleTime p \<noteq> 0"
    and "scrollingCalculations e (l, edgeScrolling e x y p) = (l1, p1)"
    and "eventCalculations e n now (l1, p1) = Some (l2, p2)"
    and "draggingCalculations (l2, p2) = Some (l', p')"
proof (cases "e \<noteq> tp_event p \<or> tp_settleTime p \<noteq> 0")
  case True
  obtain l1 p1 where 1: "scrollingCalculations e (l, edgeScrolling e x y p) = (l1, p1)" by force
  with assms True obtain l2 p2 where "eventCalculations e n now (l1, p1) = Some (l2, p2)"
    and "draggingCalculations (l2, p2) = Some (l', p')"
    by (auto simp: changeEvent_def xor_eq_0_iff)
  with True 1 show ?thesis by (rule changed)
next
  case False
  then have "e = tp_event p" "tp_settleTime p = 0" by simp_all
  moreover with assms have "l' = l" "p' = p" by (simp_all add: changeEvent_def)
  ultimately show ?thesis by (rule steady)
qed

lemmas event_defs = eventCalculations_def newStream_def endOfStream_def endOfScrolling_def
  endOfMovement_def endOfDragging_def endOfSwipe_def dispatchSwipeEvent_def setTimeoutUS_def
  cancelTimeout_def fire_def halt_def Let_def

lemmas dragging_defs = draggingCalculations_def cancelTimeout_def fire_def Let_def

text \<open>While the event changes or settles, movement is suppressed unless scrolling goes on.\<close>

lemma changeEvent_suppresses:
  assumes "changeEvent e n x y now (l, p) = Some (l', p')"
    and "l_dx l' \<noteq> 0 \<or> l_dy l' \<noteq> 0" and "tp_event p' \<noteq> SCROLLING"
  shows "e = tp_event p \<and> tp_settleTime p = 0 \<and> l' = l \<and> p' = p"
  using assms(1)
proof (cases rule: changeEvent_steps)
  case (changed l1 p1 l2 p2)
  define q where "q = edgeScrolling e x y p"
  note scroll = changed(2) [folded q_def]
  have d3: "l_dx l' = l_dx l2" "l_dy l' = l_dy l2"
    using changed(4) by (auto simp: dragging_defs split: if_splits)
  have d2: "l_dx l2 = 0 \<and> l_dy l2 = 0" if "l_dx l1 = 0 \<and> l_dy l1 = 0"
    using changed(3) that by (auto simp: event_defs split: prod.splits if_splits)
  show ?thesis
  proof (cases "e \<noteq> SCROLLING \<or> tp_event q \<noteq> SCROLLING \<or> tp_settleTime q = 1")
    case True
    then have "l_dx l1 = 0 \<and> l_dy l1 = 0"
      using scroll by (auto simp: scrollingCalculations_def halt_def split: if_splits)
    with d2 d3 assms(2) show ?thesis by simp
  next
    case False
    then have "q = p" by (auto simp: q_def edgeScrolling_def ps2_consts split: if_splits)
    moreover from False have "l1 = l \<and> p1 = q"
      using scroll by (simp add: scrollingCalculations_def)
    moreover from calculation False changed(1) have "tp_settleTime p \<noteq> 0" by auto
    ultimately have "p2 = p\<lparr>tp_settleTime := tp_settleTime p - 1\<rparr>"
      using changed(3) by (simp add: eventCalculations_def)
    with False \<open>q = p\<close> have "tp_event p2 = SCROLLING" by simp
    with changed(4) assms(3) show ?thesis
      by (auto simp: draggingCalculations_def ps2_consts split: if_splits)
  qed
qed simp

text \<open>Only the last event of a packet can carry a movement, and only in two of the events.\<close>

definition still :: "effect \<Rightarrow> bool" where
  "still e \<longleftrightarrow> (\<forall>x y b t. e = PointerEvent x y b t \<longrightarrow> x = 0 \<and> y = 0)"

lemma still_simps [simp]:
  "still (PointerEvent 0 0 b t)" "still (KeyEvent k d s)" "still (IOLog m)"
  "still (SetTimeoutUS us)" "still CancelTimeout" "still (ScrollEvent h i j t)"
  by (simp_all add: still_def)

lemma changeEvent_still:
  assumes "changeEvent e n x y now (l, p) = Some (l', p')" and "l_fired l = []"
  shows "\<forall>f\<in>set (l_fired l'). still f"
  using assms(1)
proof (cases rule: changeEvent_steps)
  case (changed l1 p1 l2 p2)
  have "l_fired l1 = []"
    using changed(2) assms(2) by (auto simp: scrollingCalculations_def halt_def split: if_splits)
  then have "\<forall>f\<in>set (l_fired l2). still f"
    using changed(3) by (auto simp: event_defs split: prod.splits if_splits)
  then show ?thesis using changed(4) by (auto simp: dragging_defs split: if_splits)
qed (simp add: assms(2))

lemma dispatchEvent_movement:
  assumes "dispatchEvent now (l, p) = (l', p')" and "\<forall>f\<in>set (l_fired l). still f"
    and "\<not> still f" and "f \<in> set (l_fired l')"
  shows "(tp_event p = MOVEMENT \<or> tp_event p = DRAGGING) \<and>
    (\<exists>b. f = PointerEvent (l_dx l) (- l_dy l) b now)"
  using assms
  by (auto simp: dispatchEvent_def movementEvent_def fire_def Let_def split: if_splits prod.splits)

text \<open>
  C24. The pointer does not jump when fingers are set down, lifted or added. A pointer event
  that carries a movement is dispatched only if the pointer was already being moved (or
  something dragged) before the packet, nothing is settling, the packet came within 20 ms of
  the one before it and a finger is on the pad. The movement is then exactly the scaled and
  accelerated difference of the positions of the two packets, the vertical one with its sign
  changed.
\<close>

theorem no_pointer_jumps:
  assumes "absolutePacket clock now packet p = Some (es, p')"
    and "PointerEvent x y b t \<in> set es" and "x \<noteq> 0 \<or> y \<noteq> 0"
  shows "(tp_event p = MOVEMENT \<or> tp_event p = DRAGGING) \<and> tp_settleTime p = 0 \<and>
    packetInterval clock p \<le> 20000 \<and> fingersOf p packet \<noteq> 0 \<and> t = now \<and>
    (\<exists>dx dy. scaleDelta p (absoluteX packet) (absoluteY packet) = Some (dx, dy) \<and>
      accelerate dx = Some x \<and> accelerate dy = Some (- y))"
proof (rule absolutePacket_steps [OF assms(1)], goal_cases)
  case (1 a b c d s l u)
  define e where "e = selectEvent p (packetInterval clock p) (fingersOf p packet) (absoluteW p packet)"
  obtain m q where s: "s = (m, q)" by force
  note change = 1(4) [unfolded s e_def [symmetric]]
  have f: "\<not> still (PointerEvent x y b' t)" for b' using assms(3) by (auto simp: still_def)
  have "\<forall>f\<in>set (l_fired m). still f" using changeEvent_still [OF change] by simp
  then have ev: "tp_event q = MOVEMENT \<or> tp_event q = DRAGGING" and xy: "x = l_dx m" "y = - l_dy m" "t = now"
    using dispatchEvent_movement [OF 1(5) [unfolded s] _ f] assms(2) 1(6) by auto
  have same: "tp_event p = e" "tp_settleTime p = 0" "m = \<lparr>l_buttons = absButtons (prefSwapButtons p) packet,
      l_dx = c, l_dy = d, l_fired = []\<rparr>" "tp_event q = e"
    using changeEvent_suppresses [OF change] xy assms(3) ev by (auto simp: ps2_consts)
  from same ev have "packetInterval clock p \<le> 20000 \<and> fingersOf p packet \<noteq> 0"
    by (auto simp: e_def selectEvent_def Let_def ps2_consts split: if_splits)
  with same ev xy 1(1-3) show ?case by auto
qed

section \<open>Physical buttons\<close>

definition no_tapping :: "synaptics \<Rightarrow> bool" where
  "no_tapping p \<longleftrightarrow> \<not> prefClicking p \<and> \<not> tp_tapped p \<and> \<not> tp_dragging p \<and> \<not> tp_dragLocked p \<and>
     tp_event p \<noteq> DRAGGING"

definition is_pointer :: "effect \<Rightarrow> bool" where
  "is_pointer e \<longleftrightarrow> (\<exists>x y b t. e = PointerEvent x y b t)"

lemma is_pointer_simps [simp]:
  "\<not> is_pointer (KeyEvent k d s)" "\<not> is_pointer (IOLog m)"
  by (simp_all add: is_pointer_def)

lemma edgeScrolling_no_tapping: "no_tapping p \<Longrightarrow> no_tapping (edgeScrolling e x y p)"
  by (simp add: edgeScrolling_def no_tapping_def ps2_consts)

lemma changeEvent_no_tapping:
  assumes "changeEvent e n x y now (l, p) = Some (l', p')" and "no_tapping p" and "e \<noteq> DRAGGING"
    and "l_fired l = []"
  shows "no_tapping p' \<and> l_buttons l' = l_buttons l \<and> (\<forall>f\<in>set (l_fired l'). \<not> is_pointer f) \<and>
    (l_fired l' = [] \<or> e \<in> {ZOOMING, SWIPE})"
  using assms(1)
proof (cases rule: changeEvent_steps)
  case (changed l1 p1 l2 p2)
  have 1: "no_tapping p1" "l_buttons l1 = l_buttons l" "l_fired l1 = []"
    using changed(2) edgeScrolling_no_tapping [OF assms(2), of e x y] assms(4)
    by (auto simp: scrollingCalculations_def halt_def no_tapping_def ps2_consts split: if_splits)
  have 2: "no_tapping p2 \<and> l_buttons l2 = l_buttons l \<and> (\<forall>f\<in>set (l_fired l2). \<not> is_pointer f) \<and>
      (l_fired l2 = [] \<or> e \<in> {ZOOMING, SWIPE})"
  proof (cases "tp_settleTime p1 = 0 \<and> e \<noteq> DEFAULT_EVENT \<and> tp_event p1 = DEFAULT_EVENT")
    case True
    then have stream: "endOfStream e n now (l1, p1) = Some (l2, p2)"
      using changed(3) by (simp add: eventCalculations_def)
    consider "e = SCROLLING" | "e = MOVEMENT" | "e = ZOOMING \<or> e = SWIPE"
      | "e \<notin> {SCROLLING, MOVEMENT, DRAGGING, ZOOMING, SWIPE}" using assms(3) by auto
    then show ?thesis
    proof cases
      case 1
      with stream \<open>no_tapping p1\<close> \<open>l_buttons l1 = l_buttons l\<close> \<open>l_fired l1 = []\<close> show ?thesis
        by (auto simp: endOfStream_def endOfScrolling_def no_tapping_def ps2_consts)
    next
      case 2
      with stream \<open>no_tapping p1\<close> \<open>l_buttons l1 = l_buttons l\<close> \<open>l_fired l1 = []\<close> show ?thesis
        by (auto simp: endOfStream_def endOfMovement_def no_tapping_def ps2_consts)
    next
      case 3
      with stream have "endOfSwipe n now (l1, p1) = Some (l2, p2)"
        by (auto simp: endOfStream_def ps2_consts)
      with 3 \<open>no_tapping p1\<close> \<open>l_buttons l1 = l_buttons l\<close> \<open>l_fired l1 = []\<close> show ?thesis
        by (auto simp: endOfSwipe_def dispatchSwipeEvent_def fire_def no_tapping_def DRAGGING_def
            DEFAULT_EVENT_def Let_def split: if_splits)
    next
      case 4
      with stream \<open>no_tapping p1\<close> \<open>l_buttons l1 = l_buttons l\<close> \<open>l_fired l1 = []\<close> show ?thesis
        by (auto simp: endOfStream_def no_tapping_def split: if_splits)
    qed
  next
    case False
    with changed(3) 1 show ?thesis
      by (auto simp: eventCalculations_def newStream_def halt_def no_tapping_def Let_def split: if_splits)
  qed
  with changed(4) show ?thesis
    by (auto simp: dragging_defs no_tapping_def split: if_splits)
qed (simp add: assms)

text \<open>
  C25. With tapping switched off the driver never makes up a button: from a state without a
  tap or drag in progress, every packet leads to such a state again and dispatches exactly
  one pointer or scroll event, preceded at most by the keys of a swipe; if it is a pointer
  event, its buttons are the packet's, swapped if the preference says so.
\<close>

theorem physical_buttons_without_tapping:
  assumes "absolutePacket clock now packet p = Some (es, p')" and "no_tapping p"
  shows "no_tapping p' \<and>
    (\<exists>keys e. es = keys @ [e] \<and> is_motion now e \<and> (\<forall>f\<in>set keys. \<not> is_pointer f) \<and>
       (keys = [] \<or> tp_event p \<in> {ZOOMING, SWIPE}) \<and>
       (\<forall>x y b t. e = PointerEvent x y b t \<longrightarrow>
          b = ucast (absButtons (prefSwapButtons p) packet)))"
proof (rule absolutePacket_steps [OF assms(1)], goal_cases)
  case (1 a b c d s l u)
  obtain m q where s: "s = (m, q)" by force
  let ?e = "selectEvent p (packetInterval clock p) (fingersOf p packet) (absoluteW p packet)"
  have "?e \<noteq> DRAGGING"
    using assms(2) by (auto simp: selectEvent_def fingersEvent_def no_tapping_def Let_def ps2_consts)
  with assms(2) have q: "no_tapping q" "l_buttons m = absButtons (prefSwapButtons p) packet"
    "\<forall>f\<in>set (l_fired m). \<not> is_pointer f" "l_fired m = [] \<or> tp_event p \<in> {ZOOMING, SWIPE}"
    using changeEvent_no_tapping [OF 1(4) [unfolded s]] by (auto simp: no_tapping_def)
  then have "\<exists>e. l_fired l = l_fired m @ [e] \<and> is_motion now e \<and>
      (\<forall>x y b t. e = PointerEvent x y b t \<longrightarrow> b = ucast (l_buttons m))" and "no_tapping u"
    using 1(5) unfolding s
    by (auto simp: dispatchEvent_def movementEvent_def fire_def is_motion_def no_tapping_def Let_def
        split: prod.splits if_splits)
  then show ?case using q(2-) 1(6,7) by (auto simp: no_tapping_def)
qed

section \<open>The middle button in relative mode\<close>

text \<open>
  The specification: both buttons pressed together switch to scrolling and are hidden; they
  stay hidden until a packet without buttons. \<open>hidden\<close> is the state between packets.
\<close>

fun emulateMiddle :: "bool \<Rightarrow> u8 list \<Rightarrow> u32 list" where
  "emulateMiddle hidden [] = []"
| "emulateMiddle hidden (b # bs) =
     (if b AND 3 = 3 then 0 # emulateMiddle True bs
      else if hidden then 0 # emulateMiddle (b \<noteq> 0) bs
      else ucast b # emulateMiddle (b AND 4 \<noteq> 0) bs)"

fun relativeFeed ::
  "u32 \<times> u32 \<Rightarrow> u64 \<Rightarrow> u8 list list \<Rightarrow> synaptics \<Rightarrow> (effect list \<times> synaptics) option" where
  "relativeFeed clock now [] p = Some ([], p)"
| "relativeFeed clock now (packet # packets) p =
     do { (es, p) \<leftarrow> relativePacket clock now packet p;
          (es', p) \<leftarrow> relativeFeed clock now packets p;
          Some (es @ es', p) }"

definition relativeEvents :: "u64 \<Rightarrow> u8 list list \<Rightarrow> u32 list \<Rightarrow> effect list" where
  "relativeEvents now packets bs =
     map2 (\<lambda>packet b. PointerEvent (packetDx packet) (packetDy packet) b now) packets bs"

lemma relativeButtons_step:
  assumes "packet ! 0 AND 7 = b" and "relativeButtons packet p = (r, p')"
  shows "r = hd (emulateMiddle (tp_prevButtons p AND 4 \<noteq> 0) [b])"
    and "(tp_prevButtons p' AND 4 \<noteq> 0) = (if b AND 3 = 3 then True
      else if tp_prevButtons p AND 4 \<noteq> 0 then b \<noteq> 0 else b AND 4 \<noteq> 0)"
    and "tp_event p' = tp_event p \<or> tp_event p' = MOVEMENT"
proof -
  have "b < 8" using and_7_below [of "packet ! 0"] assms(1) by simp
  then show "r = hd (emulateMiddle (tp_prevButtons p AND 4 \<noteq> 0) [b])"
    and "(tp_prevButtons p' AND 4 \<noteq> 0) = (if b AND 3 = 3 then True
      else if tp_prevButtons p AND 4 \<noteq> 0 then b \<noteq> 0 else b AND 4 \<noteq> 0)"
    and "tp_event p' = tp_event p \<or> tp_event p' = MOVEMENT"
    by (rule low3_cases; insert assms;
        auto simp: relativeButtons_def Let_def and_4_cases split: if_splits)+
qed

lemma relativePacket_step:
  assumes "tp_event p \<noteq> SCROLLING"
  shows "\<exists>p'. relativePacket clock now packet p = Some ([PointerEvent (packetDx packet) (packetDy packet)
        (hd (emulateMiddle (tp_prevButtons p AND 4 \<noteq> 0) [packet ! 0 AND 7])) now], p') \<and>
    tp_event p' \<noteq> SCROLLING \<and>
    (tp_prevButtons p' AND 4 \<noteq> 0) = (if (packet ! 0 AND 7) AND 3 = 3 then True
      else if tp_prevButtons p AND 4 \<noteq> 0 then packet ! 0 AND 7 \<noteq> 0 else (packet ! 0 AND 7) AND 4 \<noteq> 0)"
proof -
  obtain r q where rq: "relativeButtons packet p = (r, q)" by force
  note step = relativeButtons_step [OF refl rq]
  have "tp_event q \<noteq> SCROLLING" using step(3) assms by (auto simp: ps2_consts)
  with rq show ?thesis by (simp add: relativePacket_def Let_def step(1,2) split del: if_split)
qed

lemma relativeFeed_machine:
  assumes "tp_event p \<noteq> SCROLLING"
  shows "\<exists>p'. relativeFeed clock now packets p =
      Some (relativeEvents now packets
              (emulateMiddle (tp_prevButtons p AND 4 \<noteq> 0) (map (\<lambda>packet. packet ! 0 AND 7) packets)), p')"
  using assms
proof (induction packets arbitrary: p)
  case (Cons packet packets)
  obtain q where q: "relativePacket clock now packet p = Some ([PointerEvent (packetDx packet)
      (packetDy packet) (hd (emulateMiddle (tp_prevButtons p AND 4 \<noteq> 0) [packet ! 0 AND 7])) now], q)"
    and ev: "tp_event q \<noteq> SCROLLING"
    and hidden: "(tp_prevButtons q AND 4 \<noteq> 0) = (if (packet ! 0 AND 7) AND 3 = 3 then True
      else if tp_prevButtons p AND 4 \<noteq> 0 then packet ! 0 AND 7 \<noteq> 0 else (packet ! 0 AND 7) AND 4 \<noteq> 0)"
    using relativePacket_step [OF Cons.prems] by blast
  from Cons.IH [OF ev] obtain p' where "relativeFeed clock now packets q = Some (relativeEvents now packets
      (emulateMiddle (tp_prevButtons q AND 4 \<noteq> 0) (map (\<lambda>packet. packet ! 0 AND 7) packets)), p')" by blast
  with q show ?case unfolding hidden by (simp add: relativeEvents_def)
qed (simp add: relativeEvents_def)

text \<open>
  Because the machine keeps its state in the remembered buttons, a real middle button that
  is held is reported as pressed in one packet only and as released in all that follow.
\<close>

lemma held_middle_button_lost:
  assumes "tp_event p \<noteq> SCROLLING" and "tp_prevButtons p AND 4 = 0"
    and "\<forall>packet\<in>set (first # packets). packet ! 0 AND 7 = 4"
  shows "\<exists>p'. relativeFeed clock now (first # packets) p =
    Some (relativeEvents now (first # packets) (4 # replicate (length packets) 0), p')"
proof -
  have "emulateMiddle True (map (\<lambda>packet. packet ! 0 AND 7) packets) = replicate (length packets) 0"
    using assms(3) by (induction packets) auto
  with assms relativeFeed_machine [OF assms(1), of clock now "first # packets"] show ?thesis
    by simp
qed

text \<open>
  C26. The emulation of the middle button in relative mode refines the two-state machine
  above: a sequence of packets yields one pointer event for each, in order, with the
  packet's movement and the buttons that the machine gives.
\<close>

theorem middle_button_machine:
  assumes "tp_event p \<noteq> SCROLLING"
  shows "\<exists>p'. relativeFeed clock now packets p =
      Some (relativeEvents now packets
              (emulateMiddle (tp_prevButtons p AND 4 \<noteq> 0) (map (\<lambda>packet. packet ! 0 AND 7) packets)), p')"
  using assms by (rule relativeFeed_machine)

theorem middle_button_machine_witness:
  "\<exists>p'. relativeFeed (0, 0) 7 [[0x08, 1, 2], [0x0b, 0, 0], [0x09, 3, 0], [0x08, 0, 0], [0x0a, 0, 0]]
     example_pad = Some
       ([PointerEvent 1 (- 2) 0 7, PointerEvent 0 0 0 7, PointerEvent 3 0 0 7,
         PointerEvent 0 0 0 7, PointerEvent 0 0 2 7], p')"
  using middle_button_machine [of example_pad "(0, 0)" 7
    "[[0x08, 1, 2], [0x0b, 0, 0], [0x09, 3, 0], [0x08, 0, 0], [0x0a, 0, 0]]"]
  by (simp add: example_pad_def relativeEvents_def packetDx_def packetDy_def ps2_consts)

section \<open>A packet on a concrete pad\<close>

definition moving_pad :: synaptics where
  "moving_pad = example_pad\<lparr>tp_touchPadModeByte := 0xC1, tp_capabilties := 2, tp_keyboard := True,
     tp_dragTimeout := True, tp_event := MOVEMENT, tp_prevX := 3000, tp_prevY := 3000,
     tp_prevNumFingers := 1\<rparr>"

definition moved_packet :: "u8 list" where
  "moved_packet = encodeAbsolute 3010 2980 60 5 1"

lemma moving_pad_sound: "pad_sound moving_pad" "no_tapping moving_pad"
  by (simp_all add: moving_pad_def example_pad_def pad_sound_def speeds_ok_def resources_ok_def
      event_ok_def no_tapping_def tp_events_def ps2_consts)

lemma moved: "map_option fst (absolutePacket (0, 12500) 7 moved_packet moving_pad) =
    Some [PointerEvent 4 9 1 7]"
  by code_simp

lemma moved_result:
  obtains p' where "absolutePacket (0, 12500) 7 moved_packet moving_pad = Some ([PointerEvent 4 9 1 7], p')"
  using moved by (auto simp: map_option_case split: option.splits)

theorem absolute_packet_roundtrip_witness:
  "absoluteX moved_packet = 3010 \<and> absoluteY moved_packet = 2980 \<and> absoluteW moving_pad moved_packet = 5"
  using absolute_packet_roundtrip [of 3010 2980 5 1 moving_pad 60]
  by (simp add: moved_packet_def moving_pad_def W_MODE_def ps2_consts)

theorem absolute_packet_total_witness:
  "\<exists>es p'. absolutePacket (0, 12500) 7 moved_packet moving_pad = Some (es, p') \<and> pad_sound p'"
  using absolute_packet_total [OF moving_pad_sound(1)] by blast

theorem no_pointer_jumps_witness:
  "\<exists>dx dy. scaleDelta moving_pad 3010 2980 = Some (dx, dy) \<and> accelerate dx = Some 4 \<and>
     accelerate dy = Some (- 9) \<and> fingersOf moving_pad moved_packet \<noteq> 0"
proof -
  obtain p' where "absolutePacket (0, 12500) 7 moved_packet moving_pad = Some ([PointerEvent 4 9 1 7], p')"
    by (rule moved_result)
  from no_pointer_jumps [OF this, of 4 9 1 7] show ?thesis
    by (simp add: moved_packet_def decode_absolute)
qed

theorem physical_buttons_without_tapping_witness:
  "\<exists>p'. absolutePacket (0, 12500) 7 moved_packet moving_pad = Some ([PointerEvent 4 9 1 7], p') \<and>
     no_tapping p'"
  using physical_buttons_without_tapping [OF _ moving_pad_sound(2)] by (metis moved_result)

end
