(* ===== verification/HID_KeyMapping.thy ===== *)
theory HID_KeyMapping
  imports PS2_KeyboardMaps
begin

text \<open>
  Key maps (\<^verbatim>\<open>IOHIDFamily/IOHIDSystem/IOHIKeyboardMapper.cpp\<close> and \<^verbatim>\<open>ev_keymap.h\<close>): the byte
  string that describes a keyboard layout, and \<open>parseKeyMapping\<close>, which walks through it
  once and leaves pointers into it. A pointer into the string is the list of the bytes from
  there to its end, so that reading through it past the end is \<open>None\<close>, as is an access
  outside one of the fixed arrays of the result.
\<close>

section \<open>Definitions\<close>

named_theorems hid_consts \<open>numeric values of the constants of the HID headers\<close>

definition NX_NUMKEYCODES :: nat where [hid_consts]: "NX_NUMKEYCODES = 256"
definition NX_NUMSEQUENCES :: nat where [hid_consts]: "NX_NUMSEQUENCES = 128"
definition NX_NUMMODIFIERS :: nat where [hid_consts]: "NX_NUMMODIFIERS = 16"
definition NX_WHICHMODMASK :: u8 where [hid_consts]: "NX_WHICHMODMASK = 0x0f"
definition NX_MODMASK :: u8 where [hid_consts]: "NX_MODMASK = 0x10"
definition NX_CHARGENMASK :: u8 where [hid_consts]: "NX_CHARGENMASK = 0x20"
definition NX_SPECIALKEYMASK :: u8 where [hid_consts]: "NX_SPECIALKEYMASK = 0x40"

definition NX_NOSPECIALKEY :: nat where [hid_consts]: "NX_NOSPECIALKEY = 0xFFFF"
definition NX_KEYTYPE_CAPS_LOCK :: nat where [hid_consts]: "NX_KEYTYPE_CAPS_LOCK = 4"
definition NX_POWER_KEY :: nat where [hid_consts]: "NX_POWER_KEY = 6"
definition NX_KEYTYPE_MUTE :: nat where [hid_consts]: "NX_KEYTYPE_MUTE = 7"
definition NX_KEYTYPE_NUM_LOCK :: nat where [hid_consts]: "NX_KEYTYPE_NUM_LOCK = 10"
definition NX_KEYTYPE_EJECT :: nat where [hid_consts]: "NX_KEYTYPE_EJECT = 14"
definition NX_KEYTYPE_VIDMIRROR :: nat where [hid_consts]: "NX_KEYTYPE_VIDMIRROR = 15"
definition NX_KEYTYPE_PLAY :: nat where [hid_consts]: "NX_KEYTYPE_PLAY = 16"
definition NX_KEYTYPE_ILLUMINATION_TOGGLE :: nat where [hid_consts]:
  "NX_KEYTYPE_ILLUMINATION_TOGGLE = 23"
definition NX_NUMSPECIALKEYS :: nat where [hid_consts]: "NX_NUMSPECIALKEYS = 24"
definition NX_NUM_SCANNED_SPECIALKEYS :: nat where [hid_consts]: "NX_NUM_SCANNED_SPECIALKEYS = 24"

definition NX_MODIFIERKEY_ALPHALOCK :: nat where [hid_consts]: "NX_MODIFIERKEY_ALPHALOCK = 0"
definition NX_MODIFIERKEY_SHIFT :: nat where [hid_consts]: "NX_MODIFIERKEY_SHIFT = 1"
definition NX_MODIFIERKEY_CONTROL :: nat where [hid_consts]: "NX_MODIFIERKEY_CONTROL = 2"
definition NX_MODIFIERKEY_ALTERNATE :: nat where [hid_consts]: "NX_MODIFIERKEY_ALTERNATE = 3"
definition NX_MODIFIERKEY_COMMAND :: nat where [hid_consts]: "NX_MODIFIERKEY_COMMAND = 4"
definition NX_MODIFIERKEY_NUMERICPAD :: nat where [hid_consts]: "NX_MODIFIERKEY_NUMERICPAD = 5"
definition NX_MODIFIERKEY_SECONDARYFN :: nat where [hid_consts]: "NX_MODIFIERKEY_SECONDARYFN = 7"
definition NX_MODIFIERKEY_NUMLOCK :: nat where [hid_consts]: "NX_MODIFIERKEY_NUMLOCK = 8"
definition NX_MODIFIERKEY_RSHIFT :: nat where [hid_consts]: "NX_MODIFIERKEY_RSHIFT = 9"
definition NX_MODIFIERKEY_RCONTROL :: nat where [hid_consts]: "NX_MODIFIERKEY_RCONTROL = 10"
definition NX_MODIFIERKEY_RALTERNATE :: nat where [hid_consts]: "NX_MODIFIERKEY_RALTERNATE = 11"
definition NX_MODIFIERKEY_RCOMMAND :: nat where [hid_consts]: "NX_MODIFIERKEY_RCOMMAND = 12"

definition NX_EVS_DEVICE_INTERFACE_ADB :: u32 where [hid_consts]: "NX_EVS_DEVICE_INTERFACE_ADB = 2"

text \<open>
  What a keyboard class says about itself through its virtual methods, and what its
  surroundings answer: the \<open>model\<close> property of the device tree's root, the device's status
  of the LEDs and the conversion of nanoseconds to the units of the system clock.
\<close>

record hik_class =
  interfaceID :: u32
  deviceType :: u32
  maxKeyCodes :: u32
  doesKeyLock :: "nat \<Rightarrow> bool"
  isADBButtons :: bool
  getLEDStatus :: u32
  defaultKeymap :: "u8 list"
  getGUID :: u64
  treeModel :: "string option"
  nanosecondsToAbsolute :: "u64 \<Rightarrow> u64"

text \<open>
  The answers of \<^verbatim>\<open>ApplePS2Keyboard\<close>, which inherits from \<^verbatim>\<open>IOHIKeyboard\<close> that no key
  locks and that there is no LED to be read.
\<close>

definition ps2_class :: "string option \<Rightarrow> (u64 \<Rightarrow> u64) \<Rightarrow> hik_class" where
  "ps2_class model absolute =
     \<lparr>interfaceID = NX_EVS_DEVICE_INTERFACE_ADB, deviceType = 0x1B, maxKeyCodes = 128,
      doesKeyLock = (\<lambda>_. False), isADBButtons = False, getLEDStatus = 0,
      defaultKeymap = fst defaultKeymapOfLength, getGUID = 0xffffffffffffffff,
      treeModel = model, nanosecondsToAbsolute = absolute\<rparr>"

record parsed_mapping =
  pm_shorts :: u16
  pm_keyBits :: "u8 list"
  pm_maxMod :: int
  pm_modDefs :: "u8 list option list"
  pm_numDefs :: int
  pm_keyDefs :: "u8 list option list"
  pm_numSeqs :: int
  pm_seqDefs :: "u8 list option list"
  pm_numSpecialKeys :: int
  pm_specialKeys :: "u16 list"
  pm_mapping :: "u8 list"

subsection \<open>Reading numbers\<close>

text \<open>
  \<open>NextNum\<close> stops at the end of the string, from where on it yields zeros; a short of which
  only the first byte is left is read from beyond the end. \<open>NEXTNUM\<close> does not stop.
\<close>

fun NextNum :: "bool \<Rightarrow> u8 list \<Rightarrow> (nat \<times> u8 list) option" where
  "NextNum shorts [] = Some (0, [])"
| "NextNum False (b # bp) = Some (unat b, bp)"
| "NextNum True [b] = None"
| "NextNum True (b # c # bp) = Some (256 * unat b + unat c, bp)"

fun NEXTNUM :: "bool \<Rightarrow> u8 list \<Rightarrow> (nat \<times> u8 list) option" where
  "NEXTNUM shorts [] = None"
| "NEXTNUM False (b # bp) = Some (unat b, bp)"
| "NEXTNUM True [b] = None"
| "NEXTNUM True (b # c # bp) = Some (256 * unat b + unat c, bp)"

text \<open>The number that marks a sequence, and a key without a definition.\<close>

definition allOnes :: "bool \<Rightarrow> nat" where
  "allOnes shorts = (if shorts then 0xFFFF else 0x00FF)"

subsection \<open>The parser\<close>

definition emptyMapping :: "u8 list \<Rightarrow> parsed_mapping" where
  "emptyMapping mapping =
     \<lparr>pm_shorts = 0, pm_keyBits = replicate NX_NUMKEYCODES 0, pm_maxMod = - 1,
      pm_modDefs = replicate NX_NUMMODIFIERS None, pm_numDefs = - 1,
      pm_keyDefs = replicate NX_NUMKEYCODES None, pm_numSeqs = - 1,
      pm_seqDefs = replicate NX_NUMSEQUENCES None, pm_numSpecialKeys = 0,
      pm_specialKeys = replicate NX_NUMSPECIALKEYS 0, pm_mapping = mapping\<rparr>"

definition modifierBits :: "nat \<Rightarrow> u8" where
  "modifierBits j = NX_MODMASK OR (of_nat j AND NX_WHICHMODMASK)"

text \<open>
  The loops over the keys of one modifier and over the modifiers, with the number of rounds
  that are left. The inner \<open>None\<close> of a result is the parser's \<open>return false\<close>.
\<close>

primrec parseModifierKeys ::
  "hik_class \<Rightarrow> bool \<Rightarrow> nat \<Rightarrow> nat \<Rightarrow> u8 list \<Rightarrow> u8 list
     \<Rightarrow> (u8 list \<times> u8 list) option option" where
  "parseModifierKeys C shorts j 0 keyBits bp = Some (Some (keyBits, bp))"
| "parseModifierKeys C shorts j (Suc n) keyBits bp =
     do { (l, bp) \<leftarrow> NextNum shorts bp;
          if NX_NUMKEYCODES \<le> l then Some None
          else if keyBits ! l AND NX_MODMASK \<noteq> 0 then Some None
          else parseModifierKeys C shorts j n
                 (if j \<noteq> NX_MODIFIERKEY_ALPHALOCK \<or> doesKeyLock C NX_KEYTYPE_CAPS_LOCK
                  then keyBits[l := keyBits ! l OR modifierBits j] else keyBits) bp }"

primrec parseModifiers ::
  "hik_class \<Rightarrow> bool \<Rightarrow> nat \<Rightarrow> parsed_mapping \<Rightarrow> u8 list
     \<Rightarrow> (parsed_mapping \<times> u8 list) option option" where
  "parseModifiers C shorts 0 pm bp = Some (Some (pm, bp))"
| "parseModifiers C shorts (Suc numMods) pm bp =
     do { (j, bp) \<leftarrow> NextNum shorts bp;
          if NX_NUMMODIFIERS \<le> j then Some None
          else do {
            let pm = pm\<lparr>pm_maxMod := max (pm_maxMod pm) (int j),
                        pm_modDefs := (pm_modDefs pm)[j := Some bp]\<rparr>;
            (n, bp) \<leftarrow> NextNum shorts bp;
            r \<leftarrow> parseModifierKeys C shorts j n (pm_keyBits pm) bp;
            case r of
              None \<Rightarrow> Some None
            | Some (keyBits, bp) \<Rightarrow>
                parseModifiers C shorts numMods (pm\<lparr>pm_keyBits := keyBits\<rparr>) bp } }"

text \<open>
  The number of characters of a key: twice as many for every modifier of its mask; and the
  loop that passes over them in search of the highest sequence number.
\<close>

primrec charCount :: "nat \<Rightarrow> nat \<Rightarrow> nat \<Rightarrow> nat" where
  "charCount 0 keyMask k = k"
| "charCount (Suc j) keyMask k = charCount j (keyMask div 2) (if odd keyMask then k * 2 else k)"

primrec parseChars ::
  "bool \<Rightarrow> nat \<Rightarrow> int \<Rightarrow> u8 list \<Rightarrow> (int \<times> u8 list) option" where
  "parseChars shorts 0 maxSeqNum bp = Some (maxSeqNum, bp)"
| "parseChars shorts (Suc k) maxSeqNum bp =
     do { (m, bp) \<leftarrow> NextNum shorts bp;
          (l, bp) \<leftarrow> NextNum shorts bp;
          parseChars shorts k
            (if m = allOnes shorts \<and> maxSeqNum < int l then int l else maxSeqNum) bp }"

text \<open>The loop over all key codes, \<open>i\<close> of them done and \<open>k\<close> left, of which \<open>n\<close> have a definition.\<close>

primrec parseKeyDefs ::
  "bool \<Rightarrow> nat \<Rightarrow> nat \<Rightarrow> nat \<Rightarrow> int \<Rightarrow> parsed_mapping \<Rightarrow> u8 list
     \<Rightarrow> (int \<times> parsed_mapping \<times> u8 list) option" where
  "parseKeyDefs shorts n i 0 maxSeqNum pm bp = Some (maxSeqNum, pm, bp)"
| "parseKeyDefs shorts n i (Suc k) maxSeqNum pm bp =
     (if i < n
      then do { let def = bp;
                (keyMask, bp) \<leftarrow> NextNum shorts bp;
                if keyMask \<noteq> allOnes shorts
                then do { let pm = pm\<lparr>pm_keyDefs := (pm_keyDefs pm)[i := Some def],
                                      pm_keyBits := (pm_keyBits pm)[i := pm_keyBits pm ! i
                                                                      OR NX_CHARGENMASK]\<rparr>;
                          let count = charCount (nat (pm_maxMod pm + 1)) keyMask 1;
                          (maxSeqNum, bp) \<leftarrow> parseChars shorts count maxSeqNum bp;
                          parseKeyDefs shorts n (Suc i) k maxSeqNum pm bp }
                else parseKeyDefs shorts n (Suc i) k maxSeqNum
                       (pm\<lparr>pm_keyDefs := (pm_keyDefs pm)[i := None]\<rparr>) bp }
      else parseKeyDefs shorts n (Suc i) k maxSeqNum
             (pm\<lparr>pm_keyDefs := (pm_keyDefs pm)[i := None]\<rparr>) bp)"

text \<open>The loops over sequences, which do not check that there is room for another one.\<close>

primrec skipPairs :: "bool \<Rightarrow> nat \<Rightarrow> u8 list \<Rightarrow> u8 list option" where
  "skipPairs shorts 0 bp = Some bp"
| "skipPairs shorts (Suc l) bp =
     do { (_, bp) \<leftarrow> NextNum shorts bp;
          (_, bp) \<leftarrow> NextNum shorts bp;
          skipPairs shorts l bp }"

primrec parseSequences ::
  "bool \<Rightarrow> nat \<Rightarrow> nat \<Rightarrow> parsed_mapping \<Rightarrow> u8 list \<Rightarrow> (parsed_mapping \<times> u8 list) option" where
  "parseSequences shorts i 0 pm bp = Some (pm, bp)"
| "parseSequences shorts i (Suc k) pm bp =
     (if i < length (pm_seqDefs pm)
      then do { let pm = pm\<lparr>pm_seqDefs := (pm_seqDefs pm)[i := Some bp]\<rparr>;
                (l, bp) \<leftarrow> NextNum shorts bp;
                bp \<leftarrow> skipPairs shorts l bp;
                parseSequences shorts (Suc i) k pm bp }
      else None)"

primrec parseSpecialKeys ::
  "bool \<Rightarrow> nat \<Rightarrow> u16 list \<Rightarrow> u8 list \<Rightarrow> u16 list option option" where
  "parseSpecialKeys shorts 0 specialKeys bp = Some (Some specialKeys)"
| "parseSpecialKeys shorts (Suc k) specialKeys bp =
     do { (j, bp) \<leftarrow> NextNum shorts bp;
          (l, bp) \<leftarrow> NextNum shorts bp;
          if NX_NUMSPECIALKEYS \<le> j then Some None
          else parseSpecialKeys shorts k (specialKeys[j := of_nat l]) bp }"

text \<open>The bits of the special keys' scan codes, which need not be key codes.\<close>

definition updateKeyBits :: "(u8 \<Rightarrow> u8) \<Rightarrow> nat \<Rightarrow> u8 list \<Rightarrow> u8 list option" where
  "updateKeyBits f key keyBits =
     (if key < length keyBits then Some (keyBits[key := f (keyBits ! key)]) else None)"

primrec markSpecialKeys :: "u16 list \<Rightarrow> u8 list \<Rightarrow> u8 list option" where
  "markSpecialKeys [] keyBits = Some keyBits"
| "markSpecialKeys (key # keys) keyBits =
     do { keyBits \<leftarrow> (if unat key \<noteq> NX_NOSPECIALKEY
                      then updateKeyBits (\<lambda>b. b OR (NX_CHARGENMASK OR NX_SPECIALKEYMASK)) (unat key) keyBits
                      else Some keyBits);
          markSpecialKeys keys keyBits }"

text \<open>The end of the parser, from the number of special keys on.\<close>

definition parseSpecials ::
  "hik_class \<Rightarrow> bool \<Rightarrow> parsed_mapping \<Rightarrow> u8 list \<Rightarrow> parsed_mapping option option" where
  "parseSpecials C shorts pm bp =
     do { (numMods, bp) \<leftarrow> NextNum shorts bp;
          let pm = pm\<lparr>pm_numSpecialKeys := int numMods\<rparr>;
          if NX_NUMSPECIALKEYS < numMods \<or> numMods = 0 then Some None
          else do {
            let pm = pm\<lparr>pm_specialKeys := replicate NX_NUMSPECIALKEYS (of_nat NX_NOSPECIALKEY)\<rparr>;
            let pm = (if interfaceID C = NX_EVS_DEVICE_INTERFACE_ADB
                      then pm\<lparr>pm_specialKeys := (pm_specialKeys pm)
                                [NX_KEYTYPE_CAPS_LOCK := 0x39, NX_KEYTYPE_NUM_LOCK := 0x47],
                              pm_keyDefs := (pm_keyDefs pm)[0x72 := pm_keyDefs pm ! 0x47]\<rparr>
                      else pm);
            r \<leftarrow> parseSpecialKeys shorts numMods (pm_specialKeys pm) bp;
            case r of
              None \<Rightarrow> Some None
            | Some specialKeys \<Rightarrow> do {
                keyBits \<leftarrow> markSpecialKeys (take NX_NUM_SCANNED_SPECIALKEYS specialKeys) (pm_keyBits pm);
                keyBits \<leftarrow> (if doesKeyLock C NX_KEYTYPE_CAPS_LOCK
                            then updateKeyBits (\<lambda>b. b AND NOT NX_CHARGENMASK)
                                   (unat (specialKeys ! NX_KEYTYPE_CAPS_LOCK)) keyBits
                            else Some keyBits);
                keyBits \<leftarrow> (case pm_modDefs pm ! NX_MODIFIERKEY_SECONDARYFN of
                              None \<Rightarrow> Some keyBits
                            | Some bp \<Rightarrow>
                                if 1 < length bp
                                then updateKeyBits (\<lambda>b. b AND NOT NX_CHARGENMASK) (unat (bp ! 1)) keyBits
                                else None);
                Some (Some (pm\<lparr>pm_specialKeys := specialKeys, pm_keyBits := keyBits\<rparr>)) } } }"

text \<open>
  The beginning of the parser, up to the number of sequences. The outer \<open>None\<close> is an access
  outside an object, the inner one \<open>return false\<close>. An empty string stands for a null pointer
  too.
\<close>

definition parseDefinitions ::
  "hik_class \<Rightarrow> u8 list \<Rightarrow> (bool \<times> int \<times> nat \<times> parsed_mapping \<times> u8 list) option option" where
  "parseDefinitions C mapping =
     (if mapping = [] then Some None
      else do {
        (s, bp) \<leftarrow> NextNum True mapping;
        let shorts = (s \<noteq> 0);
        let pm = (emptyMapping mapping)\<lparr>pm_shorts := of_nat s\<rparr>;
        (numMods, bp) \<leftarrow> NextNum shorts bp;
        r \<leftarrow> parseModifiers C shorts numMods pm bp;
        case r of
          None \<Rightarrow> Some None
        | Some (pm, bp) \<Rightarrow> do {
            let pm = (if \<not> doesKeyLock C NX_KEYTYPE_CAPS_LOCK
                      then pm\<lparr>pm_modDefs := (pm_modDefs pm)[NX_MODIFIERKEY_ALPHALOCK := None]\<rparr>
                      else pm);
            let pm = (if interfaceID C = NX_EVS_DEVICE_INTERFACE_ADB
                      then pm\<lparr>pm_keyBits := (pm_keyBits pm)[0x3f := pm_keyBits pm ! 0x3f OR
                                                 modifierBits NX_MODIFIERKEY_SECONDARYFN]\<rparr>
                      else pm);
            (numDefs, bp) \<leftarrow> NextNum shorts bp;
            let pm = pm\<lparr>pm_numDefs := int numDefs\<rparr>;
            (maxSeqNum, pm, bp) \<leftarrow> parseKeyDefs shorts numDefs 0 NX_NUMKEYCODES (- 1) pm bp;
            (numSeqs, bp) \<leftarrow> NextNum shorts bp;
            let pm = pm\<lparr>pm_numSeqs := int numSeqs\<rparr>;
            Some (Some (shorts, maxSeqNum, numSeqs, pm, bp)) } })"

definition parseKeyMapping :: "hik_class \<Rightarrow> u8 list \<Rightarrow> parsed_mapping option option" where
  "parseKeyMapping C mapping =
     do { r \<leftarrow> parseDefinitions C mapping;
          case r of
            None \<Rightarrow> Some None
          | Some (shorts, maxSeqNum, numSeqs, pm, bp) \<Rightarrow>
              if int numSeqs \<le> maxSeqNum then Some None
              else do { (pm, bp) \<leftarrow> parseSequences shorts 0 numSeqs pm bp;
                        parseSpecials C shorts pm bp } }"

definition getParsedSpecialKey :: "parsed_mapping \<Rightarrow> nat \<Rightarrow> u8" where
  "getParsedSpecialKey pm logical =
     (if logical < NX_NUMSPECIALKEYS then ucast (pm_specialKeys pm ! logical) else 0xff)"

end
