(* ===== verification/HID_KeyMaps.thy ===== *)
theory HID_KeyMaps
  imports HID_KeyMapping
begin

text \<open>
  Key maps as data, and their encoding as the byte string that \<open>parseKeyMapping\<close> reads.
  Parsing an encoded key map succeeds, and the pointers that it leaves lead to the parts of
  the key map.
\<close>

section \<open>Abstract key maps\<close>

text \<open>
  The modifiers with the keys assigned to them; for each key code a mask of the modifiers
  that matter for it and the characters, pairs of a character set and a code, one for each
  combination of them; the sequences that a key may stand for; and the special keys.
\<close>

type_synonym chars = "(nat \<times> nat) list"

record keymap =
  km_modifiers :: "(nat \<times> nat list) list"
  km_keys :: "(nat \<times> chars) option list"
  km_seqs :: "chars list"
  km_specials :: "(nat \<times> nat) list"

definition encNum :: "bool \<Rightarrow> nat \<Rightarrow> u8 list" where
  "encNum shorts n = (if shorts then [of_nat (n div 256), of_nat (n mod 256)] else [of_nat n])"

definition encNums :: "bool \<Rightarrow> nat list \<Rightarrow> u8 list" where
  "encNums shorts ns = concat (map (encNum shorts) ns)"

definition encPairs :: "bool \<Rightarrow> (nat \<times> nat) list \<Rightarrow> u8 list" where
  "encPairs shorts ps = concat (map (\<lambda>(a, b). encNum shorts a @ encNum shorts b) ps)"

definition encKeys :: "bool \<Rightarrow> nat list \<Rightarrow> u8 list" where
  "encKeys shorts ks = encNum shorts (length ks) @ encNums shorts ks"

definition encModifiers :: "bool \<Rightarrow> (nat \<times> nat list) list \<Rightarrow> u8 list" where
  "encModifiers shorts ms = concat (map (\<lambda>(j, ks). encNum shorts j @ encKeys shorts ks) ms)"

definition encDef :: "bool \<Rightarrow> nat \<times> chars \<Rightarrow> u8 list" where
  "encDef shorts def = encNum shorts (fst def) @ encPairs shorts (snd def)"

definition encDefs :: "bool \<Rightarrow> (nat \<times> chars) option list \<Rightarrow> u8 list" where
  "encDefs shorts defs =
     concat (map (\<lambda>d. case d of None \<Rightarrow> encNum shorts (allOnes shorts) | Some def \<Rightarrow> encDef shorts def) defs)"

definition encSeq :: "bool \<Rightarrow> chars \<Rightarrow> u8 list" where
  "encSeq shorts s = encNum shorts (length s) @ encPairs shorts s"

definition encSeqs :: "bool \<Rightarrow> chars list \<Rightarrow> u8 list" where
  "encSeqs shorts ss = concat (map (encSeq shorts) ss)"

definition encode :: "bool \<Rightarrow> keymap \<Rightarrow> u8 list" where
  "encode shorts km =
     encNum True (if shorts then 1 else 0)
     @ encNum shorts (length (km_modifiers km)) @ encModifiers shorts (km_modifiers km)
     @ encNum shorts (length (km_keys km)) @ encDefs shorts (km_keys km)
     @ encNum shorts (length (km_seqs km)) @ encSeqs shorts (km_seqs km)
     @ encNum shorts (length (km_specials km)) @ encPairs shorts (km_specials km)"

text \<open>What the parts of a key map amount to for a class of keyboards.\<close>

definition maxModOf :: "keymap \<Rightarrow> int" where
  "maxModOf km = fold (\<lambda>(j, _). max (int j)) (km_modifiers km) (- 1)"

definition modOf :: "hik_class \<Rightarrow> keymap \<Rightarrow> nat \<Rightarrow> nat list option" where
  "modOf C km j =
     (if j = NX_MODIFIERKEY_ALPHALOCK \<and> \<not> doesKeyLock C NX_KEYTYPE_CAPS_LOCK then None
      else map_of (km_modifiers km) j)"

definition keyAt :: "keymap \<Rightarrow> nat \<Rightarrow> (nat \<times> chars) option" where
  "keyAt km i = (if i < length (km_keys km) then km_keys km ! i else None)"

definition keyOf :: "hik_class \<Rightarrow> keymap \<Rightarrow> nat \<Rightarrow> (nat \<times> chars) option" where
  "keyOf C km i =
     (if interfaceID C = NX_EVS_DEVICE_INTERFACE_ADB \<and> i = 0x72 then keyAt km 0x47 else keyAt km i)"

definition specialsOf :: "hik_class \<Rightarrow> keymap \<Rightarrow> u16 list" where
  "specialsOf C km =
     fold (\<lambda>(j, l) keys. keys[j := of_nat l]) (km_specials km)
       (if interfaceID C = NX_EVS_DEVICE_INTERFACE_ADB
        then (replicate NX_NUMSPECIALKEYS (of_nat NX_NOSPECIALKEY))
               [NX_KEYTYPE_CAPS_LOCK := 0x39, NX_KEYTYPE_NUM_LOCK := 0x47]
        else replicate NX_NUMSPECIALKEYS (of_nat NX_NOSPECIALKEY))"

text \<open>The bits of the keys, in the order in which the parser sets them.\<close>

definition setBits :: "(u8 \<Rightarrow> u8) \<Rightarrow> nat \<Rightarrow> u8 list \<Rightarrow> u8 list" where
  "setBits f i bits = bits[i := f (bits ! i)]"

definition markModifier :: "hik_class \<Rightarrow> nat \<times> nat list \<Rightarrow> u8 list \<Rightarrow> u8 list" where
  "markModifier C m bits =
     (if fst m \<noteq> NX_MODIFIERKEY_ALPHALOCK \<or> doesKeyLock C NX_KEYTYPE_CAPS_LOCK
      then fold (setBits (\<lambda>b. b OR modifierBits (fst m))) (snd m) bits else bits)"

definition modifierKeyBits :: "hik_class \<Rightarrow> keymap \<Rightarrow> u8 list" where
  "modifierKeyBits C km =
     (let bits = fold (markModifier C) (km_modifiers km) (replicate NX_NUMKEYCODES 0)
      in if interfaceID C = NX_EVS_DEVICE_INTERFACE_ADB
         then setBits (\<lambda>b. b OR modifierBits NX_MODIFIERKEY_SECONDARYFN) 0x3f bits else bits)"

primrec markDefs :: "nat \<Rightarrow> (nat \<times> chars) option list \<Rightarrow> u8 list \<Rightarrow> u8 list" where
  "markDefs i [] bits = bits"
| "markDefs i (d # defs) bits =
     markDefs (Suc i) defs (if d = None then bits else setBits (\<lambda>b. b OR NX_CHARGENMASK) i bits)"

definition markSpecials :: "u16 list \<Rightarrow> u8 list \<Rightarrow> u8 list" where
  "markSpecials keys bits =
     fold (\<lambda>key bits. if unat key \<noteq> NX_NOSPECIALKEY
                      then setBits (\<lambda>b. b OR (NX_CHARGENMASK OR NX_SPECIALKEYMASK)) (unat key) bits
                      else bits) keys bits"

definition silentKey :: "bool \<Rightarrow> nat list \<Rightarrow> nat" where
  "silentKey shorts ks = (if shorts then length ks mod 256 else hd ks)"

definition keyBitsOf :: "hik_class \<Rightarrow> bool \<Rightarrow> keymap \<Rightarrow> u8 list" where
  "keyBitsOf C shorts km =
     (let bits = markSpecials (specialsOf C km) (markDefs 0 (km_keys km) (modifierKeyBits C km));
          bits = (if doesKeyLock C NX_KEYTYPE_CAPS_LOCK
                  then setBits (\<lambda>b. b AND NOT NX_CHARGENMASK)
                         (unat (specialsOf C km ! NX_KEYTYPE_CAPS_LOCK)) bits
                  else bits)
      in case modOf C km NX_MODIFIERKEY_SECONDARYFN of
           None \<Rightarrow> bits
         | Some ks \<Rightarrow> setBits (\<lambda>b. b AND NOT NX_CHARGENMASK) (silentKey shorts ks) bits)"

section \<open>Well-formed key maps\<close>

text \<open>
  Numbers fit their width; no key is assigned to two modifiers; a key has as many characters
  as its mask asks for and refers only to sequences that there are; no more sequences than
  the parsed form has room for; and special keys are key codes or absent.
\<close>

definition fits :: "bool \<Rightarrow> nat \<Rightarrow> bool" where
  "fits shorts n \<longleftrightarrow> n \<le> allOnes shorts"

definition fit_pairs :: "bool \<Rightarrow> (nat \<times> nat) list \<Rightarrow> bool" where
  "fit_pairs shorts ps \<longleftrightarrow> list_all (\<lambda>(a, b). fits shorts a \<and> fits shorts b) ps"

definition wf_modifiers :: "bool \<Rightarrow> (nat \<times> nat list) list \<Rightarrow> bool" where
  "wf_modifiers shorts ms \<longleftrightarrow>
     fits shorts (length ms) \<and> distinct (map fst ms) \<and> distinct (concat (map snd ms)) \<and>
     list_all (\<lambda>(j, ks). j < NX_NUMMODIFIERS \<and> fits shorts (length ks) \<and>
       list_all (\<lambda>k. k < NX_NUMKEYCODES) ks \<and>
       (j = NX_MODIFIERKEY_SECONDARYFN \<longrightarrow> \<not> shorts \<longrightarrow> ks \<noteq> [])) ms"

definition wf_def :: "bool \<Rightarrow> int \<Rightarrow> nat \<Rightarrow> nat \<times> chars \<Rightarrow> bool" where
  "wf_def shorts maxMod seqs def \<longleftrightarrow>
     fst def < allOnes shorts \<and> length (snd def) = charCount (nat (maxMod + 1)) (fst def) 1 \<and>
     fit_pairs shorts (snd def) \<and> list_all (\<lambda>(a, b). a = allOnes shorts \<longrightarrow> b < seqs) (snd def)"

definition wf_keymap :: "hik_class \<Rightarrow> bool \<Rightarrow> keymap \<Rightarrow> bool" where
  "wf_keymap C shorts km \<longleftrightarrow>
     wf_modifiers shorts (km_modifiers km) \<and>
     length (km_keys km) \<le> NX_NUMKEYCODES \<and> fits shorts (length (km_keys km)) \<and>
     list_all (\<lambda>d. case d of None \<Rightarrow> True
                   | Some def \<Rightarrow> wf_def shorts (maxModOf km) (length (km_seqs km)) def) (km_keys km) \<and>
     length (km_seqs km) \<le> NX_NUMSEQUENCES \<and>
     list_all (\<lambda>s. fits shorts (length s) \<and> fit_pairs shorts s) (km_seqs km) \<and>
     0 < length (km_specials km) \<and> length (km_specials km) \<le> NX_NUMSPECIALKEYS \<and>
     list_all (\<lambda>(j, l). j < NX_NUMSPECIALKEYS \<and> fits shorts l \<and>
       (l < NX_NUMKEYCODES \<or> l = NX_NOSPECIALKEY)) (km_specials km) \<and>
     (doesKeyLock C NX_KEYTYPE_CAPS_LOCK \<longrightarrow>
       unat (specialsOf C km ! NX_KEYTYPE_CAPS_LOCK) < NX_NUMKEYCODES)"

text \<open>A pointer to something is absent together with it, and otherwise has its bytes in front.\<close>

definition points_to :: "('a \<Rightarrow> u8 list) \<Rightarrow> 'a option \<Rightarrow> u8 list option \<Rightarrow> bool" where
  "points_to enc x p \<longleftrightarrow> (case x of None \<Rightarrow> p = None | Some y \<Rightarrow> \<exists>rest. p = Some (enc y @ rest))"

definition represents :: "hik_class \<Rightarrow> bool \<Rightarrow> parsed_mapping \<Rightarrow> keymap \<Rightarrow> bool" where
  "represents C shorts pm km \<longleftrightarrow>
     (pm_shorts pm \<noteq> 0 \<longleftrightarrow> shorts) \<and> pm_maxMod pm = maxModOf km \<and>
     length (pm_modDefs pm) = NX_NUMMODIFIERS \<and>
     (\<forall>j < NX_NUMMODIFIERS. points_to (encKeys shorts) (modOf C km j) (pm_modDefs pm ! j)) \<and>
     length (pm_keyDefs pm) = NX_NUMKEYCODES \<and>
     (\<forall>i < NX_NUMKEYCODES. points_to (encDef shorts) (keyOf C km i) (pm_keyDefs pm ! i)) \<and>
     length (pm_seqDefs pm) = NX_NUMSEQUENCES \<and>
     (\<forall>i < length (km_seqs km). points_to (encSeq shorts) (Some (km_seqs km ! i)) (pm_seqDefs pm ! i)) \<and>
     pm_specialKeys pm = specialsOf C km \<and> pm_keyBits pm = keyBitsOf C shorts km \<and>
     pm_numDefs pm = int (length (km_keys km)) \<and> pm_numSeqs pm = int (length (km_seqs km)) \<and>
     pm_numSpecialKeys pm = int (length (km_specials km))"

section \<open>Reading what was encoded\<close>

lemma unat_of_nat_u8: "n < 256 \<Longrightarrow> unat (of_nat n :: u8) = n"
  by (simp add: unat_of_nat)

lemma NextNum_enc [simp]: "fits shorts n \<Longrightarrow> NextNum shorts (encNum shorts n @ r) = Some (n, r)"
  by (cases shorts) (auto simp: fits_def allOnes_def encNum_def unat_of_nat_u8 less_mult_imp_div_less)

lemma NEXTNUM_enc [simp]: "fits shorts n \<Longrightarrow> NEXTNUM shorts (encNum shorts n @ r) = Some (n, r)"
  by (cases shorts) (auto simp: fits_def allOnes_def encNum_def unat_of_nat_u8 less_mult_imp_div_less)

lemma encNum_nonempty [simp]: "encNum shorts n \<noteq> []"
  by (simp add: encNum_def)

lemma enc_Nil [simp]:
  "encNums shorts [] = []" "encPairs shorts [] = []" "encModifiers shorts [] = []"
  "encDefs shorts [] = []" "encSeqs shorts [] = []"
  by (simp_all add: encNums_def encPairs_def encModifiers_def encDefs_def encSeqs_def)

lemma enc_Cons [simp]:
  "encNums shorts (n # ns) = encNum shorts n @ encNums shorts ns"
  "encPairs shorts ((a, b) # ps) = encNum shorts a @ encNum shorts b @ encPairs shorts ps"
  "encModifiers shorts ((j, ks) # ms) = encNum shorts j @ encKeys shorts ks @ encModifiers shorts ms"
  "encDefs shorts (None # ds) = encNum shorts (allOnes shorts) @ encDefs shorts ds"
  "encDefs shorts (Some d # ds) = encDef shorts d @ encDefs shorts ds"
  "encSeqs shorts (s # ss) = encSeq shorts s @ encSeqs shorts ss"
  by (simp_all add: encNums_def encPairs_def encModifiers_def encDefs_def encSeqs_def)

lemma length_setBits [simp]: "length (setBits f i bits) = length bits"
  by (simp add: setBits_def)

lemma nth_setBits: "i < length bits \<Longrightarrow> setBits f i bits ! k = (if k = i then f (bits ! i) else bits ! k)"
  by (simp add: setBits_def)

section \<open>The parser inverts the encoding\<close>

lemma fits_key: "k < NX_NUMKEYCODES \<Longrightarrow> fits shorts k"
  by (simp add: fits_def allOnes_def hid_consts)

lemma fold_setBits_other:
  "k \<notin> set ks \<Longrightarrow> fold (setBits f) ks bits ! k = bits ! k"
  by (induction ks arbitrary: bits) (auto simp: setBits_def)

lemma length_fold_setBits [simp]: "length (fold (setBits f) ks bits) = length bits"
  by (induction ks arbitrary: bits) auto

lemma length_markModifier [simp]: "length (markModifier C m bits) = length bits"
  by (simp add: markModifier_def)

lemma length_fold_markModifier [simp]: "length (fold (markModifier C) ms bits) = length bits"
  by (induction ms arbitrary: bits) auto

lemma markModifier_other: "k \<notin> set (snd m) \<Longrightarrow> markModifier C m bits ! k = bits ! k"
  by (simp add: markModifier_def fold_setBits_other)

lemma parseModifierKeys_enc:
  assumes "distinct ks" and "\<forall>k\<in>set ks. k < NX_NUMKEYCODES \<and> bits ! k AND NX_MODMASK = 0"
  shows "parseModifierKeys C shorts j (length ks) bits (encNums shorts ks @ r) =
    Some (Some (markModifier C (j, ks) bits, r))"
  using assms
proof (induction ks arbitrary: bits)
  case (Cons k ks)
  let ?bits = "if j \<noteq> NX_MODIFIERKEY_ALPHALOCK \<or> doesKeyLock C NX_KEYTYPE_CAPS_LOCK
    then setBits (\<lambda>b. b OR modifierBits j) k bits else bits"
  have "\<forall>l\<in>set ks. l < NX_NUMKEYCODES \<and> ?bits ! l AND NX_MODMASK = 0"
    using Cons.prems by (auto simp: setBits_def) (metis nth_list_update_neq)+
  from Cons.IH [OF _ this] Cons.prems show ?case
    by (auto simp: fits_key markModifier_def setBits_def)
qed (simp add: markModifier_def)

definition modsFrom :: "bool \<Rightarrow> (nat \<times> nat list) list \<Rightarrow> u8 list option list \<Rightarrow> u8 list option list \<Rightarrow> bool" where
  "modsFrom shorts ms old new \<longleftrightarrow> length new = length old \<and>
     (\<forall>j < length old. case map_of ms j of None \<Rightarrow> new ! j = old ! j
        | Some ks \<Rightarrow> \<exists>rest. new ! j = Some (encKeys shorts ks @ rest))"

lemma parseModifiers_enc:
  assumes "distinct (map fst ms)" and "distinct (concat (map snd ms))"
    and "\<forall>(j, ks)\<in>set ms. j < NX_NUMMODIFIERS \<and> fits shorts (length ks) \<and>
      (\<forall>k\<in>set ks. k < NX_NUMKEYCODES \<and> pm_keyBits pm ! k AND NX_MODMASK = 0)"
    and "length (pm_modDefs pm) = NX_NUMMODIFIERS"
  shows "\<exists>D. parseModifiers C shorts (length ms) pm (encModifiers shorts ms @ r) =
      Some (Some (pm\<lparr>pm_maxMod := fold (\<lambda>(j, _). max (int j)) ms (pm_maxMod pm),
                     pm_keyBits := fold (markModifier C) ms (pm_keyBits pm), pm_modDefs := D\<rparr>, r)) \<and>
    modsFrom shorts ms (pm_modDefs pm) D"
  using assms
proof (induction ms arbitrary: pm)
  case Nil
  then show ?case by (intro exI [of _ "pm_modDefs pm"]) (simp add: modsFrom_def)
next
  case (Cons m ms)
  obtain j ks where m: "m = (j, ks)" by (cases m)
  let ?bp = "encKeys shorts ks @ encModifiers shorts ms @ r"
  let ?pm = "pm\<lparr>pm_maxMod := max (pm_maxMod pm) (int j), pm_modDefs := (pm_modDefs pm)[j := Some ?bp],
    pm_keyBits := markModifier C (j, ks) (pm_keyBits pm)\<rparr>"
  have j: "j < NX_NUMMODIFIERS" "fits shorts (length ks)" "fits shorts j"
    and ks: "distinct ks" "\<forall>k\<in>set ks. k < NX_NUMKEYCODES \<and> pm_keyBits pm ! k AND NX_MODMASK = 0"
    using Cons.prems by (auto simp: m fits_def allOnes_def hid_consts)
  have "\<forall>(i, ls)\<in>set ms. i < NX_NUMMODIFIERS \<and> fits shorts (length ls) \<and>
      (\<forall>k\<in>set ls. k < NX_NUMKEYCODES \<and> pm_keyBits ?pm ! k AND NX_MODMASK = 0)"
  proof (intro ballI, unfold split_paired_all, intro case_prodI)
    fix i ls
    assume l: "(i, ls) \<in> set ms"
    then have "set ls \<inter> set ks = {}" using Cons.prems(2) by (force simp: m)
    then have "pm_keyBits ?pm ! k = pm_keyBits pm ! k" if "k \<in> set ls" for k
      using that by (simp, intro markModifier_other) auto
    with l Cons.prems(3) show "i < NX_NUMMODIFIERS \<and> fits shorts (length ls) \<and>
      (\<forall>k\<in>set ls. k < NX_NUMKEYCODES \<and> pm_keyBits ?pm ! k AND NX_MODMASK = 0)"
      by fastforce
  qed
  then obtain D where D: "parseModifiers C shorts (length ms) ?pm (encModifiers shorts ms @ r) =
      Some (Some (?pm\<lparr>pm_maxMod := fold (\<lambda>(j, _). max (int j)) ms (pm_maxMod ?pm),
                     pm_keyBits := fold (markModifier C) ms (pm_keyBits ?pm), pm_modDefs := D\<rparr>, r))"
    "modsFrom shorts ms (pm_modDefs ?pm) D"
    using Cons.IH [of ?pm] Cons.prems by (auto simp: m)
  have "parseModifierKeys C shorts j (length ks) (pm_keyBits pm) (encNums shorts ks @ encModifiers shorts ms @ r)
      = Some (Some (markModifier C (j, ks) (pm_keyBits pm), encModifiers shorts ms @ r))"
    using ks by (rule parseModifierKeys_enc)
  with D(1) j have "parseModifiers C shorts (length (m # ms)) pm (encModifiers shorts (m # ms) @ r) =
      Some (Some (pm\<lparr>pm_maxMod := fold (\<lambda>(j, _). max (int j)) (m # ms) (pm_maxMod pm),
                     pm_keyBits := fold (markModifier C) (m # ms) (pm_keyBits pm), pm_modDefs := D\<rparr>, r))"
    by (simp add: m encKeys_def Let_def max.commute)
  moreover have "modsFrom shorts (m # ms) (pm_modDefs pm) D"
    unfolding modsFrom_def
  proof (intro conjI allI impI)
    fix i
    assume i: "i < length (pm_modDefs pm)"
    have none: "map_of ms j = None" using Cons.prems(1) by (auto simp: m map_of_eq_None_iff)
    show "case map_of (m # ms) i of None \<Rightarrow> D ! i = pm_modDefs pm ! i
      | Some ks \<Rightarrow> \<exists>rest. D ! i = Some (encKeys shorts ks @ rest)"
      using D(2) i none by (cases "i = j") (auto simp: modsFrom_def m split: option.splits)
  qed (use D(2) in \<open>simp add: modsFrom_def\<close>)
  ultimately show ?case by blast
qed

lemma parseChars_enc:
  assumes "fit_pairs shorts cs" and "list_all (\<lambda>(a, b). a = allOnes shorts \<longrightarrow> b < seqs) cs"
    and "m < int seqs"
  shows "\<exists>m'. parseChars shorts (length cs) m (encPairs shorts cs @ r) = Some (m', r) \<and> m' < int seqs"
  using assms by (induction cs arbitrary: m) (auto simp: fit_pairs_def)

definition defsFrom ::
  "bool \<Rightarrow> keymap \<Rightarrow> nat \<Rightarrow> u8 list option list \<Rightarrow> u8 list option list \<Rightarrow> bool" where
  "defsFrom shorts km i old new \<longleftrightarrow> length new = length old \<and>
     (\<forall>l < length old. if l < i then new ! l = old ! l
                       else points_to (encDef shorts) (keyAt km l) (new ! l))"

lemma defsFrom_step:
  assumes "defsFrom shorts km (Suc i) (old[i := p]) new" and "points_to (encDef shorts) (keyAt km i) p"
    and "i < length old"
  shows "defsFrom shorts km i old new"
  unfolding defsFrom_def
proof (intro conjI allI impI)
  fix l
  assume l: "l < length old"
  with assms have "if l < Suc i then new ! l = old[i := p] ! l
      else points_to (encDef shorts) (keyAt km l) (new ! l)"
    by (simp add: defsFrom_def)
  with assms(2) l show "if l < i then new ! l = old ! l
      else points_to (encDef shorts) (keyAt km l) (new ! l)"
    by (cases "l = i") (auto simp: less_Suc_eq split: if_splits)
qed (use assms(1) in \<open>simp add: defsFrom_def\<close>)

lemma parseKeyDefs_enc:
  assumes "i + k = NX_NUMKEYCODES" and "m < int (length (km_seqs km))"
    and "pm_maxMod pm = maxModOf km"
    and "list_all (\<lambda>d. case d of None \<Rightarrow> True
           | Some def \<Rightarrow> wf_def shorts (maxModOf km) (length (km_seqs km)) def) (km_keys km)"
    and "length (km_keys km) \<le> NX_NUMKEYCODES" and "length (pm_keyDefs pm) = NX_NUMKEYCODES"
  shows "\<exists>m' D. parseKeyDefs shorts (length (km_keys km)) i k m pm
        (encDefs shorts (drop i (km_keys km)) @ r) =
      Some (m', pm\<lparr>pm_keyDefs := D, pm_keyBits := markDefs i (drop i (km_keys km)) (pm_keyBits pm)\<rparr>, r) \<and>
    m' < int (length (km_seqs km)) \<and> defsFrom shorts km i (pm_keyDefs pm) D"
  using assms
proof (induction k arbitrary: i m pm)
  case 0
  then show ?case
    by (intro exI [of _ m] exI [of _ "pm_keyDefs pm"]) (auto simp: defsFrom_def)
next
  case (Suc k)
  let ?next = "\<lambda>pm p bits. pm\<lparr>pm_keyDefs := (pm_keyDefs pm)[i := p], pm_keyBits := bits\<rparr>"
  have more: "\<exists>m'' D. parseKeyDefs shorts (length (km_keys km)) (Suc i) k m' (?next pm p bits)
        (encDefs shorts (drop (Suc i) (km_keys km)) @ r) =
      Some (m'', pm\<lparr>pm_keyDefs := D, pm_keyBits := markDefs (Suc i) (drop (Suc i) (km_keys km)) bits\<rparr>, r) \<and>
    m'' < int (length (km_seqs km)) \<and> defsFrom shorts km i (pm_keyDefs pm) D"
    if "m' < int (length (km_seqs km))" and "points_to (encDef shorts) (keyAt km i) p" for m' p bits
    using Suc.IH [of "Suc i" m' "?next pm p bits"] Suc.prems that
    by (auto dest!: defsFrom_step)
  show ?case
  proof (cases "i < length (km_keys km)")
    case False
    have eq: "?next pm None (pm_keyBits pm) = pm\<lparr>pm_keyDefs := (pm_keyDefs pm)[i := None]\<rparr>" by simp
    from False more [of m None "pm_keyBits pm"] Suc.prems(2) show ?thesis
      unfolding eq by (simp add: keyAt_def points_to_def)
  next
    case True
    then have cons: "drop i (km_keys km) = km_keys km ! i # drop (Suc i) (km_keys km)"
      by (rule Cons_nth_drop_Suc [symmetric])
    show ?thesis
    proof (cases "km_keys km ! i")
      case None
      have eq: "?next pm None (pm_keyBits pm) = pm\<lparr>pm_keyDefs := (pm_keyDefs pm)[i := None]\<rparr>" by simp
      from None True more [of m None "pm_keyBits pm"] Suc.prems(2) show ?thesis
        unfolding eq by (simp add: cons keyAt_def points_to_def fits_def)
    next
      case (Some def)
      with True Suc.prems(4) have def: "wf_def shorts (maxModOf km) (length (km_seqs km)) def"
        by (auto simp: list_all_length)
      let ?bits = "setBits (\<lambda>b. b OR NX_CHARGENMASK) i (pm_keyBits pm)"
      let ?bp = "encDefs shorts (drop (Suc i) (km_keys km)) @ r"
      obtain m' where m': "m' < int (length (km_seqs km))"
        "parseChars shorts (length (snd def)) m (encPairs shorts (snd def) @ ?bp) = Some (m', ?bp)"
        using parseChars_enc [of shorts "snd def" "length (km_seqs km)" m ?bp] def Suc.prems(2)
        by (auto simp: wf_def_def)
      have "points_to (encDef shorts) (keyAt km i) (Some (encDef shorts def @ ?bp))"
        using True Some by (simp add: keyAt_def points_to_def)
      from more [OF m'(1) this, of ?bits] show ?thesis
        using True Some def m'(2) Suc.prems(3)
        by (simp add: cons encDef_def wf_def_def fits_def setBits_def less_imp_le Let_def)
    qed
  qed
qed

lemma skipPairs_enc: "fit_pairs shorts ps \<Longrightarrow> skipPairs shorts (length ps) (encPairs shorts ps @ r) = Some r"
  by (induction ps) (auto simp: fit_pairs_def)

lemma parseSequences_enc:
  assumes "list_all (\<lambda>s. fits shorts (length s) \<and> fit_pairs shorts s) ss"
    and "i + length ss \<le> length (pm_seqDefs pm)"
  shows "\<exists>D. parseSequences shorts i (length ss) pm (encSeqs shorts ss @ r) = Some (pm\<lparr>pm_seqDefs := D\<rparr>, r) \<and>
    length D = length (pm_seqDefs pm) \<and> (\<forall>l < i. D ! l = pm_seqDefs pm ! l) \<and>
    (\<forall>l < length ss. points_to (encSeq shorts) (Some (ss ! l)) (D ! (i + l)))"
  using assms
proof (induction ss arbitrary: i pm)
  case Nil
  then show ?case by (intro exI [of _ "pm_seqDefs pm"]) simp
next
  case (Cons s ss)
  let ?bp = "encSeq shorts s @ encSeqs shorts ss @ r"
  let ?pm = "pm\<lparr>pm_seqDefs := (pm_seqDefs pm)[i := Some ?bp]\<rparr>"
  obtain D where D: "parseSequences shorts (Suc i) (length ss) ?pm (encSeqs shorts ss @ r) =
      Some (?pm\<lparr>pm_seqDefs := D\<rparr>, r)" "length D = length (pm_seqDefs ?pm)"
    "\<forall>l < Suc i. D ! l = pm_seqDefs ?pm ! l"
    "\<forall>l < length ss. points_to (encSeq shorts) (Some (ss ! l)) (D ! (Suc i + l))"
    using Cons.IH [of "Suc i" ?pm] Cons.prems by auto
  have "points_to (encSeq shorts) (Some ((s # ss) ! l)) (D ! (i + l))" if "l < length (s # ss)" for l
    using that D(3,4) Cons.prems(2) by (cases l) (auto simp: points_to_def)
  moreover have "parseSequences shorts i (length (s # ss)) pm (encSeqs shorts (s # ss) @ r) =
      Some (pm\<lparr>pm_seqDefs := D\<rparr>, r)"
    using D(1) Cons.prems by (auto simp: encSeq_def skipPairs_enc)
  moreover have "\<forall>l < i. D ! l = pm_seqDefs pm ! l" using D(3) by simp
  ultimately show ?case using D(2) by auto
qed

lemma parseSpecialKeys_enc:
  assumes "list_all (\<lambda>(j, l). j < NX_NUMSPECIALKEYS \<and> fits shorts l) ps"
  shows "parseSpecialKeys shorts (length ps) keys (encPairs shorts ps) =
    Some (Some (fold (\<lambda>(j, l) keys. keys[j := of_nat l]) ps keys))"
proof -
  have "fits shorts j" if "j < NX_NUMSPECIALKEYS" for j
    using that by (simp add: fits_def allOnes_def hid_consts)
  with assms NextNum_enc [where r = "[]"] show ?thesis
    by (induction ps arbitrary: keys) auto
qed

definition scannable :: "u16 list \<Rightarrow> bool" where
  "scannable keys \<longleftrightarrow> (\<forall>key\<in>set keys. unat key < NX_NUMKEYCODES \<or> unat key = NX_NOSPECIALKEY)"

lemma scannable_update:
  assumes "scannable keys" and "unat k < NX_NUMKEYCODES \<or> unat k = NX_NOSPECIALKEY"
  shows "scannable (keys[j := k])"
  using assms set_update_subset_insert [of keys j k] by (auto simp: scannable_def)

lemma scannable_init:
  "scannable (if interfaceID C = NX_EVS_DEVICE_INTERFACE_ADB
      then (replicate NX_NUMSPECIALKEYS (of_nat NX_NOSPECIALKEY))
             [NX_KEYTYPE_CAPS_LOCK := 0x39, NX_KEYTYPE_NUM_LOCK := 0x47]
      else replicate NX_NUMSPECIALKEYS (of_nat NX_NOSPECIALKEY))"
proof -
  have "scannable (replicate n (of_nat NX_NOSPECIALKEY))" for n
    by (simp add: scannable_def hid_consts)
  then show ?thesis by (simp add: scannable_update hid_consts)
qed

lemma scannable_specialsOf:
  assumes "list_all (\<lambda>(j, l). j < NX_NUMSPECIALKEYS \<and> fits shorts l \<and>
    (l < NX_NUMKEYCODES \<or> l = NX_NOSPECIALKEY)) (km_specials km)"
  shows "scannable (specialsOf C km)" and "length (specialsOf C km) = NX_NUMSPECIALKEYS"
proof -
  have fold: "scannable keys \<Longrightarrow> scannable (fold (\<lambda>(j, l) keys. keys[j := of_nat l]) ps keys)"
    if "list_all (\<lambda>(j, l). l < NX_NUMKEYCODES \<or> l = NX_NOSPECIALKEY) ps" for ps keys
    using that
  proof (induction ps arbitrary: keys)
    case (Cons p ps)
    obtain j l where p: "p = (j, l)" by (cases p)
    have "unat (of_nat l :: u16) < NX_NUMKEYCODES \<or> unat (of_nat l :: u16) = NX_NOSPECIALKEY"
      using Cons.prems by (auto simp: p hid_consts unat_of_nat)
    with Cons.IH [OF scannable_update] Cons.prems show ?case by (simp add: p)
  qed simp
  show "scannable (specialsOf C km)"
    unfolding specialsOf_def by (rule fold [OF _ scannable_init]) (use assms in \<open>auto simp: list_all_iff\<close>)
  have len: "length (fold (\<lambda>(j, l) keys. keys[j := of_nat l]) ps keys) = length keys" for ps and keys :: "u16 list"
    by (induction ps arbitrary: keys) auto
  show "length (specialsOf C km) = NX_NUMSPECIALKEYS" by (simp add: specialsOf_def len)
qed

lemma markSpecialKeys_total:
  "scannable keys \<Longrightarrow> length bits = NX_NUMKEYCODES \<Longrightarrow>
    markSpecialKeys keys bits = Some (markSpecials keys bits)"
  by (induction keys arbitrary: bits)
    (auto simp: scannable_def markSpecials_def updateKeyBits_def setBits_def)

lemma length_markSpecials [simp]: "length (markSpecials keys bits) = length bits"
  unfolding markSpecials_def by (induction keys arbitrary: bits) auto

lemma length_markDefs [simp]: "length (markDefs i defs bits) = length bits"
  by (induction defs arbitrary: i bits) auto

definition silence :: "u8 list option \<Rightarrow> u8 list \<Rightarrow> u8 list" where
  "silence p bits =
     (case p of None \<Rightarrow> bits | Some bp \<Rightarrow> setBits (\<lambda>b. b AND NOT NX_CHARGENMASK) (unat (bp ! 1)) bits)"

lemma silence_modOf:
  assumes "points_to (encKeys shorts) (modOf C km NX_MODIFIERKEY_SECONDARYFN) p"
    and "wf_modifiers shorts (km_modifiers km)"
  shows "silence p bits = (case modOf C km NX_MODIFIERKEY_SECONDARYFN of None \<Rightarrow> bits
    | Some ks \<Rightarrow> setBits (\<lambda>b. b AND NOT NX_CHARGENMASK) (silentKey shorts ks) bits)"
    and "p = Some bp \<Longrightarrow> 1 < length bp"
proof -
  have ks: "(NX_MODIFIERKEY_SECONDARYFN, ks) \<in> set (km_modifiers km)"
    if "modOf C km NX_MODIFIERKEY_SECONDARYFN = Some ks" for ks
    using that by (auto simp: modOf_def hid_consts dest: map_of_SomeD split: if_splits)
  have ne: "(shorts \<or> ks \<noteq> []) \<and> list_all (\<lambda>k. k < 256) ks"
    if "modOf C km NX_MODIFIERKEY_SECONDARYFN = Some ks" for ks
    using ks [OF that] assms(2) by (auto simp: wf_modifiers_def list_all_iff hid_consts)
  have one: "1 < length (encKeys shorts ks @ rest) \<and>
      unat ((encKeys shorts ks @ rest) ! 1) = silentKey shorts ks"
    if "(shorts \<or> ks \<noteq> []) \<and> list_all (\<lambda>k. k < 256) ks" for ks rest
    using that
    by (cases ks; cases shorts) (auto simp: encKeys_def encNum_def silentKey_def unat_of_nat_u8)
  show "silence p bits = (case modOf C km NX_MODIFIERKEY_SECONDARYFN of None \<Rightarrow> bits
    | Some ks \<Rightarrow> setBits (\<lambda>b. b AND NOT NX_CHARGENMASK) (silentKey shorts ks) bits)"
    using assms(1) one [OF ne]
    by (auto simp: points_to_def silence_def split: option.splits)
  show "1 < length bp" if "p = Some bp"
    using that assms(1) one [OF ne] by (auto simp: points_to_def split: option.splits)
qed

lemma parseSpecials_enc:
  assumes wf: "wf_keymap C shorts km" and "length (pm_keyBits pm) = NX_NUMKEYCODES"
    and "\<And>bp. pm_modDefs pm ! NX_MODIFIERKEY_SECONDARYFN = Some bp \<Longrightarrow> 1 < length bp"
  shows "parseSpecials C shorts pm (encNum shorts (length (km_specials km)) @ encPairs shorts (km_specials km)) =
    Some (Some (pm\<lparr>pm_numSpecialKeys := int (length (km_specials km)), pm_specialKeys := specialsOf C km,
      pm_keyDefs := (if interfaceID C = NX_EVS_DEVICE_INTERFACE_ADB
                     then (pm_keyDefs pm)[0x72 := pm_keyDefs pm ! 0x47] else pm_keyDefs pm),
      pm_keyBits := silence (pm_modDefs pm ! NX_MODIFIERKEY_SECONDARYFN)
        (if doesKeyLock C NX_KEYTYPE_CAPS_LOCK
         then setBits (\<lambda>b. b AND NOT NX_CHARGENMASK) (unat (specialsOf C km ! NX_KEYTYPE_CAPS_LOCK))
                (markSpecials (specialsOf C km) (pm_keyBits pm))
         else markSpecials (specialsOf C km) (pm_keyBits pm))\<rparr>))"
proof -
  have sp: "list_all (\<lambda>(j, l). j < NX_NUMSPECIALKEYS \<and> fits shorts l) (km_specials km)"
    and sc: "list_all (\<lambda>(j, l). j < NX_NUMSPECIALKEYS \<and> fits shorts l \<and>
      (l < NX_NUMKEYCODES \<or> l = NX_NOSPECIALKEY)) (km_specials km)"
    and n: "0 < length (km_specials km)" "length (km_specials km) \<le> NX_NUMSPECIALKEYS"
    and lock: "doesKeyLock C NX_KEYTYPE_CAPS_LOCK \<Longrightarrow>
      unat (specialsOf C km ! NX_KEYTYPE_CAPS_LOCK) < NX_NUMKEYCODES"
    using wf by (auto simp: wf_keymap_def list_all_iff)
  have fit: "fits shorts (length (km_specials km))" using n(2) by (simp add: fits_def allOnes_def hid_consts)
  let ?init = "if interfaceID C = NX_EVS_DEVICE_INTERFACE_ADB
        then (replicate NX_NUMSPECIALKEYS (of_nat NX_NOSPECIALKEY))
               [NX_KEYTYPE_CAPS_LOCK := 0x39, NX_KEYTYPE_NUM_LOCK := 0x47]
        else replicate NX_NUMSPECIALKEYS (of_nat NX_NOSPECIALKEY)"
  let ?kd = "if interfaceID C = NX_EVS_DEVICE_INTERFACE_ADB
             then (pm_keyDefs pm)[0x72 := pm_keyDefs pm ! 0x47] else pm_keyDefs pm"
  have keys: "parseSpecialKeys shorts (length (km_specials km)) ?init (encPairs shorts (km_specials km))
      = Some (Some (specialsOf C km))"
    unfolding specialsOf_def by (rule parseSpecialKeys_enc [OF sp])
  have marks: "markSpecialKeys (take NX_NUM_SCANNED_SPECIALKEYS (specialsOf C km)) (pm_keyBits pm) =
      Some (markSpecials (specialsOf C km) (pm_keyBits pm))"
    using scannable_specialsOf [OF sc, of C] assms(2)
    by (simp add: markSpecialKeys_total hid_consts)
  have below: "unat (b :: u8) < length bits" if "length bits = NX_NUMKEYCODES" for b and bits :: "u8 list"
    using that by (simp add: hid_consts)
  show ?thesis
    unfolding parseSpecials_def NextNum_enc [OF fit]
    using n assms(2,3) lock keys marks below
    by (cases "interfaceID C = NX_EVS_DEVICE_INTERFACE_ADB")
      (simp_all add: Let_def updateKeyBits_def setBits_def silence_def split: option.split)
qed

lemma emptyMapping_simps [simp]:
  "pm_maxMod (emptyMapping m) = - 1" "pm_keyBits (emptyMapping m) = replicate NX_NUMKEYCODES 0"
  by (simp_all add: emptyMapping_def)

lemma parse_encode:
  assumes "wf_keymap C shorts km"
  shows "\<exists>pm. parseKeyMapping C (encode shorts km) = Some (Some pm) \<and> represents C shorts pm km"
proof -
  let ?m = "encode shorts km" and ?lock = "doesKeyLock C NX_KEYTYPE_CAPS_LOCK"
  let ?ADB = "interfaceID C = NX_EVS_DEVICE_INTERFACE_ADB"
  let ?pm = "(emptyMapping ?m)\<lparr>pm_shorts := of_nat (if shorts then 1 else 0)\<rparr>"
  let ?sp = "encNum shorts (length (km_specials km)) @ encPairs shorts (km_specials km)"
  let ?sq = "encNum shorts (length (km_seqs km)) @ encSeqs shorts (km_seqs km) @ ?sp"
  let ?kd = "encNum shorts (length (km_keys km)) @ encDefs shorts (km_keys km) @ ?sq"
  have fits: "fits True (if shorts then 1 else 0)" "fits shorts (length (km_modifiers km))"
    "fits shorts (length (km_keys km))" "fits shorts (length (km_seqs km))"
    and mods: "wf_modifiers shorts (km_modifiers km)"
    using assms by (auto simp: wf_keymap_def wf_modifiers_def fits_def allOnes_def hid_consts)
  have prem: "\<forall>(j, ks)\<in>set (km_modifiers km). j < NX_NUMMODIFIERS \<and> fits shorts (length ks) \<and>
      (\<forall>k\<in>set ks. k < NX_NUMKEYCODES \<and> pm_keyBits ?pm ! k AND NX_MODMASK = 0)"
    using mods by (auto simp: wf_modifiers_def emptyMapping_def list_all_iff)
  obtain D where D: "parseModifiers C shorts (length (km_modifiers km)) ?pm (encModifiers shorts (km_modifiers km) @ ?kd)
      = Some (Some (?pm\<lparr>pm_maxMod := fold (\<lambda>(j, _). max (int j)) (km_modifiers km) (pm_maxMod ?pm),
                     pm_keyBits := fold (markModifier C) (km_modifiers km) (pm_keyBits ?pm), pm_modDefs := D\<rparr>, ?kd))"
    and mD: "modsFrom shorts (km_modifiers km) (pm_modDefs ?pm) D"
    using parseModifiers_enc [OF _ _ prem, of C ?kd] mods
    by (auto simp: wf_modifiers_def emptyMapping_def)
  let ?D = "if ?lock then D else D[NX_MODIFIERKEY_ALPHALOCK := None]"
  have lD: "length D = NX_NUMMODIFIERS" using mD by (simp add: modsFrom_def emptyMapping_def)
  have pD: "points_to (encKeys shorts) (modOf C km j) (?D ! j)" if "j < NX_NUMMODIFIERS" for j
    using mD that lD by (auto simp: modsFrom_def emptyMapping_def points_to_def modOf_def hid_consts
        nth_list_update split: option.splits)
  let ?bits = "modifierKeyBits C km"
  let ?pm1 = "?pm\<lparr>pm_maxMod := maxModOf km, pm_keyBits := ?bits, pm_modDefs := ?D,
    pm_numDefs := int (length (km_keys km))\<rparr>"
  obtain m' K where K: "parseKeyDefs shorts (length (km_keys km)) 0 NX_NUMKEYCODES (- 1) ?pm1
        (encDefs shorts (km_keys km) @ ?sq) =
      Some (m', ?pm1\<lparr>pm_keyDefs := K, pm_keyBits := markDefs 0 (km_keys km) ?bits\<rparr>, ?sq)"
    and m': "m' < int (length (km_seqs km))" and dK: "defsFrom shorts km 0 (pm_keyDefs ?pm1) K"
    using parseKeyDefs_enc [of 0 NX_NUMKEYCODES "- 1" km ?pm1 shorts ?sq] assms
    by (auto simp: wf_keymap_def emptyMapping_def)
  have lK: "length K = NX_NUMKEYCODES" using dK by (simp add: defsFrom_def emptyMapping_def)
  let ?pm2 = "?pm1\<lparr>pm_keyDefs := K, pm_keyBits := markDefs 0 (km_keys km) ?bits,
    pm_numSeqs := int (length (km_seqs km))\<rparr>"
  obtain S where S: "parseSequences shorts 0 (length (km_seqs km)) ?pm2 (encSeqs shorts (km_seqs km) @ ?sp) =
      Some (?pm2\<lparr>pm_seqDefs := S\<rparr>, ?sp)" "length S = NX_NUMSEQUENCES"
    "\<forall>l < length (km_seqs km). points_to (encSeq shorts) (Some (km_seqs km ! l)) (S ! l)"
    using parseSequences_enc [of shorts "km_seqs km" 0 ?pm2 ?sp] assms
    by (auto simp: wf_keymap_def emptyMapping_def)
  let ?pm3 = "?pm2\<lparr>pm_seqDefs := S\<rparr>"
  have fn: "points_to (encKeys shorts) (modOf C km NX_MODIFIERKEY_SECONDARYFN)
      (pm_modDefs ?pm3 ! NX_MODIFIERKEY_SECONDARYFN)"
    using pD [of NX_MODIFIERKEY_SECONDARYFN] by (simp add: hid_consts)
  have lb: "length (pm_keyBits ?pm3) = NX_NUMKEYCODES"
    by (simp add: modifierKeyBits_def Let_def)
  define pm where "pm = ?pm3\<lparr>pm_numSpecialKeys := int (length (km_specials km)),
    pm_specialKeys := specialsOf C km, pm_keyDefs := (if ?ADB then K[0x72 := K ! 0x47] else K),
    pm_keyBits := keyBitsOf C shorts km\<rparr>"
  have pm: "parseSpecials C shorts ?pm3 ?sp = Some (Some pm)"
    using silence_modOf(2) [OF fn mods]
    by (subst parseSpecials_enc [OF assms lb])
      (simp_all only: pm_def silence_modOf(1) [OF fn mods] keyBitsOf_def Let_def,
        simp_all cong: option.case_cong)
  have bits: "?bits = (if ?ADB then (fold (markModifier C) (km_modifiers km) (replicate NX_NUMKEYCODES 0))
      [0x3f := fold (markModifier C) (km_modifiers km) (replicate NX_NUMKEYCODES 0) ! 0x3f OR
        modifierBits NX_MODIFIERKEY_SECONDARYFN]
      else fold (markModifier C) (km_modifiers km) (replicate NX_NUMKEYCODES 0))"
    by (simp add: modifierKeyBits_def setBits_def Let_def)
  have head: "?m \<noteq> []" "NextNum True ?m = Some (if shorts then 1 else 0,
      encNum shorts (length (km_modifiers km)) @ encModifiers shorts (km_modifiers km) @ ?kd)"
    using fits(1) by (simp_all add: encode_def)
  have D': "parseModifiers C shorts (length (km_modifiers km)) ?pm (encModifiers shorts (km_modifiers km) @ ?kd)
      = Some (Some (?pm\<lparr>pm_maxMod := maxModOf km,
          pm_keyBits := fold (markModifier C) (km_modifiers km) (replicate NX_NUMKEYCODES 0),
          pm_modDefs := D\<rparr>, ?kd))"
    unfolding D by (simp add: maxModOf_def)
  let ?A = "?pm\<lparr>pm_maxMod := maxModOf km,
    pm_keyBits := fold (markModifier C) (km_modifiers km) (replicate NX_NUMKEYCODES 0), pm_modDefs := D\<rparr>"
  let ?B = "if \<not> ?lock then ?A\<lparr>pm_modDefs := (pm_modDefs ?A)[NX_MODIFIERKEY_ALPHALOCK := None]\<rparr> else ?A"
  let ?C = "if ?ADB then ?B\<lparr>pm_keyBits := (pm_keyBits ?B)[0x3f := pm_keyBits ?B ! 0x3f OR
    modifierBits NX_MODIFIERKEY_SECONDARYFN]\<rparr> else ?B"
  have C: "?C\<lparr>pm_numDefs := int (length (km_keys km))\<rparr> = ?pm1"
    unfolding bits by simp
  have nz: "((if shorts then 1 else 0 :: nat) \<noteq> 0) = shorts" "(?m = []) = False"
    "(int (length (km_seqs km)) \<le> m') = False"
    using head(1) m' by simp_all
  have "parseKeyMapping C ?m = Some (Some pm)"
    unfolding parseKeyMapping_def parseDefinitions_def
    by (simp only: nz if_False head(2) Option.bind.simps prod.case Let_def NextNum_enc fits D' option.case C K S(1) pm)
  moreover have "represents C shorts pm km"
    unfolding represents_def pm_def using pD lD lK S(2,3) dK
    by (auto simp: emptyMapping_def keyOf_def defsFrom_def hid_consts nth_list_update)
  ultimately show ?thesis by blast
qed

section \<open>The property\<close>

text \<open>
  C27. Parsing inverts the encoding of key maps, in bytes or in shorts: of every well-formed
  key map the parser accepts the encoding, without an access outside the string or its own
  arrays, and what it leaves represents the key map, that is, the pointers of modifiers, keys
  and sequences lead to their encodings, and the special keys and the bits of the keys are
  those that the key map asks for.
\<close>

theorem keymap_roundtrip:
  assumes "wf_keymap C shorts km"
  shows "\<exists>pm. parseKeyMapping C (encode shorts km) = Some (Some pm) \<and> represents C shorts pm km"
  by (rule parse_encode [OF assms])

lemma charCount_numeral [simp]:
  "charCount (numeral j) keyMask k =
    charCount (pred_numeral j) (keyMask div 2) (if odd keyMask then k * 2 else k)"
  by (simp add: numeral_eq_Suc)

definition tiny_keymap :: keymap where
  "tiny_keymap = \<lparr>km_modifiers = [(1, [0x38])], km_keys = [Some (2, [(0, 97), (0, 65)])],
     km_seqs = [], km_specials = [(4, 0x39)]\<rparr>"

theorem keymap_roundtrip_witness:
  "\<exists>pm. parseKeyMapping (ps2_class None id)
       [0, 0, 1, 1, 1, 0x38, 1, 2, 0, 97, 0, 65, 0, 1, 4, 0x39] = Some (Some pm) \<and>
     represents (ps2_class None id) False pm tiny_keymap"
proof -
  have "wf_keymap (ps2_class None id) False tiny_keymap"
    by (simp add: tiny_keymap_def wf_keymap_def wf_modifiers_def wf_def_def fits_def fit_pairs_def
        allOnes_def maxModOf_def ps2_class_def hid_consts)
  moreover have "encode False tiny_keymap = [0, 0, 1, 1, 1, 0x38, 1, 2, 0, 97, 0, 65, 0, 1, 4, 0x39]"
    by (simp add: tiny_keymap_def encode_def encNum_def encModifiers_def encKeys_def encNums_def
        encDefs_def encDef_def encPairs_def)
  ultimately show ?thesis using keymap_roundtrip [of "ps2_class None id" False tiny_keymap] by simp
qed

end
