(* ===== verification/HID_Layout.thy ===== *)
theory HID_Layout
  imports HID_KeyMaps
begin

text \<open>
  The key map of the PS/2 keyboard driver, taken apart: the bytes of \<open>appleUSAKeyMap\<close> are the
  encoding of a well-formed key map, so that the parser accepts them and represents it.
\<close>

section \<open>The key map as data\<close>

definition usKeyMap :: keymap where
  "usKeyMap =
     \<lparr>km_modifiers =
        [(1, [56]), (2, [59]), (3, [58]), (4, [55]),
         (5, [82, 65, 76, 83, 84, 85, 69, 88, 87, 86, 91, 92, 67, 75, 81, 123, 125, 126, 124, 78, 89]),
         (6, [114]), (9, [60]), (10, [62]), (11, [61]), (12, [54])],
      km_keys =
        [Some (13, [(0, 97), (0, 65), (0, 1), (0, 1), (0, 202), (0, 199), (0, 1), (0, 1)]),
         Some (13, [(0, 115), (0, 83), (0, 19), (0, 19), (0, 251), (0, 167), (0, 19), (0, 19)]),
         Some (13, [(0, 100), (0, 68), (0, 4), (0, 4), (1, 68), (1, 182), (0, 4), (0, 4)]),
         Some (13, [(0, 102), (0, 70), (0, 6), (0, 6), (0, 166), (1, 172), (0, 6), (0, 6)]),
         Some (13, [(0, 104), (0, 72), (0, 8), (0, 8), (0, 227), (0, 235), (0, 0), (24, 0)]),
         Some (13, [(0, 103), (0, 71), (0, 7), (0, 7), (0, 241), (0, 225), (0, 7), (0, 7)]),
         Some (13, [(0, 122), (0, 90), (0, 26), (0, 26), (0, 207), (1, 87), (0, 26), (0, 26)]),
         Some (13, [(0, 120), (0, 88), (0, 24), (0, 24), (1, 180), (1, 206), (0, 24), (0, 24)]),
         Some (13, [(0, 99), (0, 67), (0, 3), (0, 3), (1, 227), (1, 211), (0, 3), (0, 3)]),
         Some (13, [(0, 118), (0, 86), (0, 22), (0, 22), (1, 214), (1, 224), (0, 22), (0, 22)]),
         Some (2, [(0, 60), (0, 62)]),
         Some (13, [(0, 98), (0, 66), (0, 2), (0, 2), (1, 229), (1, 242), (0, 2), (0, 2)]),
         Some (13, [(0, 113), (0, 81), (0, 17), (0, 17), (0, 250), (0, 234), (0, 17), (0, 17)]),
         Some (13, [(0, 119), (0, 87), (0, 23), (0, 23), (1, 200), (1, 199), (0, 23), (0, 23)]),
         Some (13, [(0, 101), (0, 69), (0, 5), (0, 5), (0, 194), (0, 197), (0, 5), (0, 5)]),
         Some (13, [(0, 114), (0, 82), (0, 18), (0, 18), (1, 226), (1, 210), (0, 18), (0, 18)]),
         Some (13, [(0, 121), (0, 89), (0, 25), (0, 25), (0, 165), (1, 219), (0, 25), (0, 25)]),
         Some (13, [(0, 116), (0, 84), (0, 20), (0, 20), (1, 228), (1, 212), (0, 20), (0, 20)]),
         Some (10, [(0, 49), (0, 33), (1, 173), (0, 161)]),
         Some (14, [(0, 50), (0, 64), (0, 50), (0, 0), (0, 178), (0, 179), (0, 0), (0, 0)]),
         Some (10, [(0, 51), (0, 35), (0, 163), (1, 186)]),
         Some (10, [(0, 52), (0, 36), (0, 162), (0, 168)]),
         Some (14, [(0, 54), (0, 94), (0, 54), (0, 30), (0, 182), (0, 195), (0, 30), (0, 30)]),
         Some (10, [(0, 53), (0, 37), (1, 165), (0, 189)]),
         Some (10, [(0, 61), (0, 43), (1, 185), (1, 177)]),
         Some (10, [(0, 57), (0, 40), (0, 172), (0, 171)]),
         Some (10, [(0, 55), (0, 38), (1, 176), (1, 171)]),
         Some (14, [(0, 45), (0, 95), (0, 31), (0, 31), (0, 177), (0, 208), (0, 31), (0, 31)]),
         Some (10, [(0, 56), (0, 42), (0, 183), (0, 180)]),
         Some (10, [(0, 48), (0, 41), (0, 173), (0, 187)]),
         Some (14, [(0, 93), (0, 125), (0, 29), (0, 29), (0, 39), (0, 186), (0, 29), (0, 29)]),
         Some (13, [(0, 111), (0, 79), (0, 15), (0, 15), (0, 249), (0, 233), (0, 15), (0, 15)]),
         Some (13, [(0, 117), (0, 85), (0, 21), (0, 21), (0, 200), (0, 205), (0, 21), (0, 21)]),
         Some (14, [(0, 91), (0, 123), (0, 27), (0, 27), (0, 96), (0, 170), (0, 27), (0, 27)]),
         Some (13, [(0, 105), (0, 73), (0, 9), (0, 9), (0, 193), (0, 245), (0, 9), (0, 9)]),
         Some (13, [(0, 112), (0, 80), (0, 16), (0, 16), (1, 112), (1, 80), (0, 16), (0, 16)]),
         Some (16, [(0, 13), (0, 3)]),
         Some (13, [(0, 108), (0, 76), (0, 12), (0, 12), (0, 248), (0, 232), (0, 12), (0, 12)]),
         Some (13, [(0, 106), (0, 74), (0, 10), (0, 10), (0, 198), (0, 174), (0, 10), (0, 10)]),
         Some (10, [(0, 39), (0, 34), (0, 169), (1, 174)]),
         Some (13, [(0, 107), (0, 75), (0, 11), (0, 11), (0, 206), (0, 175), (0, 11), (0, 11)]),
         Some (10, [(0, 59), (0, 58), (1, 178), (1, 162)]),
         Some (14, [(0, 92), (0, 124), (0, 28), (0, 28), (0, 227), (0, 235), (0, 28), (0, 28)]),
         Some (10, [(0, 44), (0, 60), (0, 203), (1, 163)]),
         Some (10, [(0, 47), (0, 63), (1, 184), (0, 191)]),
         Some (13, [(0, 110), (0, 78), (0, 14), (0, 14), (0, 196), (1, 175), (0, 14), (0, 14)]),
         Some (13, [(0, 109), (0, 77), (0, 13), (0, 13), (1, 109), (1, 216), (0, 13), (0, 13)]),
         Some (10, [(0, 46), (0, 62), (0, 188), (1, 179)]), Some (2, [(0, 9), (0, 25)]),
         Some (12, [(0, 32), (0, 0), (0, 128), (0, 0)]),
         Some (10, [(0, 96), (0, 126), (0, 96), (1, 187)]), Some (2, [(0, 127), (0, 8)]), None,
         Some (2, [(0, 27), (0, 126)]), None, None, None, None, None, None, None, None, None,
         None, None, Some (0, [(0, 46)]), None, Some (0, [(0, 42)]), None, Some (0, [(0, 43)]),
         None, Some (0, [(0, 27)]), None, None, None,
         Some (14, [(0, 47), (0, 92), (0, 47), (0, 28), (0, 47), (0, 92), (0, 0), (10, 0)]),
         Some (0, [(0, 13)]), None, Some (0, [(0, 45)]), None, None,
         Some (14, [(0, 61), (0, 124), (0, 61), (0, 28), (0, 61), (0, 124), (0, 0), (24, 70)]),
         Some (0, [(0, 48)]), Some (0, [(0, 49)]), Some (0, [(0, 50)]), Some (0, [(0, 51)]),
         Some (0, [(0, 52)]), Some (0, [(0, 53)]), Some (0, [(0, 54)]), Some (0, [(0, 55)]),
         None, Some (0, [(0, 56)]), Some (0, [(0, 57)]), None, None, None,
         Some (0, [(254, 36)]), Some (0, [(254, 37)]), Some (0, [(254, 38)]),
         Some (0, [(254, 34)]), Some (0, [(254, 39)]), Some (0, [(254, 40)]), None,
         Some (0, [(254, 42)]), None, Some (0, [(254, 50)]), Some (0, [(254, 53)]),
         Some (0, [(254, 51)]), None, Some (0, [(254, 41)]), None, Some (0, [(254, 43)]), None,
         Some (0, [(254, 52)]), None, Some (0, [(254, 46)]), Some (0, [(254, 48)]),
         Some (0, [(254, 45)]), Some (0, [(254, 35)]), Some (0, [(254, 47)]),
         Some (0, [(254, 33)]), Some (0, [(254, 49)]), Some (0, [(254, 32)]),
         Some (0, [(1, 172)]), Some (0, [(1, 174)]), Some (0, [(1, 175)]), Some (0, [(1, 173)])],
      km_seqs =
        [[(255, 4), (0, 49)], [(255, 4), (0, 50)], [(255, 4), (0, 51)], [(255, 4), (0, 52)],
         [(255, 4), (0, 53)], [(255, 4), (0, 54)], [(255, 4), (0, 55)], [(255, 4), (0, 56)],
         [(255, 4), (0, 57)], [(255, 4), (0, 48)], [(255, 4), (0, 45)], [(255, 4), (0, 61)],
         [(255, 4), (0, 112)], [(255, 4), (0, 93)], [(255, 4), (0, 91)]],
      km_specials = [(4, 57), (5, 114), (6, 127), (7, 74), (0, 72), (1, 73), (10, 71)]\<rparr>"

lemmas enc_defs = encode_def encNum_def encModifiers_def encKeys_def encNums_def encDefs_def encDef_def
  encPairs_def encSeqs_def encSeq_def allOnes_def

lemma usKeyMap_bytes: "encode False usKeyMap = appleUSAKeyMap"
  by (simp add: usKeyMap_def appleUSAKeyMap_def enc_defs)

lemma usKeyMap_maxMod: "maxModOf usKeyMap = 12"
  by (simp add: usKeyMap_def maxModOf_def)

lemma usKeyMap_modifiers: "wf_modifiers False (km_modifiers usKeyMap)"
  by (simp add: usKeyMap_def wf_modifiers_def fits_def allOnes_def hid_consts)

lemma usKeyMap_keys:
  "list_all (\<lambda>d. case d of None \<Rightarrow> True | Some def \<Rightarrow> wf_def False 12 15 def) (km_keys usKeyMap)"
  by (simp add: usKeyMap_def wf_def_def fits_def fit_pairs_def allOnes_def)

lemma usKeyMap_rest:
  "length (km_keys usKeyMap) = 127" "length (km_seqs usKeyMap) = 15" "length (km_specials usKeyMap) = 7"
  "list_all (\<lambda>s. fits False (length s) \<and> fit_pairs False s) (km_seqs usKeyMap)"
  "list_all (\<lambda>(j, l). j < NX_NUMSPECIALKEYS \<and> fits False l \<and>
       (l < NX_NUMKEYCODES \<or> l = NX_NOSPECIALKEY)) (km_specials usKeyMap)"
  by (simp_all add: usKeyMap_def fits_def fit_pairs_def allOnes_def hid_consts)

lemma usKeyMap_wf:
  "\<not> doesKeyLock C NX_KEYTYPE_CAPS_LOCK \<Longrightarrow> wf_keymap C False usKeyMap"
  using usKeyMap_modifiers usKeyMap_keys usKeyMap_rest
  unfolding wf_keymap_def usKeyMap_maxMod
  by (simp add: fits_def allOnes_def hid_consts)

end
