(* ===== verification/HID_Parser.thy ===== *)
theory HID_Parser
  imports HID_Layout
begin

text \<open>
  The parser of key maps on arbitrary bytes. A map in bytes, as any user may hand one to the
  keyboard, is either rejected or accepted without an access outside an object, with one
  exception: it may declare more sequences than the parsed form has room for.
\<close>

section \<open>Every number is read from inside the map\<close>

definition later :: "u8 list \<Rightarrow> u8 list \<Rightarrow> bool" where
  "later bp' bp \<longleftrightarrow> (\<exists>k. bp' = drop k bp)"

lemma later_refl [simp]: "later bp bp"
  unfolding later_def by (intro exI [of _ 0]) simp

lemma later_trans: "later b a \<Longrightarrow> later c b \<Longrightarrow> later c a"
  by (auto simp: later_def)

lemma NextNum_bytesE:
  obtains n bp' where "NextNum False bp = Some (n, bp')" and "n < 256" and "later bp' bp"
    and "bp' \<noteq> [] \<longrightarrow> length bp' < length bp" and "n \<noteq> 0 \<longrightarrow> bp \<noteq> []"
proof (cases bp)
  case Nil
  then show ?thesis by (intro that [of 0 "[]"]) (auto simp: later_def)
next
  case (Cons b bp')
  then show ?thesis by (intro that [of "unat b" bp']) (auto simp: later_def intro!: exI [of _ 1])
qed

text \<open>
  The arrays keep their sizes, and all pointers to modifiers lie before the parser's own
  position, unless that has reached the end of the map.
\<close>

definition arrays_ok :: "parsed_mapping \<Rightarrow> bool" where
  "arrays_ok pm \<longleftrightarrow> length (pm_keyBits pm) = NX_NUMKEYCODES \<and> length (pm_modDefs pm) = NX_NUMMODIFIERS \<and>
     length (pm_keyDefs pm) = NX_NUMKEYCODES \<and> length (pm_seqDefs pm) = NX_NUMSEQUENCES"

definition behind :: "u8 list option list \<Rightarrow> u8 list \<Rightarrow> bool" where
  "behind defs bp \<longleftrightarrow> (\<forall>p. Some p \<in> set defs \<longrightarrow> bp \<noteq> [] \<longrightarrow> length bp < length p)"

lemma behind_later: "behind defs bp \<Longrightarrow> later bp' bp \<Longrightarrow> behind defs bp'"
  by (fastforce simp: behind_def later_def)

lemma behind_update:
  assumes "behind defs bp" and "bp \<noteq> [] \<longrightarrow> (\<forall>q. p = Some q \<longrightarrow> length bp < length q)"
  shows "behind (defs[j := p]) bp"
  using assms set_update_subset_insert [of defs j p] by (auto simp: behind_def)

lemma parseModifierKeys_bytes:
  "parseModifierKeys C False j n bits bp = Some None \<or>
   (\<exists>bits' bp'. parseModifierKeys C False j n bits bp = Some (Some (bits', bp')) \<and> later bp' bp \<and>
     length bits' = length bits)"
proof (induction n arbitrary: bits bp)
  case (Suc n)
  obtain l bp1 where l: "NextNum False bp = Some (l, bp1)" "later bp1 bp" by (rule NextNum_bytesE)
  let ?bits = "if j \<noteq> NX_MODIFIERKEY_ALPHALOCK \<or> doesKeyLock C NX_KEYTYPE_CAPS_LOCK
    then bits[l := bits ! l OR modifierBits j] else bits"
  from Suc.IH [of ?bits bp1] l show ?case by (auto dest: later_trans)
qed simp

lemma parseModifiers_bytes:
  assumes "arrays_ok pm" and "behind (pm_modDefs pm) bp"
  shows "parseModifiers C False n pm bp = Some None \<or>
    (\<exists>pm' bp'. parseModifiers C False n pm bp = Some (Some (pm', bp')) \<and> arrays_ok pm' \<and>
      behind (pm_modDefs pm') bp')"
  using assms
proof (induction n arbitrary: pm bp)
  case (Suc n)
  obtain j bp1 where j: "NextNum False bp = Some (j, bp1)" "later bp1 bp" by (rule NextNum_bytesE)
  obtain k bp2 where k: "NextNum False bp1 = Some (k, bp2)" "later bp2 bp1"
    "bp2 \<noteq> [] \<longrightarrow> length bp2 < length bp1" by (rule NextNum_bytesE)
  let ?pm = "pm\<lparr>pm_maxMod := max (pm_maxMod pm) (int j), pm_modDefs := (pm_modDefs pm)[j := Some bp1]\<rparr>"
  have b2: "behind (pm_modDefs pm) bp2"
    using behind_later [OF behind_later [OF Suc.prems(2) j(2)] k(2)] .
  show ?case
  proof (cases "NX_NUMMODIFIERS \<le> j \<or> parseModifierKeys C False j k (pm_keyBits pm) bp2 = Some None")
    case True
    then show ?thesis by (auto simp: j k)
  next
    case False
    with parseModifierKeys_bytes [of C j k "pm_keyBits pm" bp2] obtain bits bp3 where
      keys: "parseModifierKeys C False j k (pm_keyBits pm) bp2 = Some (Some (bits, bp3))"
      "later bp3 bp2" "length bits = length (pm_keyBits pm)"
      by auto
    have "behind (pm_modDefs ?pm) bp2"
      using behind_update [OF b2, of "Some bp1" j] k(3) by simp
    with keys(2) have "behind (pm_modDefs (?pm\<lparr>pm_keyBits := bits\<rparr>)) bp3"
      using behind_later by fastforce
    moreover have "arrays_ok (?pm\<lparr>pm_keyBits := bits\<rparr>)"
      using Suc.prems(1) keys(3) by (simp add: arrays_ok_def)
    ultimately show ?thesis
      using Suc.IH [of "?pm\<lparr>pm_keyBits := bits\<rparr>" bp3] False
      by (simp add: j k keys(1) Let_def)
  qed
qed simp

lemma parseChars_bytes: "\<exists>m' bp'. parseChars False n m bp = Some (m', bp') \<and> later bp' bp"
proof (induction n arbitrary: m bp)
  case (Suc n)
  obtain a bp1 where a: "NextNum False bp = Some (a, bp1)" "later bp1 bp" by (rule NextNum_bytesE)
  obtain b bp2 where b: "NextNum False bp1 = Some (b, bp2)" "later bp2 bp1" by (rule NextNum_bytesE)
  from Suc.IH [of "if a = allOnes False \<and> m < int b then int b else m" bp2] show ?case
    using later_trans [OF a(2) b(2)] by (auto simp: a(1) b(1) dest: later_trans)
qed simp

lemma parseKeyDefs_bytes:
  assumes "arrays_ok pm" and "behind (pm_modDefs pm) bp"
  shows "\<exists>m' pm' bp'. parseKeyDefs False n i k m pm bp = Some (m', pm', bp') \<and> arrays_ok pm' \<and>
    behind (pm_modDefs pm') bp'"
  using assms
proof (induction k arbitrary: i m pm bp)
  case (Suc k)
  obtain x bp1 where x: "NextNum False bp = Some (x, bp1)" "later bp1 bp" by (rule NextNum_bytesE)
  let ?none = "pm\<lparr>pm_keyDefs := (pm_keyDefs pm)[i := None]\<rparr>"
  let ?some = "pm\<lparr>pm_keyDefs := (pm_keyDefs pm)[i := Some bp],
    pm_keyBits := (pm_keyBits pm)[i := pm_keyBits pm ! i OR NX_CHARGENMASK]\<rparr>"
  have none: "arrays_ok ?none" "behind (pm_modDefs ?none) bp" "behind (pm_modDefs ?none) bp1"
    using Suc.prems behind_later [OF Suc.prems(2) x(2)] by (simp_all add: arrays_ok_def)
  obtain m' bp2 where c: "parseChars False (charCount (nat (pm_maxMod pm + 1)) x 1) m bp1 = Some (m', bp2)"
    "later bp2 bp1"
    using parseChars_bytes by blast
  have some: "arrays_ok ?some" "behind (pm_modDefs ?some) bp2"
    using Suc.prems behind_later [OF behind_later [OF Suc.prems(2) x(2)] c(2)] by (simp_all add: arrays_ok_def)
  show ?case
    using Suc.IH [OF none(1,2), of "Suc i" m] Suc.IH [OF none(1,3), of "Suc i" m]
      Suc.IH [OF some, of "Suc i" m'] c(1)
    by (simp add: x(1) Let_def)
qed simp

lemma skipPairs_bytes: "\<exists>bp'. skipPairs False n bp = Some bp' \<and> later bp' bp"
proof (induction n arbitrary: bp)
  case (Suc n)
  obtain a bp1 where a: "NextNum False bp = Some (a, bp1)" "later bp1 bp" by (rule NextNum_bytesE)
  obtain b bp2 where b: "NextNum False bp1 = Some (b, bp2)" "later bp2 bp1" by (rule NextNum_bytesE)
  from Suc.IH [of bp2] show ?case
    using later_trans [OF a(2) b(2)] by (auto simp: a(1) b(1) dest: later_trans)
qed simp

text \<open>Only here can the parser leave an array: exactly if the sequences are too many.\<close>

lemma parseSequences_bytes:
  assumes "arrays_ok pm" and "behind (pm_modDefs pm) bp" and "i \<le> NX_NUMSEQUENCES"
  shows "if i + n \<le> NX_NUMSEQUENCES
    then \<exists>pm' bp'. parseSequences False i n pm bp = Some (pm', bp') \<and> arrays_ok pm' \<and> behind (pm_modDefs pm') bp'
    else parseSequences False i n pm bp = None"
  using assms
proof (induction n arbitrary: i pm bp)
  case (Suc n)
  obtain x bp1 where x: "NextNum False bp = Some (x, bp1)" "later bp1 bp" by (rule NextNum_bytesE)
  obtain bp2 where k: "skipPairs False x bp1 = Some bp2" "later bp2 bp1"
    using skipPairs_bytes by blast
  let ?pm = "pm\<lparr>pm_seqDefs := (pm_seqDefs pm)[i := Some bp]\<rparr>"
  have ok: "arrays_ok ?pm" "behind (pm_modDefs ?pm) bp2"
    using Suc.prems behind_later [OF behind_later [OF Suc.prems(2) x(2)] k(2)] by (simp_all add: arrays_ok_def)
  have len: "length (pm_seqDefs pm) = NX_NUMSEQUENCES" using Suc.prems(1) by (simp add: arrays_ok_def)
  show ?case
  proof (cases "i < NX_NUMSEQUENCES")
    case True
    with Suc.IH [OF ok, of "Suc i"] show ?thesis
      by (simp add: x(1) k(1) len Let_def)
  next
    case False
    with Suc.prems(3) show ?thesis by (simp add: len)
  qed
qed simp

lemma parseSpecialKeys_bytes:
  assumes "scannable keys"
  shows "parseSpecialKeys False n keys bp = Some None \<or>
    (\<exists>keys'. parseSpecialKeys False n keys bp = Some (Some keys') \<and> scannable keys')"
  using assms
proof (induction n arbitrary: keys bp)
  case (Suc n)
  obtain a bp1 where a: "NextNum False bp = Some (a, bp1)" by (rule NextNum_bytesE)
  obtain b bp2 where b: "NextNum False bp1 = Some (b, bp2)" "b < 256" by (rule NextNum_bytesE)
  then have "unat (of_nat b :: u16) < NX_NUMKEYCODES" by (simp add: unat_of_nat hid_consts)
  then have "scannable (keys[a := of_nat b])"
    using Suc.prems set_update_subset_insert [of keys a "of_nat b"] by (auto simp: scannable_def)
  from Suc.IH [OF this, of bp2] show ?case by (auto simp: a b)
qed simp

lemma parseSpecials_bytes:
  assumes "\<not> doesKeyLock C NX_KEYTYPE_CAPS_LOCK" and "arrays_ok pm" and "behind (pm_modDefs pm) bp"
  shows "parseSpecials C False pm bp \<noteq> None"
proof -
  obtain n bp1 where n: "NextNum False bp = Some (n, bp1)" "n \<noteq> 0 \<longrightarrow> bp \<noteq> []" by (rule NextNum_bytesE)
  let ?init = "if interfaceID C = NX_EVS_DEVICE_INTERFACE_ADB
        then (replicate NX_NUMSPECIALKEYS (of_nat NX_NOSPECIALKEY))
               [NX_KEYTYPE_CAPS_LOCK := 0x39, NX_KEYTYPE_NUM_LOCK := 0x47]
        else replicate NX_NUMSPECIALKEYS (of_nat NX_NOSPECIALKEY)"
  have "scannable ?init" by (rule scannable_init)
  from parseSpecialKeys_bytes [OF this, of n bp1] consider
    "parseSpecialKeys False n ?init bp1 = Some None" |
    keys where "parseSpecialKeys False n ?init bp1 = Some (Some keys)" "scannable keys"
    by blast
  then show ?thesis
  proof cases
    case 1
    then show ?thesis
      by (cases "interfaceID C = NX_EVS_DEVICE_INTERFACE_ADB") (auto simp: parseSpecials_def n(1) Let_def)
  next
    case 2
    then have keys: "scannable (take NX_NUM_SCANNED_SPECIALKEYS keys)"
      by (auto simp: scannable_def dest: in_set_takeD)
    have bits: "markSpecialKeys (take NX_NUM_SCANNED_SPECIALKEYS keys) (pm_keyBits pm) =
        Some (markSpecials (take NX_NUM_SCANNED_SPECIALKEYS keys) (pm_keyBits pm))"
      using assms(2) by (simp add: markSpecialKeys_total [OF keys] arrays_ok_def)
    have fn: "1 < length q" if "n \<noteq> 0" and "pm_modDefs pm ! NX_MODIFIERKEY_SECONDARYFN = Some q" for q
    proof -
      have "Some q \<in> set (pm_modDefs pm)"
        using that(2) nth_mem [of NX_MODIFIERKEY_SECONDARYFN "pm_modDefs pm"] assms(2)
        by (simp add: arrays_ok_def hid_consts)
      with assms(3) n(2) that(1) have "length bp < length q" "bp \<noteq> []" by (auto simp: behind_def)
      then show ?thesis by (cases bp) auto
    qed
    have below: "unat (b :: u8) < length bs" if "length bs = NX_NUMKEYCODES" for b and bs :: "u8 list"
      using that by (simp add: hid_consts)
    show ?thesis
      using 2(1) bits fn assms(1,2) below
      by (cases "interfaceID C = NX_EVS_DEVICE_INTERFACE_ADB")
        (auto simp: parseSpecials_def n(1) Let_def updateKeyBits_def arrays_ok_def split: option.splits)
  qed
qed

lemma parseDefinitions_bytes:
  "parseDefinitions C (0 # 0 # bytes) = Some None \<or>
   (\<exists>m n pm bp. parseDefinitions C (0 # 0 # bytes) = Some (Some (False, m, n, pm, bp)) \<and> arrays_ok pm \<and>
      behind (pm_modDefs pm) bp)"
proof -
  let ?pm = "(emptyMapping (0 # 0 # bytes))\<lparr>pm_shorts := 0\<rparr>"
  obtain n1 bp1 where n1: "NextNum False bytes = Some (n1, bp1)" by (rule NextNum_bytesE)
  have init: "arrays_ok ?pm" "behind (pm_modDefs ?pm) bp1"
    by (auto simp: arrays_ok_def emptyMapping_def behind_def)
  show ?thesis
  proof (cases "parseModifiers C False n1 ?pm bp1 = Some None")
    case True
    then show ?thesis by (simp add: parseDefinitions_def n1)
  next
    case False
    with parseModifiers_bytes [OF init, of C n1] obtain pm1 bp2 where
      m: "parseModifiers C False n1 ?pm bp1 = Some (Some (pm1, bp2))" "arrays_ok pm1" "behind (pm_modDefs pm1) bp2"
      by blast
    let ?A = "if \<not> doesKeyLock C NX_KEYTYPE_CAPS_LOCK
      then pm1\<lparr>pm_modDefs := (pm_modDefs pm1)[NX_MODIFIERKEY_ALPHALOCK := None]\<rparr> else pm1"
    let ?B = "if interfaceID C = NX_EVS_DEVICE_INTERFACE_ADB
      then ?A\<lparr>pm_keyBits := (pm_keyBits ?A)[0x3f := pm_keyBits ?A ! 0x3f OR
                              modifierBits NX_MODIFIERKEY_SECONDARYFN]\<rparr> else ?A"
    obtain n2 bp3 where n2: "NextNum False bp2 = Some (n2, bp3)" "later bp3 bp2" by (rule NextNum_bytesE)
    let ?pm2 = "?B\<lparr>pm_numDefs := int n2\<rparr>"
    have "behind (pm_modDefs ?A) bp3"
      using behind_later [OF m(3) n2(2)] behind_update [of "pm_modDefs pm1" bp3 None] by simp
    then have "arrays_ok ?pm2" "behind (pm_modDefs ?pm2) bp3"
      using m(2) by (simp_all add: arrays_ok_def)
    from parseKeyDefs_bytes [OF this, of n2 0 NX_NUMKEYCODES "- 1"] obtain m' pm3 bp4 where
      k: "parseKeyDefs False n2 0 NX_NUMKEYCODES (- 1) ?pm2 bp3 = Some (m', pm3, bp4)"
        "arrays_ok pm3" "behind (pm_modDefs pm3) bp4"
      by blast
    obtain n3 bp5 where n3: "NextNum False bp4 = Some (n3, bp5)" "later bp5 bp4" by (rule NextNum_bytesE)
    have zero: "(0 :: nat) \<noteq> 0 \<longleftrightarrow> False" "NextNum True (0 # 0 # bytes) = Some (0, bytes)"
      "(0 # 0 # bytes = []) = False" "of_nat 0 = (0 :: u16)" by simp_all
    have "parseDefinitions C (0 # 0 # bytes) = Some (Some (False, m', n3, pm3\<lparr>pm_numSeqs := int n3\<rparr>, bp5))"
      unfolding parseDefinitions_def
      by (simp only: zero if_False Option.bind.simps prod.case Let_def n1 m(1) option.case n2(1) k(1) n3(1))
    moreover have "arrays_ok (pm3\<lparr>pm_numSeqs := int n3\<rparr>)" "behind (pm_modDefs (pm3\<lparr>pm_numSeqs := int n3\<rparr>)) bp5"
      using k(2,3) behind_later [OF k(3) n3(2)] by (simp_all add: arrays_ok_def)
    ultimately show ?thesis by blast
  qed
qed

section \<open>The property\<close>

text \<open>
  C28. The parser's memory safety, with its one exception: on a key map in bytes, for a
  keyboard without a locking caps lock key, an access outside an object occurs if and only
  if the map passes the check of the sequence numbers and declares more than 128 sequences.
  Every other string of bytes, truncated or malformed as it may be, is rejected or accepted
  with all accesses inside the map and the arrays.
\<close>

theorem parser_memory_safe:
  assumes "\<not> doesKeyLock C NX_KEYTYPE_CAPS_LOCK"
  shows "parseKeyMapping C (0 # 0 # bytes) = None \<longleftrightarrow>
    (\<exists>m n pm bp. parseDefinitions C (0 # 0 # bytes) = Some (Some (False, m, n, pm, bp)) \<and>
      m < int n \<and> NX_NUMSEQUENCES < n)"
proof (cases "parseDefinitions C (0 # 0 # bytes) = Some None")
  case True
  then show ?thesis by (simp add: parseKeyMapping_def)
next
  case False
  with parseDefinitions_bytes [of C bytes] obtain m n pm bp where
    d: "parseDefinitions C (0 # 0 # bytes) = Some (Some (False, m, n, pm, bp))" "arrays_ok pm"
      "behind (pm_modDefs pm) bp"
    by blast
  show ?thesis
  proof (cases "m < int n \<and> n \<le> NX_NUMSEQUENCES")
    case True
    with parseSequences_bytes [OF d(2,3), of 0 n] obtain pm' bp' where
      "parseSequences False 0 n pm bp = Some (pm', bp')" "arrays_ok pm'" "behind (pm_modDefs pm') bp'"
      by auto
    with parseSpecials_bytes [OF assms, of pm' bp'] True d(1) show ?thesis
      by (simp add: parseKeyMapping_def)
  next
    case False
    with parseSequences_bytes [OF d(2,3), of 0 n] d(1) show ?thesis
      by (auto simp: parseKeyMapping_def)
  qed
qed

lemma parseKeyDefs_none: "n \<le> i \<Longrightarrow> \<exists>pm'. parseKeyDefs shorts n i k m pm bp = Some (m, pm', bp)"
  by (induction k arbitrary: i pm) auto

theorem parser_memory_safe_witness:
  "parseKeyMapping (ps2_class None id) [0, 0, 0, 0, 129] = None"
proof -
  have lock: "\<not> doesKeyLock (ps2_class None id) NX_KEYTYPE_CAPS_LOCK" by (simp add: ps2_class_def)
  have "\<forall>pm. \<exists>pm'. parseKeyDefs False 0 0 NX_NUMKEYCODES (- 1) pm [129] = Some (- 1, pm', [129])"
    using parseKeyDefs_none by blast
  then obtain f where f: "parseKeyDefs False 0 0 NX_NUMKEYCODES (- 1) pm [129] = Some (- 1, f pm, [129])" for pm
    by metis
  have "\<exists>pm. parseDefinitions (ps2_class None id) [0, 0, 0, 0, 129] = Some (Some (False, - 1, 129, pm, []))"
    by (simp add: parseDefinitions_def f ps2_class_def)
  with parser_memory_safe [OF lock, of "[0, 0, 129]"] show ?thesis by (auto simp: hid_consts)
qed

end
