(* ===== verification/HID_Keyboard.thy ===== *)
theory HID_Keyboard
  imports HID_KeyMapping
begin

text \<open>
  The state of a keyboard of the HID system, \<^verbatim>\<open>IOHIKeyboard\<close>, with the state of its key
  mapper, \<^verbatim>\<open>IOHIKeyboardMapper\<close>, and the methods of the keyboard that the mapper calls:
  event posting, flags, lock keys and the timing of key repeats
  (\<^verbatim>\<open>IOHIDFamily/IOHIDSystem/IOHIKeyboard.cpp\<close>).
\<close>

section \<open>Definitions\<close>

definition NX_KEYDOWN :: u32 where [hid_consts]: "NX_KEYDOWN = 10"
definition NX_KEYUP :: u32 where [hid_consts]: "NX_KEYUP = 11"
definition NX_FLAGSCHANGED :: u32 where [hid_consts]: "NX_FLAGSCHANGED = 12"
definition NX_SYSDEFINED :: u32 where [hid_consts]: "NX_SYSDEFINED = 14"

definition kMAX_MODIFIERS :: nat where [hid_consts]: "kMAX_MODIFIERS = 5"
definition kNUM_SHIFTS_TO_ACTIVATE :: nat where [hid_consts]: "kNUM_SHIFTS_TO_ACTIVATE = 5"

subsection \<open>State\<close>

text \<open>
  The tracking of one modifier that is pressed several times in a row, the modifiers that
  sticky keys hold, and the mapper. Pointers to kernel objects are kept as "is not null",
  and so is the mapper's pointer to the bit vector of the keyboard.
\<close>

record toggle_info =
  tg_toggleModifier :: nat
  tg_repetitionsToToggle :: nat
  tg_expireInterval :: u64
  tg_currentCount :: nat
  tg_deadlines :: "u64 list"

record stuck_modifier =
  sk_key :: u8
  sk_state :: u8
  sk_leftModBit :: u8

record mapper =
  mp_parsed :: parsed_mapping
  mp_hidSystem :: bool
  mp_stateDirty :: bool
  mp_f12EjectState :: u16
  mp_ejectDelay :: u32
  mp_ejectTimer :: bool
  mp_cachedKeyBits :: bool
  mp_stuck :: "stuck_modifier list"
  mp_mouseClickSource :: bool
  mp_setFnStateSource :: bool
  mp_slowKeysState :: u16
  mp_slowKeysDelay :: u32
  mp_slowKeysTimer :: bool
  mp_slowKeysAborted :: u8
  mp_slowKeysCurrent :: u8
  mp_specialKeyModifierFlags :: u32
  mp_supportsF12Eject :: bool
  mp_modifierSwap :: "u32 list"
  mp_cachedAlphaLockModDefs :: "u8 list option"
  mp_stickyState :: u32
  mp_numModifiersDown :: nat
  mp_shiftToggle :: toggle_info
  mp_optionToggle :: toggle_info

record kbd_reserved =
  rs_dispatchEventCalled :: bool
  rs_isSeized :: bool
  rs_repeatMode :: bool
  rs_keyboardNub :: bool

text \<open>What a keyboard does to its surroundings.\<close>

datatype sticky_dict = OnParamDict | OffParamDict | OnFnParamDict | OffFnParamDict

datatype hid_event =
    PostKeyEvent u32 u32 u32 u32 u32 u32 u32 u32 bool u64
      \<comment> \<open>type, flags, key, char code and set, original ones, keyboard type, repeat, time\<close>
  | PostSpecialEvent u32 u32 u32 u32 u64 bool u64 \<comment> \<open>type, flags, key, flavor, guid, repeat, time\<close>
  | PostEventFlags u32
  | AlphaLockFeedback bool
  | NumLockFeedback bool
  | CapsLockLEDElement bool
  | NumLockLEDElement bool
  | CancelRepeatCall
  | EnterRepeatCall u64
  | NubKeyboardEvent u32 bool
  | SetEjectTimer u32
  | CancelEjectTimer
  | SetSlowKeysTimer u32
  | CancelSlowKeysTimer
  | InterruptMouseClick
  | InterruptSetFnState
  | SystemSetParams sticky_dict
  | SetBoolProperty string bool
  | UpdateProperties

text \<open>
  \<open>hk_uptime\<close> is what the system clock shows while one call runs; \<open>hk_deviceLock\<close> says
  whether the running thread holds the device lock; \<open>hk_keysDefined\<close> and
  \<open>hk_supportedModifiers\<close> are two entries of the keyboard's property table that are read back.
\<close>

record hik =
  hk_events :: "hid_event list"
  hk_uptime :: u64
  hk_deviceLock :: bool
  hk_hasKeyMap :: bool
  hk_keyMap :: mapper
  hk_interfaceType :: u32
  hk_deviceType :: u32
  hk_keyState :: "u32 list"
  hk_eventFlags :: u32
  hk_alphaLock :: bool
  hk_numLock :: bool
  hk_charKeyActive :: bool
  hk_isRepeat :: bool
  hk_codeToRepeat :: u32
  hk_calloutPending :: bool
  hk_lastEventTime :: u64
  hk_downRepeatTime :: u64
  hk_keyRepeat :: u64
  hk_initialKeyRepeat :: u64
  hk_guid :: u64
  hk_keyboardEventAction :: bool
  hk_keyboardSpecialEventAction :: bool
  hk_updateEventFlagsAction :: bool
  hk_reserved :: "kbd_reserved option"
  hk_keysDefined :: bool
  hk_supportedModifiers :: u32

abbreviation parsedMapping :: "hik \<Rightarrow> parsed_mapping" where
  "parsedMapping w \<equiv> mp_parsed (hk_keyMap w)"

definition post :: "hid_event \<Rightarrow> hik \<Rightarrow> hik" where
  "post e w = w\<lparr>hk_events := hk_events w @ [e]\<rparr>"

definition updMapper :: "(mapper \<Rightarrow> mapper) \<Rightarrow> hik \<Rightarrow> hik" where
  "updMapper f w = w\<lparr>hk_keyMap := f (hk_keyMap w)\<rparr>"

text \<open>The macros on the bit vector of keys, as in the keyboard driver.\<close>

definition EVK_KEYDOWN :: "u32 \<Rightarrow> u32 list \<Rightarrow> u32 list option" where
  "EVK_KEYDOWN n bits =
     (if unat (drop_bit 5 n) < length bits
      then Some (bits[unat (drop_bit 5 n) := bits ! unat (drop_bit 5 n) OR push_bit (unat (n AND 31)) 1])
      else None)"

definition EVK_KEYUP :: "u32 \<Rightarrow> u32 list \<Rightarrow> u32 list option" where
  "EVK_KEYUP n bits =
     (if unat (drop_bit 5 n) < length bits
      then Some (bits[unat (drop_bit 5 n) := bits ! unat (drop_bit 5 n) AND NOT (push_bit (unat (n AND 31)) 1)])
      else None)"

definition EVK_IS_KEYDOWN :: "u32 \<Rightarrow> u32 list \<Rightarrow> bool option" where
  "EVK_IS_KEYDOWN n bits =
     (if unat (drop_bit 5 n) < length bits
      then Some (bits ! unat (drop_bit 5 n) AND push_bit (unat (n AND 31)) 1 \<noteq> 0) else None)"

subsection \<open>The device lock\<close>

definition lockDevice :: "hik \<Rightarrow> hik option" where
  "lockDevice w = (if hk_deviceLock w then None else Some (w\<lparr>hk_deviceLock := True\<rparr>))"

definition unlockDevice :: "hik \<Rightarrow> hik" where
  "unlockDevice w = w\<lparr>hk_deviceLock := False\<rparr>"

text \<open>Events are posted without the lock while one is dispatched.\<close>

definition dispatching :: "hik \<Rightarrow> bool" where
  "dispatching w = (case hk_reserved w of None \<Rightarrow> False | Some r \<Rightarrow> rs_dispatchEventCalled r)"

definition hasNub :: "hik \<Rightarrow> bool" where
  "hasNub w = (case hk_reserved w of None \<Rightarrow> False | Some r \<Rightarrow> rs_keyboardNub r)"

definition outsideLock :: "(hik \<Rightarrow> hik) \<Rightarrow> hik \<Rightarrow> hik option" where
  "outsideLock f w = (if dispatching w then lockDevice (f (unlockDevice w)) else Some (f w))"

subsection \<open>Key repeat\<close>

definition scheduleAutoRepeat :: "hik \<Rightarrow> hik" where
  "scheduleAutoRepeat w =
     (let w = (if hk_calloutPending w
               then (if hk_reserved w \<noteq> None then post CancelRepeatCall w else w)\<lparr>hk_calloutPending := False\<rparr>
               else w)
      in if hk_downRepeatTime w \<noteq> 0
         then (if hk_reserved w \<noteq> None then post (EnterRepeatCall (hk_uptime w + hk_downRepeatTime w)) w
               else w)\<lparr>hk_calloutPending := True\<rparr>
         else w)"

definition setRepeat :: "u32 \<Rightarrow> u32 \<Rightarrow> hik \<Rightarrow> hik" where
  "setRepeat eventType keyCode w =
     (if hk_isRepeat w then w
      else
        let mode = map_option rs_repeatMode (hk_reserved w)
        in if eventType = NX_KEYDOWN \<and> mode = Some True
           then scheduleAutoRepeat (w\<lparr>hk_downRepeatTime := hk_initialKeyRepeat w, hk_codeToRepeat := keyCode\<rparr>)
           else if eventType = NX_KEYUP \<and> hk_codeToRepeat w = keyCode \<or> mode = Some False
           then scheduleAutoRepeat (w\<lparr>hk_downRepeatTime := 0, hk_codeToRepeat := - 1\<rparr>)
           else w)"

subsection \<open>The methods that the mapper calls\<close>

definition static_keyboardEvent ::
  "u32 \<Rightarrow> u32 \<Rightarrow> u32 \<Rightarrow> u32 \<Rightarrow> u32 \<Rightarrow> u32 \<Rightarrow> u32 \<Rightarrow> hik \<Rightarrow> hik" where
  "static_keyboardEvent eventType flags key charCode charSet origCharCode origCharSet w =
     (if hk_keyboardEventAction w
      then post (PostKeyEvent eventType flags key charCode charSet origCharCode origCharSet
                   (hk_deviceType w) (hk_isRepeat w) (hk_lastEventTime w)) w
      else w)"

definition static_keyboardSpecialEvent :: "u32 \<Rightarrow> u32 \<Rightarrow> u32 \<Rightarrow> u32 \<Rightarrow> bool \<Rightarrow> hik \<Rightarrow> hik" where
  "static_keyboardSpecialEvent eventType flags key flavor repeating w =
     (if hk_keyboardSpecialEventAction w
      then post (PostSpecialEvent eventType flags key flavor (hk_guid w) repeating (hk_lastEventTime w)) w
      else w)"

definition static_updateEventFlags :: "u32 \<Rightarrow> hik \<Rightarrow> hik" where
  "static_updateEventFlags flags w = (if hk_updateEventFlagsAction w then post (PostEventFlags flags) w else w)"

text \<open>The keys that are never repeated.\<close>

definition unrepeatable :: "u32 \<Rightarrow> parsed_mapping \<Rightarrow> bool" where
  "unrepeatable keyCode pm \<longleftrightarrow>
     list_ex (\<lambda>k. keyCode = ucast (getParsedSpecialKey pm k))
       [NX_KEYTYPE_CAPS_LOCK, NX_KEYTYPE_NUM_LOCK, NX_POWER_KEY, NX_KEYTYPE_MUTE, NX_KEYTYPE_PLAY,
        NX_KEYTYPE_EJECT, NX_KEYTYPE_VIDMIRROR, NX_KEYTYPE_ILLUMINATION_TOGGLE]"

definition keyboardEvent ::
  "u32 \<Rightarrow> u32 \<Rightarrow> u32 \<Rightarrow> u32 \<Rightarrow> u32 \<Rightarrow> u32 \<Rightarrow> u32 \<Rightarrow> hik \<Rightarrow> hik option" where
  "keyboardEvent eventType flags keyCode charCode charSet origCharCode origCharSet w =
     do { w \<leftarrow> outsideLock (static_keyboardEvent eventType flags keyCode charCode charSet
                            origCharCode origCharSet) w;
          if \<not> hk_hasKeyMap w then None
          else if unrepeatable keyCode (parsedMapping w) \<and>
                  hk_interfaceType w = NX_EVS_DEVICE_INTERFACE_ADB
          then Some w
          else Some (setRepeat eventType keyCode w) }"

definition keyboardSpecialEvent :: "u32 \<Rightarrow> u32 \<Rightarrow> u32 \<Rightarrow> u32 \<Rightarrow> hik \<Rightarrow> hik option" where
  "keyboardSpecialEvent eventType flags keyCode flavor w =
     do { w \<leftarrow> outsideLock (\<lambda>w. static_keyboardSpecialEvent eventType flags keyCode flavor
                                  (hk_isRepeat w) w) w;
          if \<not> hk_hasKeyMap w then None
          else if unrepeatable keyCode (parsedMapping w) then Some w
          else Some (setRepeat eventType keyCode w) }"

definition updateEventFlags :: "u32 \<Rightarrow> hik \<Rightarrow> hik option" where
  "updateEventFlags flags w = outsideLock (static_updateEventFlags flags) w"

definition setDeviceFlags :: "u32 \<Rightarrow> hik \<Rightarrow> hik" where
  "setDeviceFlags flags w =
     (if hk_eventFlags w \<noteq> flags
      then scheduleAutoRepeat (w\<lparr>hk_eventFlags := flags, hk_downRepeatTime := 0, hk_codeToRepeat := - 1\<rparr>)
      else w)"

definition setAlphaLock :: "bool \<Rightarrow> hik \<Rightarrow> hik" where
  "setAlphaLock val w =
     (let w = post (AlphaLockFeedback val) (w\<lparr>hk_alphaLock := val\<rparr>)
      in if hasNub w then post (CapsLockLEDElement val) w else w)"

definition setNumLock :: "bool \<Rightarrow> hik \<Rightarrow> hik" where
  "setNumLock val w =
     (let w = post (NumLockFeedback val) (w\<lparr>hk_numLock := val\<rparr>)
      in if hasNub w then post (NumLockLEDElement val) w else w)"

definition setCharKeyActive :: "bool \<Rightarrow> hik \<Rightarrow> hik" where
  "setCharKeyActive val w = w\<lparr>hk_charKeyActive := val\<rparr>"

definition setRepeatMode :: "bool \<Rightarrow> hik \<Rightarrow> hik option" where
  "setRepeatMode repeating w =
     do { w \<leftarrow> lockDevice w;
          let w = w\<lparr>hk_reserved := map_option (\<lambda>r. r\<lparr>rs_repeatMode := repeating\<rparr>) (hk_reserved w)\<rparr>;
          Some (unlockDevice w) }"

end
