(* ===== verification/HID_Mapper.thy ===== *)
theory HID_Mapper
  imports HID_Keyboard
begin

text \<open>
  The translation of one key code into events
  (\<^verbatim>\<open>IOHIDFamily/IOHIDSystem/IOHIKeyboardMapper.cpp\<close>): modifier flags, characters, sequences
  and special keys, as \<open>rawTranslateKeyCode\<close> does it for a key that no other feature of the
  keyboard has claimed. \<open>C\<close> is what the class of the keyboard answers.
\<close>

section \<open>Definitions\<close>

definition NX_ALPHASHIFTMASK :: u32 where [hid_consts]: "NX_ALPHASHIFTMASK = 0x00010000"
definition NX_SHIFTMASK :: u32 where [hid_consts]: "NX_SHIFTMASK = 0x00020000"
definition NX_NUMERICPADMASK :: u32 where [hid_consts]: "NX_NUMERICPADMASK = 0x00200000"
definition NX_DEVICELCTLKEYMASK :: u32 where [hid_consts]: "NX_DEVICELCTLKEYMASK = 0x00000001"
definition NX_DEVICELSHIFTKEYMASK :: u32 where [hid_consts]: "NX_DEVICELSHIFTKEYMASK = 0x00000002"
definition NX_DEVICERSHIFTKEYMASK :: u32 where [hid_consts]: "NX_DEVICERSHIFTKEYMASK = 0x00000004"
definition NX_DEVICELCMDKEYMASK :: u32 where [hid_consts]: "NX_DEVICELCMDKEYMASK = 0x00000008"
definition NX_DEVICERCMDKEYMASK :: u32 where [hid_consts]: "NX_DEVICERCMDKEYMASK = 0x00000010"
definition NX_DEVICELALTKEYMASK :: u32 where [hid_consts]: "NX_DEVICELALTKEYMASK = 0x00000020"
definition NX_DEVICERALTKEYMASK :: u32 where [hid_consts]: "NX_DEVICERALTKEYMASK = 0x00000040"
definition NX_DEVICERCTLKEYMASK :: u32 where [hid_consts]: "NX_DEVICERCTLKEYMASK = 0x00002000"

definition DeviceModifierMasks :: "u32 list" where
  "DeviceModifierMasks =
     [0, NX_DEVICELSHIFTKEYMASK, NX_DEVICELCTLKEYMASK, NX_DEVICELALTKEYMASK, NX_DEVICELCMDKEYMASK,
      0, 0, 0, 0, NX_DEVICERSHIFTKEYMASK, NX_DEVICERCTLKEYMASK, NX_DEVICERALTKEYMASK,
      NX_DEVICERCMDKEYMASK, 0, 0, 0]"

abbreviation isShorts :: "parsed_mapping \<Rightarrow> bool" where
  "isShorts pm \<equiv> pm_shorts pm \<noteq> 0"

subsection \<open>Modifiers\<close>

text \<open>
  Whether any of the keys of a modifier is down. The parameter \<open>kb\<close> of this and the
  following routines is the pointer to the bit vector: it is null or the keyboard's own.
\<close>

primrec anyKeyDown :: "bool \<Rightarrow> u32 list \<Rightarrow> nat \<Rightarrow> u8 list \<Rightarrow> bool option" where
  "anyKeyDown shorts keyState 0 mapping = Some False"
| "anyKeyDown shorts keyState (Suc n) mapping =
     do { (key, mapping) \<leftarrow> NEXTNUM shorts mapping;
          down \<leftarrow> EVK_IS_KEYDOWN (of_nat key) keyState;
          if down then Some True else anyKeyDown shorts keyState n mapping }"

definition IsModifierDown :: "bool \<Rightarrow> nat \<Rightarrow> hik \<Rightarrow> bool option" where
  "IsModifierDown kb modBit w =
     (case pm_modDefs (parsedMapping w) ! modBit of
        None \<Rightarrow> Some False
      | Some mapping \<Rightarrow>
          do { (n, mapping) \<leftarrow> NEXTNUM (isShorts (parsedMapping w)) mapping;
               if n \<noteq> 0 \<and> \<not> kb then None
               else anyKeyDown (isShorts (parsedMapping w)) (hk_keyState w) n mapping })"

definition isRightBit :: "nat \<Rightarrow> bool" where
  "isRightBit modBit \<longleftrightarrow> NX_MODIFIERKEY_RSHIFT \<le> modBit \<and> modBit \<le> NX_MODIFIERKEY_RCOMMAND"

definition isLeftBit :: "nat \<Rightarrow> bool" where
  "isLeftBit modBit \<longleftrightarrow> NX_MODIFIERKEY_SHIFT \<le> modBit \<and> modBit \<le> NX_MODIFIERKEY_COMMAND"

definition otherHandBit :: "nat \<Rightarrow> nat" where
  "otherHandBit modBit = (if isRightBit modBit then modBit - 8 else if isLeftBit modBit then modBit + 8 else 0)"

definition systemBitMask :: "nat \<Rightarrow> u32" where
  "systemBitMask modBit = push_bit ((if isRightBit modBit then otherHandBit modBit else modBit) + 16) 1"

definition calcModBit :: "nat \<Rightarrow> bool \<Rightarrow> hik \<Rightarrow> hik option" where
  "calcModBit modBit kb w =
     do { let deviceBitMask = DeviceModifierMasks ! modBit;
          let myFlags = hk_eventFlags w AND NOT (systemBitMask modBit);
          let myFlags = myFlags AND NOT deviceBitMask;
          down \<leftarrow> IsModifierDown kb modBit w;
          myFlags \<leftarrow>
            (if down then Some (myFlags OR (systemBitMask modBit OR deviceBitMask))
             else if deviceBitMask \<noteq> 0
             then do { other \<leftarrow> IsModifierDown kb (otherHandBit modBit) w;
                       Some (if other then myFlags OR systemBitMask modBit else myFlags) }
             else Some myFlags);
          let myFlags = myFlags OR mp_specialKeyModifierFlags (hk_keyMap w);
          let w = (if modBit = NX_MODIFIERKEY_ALPHALOCK then setAlphaLock (myFlags AND NX_ALPHASHIFTMASK \<noteq> 0) w
                   else if modBit = NX_MODIFIERKEY_NUMLOCK then setNumLock (myFlags AND NX_NUMERICPADMASK \<noteq> 0) w
                   else w);
          Some (setDeviceFlags myFlags w) }"

definition whichMod :: "u8 \<Rightarrow> nat" where
  "whichMod thisBits = unat (thisBits AND NX_WHICHMODMASK)"

definition doModCalc :: "u8 \<Rightarrow> bool \<Rightarrow> hik \<Rightarrow> hik option" where
  "doModCalc key kb w =
     (let thisBits = pm_keyBits (parsedMapping w) ! unat key
      in if thisBits AND NX_MODMASK \<noteq> 0
         then do { w \<leftarrow> calcModBit (whichMod thisBits) kb w;
                   if thisBits AND NX_CHARGENMASK = 0
                   then keyboardEvent NX_FLAGSCHANGED (hk_eventFlags w) (ucast key) 0 0 0 0 w
                   else updateEventFlags (hk_eventFlags w) w }
         else Some w)"

subsection \<open>Characters\<close>

text \<open>
  The position of a character in the definition of its key: one more bit of the index for
  every modifier of the key's mask.
\<close>

primrec charOffset :: "nat \<Rightarrow> nat \<Rightarrow> u32 \<Rightarrow> nat \<Rightarrow> nat \<Rightarrow> nat" where
  "charOffset 0 thisMask modifiers adjust offset = offset"
| "charOffset (Suc n) thisMask modifiers adjust offset =
     charOffset n (thisMask div 2) (drop_bit 1 modifiers)
       (if odd thisMask then adjust * 2 else adjust)
       (if odd thisMask \<and> modifiers AND 1 \<noteq> 0 then offset + adjust else offset)"

definition lookupChar :: "parsed_mapping \<Rightarrow> u8 list \<Rightarrow> u32 \<Rightarrow> (nat \<times> nat) option" where
  "lookupChar pm mapping modifiers =
     do { (thisMask, mapping) \<leftarrow> NEXTNUM (isShorts pm) mapping;
          let mapping =
            (if thisMask \<noteq> 0 \<and> modifiers \<noteq> 0
             then drop (charOffset (nat (pm_maxMod pm + 1)) thisMask modifiers
                          ((if isShorts pm then 2 else 1) * 2) 0) mapping
             else mapping);
          (charSet, mapping) \<leftarrow> NEXTNUM (isShorts pm) mapping;
          (charCode, mapping) \<leftarrow> NEXTNUM (isShorts pm) mapping;
          Some (charSet, charCode) }"

text \<open>
  The keys of a sequence; a meta key sets a flag for the keys behind it. Shifting by more
  than the width of an integer is undefined.
\<close>

primrec playSequence ::
  "bool \<Rightarrow> bool \<Rightarrow> u32 \<Rightarrow> u8 \<Rightarrow> nat \<Rightarrow> u32 \<Rightarrow> u8 list \<Rightarrow> hik \<Rightarrow> (u32 \<times> hik) option" where
  "playSequence shorts down eventType keyCode 0 eventFlags mapping w = Some (eventFlags, w)"
| "playSequence shorts down eventType keyCode (Suc n) eventFlags mapping w =
     do { (charSet, mapping) \<leftarrow> NEXTNUM shorts mapping;
          (value, mapping) \<leftarrow> NEXTNUM shorts mapping;
          if charSet = 0xFF
          then if down
               then if value + 16 < 32
                    then do { w \<leftarrow> keyboardEvent NX_FLAGSCHANGED (hk_eventFlags w) (ucast keyCode) 0 0 0 0 w;
                              playSequence shorts down eventType keyCode n
                                (eventFlags OR push_bit (value + 16) 1) mapping w }
                    else None
               else playSequence shorts down eventType keyCode n eventFlags mapping w
          else do { w \<leftarrow> keyboardEvent eventType eventFlags (ucast keyCode) (of_nat value)
                             (of_nat charSet) (of_nat value) (of_nat charSet) w;
                    playSequence shorts down eventType keyCode n eventFlags mapping w } }"

text \<open>The bits 16 and up of the flags, with the alpha shift bit set when shift is.\<close>

definition charModifiers :: "u32 \<Rightarrow> u32" where
  "charModifiers eventFlags =
     (let saveModifiers = drop_bit 16 eventFlags
      in if saveModifiers AND drop_bit 16 NX_SHIFTMASK \<noteq> 0
         then saveModifiers OR drop_bit 16 NX_ALPHASHIFTMASK else saveModifiers)"

definition generateChars :: "u8 \<Rightarrow> bool \<Rightarrow> u32 \<Rightarrow> u8 list \<Rightarrow> hik \<Rightarrow> hik option" where
  "generateChars keyCode down eventFlags mapping w =
     do { let pm = parsedMapping w;
          let eventType = (if down then NX_KEYDOWN else NX_KEYUP);
          (charSet, charCode) \<leftarrow> lookupChar pm mapping (charModifiers eventFlags);
          (origCharSet, origCharCode) \<leftarrow>
            lookupChar pm mapping
              (charModifiers eventFlags AND drop_bit 16 (NX_ALPHASHIFTMASK OR NX_SHIFTMASK));
          if charSet = allOnes (isShorts pm)
          then do { mapping \<leftarrow> (if charCode < length (pm_seqDefs pm) then pm_seqDefs pm ! charCode else None);
                    (n, mapping) \<leftarrow> NEXTNUM (isShorts pm) mapping;
                    (flags, w) \<leftarrow> playSequence (isShorts pm) down eventType keyCode n eventFlags mapping w;
                    if flags \<noteq> eventFlags
                    then keyboardEvent NX_FLAGSCHANGED (hk_eventFlags w) (ucast keyCode) 0 0 0 0 w
                    else Some w }
          else keyboardEvent eventType eventFlags (ucast keyCode) (of_nat charCode) (of_nat charSet)
                 (of_nat origCharCode) (of_nat origCharSet) w }"

subsection \<open>Special keys\<close>

text \<open>The lowest special key with the given key code, as the loop with its \<open>break\<close> finds it.\<close>

definition specialIndex :: "parsed_mapping \<Rightarrow> u8 \<Rightarrow> nat option" where
  "specialIndex pm keyCode =
     find (\<lambda>i. ucast keyCode = pm_specialKeys pm ! i) [0..<NX_NUM_SCANNED_SPECIALKEYS]"

definition toggleAlphaLock :: "u8 \<Rightarrow> hik \<Rightarrow> hik option" where
  "toggleAlphaLock keyCode w =
     (let myFlags = hk_eventFlags w;
          alphaLock = (\<not> hk_alphaLock w);
          w = setAlphaLock alphaLock w;
          myFlags = (if alphaLock then myFlags OR NX_ALPHASHIFTMASK else myFlags AND NOT NX_ALPHASHIFTMASK);
          w = updMapper (\<lambda>m. m\<lparr>mp_specialKeyModifierFlags :=
                (if alphaLock then mp_specialKeyModifierFlags m OR NX_ALPHASHIFTMASK
                 else mp_specialKeyModifierFlags m AND NOT NX_ALPHASHIFTMASK)\<rparr>) w
      in keyboardEvent NX_FLAGSCHANGED myFlags (ucast keyCode) 0 0 0 0 (setDeviceFlags myFlags w))"

definition toggleNumLock :: "u8 \<Rightarrow> hik \<Rightarrow> hik option" where
  "toggleNumLock keyCode w =
     (let myFlags = hk_eventFlags w;
          numLock = (\<not> hk_numLock w);
          w = setNumLock numLock w;
          myFlags = (if numLock then myFlags OR NX_NUMERICPADMASK else myFlags AND NOT NX_NUMERICPADMASK);
          w = updMapper (\<lambda>m. m\<lparr>mp_specialKeyModifierFlags :=
                (if numLock then mp_specialKeyModifierFlags m OR NX_NUMERICPADMASK
                 else mp_specialKeyModifierFlags m AND NOT NX_NUMERICPADMASK)\<rparr>) w
      in keyboardEvent NX_FLAGSCHANGED myFlags (ucast keyCode) 0 0 0 0 (setDeviceFlags myFlags w))"

definition doSpecialKey :: "hik_class \<Rightarrow> u8 \<Rightarrow> bool \<Rightarrow> u32 \<Rightarrow> hik \<Rightarrow> hik option" where
  "doSpecialKey C keyCode down eventFlags w =
     (case specialIndex (parsedMapping w) keyCode of
        None \<Rightarrow> Some w
      | Some i \<Rightarrow>
          do { w \<leftarrow> keyboardSpecialEvent (if down then NX_KEYDOWN else NX_KEYUP) eventFlags
                      (ucast keyCode) (of_nat i) w;
               if i = NX_KEYTYPE_CAPS_LOCK \<and> down \<and>
                  pm_modDefs (parsedMapping w) ! NX_MODIFIERKEY_ALPHALOCK = None
               then toggleAlphaLock keyCode w
               else if i = NX_KEYTYPE_NUM_LOCK \<and> down \<and>
                  (doesKeyLock C NX_KEYTYPE_NUM_LOCK \<or> isADBButtons C) \<and>
                  pm_modDefs (parsedMapping w) ! NX_MODIFIERKEY_NUMLOCK = None
               then toggleNumLock keyCode w
               else Some w })"

definition doCharGen :: "hik_class \<Rightarrow> u8 \<Rightarrow> bool \<Rightarrow> hik \<Rightarrow> hik option" where
  "doCharGen C keyCode down w =
     do { let w = setCharKeyActive True w;
          let eventFlags = hk_eventFlags w;
          w \<leftarrow> (case pm_keyDefs (parsedMapping w) ! unat keyCode of
                  None \<Rightarrow> Some w
                | Some mapping \<Rightarrow> generateChars keyCode down eventFlags mapping w);
          if pm_keyBits (parsedMapping w) ! unat keyCode AND NX_SPECIALKEYMASK \<noteq> 0
          then doSpecialKey C keyCode down eventFlags w
          else Some w }"

subsection \<open>One key\<close>

text \<open>The characters of the keys that Japanese keyboards have in addition.\<close>

definition jisChar :: "u8 \<Rightarrow> u32" where
  "jisChar key = (if key = 0x5F then 0x2C else if key = 0x5E then 0x5F else if key = 0x5d then 0x5C
                  else if key = 0x0a then 0xa7 else 0)"

definition updateKeyState ::
  "(u32 \<Rightarrow> u32 list \<Rightarrow> u32 list option) \<Rightarrow> u8 \<Rightarrow> bool \<Rightarrow> hik \<Rightarrow> hik option" where
  "updateKeyState evk key kb w =
     (if kb then do { bits \<leftarrow> evk (ucast key) (hk_keyState w); Some (w\<lparr>hk_keyState := bits\<rparr>) } else None)"

definition rawTranslateKeyCode :: "hik_class \<Rightarrow> u8 \<Rightarrow> bool \<Rightarrow> bool \<Rightarrow> hik \<Rightarrow> hik option" where
  "rawTranslateKeyCode C key keyDown kb w =
     do { let thisBits = pm_keyBits (parsedMapping w) ! unat key;
          w \<leftarrow> (if keyDown
                then do { w \<leftarrow> updateKeyState EVK_KEYDOWN key kb w;
                          w \<leftarrow> (if thisBits AND NX_MODMASK \<noteq> 0 then doModCalc key kb w else Some w);
                          if thisBits AND NX_CHARGENMASK \<noteq> 0 then doCharGen C key keyDown w else Some w }
                else do { w \<leftarrow> updateKeyState EVK_KEYUP key kb w;
                          w \<leftarrow> (if thisBits AND NX_CHARGENMASK \<noteq> 0 then doCharGen C key keyDown w else Some w);
                          if thisBits AND NX_MODMASK \<noteq> 0 then doModCalc key kb w else Some w });
          if thisBits AND (NX_MODMASK OR NX_CHARGENMASK) = 0 \<and>
             interfaceID C = NX_EVS_DEVICE_INTERFACE_ADB
          then keyboardEvent (if keyDown then NX_KEYDOWN else NX_KEYUP) (hk_eventFlags w) (ucast key)
                 (jisChar key) 0 0 0 w
          else Some w }"

end
