(* ===== verification/HID_Features.thy ===== *)
theory HID_Features
  imports HID_Mapper
begin

text \<open>
  What the mapper puts before the translation of a key
  (\<^verbatim>\<open>IOHIDFamily/IOHIDSystem/IOHIKeyboardMapper.cpp\<close>): swapped modifiers, slow keys, the
  eject key on F12 and sticky keys; and \<open>translateKeyCode\<close>, which tries them in turn.
  \<open>timersWork\<close> says whether an event source can be added to the HID system's work loop.
\<close>

section \<open>Definitions\<close>

definition kState_Disabled_Flag :: u32 where [hid_consts]: "kState_Disabled_Flag = 0x0001"
definition kState_ShiftActivates_Flag :: u32 where [hid_consts]: "kState_ShiftActivates_Flag = 0x0002"
definition kState_On :: u32 where [hid_consts]: "kState_On = 0x0004"
definition kState_On_ModifiersDown :: u32 where [hid_consts]: "kState_On_ModifiersDown = 0x0008"
definition kState_OptionActivates_Flag :: u32 where [hid_consts]: "kState_OptionActivates_Flag = 0x0010"
definition kState_PrefFnKeyStateOn :: u32 where [hid_consts]: "kState_PrefFnKeyStateOn = 0x0200"
definition kState_StickyFnKeyStateOn :: u32 where [hid_consts]: "kState_StickyFnKeyStateOn = 0x0400"
definition kState_MouseKeyStateOn :: u32 where [hid_consts]: "kState_MouseKeyStateOn = 0x0800"
definition kState_StickyFnKeyStateChangePending :: u32 where [hid_consts]:
  "kState_StickyFnKeyStateChangePending = 0x1000"

definition kState_Aborted_Flag :: u16 where [hid_consts]: "kState_Aborted_Flag = 0x0200"
definition kState_In_Progess_Flag :: u16 where [hid_consts]: "kState_In_Progess_Flag = 0x0400"
definition kState_Is_Repeat_Flag :: u16 where [hid_consts]: "kState_Is_Repeat_Flag = 0x0800"

definition kModifier_DidPerformModifiy :: u8 where [hid_consts]: "kModifier_DidPerformModifiy = 0x01"
definition kModifier_DidKeyUp :: u8 where [hid_consts]: "kModifier_DidKeyUp = 0x02"
definition kModifier_Locked :: u8 where [hid_consts]: "kModifier_Locked = 0x04"

definition kADB_KEYBOARD_F12 :: u8 where [hid_consts]: "kADB_KEYBOARD_F12 = 0x6f"

definition NX_SUBTYPE_STICKYKEYS_ON :: u32 where [hid_consts]: "NX_SUBTYPE_STICKYKEYS_ON = 100"
definition NX_SUBTYPE_STICKYKEYS_OFF :: u32 where [hid_consts]: "NX_SUBTYPE_STICKYKEYS_OFF = 101"
definition NX_SUBTYPE_STICKYKEYS_TOGGLEMOUSEDRIVING :: u32 where [hid_consts]:
  "NX_SUBTYPE_STICKYKEYS_TOGGLEMOUSEDRIVING = 107"
definition NX_SUBTYPE_STICKYKEYS_SHIFT_DOWN :: u32 where [hid_consts]: "NX_SUBTYPE_STICKYKEYS_SHIFT_DOWN = 110"
definition NX_SUBTYPE_STICKYKEYS_SHIFT_LOCK :: u32 where [hid_consts]: "NX_SUBTYPE_STICKYKEYS_SHIFT_LOCK = 120"
definition NX_SUBTYPE_STICKYKEYS_SHIFT_UP :: u32 where [hid_consts]: "NX_SUBTYPE_STICKYKEYS_SHIFT_UP = 130"
definition NX_SUBTYPE_SLOWKEYS_START :: u32 where [hid_consts]: "NX_SUBTYPE_SLOWKEYS_START = 200"
definition NX_SUBTYPE_SLOWKEYS_ABORT :: u32 where [hid_consts]: "NX_SUBTYPE_SLOWKEYS_ABORT = 201"
definition NX_SUBTYPE_SLOWKEYS_END :: u32 where [hid_consts]: "NX_SUBTYPE_SLOWKEYS_END = 202"

definition keyBitsOfKey :: "u8 \<Rightarrow> hik \<Rightarrow> u8" where
  "keyBitsOfKey key w = pm_keyBits (parsedMapping w) ! unat key"

subsection \<open>Swapped modifiers\<close>

text \<open>
  The swapped bit is any 32-bit number that a user has set, cut to 16 bits; it is used as an
  index.
\<close>

definition modDefAt :: "parsed_mapping \<Rightarrow> int \<Rightarrow> u8 list option option" where
  "modDefAt pm i =
     (if 0 \<le> i \<and> i < int (length (pm_modDefs pm)) then Some (pm_modDefs pm ! nat i) else None)"

definition setCapsKeyBits :: "(u8 \<Rightarrow> u8) \<Rightarrow> parsed_mapping \<Rightarrow> parsed_mapping option" where
  "setCapsKeyBits f pm =
     do { bits \<leftarrow> updateKeyBits f (unat (pm_specialKeys pm ! NX_KEYTYPE_CAPS_LOCK)) (pm_keyBits pm);
          Some (pm\<lparr>pm_keyBits := bits\<rparr>) }"

definition swappedKey :: "int \<Rightarrow> u8 \<Rightarrow> parsed_mapping \<Rightarrow> u8 option" where
  "swappedKey swapBit key pm =
     do { def \<leftarrow> modDefAt pm swapBit;
          let other = (if swapBit = int NX_MODIFIERKEY_ALPHALOCK
                       then getParsedSpecialKey pm NX_KEYTYPE_CAPS_LOCK else key);
          case def of
            None \<Rightarrow> Some other
          | Some mapping \<Rightarrow>
              do { (n, mapping) \<leftarrow> NEXTNUM (isShorts pm) mapping;
                   if n \<noteq> 0 then do { (k, mapping) \<leftarrow> NEXTNUM (isShorts pm) mapping; Some (of_nat k) }
                   else Some other } }"

definition modifierSwapFilterKey :: "hik_class \<Rightarrow> u8 \<Rightarrow> hik \<Rightarrow> (bool \<times> u8 \<times> hik) option" where
  "modifierSwapFilterKey C key w =
     do { let pm = parsedMapping w;
          let thisBits = keyBitsOfKey key w;
          let modBit = (if thisBits AND NX_MODMASK \<noteq> 0 then Some (whichMod thisBits)
                        else if key = getParsedSpecialKey pm NX_KEYTYPE_CAPS_LOCK
                        then Some NX_MODIFIERKEY_ALPHALOCK else None);
          case modBit of
            None \<Rightarrow> Some (False, key, w)
          | Some modBit \<Rightarrow>
              if NX_MODIFIERKEY_RCOMMAND < modBit then Some (False, key, w)
              else do {
                let swapBit = sint (ucast (mp_modifierSwap (hk_keyMap w) ! modBit) :: u16);
                let capsLocks = (doesKeyLock C NX_KEYTYPE_CAPS_LOCK \<and> swapBit = int NX_MODIFIERKEY_ALPHALOCK);
                if swapBit = int modBit
                then if capsLocks
                     then do { pm \<leftarrow> setCapsKeyBits (\<lambda>b. b AND NOT NX_CHARGENMASK) pm;
                               let pm = pm\<lparr>pm_modDefs := (pm_modDefs pm)[NX_MODIFIERKEY_ALPHALOCK :=
                                              mp_cachedAlphaLockModDefs (hk_keyMap w)]\<rparr>;
                               Some (False, key,
                                 updMapper (\<lambda>m. m\<lparr>mp_parsed := pm, mp_specialKeyModifierFlags :=
                                   mp_specialKeyModifierFlags m AND NOT NX_ALPHASHIFTMASK\<rparr>) w) }
                     else Some (False, key, w)
                else if swapBit = - 1 then Some (True, key, w)
                else do {
                  pm \<leftarrow> (if capsLocks
                         then do { pm \<leftarrow> setCapsKeyBits (\<lambda>b. b OR NX_CHARGENMASK) pm;
                                   Some (pm\<lparr>pm_modDefs := (pm_modDefs pm)[NX_MODIFIERKEY_ALPHALOCK := None]\<rparr>) }
                         else Some pm);
                  key \<leftarrow> swappedKey swapBit key pm;
                  Some (False, key, updMapper (\<lambda>m. m\<lparr>mp_parsed := pm\<rparr>) w) } } }"

subsection \<open>Sticky keys\<close>

definition postKeyboardSpecialEvent :: "u32 \<Rightarrow> u32 \<Rightarrow> hik \<Rightarrow> hik option" where
  "postKeyboardSpecialEvent subtype eventType w =
     keyboardSpecialEvent eventType (hk_eventFlags w) (of_nat NX_NOSPECIALKEY) subtype w"

definition leftBit :: "u8 \<Rightarrow> nat" where
  "leftBit thisBits = (if isRightBit (whichMod thisBits) then whichMod thisBits - 8 else whichMod thisBits)"

definition modifierOfInterest :: "u8 \<Rightarrow> bool" where
  "modifierOfInterest keyBits \<longleftrightarrow>
     keyBits AND NX_MODMASK \<noteq> 0 \<and>
     (isLeftBit (whichMod keyBits) \<or> isRightBit (whichMod keyBits) \<or>
      whichMod keyBits = NX_MODIFIERKEY_SECONDARYFN)"

definition mouseKey :: "u8 \<Rightarrow> bool" where
  "mouseKey keyBits \<longleftrightarrow> keyBits AND NX_MODMASK \<noteq> 0 \<and> whichMod keyBits = NX_MODIFIERKEY_NUMERICPAD"

definition mouseKeyToIgnore :: "u8 \<Rightarrow> u8 \<Rightarrow> bool" where
  "mouseKeyToIgnore keyBits key \<longleftrightarrow>
     mouseKey keyBits \<and> (0x52 \<le> key \<and> key \<le> 0x56 \<or> 0x58 \<le> key \<and> key \<le> 0x5c)"

text \<open>
  Pressing a modifier several times: the index of the latest press whose deadline has
  passed, the removal of it and all earlier ones, and the check itself.
\<close>

primrec latestExpired :: "u64 \<Rightarrow> u64 list \<Rightarrow> nat \<Rightarrow> nat option" where
  "latestExpired now deadlines 0 = None"
| "latestExpired now deadlines (Suc i) =
     (if deadlines ! i < now then Some i else latestExpired now deadlines i)"

definition pruneDeadlines :: "u64 \<Rightarrow> toggle_info \<Rightarrow> toggle_info" where
  "pruneDeadlines now t =
     (case latestExpired now (tg_deadlines t) (tg_currentCount t) of
        None \<Rightarrow> t
      | Some i \<Rightarrow>
          t\<lparr>tg_deadlines := fold (\<lambda>k ds. ds[k := ds ! (k + (i + 1))]) [0..<tg_currentCount t - (i + 1)]
                              (tg_deadlines t),
            tg_currentCount := tg_currentCount t - (i + 1)\<rparr>)"

definition stickyKeysModifierToggleCheck ::
  "u64 \<Rightarrow> u8 \<Rightarrow> bool \<Rightarrow> bool \<Rightarrow> toggle_info \<Rightarrow> (bool \<times> toggle_info) option" where
  "stickyKeysModifierToggleCheck now thisBits keyDown mouseClick t =
     (if leftBit thisBits = tg_toggleModifier t \<and> \<not> mouseClick
      then let t = pruneDeadlines now t
           in if keyDown
              then if tg_currentCount t < tg_repetitionsToToggle t
                   then if tg_currentCount t < length (tg_deadlines t)
                        then Some (False, t\<lparr>tg_deadlines := (tg_deadlines t)
                                              [tg_currentCount t := now + tg_expireInterval t],
                                            tg_currentCount := tg_currentCount t + 1\<rparr>)
                        else None
                   else Some (False, t)
              else if tg_currentCount t = tg_repetitionsToToggle t
                   then Some (True, t\<lparr>tg_currentCount := 0\<rparr>)
                   else Some (False, t)
      else Some (False, t\<lparr>tg_currentCount := 0\<rparr>))"

text \<open>
  The events for a modifier that is pressed, locked or released: the subtypes of the five
  modifiers are consecutive, from the given one for shift on.
\<close>

definition stickySubtype :: "u32 \<Rightarrow> nat \<Rightarrow> u32 option" where
  "stickySubtype shiftSubtype modBit =
     (if modBit = NX_MODIFIERKEY_SHIFT \<or> modBit = NX_MODIFIERKEY_RSHIFT then Some shiftSubtype
      else if modBit = NX_MODIFIERKEY_CONTROL \<or> modBit = NX_MODIFIERKEY_RCONTROL then Some (shiftSubtype + 1)
      else if modBit = NX_MODIFIERKEY_ALTERNATE \<or> modBit = NX_MODIFIERKEY_RALTERNATE then Some (shiftSubtype + 2)
      else if modBit = NX_MODIFIERKEY_COMMAND \<or> modBit = NX_MODIFIERKEY_RCOMMAND then Some (shiftSubtype + 3)
      else if modBit = NX_MODIFIERKEY_SECONDARYFN then Some (shiftSubtype + 4)
      else None)"

definition postSticky :: "u32 \<Rightarrow> nat \<Rightarrow> hik \<Rightarrow> hik option" where
  "postSticky shiftSubtype modBit w =
     (case stickySubtype shiftSubtype modBit of
        None \<Rightarrow> Some w
      | Some subtype \<Rightarrow> postKeyboardSpecialEvent subtype NX_SYSDEFINED w)"

definition updSticky :: "(u32 \<Rightarrow> u32) \<Rightarrow> hik \<Rightarrow> hik" where
  "updSticky f w = updMapper (\<lambda>m. m\<lparr>mp_stickyState := f (mp_stickyState m)\<rparr>) w"

definition updStuck :: "nat \<Rightarrow> (stuck_modifier \<Rightarrow> stuck_modifier) \<Rightarrow> hik \<Rightarrow> hik" where
  "updStuck i f w = updMapper (\<lambda>m. m\<lparr>mp_stuck := (mp_stuck m)[i := f (mp_stuck m ! i)]\<rparr>) w"

definition triggerSetFnState :: "hik \<Rightarrow> hik" where
  "triggerSetFnState w = (if mp_setFnStateSource (hk_keyMap w) then post InterruptSetFnState w else w)"

definition heldModifier :: "nat \<Rightarrow> mapper \<Rightarrow> nat option" where
  "heldModifier leftModBit m =
     find (\<lambda>i. unat (sk_leftModBit (mp_stuck m ! i)) = leftModBit) [0..<mp_numModifiersDown m]"

definition hasFlag :: "u8 \<Rightarrow> u8 \<Rightarrow> bool" where
  "hasFlag state flag \<longleftrightarrow> state AND flag \<noteq> 0"

definition clearStuck :: stuck_modifier where
  "clearStuck = \<lparr>sk_key = 0, sk_state = 0, sk_leftModBit = 0\<rparr>"

definition releaseStickyModifier :: "hik_class \<Rightarrow> nat \<Rightarrow> u8 \<Rightarrow> bool \<Rightarrow> hik \<Rightarrow> hik option" where
  "releaseStickyModifier C heldIndex thisBits kb w =
     do { w \<leftarrow> rawTranslateKeyCode C (sk_key (mp_stuck (hk_keyMap w) ! heldIndex)) False kb w;
          let w = updStuck heldIndex (\<lambda>_. clearStuck) w;
          let w = updMapper (\<lambda>m. m\<lparr>mp_numModifiersDown := mp_numModifiersDown m - 1\<rparr>) w;
          let w = (if mp_numModifiersDown (hk_keyMap w) = 0
                   then updSticky (\<lambda>s. s AND NOT kState_On_ModifiersDown) w else w);
          let w = updMapper (\<lambda>m. m\<lparr>mp_stuck :=
                    fold (\<lambda>i xs. xs[i := xs ! (i + 1)]) [heldIndex..<mp_numModifiersDown m] (mp_stuck m)\<rparr>) w;
          let w = (if whichMod thisBits = NX_MODIFIERKEY_SECONDARYFN
                   then triggerSetFnState
                          (updSticky (\<lambda>s. s AND NOT (kState_StickyFnKeyStateOn OR
                                                      kState_StickyFnKeyStateChangePending)) w)
                   else w);
          postSticky NX_SUBTYPE_STICKYKEYS_SHIFT_UP (whichMod thisBits) w }"

definition stickyKeysModifierKey :: "hik_class \<Rightarrow> u8 \<Rightarrow> bool \<Rightarrow> bool \<Rightarrow> hik \<Rightarrow> (bool \<times> hik) option" where
  "stickyKeysModifierKey C key keyDown kb w =
     do { let thisBits = keyBitsOfKey key w;
          let held = heldModifier (leftBit thisBits) (hk_keyMap w);
          if \<not> keyDown
          then case held of
                 None \<Rightarrow> Some (False, w)
               | Some i \<Rightarrow>
                   let state = sk_state (mp_stuck (hk_keyMap w) ! i)
                   in if hasFlag state kModifier_DidPerformModifiy \<and> \<not> hasFlag state kModifier_Locked
                      then do { w \<leftarrow> releaseStickyModifier C i thisBits kb w; Some (True, w) }
                      else let w = updStuck i (\<lambda>s. s\<lparr>sk_state := sk_state s OR kModifier_DidKeyUp\<rparr>) w
                           in Some (True,
                                if whichMod thisBits = NX_MODIFIERKEY_SECONDARYFN \<and>
                                   mp_stickyState (hk_keyMap w) AND kState_StickyFnKeyStateChangePending \<noteq> 0
                                then triggerSetFnState
                                       (updSticky (\<lambda>s. s AND NOT kState_StickyFnKeyStateChangePending) w)
                                else w)
          else case held of
                 Some i \<Rightarrow>
                   if hasFlag (sk_state (mp_stuck (hk_keyMap w) ! i)) kModifier_Locked
                   then do { w \<leftarrow> releaseStickyModifier C i thisBits kb w; Some (True, w) }
                   else do { let w = updStuck i (\<lambda>s. s\<lparr>sk_state := sk_state s OR kModifier_Locked\<rparr>) w;
                             w \<leftarrow> postSticky NX_SUBTYPE_STICKYKEYS_SHIFT_LOCK (whichMod thisBits) w;
                             Some (True, w) }
               | None \<Rightarrow>
                   do { w \<leftarrow> rawTranslateKeyCode C key keyDown kb w;
                        let n = mp_numModifiersDown (hk_keyMap w);
                        let w = (if n < kMAX_MODIFIERS
                                 then updStuck n (\<lambda>_. \<lparr>sk_key = key, sk_state = 0,
                                                       sk_leftModBit = of_nat (leftBit thisBits)\<rparr>)
                                        (updMapper (\<lambda>m. m\<lparr>mp_numModifiersDown := n + 1\<rparr>) w)
                                 else w);
                        let w = updSticky (\<lambda>s. s OR kState_On_ModifiersDown) w;
                        let w = (if whichMod thisBits = NX_MODIFIERKEY_SECONDARYFN
                                 then updSticky (\<lambda>s. s OR (kState_StickyFnKeyStateOn OR
                                                            kState_StickyFnKeyStateChangePending)) w
                                 else w);
                        w \<leftarrow> postSticky NX_SUBTYPE_STICKYKEYS_SHIFT_DOWN (whichMod thisBits) w;
                        Some (True, w) } }"

text \<open>
  The loop that releases the modifiers after another key: after a release the index stays
  where it is, because the modifiers behind it have moved forward.
\<close>

partial_function (option) releaseLoop :: "hik_class \<Rightarrow> bool \<Rightarrow> nat \<Rightarrow> hik \<Rightarrow> hik option" where
  "releaseLoop C kb i w =
     (if i < mp_numModifiersDown (hk_keyMap w)
      then do { let w = updStuck i (\<lambda>s. s\<lparr>sk_state := sk_state s OR kModifier_DidPerformModifiy\<rparr>) w;
                let s = mp_stuck (hk_keyMap w) ! i;
                if hasFlag (sk_state s) kModifier_DidKeyUp \<and> \<not> hasFlag (sk_state s) kModifier_Locked
                then do { (_, w) \<leftarrow> stickyKeysModifierKey C (sk_key s) False kb w;
                          releaseLoop C kb i w }
                else releaseLoop C kb (i + 1) w }
      else Some w)"

definition stickyKeysNonModifierKey :: "hik_class \<Rightarrow> u8 \<Rightarrow> bool \<Rightarrow> bool \<Rightarrow> bool \<Rightarrow> hik \<Rightarrow> hik option" where
  "stickyKeysNonModifierKey C key keyDown kb mouseClick w =
     do { w \<leftarrow> (if \<not> mouseClick then rawTranslateKeyCode C key keyDown kb w else Some w);
          w \<leftarrow> releaseLoop C kb 0 w;
          Some (if mp_numModifiersDown (hk_keyMap w) = 0
                then updSticky (\<lambda>s. s AND NOT kState_On_ModifiersDown) w else w) }"

primrec releaseAll :: "hik_class \<Rightarrow> nat list \<Rightarrow> hik \<Rightarrow> hik option" where
  "releaseAll C [] w = Some w"
| "releaseAll C (i # is) w =
     do { w \<leftarrow> rawTranslateKeyCode C (sk_key (mp_stuck (hk_keyMap w) ! i)) False
                 (mp_cachedKeyBits (hk_keyMap w)) w;
          releaseAll C is w }"

definition stickyKeysCleanup :: "hik_class \<Rightarrow> hik \<Rightarrow> hik option" where
  "stickyKeysCleanup C w =
     do { let w = updSticky (\<lambda>s. s AND NOT kState_On) w;
          w \<leftarrow> releaseAll C [0..<mp_numModifiersDown (hk_keyMap w)] w;
          let w = updSticky (\<lambda>s. s AND NOT kState_On_ModifiersDown) w;
          let w = updMapper (\<lambda>m. m\<lparr>mp_numModifiersDown := 0\<rparr>) w;
          let w = updSticky (\<lambda>s. s AND NOT kState_StickyFnKeyStateOn) w;
          Some (triggerSetFnState w) }"

definition stickyIs :: "u32 \<Rightarrow> hik \<Rightarrow> bool" where
  "stickyIs flag w \<longleftrightarrow> mp_stickyState (hk_keyMap w) AND flag \<noteq> 0"

definition createStickySources :: "bool \<Rightarrow> hik \<Rightarrow> hik" where
  "createStickySources timersWork w =
     updMapper (\<lambda>m. m\<lparr>mp_mouseClickSource := mp_mouseClickSource m \<or> mp_hidSystem m \<and> timersWork,
                      mp_setFnStateSource := mp_setFnStateSource m \<or> mp_hidSystem m \<and> timersWork\<rparr>) w"

definition checkShiftToggle :: "u8 \<Rightarrow> bool \<Rightarrow> bool \<Rightarrow> hik \<Rightarrow> (bool \<times> hik) option" where
  "checkShiftToggle thisBits keyDown mouseClick w =
     (if stickyIs kState_ShiftActivates_Flag w
      then do { (toggled, t) \<leftarrow> stickyKeysModifierToggleCheck (hk_uptime w) thisBits keyDown mouseClick
                                  (mp_shiftToggle (hk_keyMap w));
                Some (toggled, updMapper (\<lambda>m. m\<lparr>mp_shiftToggle := t\<rparr>) w) }
      else Some (False, w))"

definition checkOptionToggle :: "u8 \<Rightarrow> bool \<Rightarrow> bool \<Rightarrow> hik \<Rightarrow> hik option" where
  "checkOptionToggle thisBits keyDown mouseClick w =
     (if stickyIs kState_OptionActivates_Flag w
      then do { (toggled, t) \<leftarrow> stickyKeysModifierToggleCheck (hk_uptime w) thisBits keyDown mouseClick
                                  (mp_optionToggle (hk_keyMap w));
                let w = updMapper (\<lambda>m. m\<lparr>mp_optionToggle := t\<rparr>) w;
                if toggled
                then postKeyboardSpecialEvent NX_SUBTYPE_STICKYKEYS_TOGGLEMOUSEDRIVING NX_SYSDEFINED w
                else Some w }
      else Some w)"

definition toggleStickyKeys :: "hik_class \<Rightarrow> hik \<Rightarrow> hik option" where
  "toggleStickyKeys C w =
     do { w \<leftarrow> (if stickyIs kState_On w
                then do { w \<leftarrow> stickyKeysCleanup C w;
                          postKeyboardSpecialEvent NX_SUBTYPE_STICKYKEYS_OFF NX_SYSDEFINED w }
                else postKeyboardSpecialEvent NX_SUBTYPE_STICKYKEYS_ON NX_SYSDEFINED
                       (updSticky (\<lambda>s. s OR kState_On) w));
          Some (triggerSetFnState (updMapper (\<lambda>m. m\<lparr>mp_stateDirty := True\<rparr>) w)) }"

definition stickyKeysClaim :: "u8 \<Rightarrow> u8 \<Rightarrow> bool \<Rightarrow> bool \<Rightarrow> hik \<Rightarrow> bool" where
  "stickyKeysClaim thisBits key keyDown mouseClick w \<longleftrightarrow>
     stickyIs kState_On_ModifiersDown w \<and> \<not> modifierOfInterest thisBits \<and>
     (mouseClick \<or>
      keyDown \<and> \<not> (stickyIs kState_MouseKeyStateOn w \<and> mouseKey thisBits) \<or>
      \<not> keyDown \<and> \<not> (stickyIs kState_MouseKeyStateOn w \<and> mouseKeyToIgnore thisBits key))"

definition stickyKeysFilterKey ::
  "hik_class \<Rightarrow> bool \<Rightarrow> u8 \<Rightarrow> bool \<Rightarrow> bool \<Rightarrow> bool \<Rightarrow> hik \<Rightarrow> (bool \<times> hik) option" where
  "stickyKeysFilterKey C timersWork key keyDown kb mouseClick w =
     (let thisBits = keyBitsOfKey key w
      in if pm_maxMod (parsedMapping w) = - 1 \<or> stickyIs kState_Disabled_Flag w then Some (False, w)
         else do {
           (shouldToggle, w) \<leftarrow> checkShiftToggle thisBits keyDown mouseClick w;
           w \<leftarrow> checkOptionToggle thisBits keyDown mouseClick w;
           let claimed = stickyKeysClaim thisBits key keyDown mouseClick w;
           w \<leftarrow> (if claimed then stickyKeysNonModifierKey C key keyDown kb mouseClick w else Some w);
           (filtered, w) \<leftarrow>
             (if stickyIs kState_On w
              then let w = createStickySources timersWork w
                   in if modifierOfInterest thisBits then stickyKeysModifierKey C key keyDown kb w
                      else Some (claimed, w)
              else Some (claimed, w));
           w \<leftarrow> (if shouldToggle then toggleStickyKeys C w else Some w);
           Some (filtered, w) })"

subsection \<open>Eject on F12\<close>

definition updEject :: "(u16 \<Rightarrow> u16) \<Rightarrow> hik \<Rightarrow> hik" where
  "updEject f w = updMapper (\<lambda>m. m\<lparr>mp_f12EjectState := f (mp_f12EjectState m)\<rparr>) w"

text \<open>
  A timer that cannot be added to the work loop is kept all the same, so that the next
  press uses it.
\<close>

definition f12EjectFilterKey :: "hik_class \<Rightarrow> bool \<Rightarrow> u8 \<Rightarrow> bool \<Rightarrow> bool \<Rightarrow> hik \<Rightarrow> (bool \<times> hik) option" where
  "f12EjectFilterKey C timersWork key keyDown kb w =
     (let m = hk_keyMap w
      in if mp_ejectDelay m = 0 \<or> \<not> mp_supportsF12Eject m \<or> key \<noteq> kADB_KEYBOARD_F12 then Some (False, w)
         else if \<not> mp_ejectTimer m \<and> \<not> mp_hidSystem m then Some (False, w)
         else if \<not> mp_ejectTimer m \<and> \<not> timersWork
         then Some (False, updMapper (\<lambda>m. m\<lparr>mp_ejectTimer := True\<rparr>) w)
         else
           let w = updMapper (\<lambda>m. m\<lparr>mp_ejectTimer := True\<rparr>) w
           in if keyDown
              then Some (True, post (SetEjectTimer (mp_ejectDelay m)) (updEject (\<lambda>s. s OR kState_In_Progess_Flag) w))
              else if mp_f12EjectState m AND kState_In_Progess_Flag \<noteq> 0
              then do { let w = updEject (\<lambda>s. s AND NOT kState_In_Progess_Flag) (post CancelEjectTimer w);
                        w \<leftarrow> rawTranslateKeyCode C key True kb w;
                        Some (False, w) }
              else Some (True, w))"

definition performF12Eject :: "hik \<Rightarrow> hik option" where
  "performF12Eject w =
     do { w \<leftarrow> postKeyboardSpecialEvent (of_nat NX_KEYTYPE_EJECT) NX_KEYDOWN w;
          Some (updEject (\<lambda>s. s AND NOT kState_In_Progess_Flag) w) }"

subsection \<open>Slow keys\<close>

definition postSlowKeyTranslateKeyCode :: "hik_class \<Rightarrow> bool \<Rightarrow> u8 \<Rightarrow> bool \<Rightarrow> bool \<Rightarrow> hik \<Rightarrow> hik option" where
  "postSlowKeyTranslateKeyCode C timersWork key keyDown kb w =
     do { (filtered, w) \<leftarrow> f12EjectFilterKey C timersWork key keyDown kb w;
          if filtered then Some w
          else do { (filtered, w) \<leftarrow> stickyKeysFilterKey C timersWork key keyDown kb False w;
                    if filtered then Some w else rawTranslateKeyCode C key keyDown kb w } }"

definition slowIs :: "u16 \<Rightarrow> hik \<Rightarrow> bool" where
  "slowIs flag w \<longleftrightarrow> mp_slowKeysState (hk_keyMap w) AND flag \<noteq> 0"

definition updSlow :: "(u16 \<Rightarrow> u16) \<Rightarrow> hik \<Rightarrow> hik" where
  "updSlow f w = updMapper (\<lambda>m. m\<lparr>mp_slowKeysState := f (mp_slowKeysState m)\<rparr>) w"

text \<open>The key up event of a key that was being repeated, where one is due.\<close>

definition endSlowRepeat :: "hik_class \<Rightarrow> bool \<Rightarrow> hik \<Rightarrow> hik option" where
  "endSlowRepeat C timersWork w =
     (if slowIs kState_Is_Repeat_Flag w
      then do { w \<leftarrow> postSlowKeyTranslateKeyCode C timersWork (mp_slowKeysCurrent (hk_keyMap w)) False
                      (mp_cachedKeyBits (hk_keyMap w)) w;
                Some (updSlow (\<lambda>s. s AND NOT kState_Is_Repeat_Flag) w) }
      else Some w)"

definition slowKeysDown :: "hik_class \<Rightarrow> bool \<Rightarrow> u8 \<Rightarrow> hik \<Rightarrow> hik option" where
  "slowKeysDown C timersWork key w =
     (if \<not> slowIs kState_In_Progess_Flag w
      then do { w \<leftarrow> (if key \<noteq> mp_slowKeysCurrent (hk_keyMap w) then endSlowRepeat C timersWork w else Some w);
                let w = updSlow (\<lambda>s. s OR kState_In_Progess_Flag) w;
                let w = updMapper (\<lambda>m. m\<lparr>mp_slowKeysCurrent := key\<rparr>) w;
                let w = post (SetSlowKeysTimer (mp_slowKeysDelay (hk_keyMap w))) w;
                let w = (if hk_isRepeat w then updSlow (\<lambda>s. s OR kState_Is_Repeat_Flag) w else w);
                postKeyboardSpecialEvent NX_SUBTYPE_SLOWKEYS_START NX_SYSDEFINED w }
      else if key \<noteq> mp_slowKeysCurrent (hk_keyMap w)
      then do { let w = post CancelSlowKeysTimer w;
                let w = updSlow (\<lambda>s. (s OR kState_Aborted_Flag) AND NOT kState_In_Progess_Flag) w;
                let w = updMapper (\<lambda>m. m\<lparr>mp_slowKeysAborted := key\<rparr>) w;
                w \<leftarrow> endSlowRepeat C timersWork w;
                postKeyboardSpecialEvent NX_SUBTYPE_SLOWKEYS_ABORT NX_SYSDEFINED w }
      else Some w)"

definition slowKeysUp :: "hik_class \<Rightarrow> bool \<Rightarrow> u8 \<Rightarrow> hik \<Rightarrow> (bool \<times> hik) option" where
  "slowKeysUp C timersWork key w =
     (if key = mp_slowKeysCurrent (hk_keyMap w)
      then if slowIs kState_In_Progess_Flag w
           then let w = updSlow (\<lambda>s. s AND NOT kState_In_Progess_Flag) (post CancelSlowKeysTimer w)
                in if slowIs kState_Is_Repeat_Flag w
                   then Some (False, updSlow (\<lambda>s. s AND NOT kState_Is_Repeat_Flag) w)
                   else Some (True, w)
           else if \<not> slowIs kState_Aborted_Flag w
           then Some (False, updSlow (\<lambda>s. s AND NOT kState_Is_Repeat_Flag) w)
           else Some (True, w)
      else if key = mp_slowKeysAborted (hk_keyMap w) \<and> slowIs kState_Aborted_Flag w
      then do { let w = post CancelSlowKeysTimer w;
                let w = updSlow (\<lambda>s. s AND NOT kState_Aborted_Flag AND NOT kState_In_Progess_Flag) w;
                w \<leftarrow> endSlowRepeat C timersWork w;
                w \<leftarrow> postKeyboardSpecialEvent NX_SUBTYPE_SLOWKEYS_ABORT NX_SYSDEFINED w;
                Some (True, w) }
      else Some (False, w))"

definition slowKeysFilterKey :: "hik_class \<Rightarrow> bool \<Rightarrow> u8 \<Rightarrow> bool \<Rightarrow> hik \<Rightarrow> (bool \<times> hik) option" where
  "slowKeysFilterKey C timersWork key keyDown w =
     (if mp_slowKeysDelay (hk_keyMap w) = 0 then Some (False, w)
      else if \<not> mp_slowKeysTimer (hk_keyMap w) \<and> \<not> mp_hidSystem (hk_keyMap w) then Some (False, w)
      else if \<not> mp_slowKeysTimer (hk_keyMap w) \<and> \<not> timersWork
      then Some (False, updMapper (\<lambda>m. m\<lparr>mp_slowKeysTimer := True\<rparr>) w)
      else
        let w = updMapper (\<lambda>m. m\<lparr>mp_slowKeysTimer := True\<rparr>) w
        in if keyDown then do { w \<leftarrow> slowKeysDown C timersWork key w; Some (True, w) }
           else slowKeysUp C timersWork key w)"

definition slowKeysPostProcess :: "hik_class \<Rightarrow> bool \<Rightarrow> hik \<Rightarrow> hik option" where
  "slowKeysPostProcess C timersWork w =
     do { let w = updSlow (\<lambda>s. s AND NOT kState_In_Progess_Flag) w;
          w \<leftarrow> postSlowKeyTranslateKeyCode C timersWork (mp_slowKeysCurrent (hk_keyMap w)) True
                 (mp_cachedKeyBits (hk_keyMap w)) w;
          postKeyboardSpecialEvent NX_SUBTYPE_SLOWKEYS_END NX_SYSDEFINED w }"

subsection \<open>All filters in turn\<close>

text \<open>A key code is one byte, so that the code's check against 256 always succeeds.\<close>

definition translateKeyCode :: "hik_class \<Rightarrow> bool \<Rightarrow> u8 \<Rightarrow> bool \<Rightarrow> bool \<Rightarrow> hik \<Rightarrow> hik option" where
  "translateKeyCode C timersWork key keyDown kb w =
     (if NX_NUMKEYCODES \<le> unat key then Some w
      else do {
        let w = updMapper (\<lambda>m. m\<lparr>mp_cachedKeyBits := mp_cachedKeyBits m \<or> kb\<rparr>) w;
        (filtered, key, w) \<leftarrow> modifierSwapFilterKey C key w;
        if filtered then Some w
        else do {
          (filtered, w) \<leftarrow> slowKeysFilterKey C timersWork key keyDown w;
          if filtered then Some w
          else postSlowKeyTranslateKeyCode C timersWork key keyDown kb w } })"

end
