(* ===== verification/HID_Dispatch.thy ===== *)
theory HID_Dispatch
  imports HID_Features
begin

text \<open>
  The entry points of a keyboard (\<^verbatim>\<open>IOHIDFamily/IOHIDSystem/IOHIKeyboard.cpp\<close>) and those
  of its mapper: initialisation, the dispatch of a key event, the timers, properties, opening
  and closing, and messages.
\<close>

section \<open>Definitions\<close>

subsection \<open>Creating a mapper\<close>

definition new_toggle :: "u64 \<Rightarrow> nat \<Rightarrow> u64 list \<Rightarrow> toggle_info" where
  "new_toggle interval modifier deadlines =
     \<lparr>tg_toggleModifier = modifier, tg_repetitionsToToggle = kNUM_SHIFTS_TO_ACTIVATE,
      tg_expireInterval = interval, tg_currentCount = 0, tg_deadlines = deadlines\<rparr>"

definition kDEFAULT_SHIFTEXPIREINTERVAL :: u64 where [hid_consts]: "kDEFAULT_SHIFTEXPIREINTERVAL = 30000"

text \<open>
  The fields that every mapper starts with. \<open>junk\<close> stands for the contents of freshly
  allocated memory, which some fields keep.
\<close>

definition initialMapper :: "hik_class \<Rightarrow> parsed_mapping \<Rightarrow> mapper \<Rightarrow> mapper" where
  "initialMapper C pm junk =
     junk\<lparr>mp_parsed := pm, mp_hidSystem := False, mp_stateDirty := False, mp_ejectTimer := False,
          mp_f12EjectState := 0, mp_ejectDelay := 250, mp_slowKeysState := 0, mp_slowKeysDelay := 0,
          mp_slowKeysTimer := False, mp_specialKeyModifierFlags := 0, mp_supportsF12Eject := False,
          mp_cachedKeyBits := False, mp_cachedAlphaLockModDefs := None\<rparr>"

definition supportedModifierBits :: "parsed_mapping \<Rightarrow> u32 \<Rightarrow> u32" where
  "supportedModifierBits pm supported =
     fold (\<lambda>i supported.
             if pm_modDefs pm ! i \<noteq> None
             then supported OR (if DeviceModifierMasks ! i \<noteq> 0 then DeviceModifierMasks ! i
                                else push_bit (i + 16) 1)
             else supported) [0..<NX_NUMMODIFIERS] supported"

definition initModifiers :: "hik_class \<Rightarrow> mapper \<Rightarrow> hik \<Rightarrow> mapper \<times> hik" where
  "initModifiers C m w =
     (if pm_maxMod (mp_parsed m) \<le> 0 then (m, w)
      else
        let locks = doesKeyLock C NX_KEYTYPE_CAPS_LOCK;
            w = post (SetBoolProperty ''HIDKeyboardCapsLockDoesLock'' locks) w;
            m = (if locks then m\<lparr>mp_cachedAlphaLockModDefs :=
                                   pm_modDefs (mp_parsed m) ! NX_MODIFIERKEY_ALPHALOCK\<rparr> else m);
            supported = supportedModifierBits (mp_parsed m) (hk_supportedModifiers w);
            m = m\<lparr>mp_modifierSwap := map of_nat [0..<NX_NUMMODIFIERS]\<rparr>;
            w = w\<lparr>hk_supportedModifiers := supported\<rparr>
        in (m, if supported AND (NX_DEVICERSHIFTKEYMASK OR NX_DEVICERCTLKEYMASK OR
                                 NX_DEVICERALTKEYMASK OR NX_DEVICERCMDKEYMASK) \<noteq> 0
               then post (SetBoolProperty ''HIDKeyboardRightModifierSupport'' True) w else w))"

definition ejectByF12 :: "hik_class \<Rightarrow> bool" where
  "ejectByF12 C \<longleftrightarrow>
     interfaceID C = NX_EVS_DEVICE_INTERFACE_ADB \<and>
     (0xc3 \<le> deviceType C \<and> deviceType C \<le> 0xc9 \<or> 0x28 \<le> deviceType C \<and> deviceType C \<le> 0x2a \<or>
      deviceType C \<le> 0x1e) \<and>
     treeModel C \<noteq> Some ''PowerBook3,2''"

definition initKeysDefined :: "hik_class \<Rightarrow> mapper \<Rightarrow> hik \<Rightarrow> mapper \<times> hik" where
  "initKeysDefined C m w =
     (if pm_numDefs (mp_parsed m) = 0 then (m, w)
      else let w = w\<lparr>hk_keysDefined := True\<rparr>
           in if ejectByF12 C
              then (m\<lparr>mp_supportsF12Eject := True\<rparr>, post (SetBoolProperty ''HIDKeyboardSupportsF12Eject'' True) w)
              else (m, w))"

definition initAlphaLock :: "hik_class \<Rightarrow> mapper \<Rightarrow> hik \<Rightarrow> mapper \<times> hik" where
  "initAlphaLock C m w =
     (if doesKeyLock C NX_KEYTYPE_CAPS_LOCK then (m, w)
      else if hk_alphaLock w
      then (m\<lparr>mp_specialKeyModifierFlags := mp_specialKeyModifierFlags m OR NX_ALPHASHIFTMASK\<rparr>,
            setDeviceFlags (hk_eventFlags w OR NX_ALPHASHIFTMASK) w)
      else (m\<lparr>mp_specialKeyModifierFlags := mp_specialKeyModifierFlags m AND NOT NX_ALPHASHIFTMASK\<rparr>,
            setDeviceFlags (hk_eventFlags w AND NOT NX_ALPHASHIFTMASK) w))"

definition stickyKeysinit :: "hik_class \<Rightarrow> mapper \<Rightarrow> mapper" where
  "stickyKeysinit C m =
     (let interval = nanosecondsToAbsolute C (kDEFAULT_SHIFTEXPIREINTERVAL * 1000000)
      in m\<lparr>mp_stickyState := 0, mp_numModifiersDown := 0,
           mp_shiftToggle := new_toggle interval NX_MODIFIERKEY_SHIFT (tg_deadlines (mp_shiftToggle m)),
           mp_optionToggle := new_toggle interval NX_MODIFIERKEY_ALTERNATE (tg_deadlines (mp_optionToggle m)),
           mp_mouseClickSource := False, mp_setFnStateSource := False\<rparr>)"

text \<open>
  A mapper whose map is rejected is freed. For an empty map \<open>free\<close> returns at once; after any
  other it looks for the dictionaries in the expansion data, which has not been allocated.
\<close>

definition keyboardMapper :: "hik_class \<Rightarrow> u8 list \<Rightarrow> mapper \<Rightarrow> hik \<Rightarrow> (mapper option \<times> hik) option" where
  "keyboardMapper C mapping junk w =
     do { r \<leftarrow> parseKeyMapping C mapping;
          case r of
            None \<Rightarrow> if mapping = [] then Some (None, w) else None
          | Some pm \<Rightarrow>
              let (m, w) = initModifiers C (initialMapper C pm junk) w;
                  (m, w) = initKeysDefined C m w;
                  (m, w) = initAlphaLock C m w
              in Some (Some (stickyKeysinit C m), w) }"

subsection \<open>Life cycle\<close>

definition hik_init :: "hik_class \<Rightarrow> bool \<Rightarrow> hik \<Rightarrow> bool \<times> hik" where
  "hik_init C superOk w =
     (if \<not> superOk then (False, w)
      else (True, w\<lparr>hk_deviceLock := False, hk_hasKeyMap := False,
                    hk_keyState := replicate ((unat (maxKeyCodes C) + 31) div 32) 0,
                    hk_codeToRepeat := - 1, hk_keyboardEventAction := False,
                    hk_keyboardSpecialEventAction := False, hk_updateEventFlagsAction := False\<rparr>))"

definition hik_start :: "bool \<Rightarrow> hik \<Rightarrow> bool \<times> hik" where
  "hik_start superOk w =
     (if \<not> superOk then (False, w)
      else (True, w\<lparr>hk_reserved := Some \<lparr>rs_dispatchEventCalled = False, rs_isSeized = False,
                                           rs_repeatMode = True, rs_keyboardNub = False\<rparr>\<rparr>))"

definition hik_stop :: "hik \<Rightarrow> hik" where
  "hik_stop w =
     (if hk_reserved w \<noteq> None then (post CancelRepeatCall w)\<lparr>hk_reserved := None\<rparr> else w)"

definition EV_DEFAULTINITIALREPEAT :: u64 where [hid_consts]: "EV_DEFAULTINITIALREPEAT = 500000000"
definition EV_DEFAULTKEYREPEAT :: u64 where [hid_consts]: "EV_DEFAULTKEYREPEAT = 83333333"
definition EV_MINKEYREPEAT :: u64 where [hid_consts]: "EV_MINKEYREPEAT = 16700000"

text \<open>
  Whether the user client that is opened is known to the mapper as the HID system is
  \<open>targetIsSystem\<close>; \<open>newNub\<close> tells whether a device nub can be created.
\<close>

definition installMapper :: "bool \<Rightarrow> mapper \<Rightarrow> hik \<Rightarrow> hik" where
  "installMapper targetIsSystem m w =
     w\<lparr>hk_hasKeyMap := True, hk_keyMap := m\<lparr>mp_hidSystem := targetIsSystem\<rparr>\<rparr>"

definition resetKeyboard :: "hik_class \<Rightarrow> bool \<Rightarrow> bool \<Rightarrow> mapper \<Rightarrow> hik \<Rightarrow> (bool \<times> hik) option" where
  "resetKeyboard C targetIsSystem newNub junk w =
     do { w \<leftarrow> lockDevice w;
          (m, w) \<leftarrow> keyboardMapper C (defaultKeymap C) junk w;
          let w = (case m of
                     None \<Rightarrow> w\<lparr>hk_hasKeyMap := False\<rparr>
                   | Some m \<Rightarrow>
                       (installMapper targetIsSystem m w)
                         \<lparr>hk_keyRepeat := nanosecondsToAbsolute C EV_DEFAULTKEYREPEAT,
                          hk_initialKeyRepeat := nanosecondsToAbsolute C EV_DEFAULTINITIALREPEAT\<rparr>);
          let w = post UpdateProperties w;
          let w = w\<lparr>hk_interfaceType := interfaceID C, hk_deviceType := deviceType C, hk_guid := getGUID C\<rparr>;
          let w = (if hk_keysDefined w
                   then w\<lparr>hk_reserved := map_option (\<lambda>r. r\<lparr>rs_keyboardNub := rs_keyboardNub r \<or> newNub\<rparr>)
                                           (hk_reserved w)\<rparr>
                   else w);
          Some (hk_hasKeyMap w, unlockDevice w) }"

subsection \<open>Dispatching a key\<close>

definition setDispatching :: "bool \<Rightarrow> hik \<Rightarrow> hik" where
  "setDispatching b w =
     w\<lparr>hk_reserved := map_option (\<lambda>r. r\<lparr>rs_dispatchEventCalled := b\<rparr>) (hk_reserved w)\<rparr>"

definition keyEventPostProcess :: "hik \<Rightarrow> hik" where
  "keyEventPostProcess w =
     (if mp_stateDirty (hk_keyMap w)
      then let w = (if mp_hidSystem (hk_keyMap w)
                    then post (SystemSetParams (if stickyIs kState_On w then OnParamDict else OffParamDict)) w
                    else w)
           in updMapper (\<lambda>m. m\<lparr>mp_stateDirty := False\<rparr>) w
      else w)"

text \<open>The key code is cut to a byte when it is passed to the mapper.\<close>

definition translateIfMapped :: "hik_class \<Rightarrow> bool \<Rightarrow> u32 \<Rightarrow> bool \<Rightarrow> hik \<Rightarrow> hik option" where
  "translateIfMapped C timersWork keyCode goingDown w =
     (if hk_hasKeyMap w then translateKeyCode C timersWork (ucast keyCode) goingDown True w else Some w)"

definition dispatchKeyboardEvent :: "hik_class \<Rightarrow> bool \<Rightarrow> u32 \<Rightarrow> bool \<Rightarrow> u64 \<Rightarrow> hik \<Rightarrow> hik option" where
  "dispatchKeyboardEvent C timersWork keyCode goingDown time w =
     do { w \<leftarrow> lockDevice w;
          let w = w\<lparr>hk_lastEventTime := time\<rparr>;
          let w = (if hasNub w then post (NubKeyboardEvent keyCode goingDown) w else w);
          if (case hk_reserved w of None \<Rightarrow> False | Some r \<Rightarrow> rs_isSeized r)
          then Some (unlockDevice w)
          else do {
            w \<leftarrow> translateIfMapped C timersWork keyCode goingDown (setDispatching True w);
            let w = unlockDevice (setDispatching False w);
            Some (if hk_hasKeyMap w then keyEventPostProcess w else w) } }"

definition autoRepeat :: "hik_class \<Rightarrow> bool \<Rightarrow> hik \<Rightarrow> hik option" where
  "autoRepeat C timersWork w =
     do { w \<leftarrow> lockDevice w;
          if \<not> hk_calloutPending w \<or> dispatching w then Some (unlockDevice w)
          else do {
            let w = setDispatching True (w\<lparr>hk_calloutPending := False, hk_isRepeat := True\<rparr>);
            w \<leftarrow> (if hk_downRepeatTime w \<noteq> 0
                  then do { w \<leftarrow> translateIfMapped C timersWork (hk_codeToRepeat w) True w;
                            Some (w\<lparr>hk_downRepeatTime := hk_keyRepeat w\<rparr>) }
                  else Some w);
            let w = (setDispatching False w)\<lparr>hk_isRepeat := False\<rparr>;
            Some (unlockDevice (scheduleAutoRepeat w)) } }"

subsection \<open>Opening, closing, messages\<close>

definition hik_open :: "hik_class \<Rightarrow> bool \<Rightarrow> bool \<Rightarrow> bool \<Rightarrow> mapper \<Rightarrow> hik \<Rightarrow> (bool \<times> hik) option" where
  "hik_open C superOpens clientIsSystem newNub junk w =
     do { (ok, w) \<leftarrow> (if hk_hasKeyMap w then Some (True, w) else resetKeyboard C False newNub junk w);
          if \<not> ok \<or> \<not> superOpens then Some (False, w)
          else
            let w = (if hk_hasKeyMap w then updMapper (\<lambda>m. m\<lparr>mp_hidSystem := clientIsSystem\<rparr>) w else w)
            in Some (True, w\<lparr>hk_keyboardEventAction := True, hk_keyboardSpecialEventAction := True,
                             hk_updateEventFlagsAction := True\<rparr>) }"

primrec releaseKeys :: "hik_class \<Rightarrow> bool \<Rightarrow> nat list \<Rightarrow> hik \<Rightarrow> hik option" where
  "releaseKeys C timersWork [] w = Some w"
| "releaseKeys C timersWork (i # is) w =
     do { down \<leftarrow> EVK_IS_KEYDOWN (of_nat i) (hk_keyState w);
          w \<leftarrow> (if down then dispatchKeyboardEvent C timersWork (of_nat i) False (hk_uptime w) w else Some w);
          releaseKeys C timersWork is w }"

definition NX_SUBTYPE_STICKYKEYS_RELEASE :: u32 where [hid_consts]: "NX_SUBTYPE_STICKYKEYS_RELEASE = 106"

definition hik_close :: "hik_class \<Rightarrow> bool \<Rightarrow> hik \<Rightarrow> hik option" where
  "hik_close C timersWork w =
     do { w \<leftarrow> (if hk_codeToRepeat w \<noteq> - 1
                then dispatchKeyboardEvent C timersWork (hk_codeToRepeat w) False (hk_uptime w) w else Some w);
          w \<leftarrow> releaseKeys C timersWork [0..<unat (maxKeyCodes C)] w;
          let w = static_updateEventFlags 0 w;
          let w = static_keyboardSpecialEvent NX_SYSDEFINED 0 (of_nat NX_NOSPECIALKEY)
                    NX_SUBTYPE_STICKYKEYS_RELEASE False w;
          Some (w\<lparr>hk_keyState := map (\<lambda>_. 0) (hk_keyState w), hk_keyboardEventAction := False,
                  hk_keyboardSpecialEventAction := False, hk_updateEventFlagsAction := False\<rparr>) }"

datatype hik_message = MouseClick508 | SpecialKeyDown508 | DeviceSeizeRequest bool bool | OtherMessage

text \<open>The two arguments of a seize request: the sender is a HID device, and the argument is not null.\<close>

definition hik_message :: "hik_message \<Rightarrow> hik \<Rightarrow> hik" where
  "hik_message msg w =
     (case msg of
        DeviceSeizeRequest fromDevice arg \<Rightarrow>
          (if fromDevice
           then w\<lparr>hk_reserved := map_option (\<lambda>r. r\<lparr>rs_isSeized := arg\<rparr>) (hk_reserved w)\<rparr> else w)
      | OtherMessage \<Rightarrow> w
      | _ \<Rightarrow> if hk_hasKeyMap w \<and> mp_mouseClickSource (hk_keyMap w) then post InterruptMouseClick w else w)"

definition stickyKeysMouseUp :: "hik_class \<Rightarrow> bool \<Rightarrow> hik \<Rightarrow> hik option" where
  "stickyKeysMouseUp C timersWork w =
     do { (_, w) \<leftarrow> stickyKeysFilterKey C timersWork 0 False (mp_cachedKeyBits (hk_keyMap w)) True w;
          Some w }"

definition stickyKeysSetFnState :: "hik \<Rightarrow> hik option" where
  "stickyKeysSetFnState w =
     (if \<not> mp_hidSystem (hk_keyMap w) then None
      else let pref = stickyIs kState_PrefFnKeyStateOn w;
               fn = (if stickyIs kState_On w then pref \<noteq> stickyIs kState_StickyFnKeyStateOn w else pref)
           in Some (post (SystemSetParams (if fn then OnFnParamDict else OffFnParamDict)) w))"

subsection \<open>Properties\<close>

text \<open>
  A property is a number, or a block of data that is read as one. \<open>temporary\<close> says that the
  temporary parameters key is present. A pair of the modifier map is absent if it is not a
  dictionary with two numbers.
\<close>

datatype param = Number u64 | Block u64

fun param_value :: "param \<Rightarrow> u64" where
  "param_value (Number n) = n"
| "param_value (Block n) = n"

record params =
  pa_resetKeyboard :: bool
  pa_keyRepeat :: "param option"
  pa_initialKeyRepeat :: "param option"
  pa_keyMapping :: "u8 list option"
  pa_subinterfaceID :: "u32 option"
  pa_ejectDelay :: "param option"
  pa_mouseKeysOn :: "param option"
  pa_slowKeysDelay :: "param option"
  pa_stickyDisabled :: "param option"
  pa_stickyOn :: "param option"
  pa_temporary :: bool
  pa_fKeyMode :: "param option"
  pa_shiftToggles :: "param option"
  pa_optionToggles :: "param option"
  pa_modifierPairs :: "(u32 \<times> u32) option list option"

definition setStickyFlag :: "u32 \<Rightarrow> u32 option \<Rightarrow> hik \<Rightarrow> hik" where
  "setStickyFlag flag value w =
     (case value of None \<Rightarrow> w
      | Some v \<Rightarrow> updSticky (\<lambda>s. if v \<noteq> 0 then s OR flag else s AND NOT flag) w)"

definition value32 :: "param option \<Rightarrow> u32 option" where
  "value32 p = map_option (\<lambda>p. ucast (param_value p)) p"

text \<open>
  The function key mode: with the temporary key present only a block is looked for, and its
  value is then taken from the number that the lookup of the sticky keys' switch left behind,
  if it was one.
\<close>

definition fKeyModeValue :: "params \<Rightarrow> u32 option" where
  "fKeyModeValue d =
     (if \<not> pa_temporary d then value32 (pa_fKeyMode d)
      else case pa_fKeyMode d of
             Some (Block b) \<Rightarrow>
               Some (case pa_stickyOn d of Some (Number n) \<Rightarrow> ucast n | _ \<Rightarrow> ucast b)
           | _ \<Rightarrow> None)"

text \<open>
  One pair of the modifier map: the swap table, and whether the state of the caps lock must
  change (\<open>Some on\<close>).
\<close>

definition capsChange :: "u32 \<Rightarrow> u32 \<Rightarrow> bool option \<Rightarrow> bool option" where
  "capsChange ledStatus myFlags change =
     (if ledStatus AND 2 \<noteq> 0 \<and> myFlags AND NX_ALPHASHIFTMASK = 0 then Some True
      else if ledStatus AND 2 = 0 \<and> myFlags AND NX_ALPHASHIFTMASK \<noteq> 0 then Some False
      else change)"

definition swapPair ::
  "hik_class \<Rightarrow> u32 \<Rightarrow> (u32 \<times> u32) option \<Rightarrow> u32 list \<times> bool option \<Rightarrow> u32 list \<times> bool option" where
  "swapPair C myFlags pair st =
     (case pair of
        None \<Rightarrow> st
      | Some (src, dst) \<Rightarrow>
          let (swap, change) = st;
              store = (\<lambda>change. (if src \<le> of_nat NX_MODIFIERKEY_RCOMMAND then swap[unat src := dst] else swap,
                                 change))
          in if src = of_nat NX_MODIFIERKEY_ALPHALOCK
             then if dst = of_nat NX_MODIFIERKEY_ALPHALOCK then store (capsChange (getLEDStatus C) myFlags change)
                  else if doesKeyLock C NX_KEYTYPE_CAPS_LOCK \<and> dst \<noteq> - 1 then st
                  else store (Some False)
             else store change)"

definition resetSwap :: "hik_class \<Rightarrow> u32 \<Rightarrow> nat \<Rightarrow> u32 list \<times> bool option \<Rightarrow> u32 list \<times> bool option" where
  "resetSwap C myFlags i st =
     (let (swap, change) = st;
          change = (if (i = NX_MODIFIERKEY_ALPHALOCK) \<noteq> (swap ! i = of_nat NX_MODIFIERKEY_ALPHALOCK)
                    then capsChange (getLEDStatus C) myFlags change else change)
      in (swap[i := of_nat i], change))"

definition swapModifiers ::
  "hik_class \<Rightarrow> u32 \<Rightarrow> params \<Rightarrow> hik \<Rightarrow> bool option \<times> hik" where
  "swapModifiers C myFlags d w =
     (case pa_modifierPairs d of
        Some pairs \<Rightarrow>
          if pm_maxMod (parsedMapping w) = - 1 then (None, w)
          else
            let st = (mp_modifierSwap (hk_keyMap w), None);
                (swap, change) = (if pairs \<noteq> [] then fold (swapPair C myFlags) pairs st
                                  else fold (resetSwap C myFlags) [0..<NX_NUMMODIFIERS] st)
            in (change, updMapper (\<lambda>m. m\<lparr>mp_modifierSwap := swap\<rparr>) w)
      | None \<Rightarrow> (None, w))"

definition capsKeyCode :: "parsed_mapping \<Rightarrow> u8 option" where
  "capsKeyCode pm =
     (case pm_modDefs pm ! NX_MODIFIERKEY_ALPHALOCK of
        None \<Rightarrow> Some (getParsedSpecialKey pm NX_KEYTYPE_CAPS_LOCK)
      | Some mapping \<Rightarrow>
          do { (n, mapping) \<leftarrow> NEXTNUM (isShorts pm) mapping;
               if n \<noteq> 0 then do { (k, mapping) \<leftarrow> NEXTNUM (isShorts pm) mapping; Some (of_nat k) }
               else Some (getParsedSpecialKey pm NX_KEYTYPE_CAPS_LOCK) })"

definition changeAlphaState :: "hik_class \<Rightarrow> u32 \<Rightarrow> bool \<Rightarrow> hik \<Rightarrow> hik option" where
  "changeAlphaState C myFlags alphaState w =
     do { let flags = (if alphaState then myFlags OR NX_ALPHASHIFTMASK else myFlags AND NOT NX_ALPHASHIFTMASK);
          let w = updMapper (\<lambda>m. m\<lparr>mp_specialKeyModifierFlags :=
                    (if alphaState
                     then if \<not> doesKeyLock C NX_KEYTYPE_CAPS_LOCK
                          then mp_specialKeyModifierFlags m OR NX_ALPHASHIFTMASK
                          else mp_specialKeyModifierFlags m
                     else mp_specialKeyModifierFlags m AND NOT NX_ALPHASHIFTMASK)\<rparr>) w;
          let w = setAlphaLock alphaState (setDeviceFlags flags w);
          keyCode \<leftarrow> capsKeyCode (parsedMapping w);
          keyboardEvent NX_FLAGSCHANGED flags (ucast keyCode) 0 0 0 0 w }"

definition mapper_setParamProperties :: "hik_class \<Rightarrow> params \<Rightarrow> hik \<Rightarrow> hik option" where
  "mapper_setParamProperties C d w =
     do { let myFlags = hk_eventFlags w;
          let w = (case value32 (pa_ejectDelay d) of None \<Rightarrow> w
                   | Some v \<Rightarrow> updMapper (\<lambda>m. m\<lparr>mp_ejectDelay := v\<rparr>) w);
          let w = setStickyFlag kState_MouseKeyStateOn (value32 (pa_mouseKeysOn d)) w;
          let w = (case value32 (pa_slowKeysDelay d) of None \<Rightarrow> w
                   | Some v \<Rightarrow>
                       updMapper (\<lambda>m. m\<lparr>mp_slowKeysDelay := v\<rparr>)
                         (if mp_slowKeysDelay (hk_keyMap w) > 0 \<and> v = 0 \<and> slowIs kState_In_Progess_Flag w
                          then post CancelSlowKeysTimer w else w));
          let w = setStickyFlag kState_Disabled_Flag (value32 (pa_stickyDisabled d)) w;
          w \<leftarrow> (case value32 (pa_stickyDisabled d) of None \<Rightarrow> Some w
                | Some v \<Rightarrow> if v \<noteq> 0 then stickyKeysCleanup C w else Some w);
          w \<leftarrow> (case value32 (pa_stickyOn d) of None \<Rightarrow> Some w
                | Some v \<Rightarrow> if v \<noteq> 0 then Some (updSticky (\<lambda>s. s OR kState_On) w) else stickyKeysCleanup C w);
          let w = setStickyFlag kState_PrefFnKeyStateOn (fKeyModeValue d) w;
          let w = setStickyFlag kState_ShiftActivates_Flag (value32 (pa_shiftToggles d)) w;
          let w = setStickyFlag kState_OptionActivates_Flag (value32 (pa_optionToggles d)) w;
          let (change, w) = swapModifiers C myFlags d w;
          case change of None \<Rightarrow> Some w | Some alphaState \<Rightarrow> changeAlphaState C myFlags alphaState w }"

definition repeatInterval :: "hik_class \<Rightarrow> param \<Rightarrow> u64" where
  "repeatInterval C p = nanosecondsToAbsolute C (max (param_value p) EV_MINKEYREPEAT)"

text \<open>The result is whether the new key map, if there was one, has been taken.\<close>

definition setKeyMapping ::
  "hik_class \<Rightarrow> bool \<Rightarrow> mapper \<Rightarrow> u8 list option \<Rightarrow> hik \<Rightarrow> (bool \<times> bool \<times> hik) option" where
  "setKeyMapping C targetIsSystem junk mapping w =
     (case mapping of
        None \<Rightarrow> Some (True, False, w)
      | Some mapping \<Rightarrow>
          do { (m, w) \<leftarrow> keyboardMapper C mapping junk w;
               Some (case m of Some m \<Rightarrow> (True, True, installMapper targetIsSystem m w)
                     | None \<Rightarrow> (False, False, w)) })"

definition hik_setParamProperties ::
  "hik_class \<Rightarrow> bool \<Rightarrow> bool \<Rightarrow> mapper \<Rightarrow> params \<Rightarrow> hik \<Rightarrow> (bool \<times> hik) option" where
  "hik_setParamProperties C targetIsSystem newNub junk d w =
     do { w \<leftarrow> (if pa_resetKeyboard d
                then do { (_, w) \<leftarrow> resetKeyboard C targetIsSystem newNub junk w; Some w } else Some w);
          w \<leftarrow> lockDevice w;
          let w = (case pa_keyRepeat d of None \<Rightarrow> w | Some p \<Rightarrow> w\<lparr>hk_keyRepeat := repeatInterval C p\<rparr>);
          let w = (case pa_initialKeyRepeat d of None \<Rightarrow> w
                   | Some p \<Rightarrow> w\<lparr>hk_initialKeyRepeat := repeatInterval C p\<rparr>);
          (ok, mapped, w) \<leftarrow> setKeyMapping C targetIsSystem junk (pa_keyMapping d) w;
          let w = (case pa_subinterfaceID d of None \<Rightarrow> w | Some i \<Rightarrow> w\<lparr>hk_deviceType := i\<rparr>);
          w \<leftarrow> (if hk_hasKeyMap w then mapper_setParamProperties C d w else Some w);
          let w = unlockDevice w;
          Some (ok, if pa_keyRepeat d \<noteq> None \<or> pa_initialKeyRepeat d \<noteq> None \<or> mapped \<or>
                       pa_subinterfaceID d \<noteq> None
                    then post UpdateProperties w else w) }"

end
