(* ===== verification/HID_Characters.thy ===== *)
theory HID_Characters
  imports HID_Dispatch HID_Layout
begin

text \<open>
  The characters of a key. On a parsed key map that represents a key map as data, the offset
  that \<open>doCharGen\<close> computes leads to the character that the modifiers select.
\<close>

section \<open>Results that exist\<close>

text \<open>That a routine returns, with a result that satisfies \<open>Q\<close>.\<close>

definition ensures :: "'a option \<Rightarrow> ('a \<Rightarrow> bool) \<Rightarrow> bool" where
  "ensures r Q \<longleftrightarrow> (\<exists>x. r = Some x \<and> Q x)"

lemma ensures_simps [simp]:
  "ensures (Some x) Q = Q x" "\<not> ensures None Q"
  by (auto simp: ensures_def)

lemma ensures_bind: "ensures (Option.bind r f) Q = ensures r (\<lambda>x. ensures (f x) Q)"
  by (auto simp: ensures_def bind_Some_iff)

lemma ensures_mono: "ensures r P \<Longrightarrow> (\<And>x. P x \<Longrightarrow> Q x) \<Longrightarrow> ensures r Q"
  by (auto simp: ensures_def)

lemma ensuresE: "ensures r P \<Longrightarrow> (\<And>x. r = Some x \<Longrightarrow> P x \<Longrightarrow> thesis) \<Longrightarrow> thesis"
  by (auto simp: ensures_def)

section \<open>The index of a character\<close>

text \<open>
  The modifiers of a key's mask, read as the digits of a binary number: the lowest modifier
  of the mask is the lowest digit.
\<close>

primrec charIndex :: "nat \<Rightarrow> nat \<Rightarrow> u32 \<Rightarrow> nat" where
  "charIndex 0 thisMask modifiers = 0"
| "charIndex (Suc n) thisMask modifiers =
     (if odd thisMask
      then (if modifiers AND 1 \<noteq> 0 then 1 else 0) + 2 * charIndex n (thisMask div 2) (drop_bit 1 modifiers)
      else charIndex n (thisMask div 2) (drop_bit 1 modifiers))"

lemma charOffset_index: "charOffset n thisMask modifiers adjust offset = offset + adjust * charIndex n thisMask modifiers"
  by (induction n arbitrary: thisMask modifiers adjust offset) (simp_all add: algebra_simps)

lemma charCount_scale: "charCount n thisMask k = k * charCount n thisMask 1"
proof (induction n arbitrary: thisMask k)
  case (Suc n)
  show ?case
    using Suc.IH [of "thisMask div 2" "k * 2"] Suc.IH [of "thisMask div 2" k] Suc.IH [of "thisMask div 2" 2]
    by simp
qed simp

lemma charIndex_less: "charIndex n thisMask modifiers < charCount n thisMask 1"
proof (induction n arbitrary: thisMask modifiers)
  case (Suc n)
  show ?case
    using Suc.IH [of "thisMask div 2" "drop_bit 1 modifiers"] charCount_scale [of n "thisMask div 2" 2]
    by simp
qed simp

lemma charIndex_0: "charIndex n 0 modifiers = 0" "charIndex n thisMask 0 = 0"
  by (induction n arbitrary: modifiers thisMask) simp_all

section \<open>Looking up a character\<close>

lemma length_encPairs: "length (encPairs shorts ps) = (if shorts then 2 else 1) * 2 * length ps"
  by (induction ps) (auto simp: encNum_def)

lemma drop_encPairs:
  "k \<le> length ps \<Longrightarrow> drop ((if shorts then 2 else 1) * 2 * k) (encPairs shorts ps @ r) = encPairs shorts (drop k ps) @ r"
proof (induction k arbitrary: ps)
  case (Suc k)
  then obtain a b qs where ps: "ps = (a, b) # qs" by (cases ps) auto
  have "(if shorts then 2 else 1) * 2 * Suc k =
      (if shorts then 2 else 1) * 2 * k + length (encNum shorts a @ encNum shorts b)"
    by (simp add: encNum_def)
  moreover have "encPairs shorts ps @ r = (encNum shorts a @ encNum shorts b) @ encPairs shorts qs @ r"
    by (simp add: ps)
  ultimately show ?case using Suc.IH [of qs] Suc.prems
    by (simp only: drop_drop [symmetric] append_eq_conv_conj) (simp add: ps)
qed simp

lemma read_pair:
  assumes "fit_pairs shorts ps" and "k < length ps"
  shows "Option.bind (NEXTNUM shorts (drop ((if shorts then 2 else 1) * 2 * k) (encPairs shorts ps @ r)))
    (\<lambda>(a, m). Option.bind (NEXTNUM shorts m) (\<lambda>(b, m). Some (a, b))) = Some (ps ! k)"
proof -
  obtain a b where ab: "ps ! k = (a, b)" by force
  have "drop k ps = (a, b) # drop (Suc k) ps" using assms(2) ab by (metis Cons_nth_drop_Suc)
  moreover have "fits shorts a" "fits shorts b"
    using assms ab nth_mem [OF assms(2)] by (auto simp: fit_pairs_def list_all_iff)
  ultimately show ?thesis using assms(2) ab
    by (simp add: drop_encPairs del: drop_append mult_numeral_left_semiring_numeral)
qed

lemma wf_keymap_def_of:
  assumes "wf_keymap C shorts km" and "keyOf C km i = Some def"
  shows "wf_def shorts (maxModOf km) (length (km_seqs km)) def"
proof -
  have at: "wf_def shorts (maxModOf km) (length (km_seqs km)) def" if "keyAt km j = Some def" for j
  proof -
    have "j < length (km_keys km)" "km_keys km ! j = Some def"
      using that by (auto simp: keyAt_def split: if_splits)
    then have "Some def \<in> set (km_keys km)" by (metis nth_mem)
    then show ?thesis using assms(1) by (auto simp: wf_keymap_def list_all_iff)
  qed
  show ?thesis using assms(2) at by (auto simp: keyOf_def split: if_splits)
qed

lemma lookupChar_index:
  assumes "represents C shorts pm km" and "wf_keymap C shorts km"
    and "keyOf C km i = Some (thisMask, cs)" and "i < NX_NUMKEYCODES" and "pm_keyDefs pm ! i = Some mapping"
  shows "lookupChar pm mapping modifiers = Some (cs ! charIndex (nat (maxModOf km + 1)) thisMask modifiers)"
    and "charIndex (nat (maxModOf km + 1)) thisMask modifiers < length cs"
proof -
  have wf: "fits shorts thisMask" "length cs = charCount (nat (maxModOf km + 1)) thisMask 1" "fit_pairs shorts cs"
    using wf_keymap_def_of [OF assms(2,3)] by (auto simp: wf_def_def fits_def)
  have "points_to (encDef shorts) (keyOf C km i) (pm_keyDefs pm ! i)"
    using assms(1,4) unfolding represents_def by blast
  then obtain r where mapping: "mapping = encNum shorts thisMask @ encPairs shorts cs @ r"
    using assms(3,5) by (auto simp: points_to_def encDef_def)
  have pm: "isShorts pm = shorts" "pm_maxMod pm = maxModOf km" using assms(1) by (simp_all add: represents_def)
  let ?n = "nat (maxModOf km + 1)"
  show less: "charIndex ?n thisMask modifiers < length cs" using wf(2) charIndex_less by metis
  have zero: "charIndex ?n thisMask modifiers = 0" if "thisMask = 0 \<or> modifiers = 0"
    using that by (auto simp: charIndex_0)
  have "(if thisMask \<noteq> 0 \<and> modifiers \<noteq> 0
      then drop (charOffset ?n thisMask modifiers ((if shorts then 2 else 1) * 2) 0) (encPairs shorts cs @ r)
      else encPairs shorts cs @ r) =
    drop ((if shorts then 2 else 1) * 2 * charIndex ?n thisMask modifiers) (encPairs shorts cs @ r)"
    using zero by (auto simp: charOffset_index)
  note dropped = this
  show "lookupChar pm mapping modifiers = Some (cs ! charIndex ?n thisMask modifiers)"
    by (simp only: lookupChar_def mapping NEXTNUM_enc [OF wf(1)] pm Option.bind.simps prod.case Let_def
        dropped read_pair [OF wf(3) less, of r])
qed

end
