(* ===== verification/HID_Sound.thy ===== *)
theory HID_Sound
  imports HID_Characters
begin

text \<open>
  The translation of a key returns: on a keyboard with a sound key map every access of the
  mapper stays inside the key map and the bit vector of keys, and what a translation may
  change is only the flags, the lock keys, the keys held, the repeat and the events.
\<close>

section \<open>Sound keyboards\<close>

text \<open>Everything that the translation of one key leaves as it was.\<close>

definition frozen :: "hik \<Rightarrow> hik" where
  "frozen w = w\<lparr>hk_events := [], hk_eventFlags := 0, hk_alphaLock := False, hk_numLock := False,
     hk_charKeyActive := False, hk_codeToRepeat := 0, hk_calloutPending := False, hk_downRepeatTime := 0,
     hk_keyState := map (\<lambda>_. 0) (hk_keyState w),
     hk_keyMap := (hk_keyMap w)\<lparr>mp_specialKeyModifierFlags := 0\<rparr>\<rparr>"

lemma frozen_fields:
  assumes "frozen w' = frozen w"
  shows "hk_reserved w' = hk_reserved w" "hk_deviceLock w' = hk_deviceLock w"
    "hk_hasKeyMap w' = hk_hasKeyMap w" "length (hk_keyState w') = length (hk_keyState w)"
    "hk_isRepeat w' = hk_isRepeat w" "hk_interfaceType w' = hk_interfaceType w"
    "hk_keyboardEventAction w' = hk_keyboardEventAction w" "hk_deviceType w' = hk_deviceType w"
    "hk_lastEventTime w' = hk_lastEventTime w"
    "(hk_keyMap w')\<lparr>mp_specialKeyModifierFlags := 0\<rparr> = (hk_keyMap w)\<lparr>mp_specialKeyModifierFlags := 0\<rparr>"
  using arg_cong [OF assms, of hk_reserved] arg_cong [OF assms, of hk_deviceLock]
    arg_cong [OF assms, of hk_hasKeyMap] arg_cong [OF assms, of "\<lambda>w. length (hk_keyState w)"]
    arg_cong [OF assms, of hk_isRepeat] arg_cong [OF assms, of hk_interfaceType]
    arg_cong [OF assms, of hk_keyboardEventAction] arg_cong [OF assms, of hk_deviceType]
    arg_cong [OF assms, of hk_lastEventTime] arg_cong [OF assms, of hk_keyMap]
  by (simp_all add: frozen_def)

lemma frozen_mapper:
  assumes "frozen w' = frozen w"
  shows "parsedMapping w' = parsedMapping w" "mp_stuck (hk_keyMap w') = mp_stuck (hk_keyMap w)"
    "mp_numModifiersDown (hk_keyMap w') = mp_numModifiersDown (hk_keyMap w)"
    "mp_cachedKeyBits (hk_keyMap w') = mp_cachedKeyBits (hk_keyMap w)"
    "mp_slowKeysState (hk_keyMap w') = mp_slowKeysState (hk_keyMap w)"
    "mp_slowKeysCurrent (hk_keyMap w') = mp_slowKeysCurrent (hk_keyMap w)"
    "mp_modifierSwap (hk_keyMap w') = mp_modifierSwap (hk_keyMap w)"
    "mp_shiftToggle (hk_keyMap w') = mp_shiftToggle (hk_keyMap w)"
    "mp_optionToggle (hk_keyMap w') = mp_optionToggle (hk_keyMap w)"
    "mp_stickyState (hk_keyMap w') = mp_stickyState (hk_keyMap w)"
  using frozen_fields(10) [OF assms]
  by (auto dest: arg_cong [of _ _ mp_parsed] arg_cong [of _ _ mp_stuck] arg_cong [of _ _ mp_numModifiersDown]
      arg_cong [of _ _ mp_cachedKeyBits] arg_cong [of _ _ mp_slowKeysState] arg_cong [of _ _ mp_slowKeysCurrent]
      arg_cong [of _ _ mp_modifierSwap] arg_cong [of _ _ mp_shiftToggle] arg_cong [of _ _ mp_optionToggle]
      arg_cong [of _ _ mp_stickyState])

text \<open>
  The key to repeat is a key of the keyboard, or none: - 1 when no key repeats, and the code
  for no key that the events of the mapper's own features carry.
\<close>

definition repeat_ok :: "hik \<Rightarrow> bool" where
  "repeat_ok w \<longleftrightarrow> hk_codeToRepeat w = - 1 \<or> hk_codeToRepeat w < 128 \<or>
     hk_codeToRepeat w = of_nat NX_NOSPECIALKEY"

text \<open>
  What most routines leave alone besides: the keys held, and all flags but the one of the
  caps lock.
\<close>

definition untouched :: "hik \<Rightarrow> hik \<Rightarrow> bool" where
  "untouched w w' \<longleftrightarrow> hk_keyState w' = hk_keyState w \<and>
     (\<forall>n. n \<noteq> 16 \<longrightarrow> bit (hk_eventFlags w') n = bit (hk_eventFlags w) n) \<and>
     (\<forall>n. n \<noteq> 16 \<longrightarrow> bit (mp_specialKeyModifierFlags (hk_keyMap w')) n =
                     bit (mp_specialKeyModifierFlags (hk_keyMap w)) n)"

definition calm :: "hik \<Rightarrow> hik \<Rightarrow> bool" where
  "calm w w' \<longleftrightarrow> frozen w' = frozen w \<and> (repeat_ok w \<longrightarrow> repeat_ok w')"

definition quiet :: "hik \<Rightarrow> hik \<Rightarrow> bool" where
  "quiet w w' \<longleftrightarrow> calm w w' \<and> untouched w w'"

lemma quiet_refl [simp]: "quiet w w" "calm w w"
  by (simp_all add: quiet_def calm_def untouched_def)

lemma calm_trans: "calm u v \<Longrightarrow> calm v w \<Longrightarrow> calm u w"
  by (simp add: calm_def)

lemma quiet_trans: "quiet u v \<Longrightarrow> quiet v w \<Longrightarrow> quiet u w"
  by (auto simp: quiet_def untouched_def intro: calm_trans)

lemma quiet_calm: "quiet u v \<Longrightarrow> calm u v"
  by (simp add: quiet_def)

text \<open>
  What soundness asks of a key map beyond well-formedness: the keys assigned to modifiers
  and the caps lock key are keys of a keyboard with 128 keys; the fn key that the parser adds
  on its own is no other modifier; and the meta keys of sequences are modifiers.
\<close>

definition sound_keymap :: "hik_class \<Rightarrow> bool \<Rightarrow> keymap \<Rightarrow> bool" where
  "sound_keymap C shorts km \<longleftrightarrow>
     wf_keymap C shorts km \<and>
     list_all (\<lambda>(j, ks). list_all (\<lambda>k. k < 128 \<and> (k = 0x3f \<longrightarrow> j = NX_MODIFIERKEY_SECONDARYFN)) ks) (km_modifiers km) \<and>
     list_all (list_all (\<lambda>(a, b). a = 0xFF \<longrightarrow> b < NX_NUMMODIFIERS)) (km_seqs km) \<and>
     specialsOf C km ! NX_KEYTYPE_CAPS_LOCK < 128"

text \<open>No key of the keyboard locks, neither caps lock nor num lock.\<close>

definition plain_class :: "hik_class \<Rightarrow> bool" where
  "plain_class C \<longleftrightarrow> \<not> doesKeyLock C NX_KEYTYPE_CAPS_LOCK \<and> \<not> doesKeyLock C NX_KEYTYPE_NUM_LOCK \<and>
     \<not> isADBButtons C"

definition keyboard_ok :: "hik_class \<Rightarrow> hik \<Rightarrow> bool" where
  "keyboard_ok C w \<longleftrightarrow>
     plain_class C \<and> hk_hasKeyMap w \<and> length (hk_keyState w) = 4 \<and> (dispatching w \<longrightarrow> hk_deviceLock w) \<and>
     (\<exists>shorts km. sound_keymap C shorts km \<and> represents C shorts (parsedMapping w) km)"

lemma keyboard_ok_calm:
  assumes "calm w w'"
  shows "keyboard_ok C w' = keyboard_ok C w"
proof -
  have fr: "frozen w' = frozen w" using assms by (simp add: calm_def)
  show ?thesis
    by (simp only: keyboard_ok_def dispatching_def frozen_fields [OF fr] frozen_mapper [OF fr])
qed

lemma keyboard_ok_after: "keyboard_ok C w \<Longrightarrow> calm w w' \<Longrightarrow> keyboard_ok C w'"
  by (simp add: keyboard_ok_calm)

lemmas keyboard_ok_quiet = keyboard_ok_calm [OF quiet_calm]

lemma keyboard_ok_map: "keyboard_ok C w \<Longrightarrow> hk_hasKeyMap w"
  by (simp add: keyboard_ok_def)

lemma quiet_bind:
  assumes "keyboard_ok C w" and "ensures r (quiet w)"
    and "\<And>u. quiet w u \<Longrightarrow> keyboard_ok C u \<Longrightarrow> ensures (f u) (quiet u)"
  shows "ensures (Option.bind r f) (quiet w)"
  unfolding ensures_bind
  by (rule ensures_mono [OF assms(2)], rule ensures_mono [OF assms(3)])
    (auto intro: quiet_trans simp: keyboard_ok_quiet assms(1))

lemma calm_bind:
  assumes "keyboard_ok C w" and "ensures r (calm w)"
    and "\<And>u. calm w u \<Longrightarrow> keyboard_ok C u \<Longrightarrow> ensures (f u) (calm u)"
  shows "ensures (Option.bind r f) (calm w)"
  unfolding ensures_bind
  by (rule ensures_mono [OF assms(2)], rule ensures_mono [OF assms(3)])
    (auto intro: calm_trans simp: keyboard_ok_calm assms(1))

lemma quiet_after: "quiet w u \<Longrightarrow> ensures r (quiet u) \<Longrightarrow> ensures r (quiet w)"
  by (erule ensures_mono) (rule quiet_trans)

lemma ensures_calm: "ensures r (quiet w) \<Longrightarrow> ensures r (calm w)"
  by (erule ensures_mono) (rule quiet_calm)

section \<open>The methods of the keyboard\<close>

lemmas quiet_defs = quiet_def calm_def untouched_def repeat_ok_def

lemma quiet_post [simp]: "quiet w (post e w)"
  by (simp add: quiet_defs frozen_def post_def)

lemma frozen_scheduleAutoRepeat [simp]: "frozen (scheduleAutoRepeat w) = frozen w"
  by (simp add: scheduleAutoRepeat_def frozen_def post_def Let_def)

lemma fields_scheduleAutoRepeat [simp]:
  "hk_codeToRepeat (scheduleAutoRepeat w) = hk_codeToRepeat w"
  "hk_keyState (scheduleAutoRepeat w) = hk_keyState w"
  "hk_eventFlags (scheduleAutoRepeat w) = hk_eventFlags w"
  "hk_keyMap (scheduleAutoRepeat w) = hk_keyMap w"
  by (simp_all add: scheduleAutoRepeat_def post_def Let_def)

text \<open>A key code that may be repeated when the event is a press.\<close>

definition repeatable :: "u32 \<Rightarrow> bool" where
  "repeatable key \<longleftrightarrow> key < 128 \<or> key = of_nat NX_NOSPECIALKEY"

lemma repeatable_key: "key < 128 \<Longrightarrow> repeatable key"
  by (simp add: repeatable_def)

lemma repeatable_none: "repeatable (of_nat NX_NOSPECIALKEY)"
  by (simp add: repeatable_def)

lemma quiet_setRepeat:
  "eventType \<noteq> NX_KEYDOWN \<or> repeatable key \<Longrightarrow> quiet w (setRepeat eventType key w)"
  by (simp add: setRepeat_def quiet_defs repeatable_def Let_def) (auto simp: frozen_def)

lemma quiet_outsideLock:
  assumes "keyboard_ok C w" and f: "\<And>u. quiet u (f u)"
  shows "ensures (outsideLock f w) (quiet w)"
proof (cases "dispatching w")
  case True
  then have lock: "hk_deviceLock w" using assms(1) by (simp add: keyboard_ok_def)
  let ?u = "unlockDevice w"
  have q: "quiet ?u (f ?u)" by (rule f)
  then have fr: "frozen (f ?u) = frozen ?u" by (simp add: quiet_defs)
  have "hk_deviceLock (f ?u) = hk_deviceLock ?u" by (rule frozen_fields(2) [OF fr])
  then have "\<not> hk_deviceLock (f ?u)" by (simp add: unlockDevice_def)
  moreover have "frozen ((f ?u)\<lparr>hk_deviceLock := True\<rparr>) = frozen w"
  proof -
    have "frozen ((f ?u)\<lparr>hk_deviceLock := True\<rparr>) = (frozen (f ?u))\<lparr>hk_deviceLock := True\<rparr>"
      by (simp add: frozen_def)
    also have "\<dots> = (frozen w)\<lparr>hk_deviceLock := True\<rparr>"
      unfolding fr by (simp add: frozen_def unlockDevice_def)
    also have "\<dots> = frozen w" using lock by (simp add: frozen_def)
    finally show ?thesis .
  qed
  moreover have "repeat_ok w \<longrightarrow> repeat_ok (f ?u)" and "untouched w (f ?u)"
    using q by (simp_all add: quiet_defs unlockDevice_def)
  ultimately show ?thesis using True
    by (simp add: outsideLock_def lockDevice_def quiet_defs)
next
  case False
  then show ?thesis using f by (simp add: outsideLock_def)
qed

lemma quiet_keyboardEvent:
  assumes "keyboard_ok C w" and "eventType \<noteq> NX_KEYDOWN \<or> repeatable key"
  shows "ensures (keyboardEvent eventType flags key a b c d w) (quiet w)"
proof -
  have "ensures (outsideLock (static_keyboardEvent eventType flags key a b c d) w) (quiet w)"
    by (rule quiet_outsideLock [OF assms(1)]) (simp add: static_keyboardEvent_def)
  then show ?thesis
    unfolding keyboardEvent_def ensures_bind
  proof (rule ensures_mono)
    fix u assume u: "quiet w u"
    then have "hk_hasKeyMap u" using keyboard_ok_quiet [OF u] assms(1) by (simp add: keyboard_ok_map)
    then show "ensures (if \<not> hk_hasKeyMap u then None
       else if unrepeatable key (parsedMapping u) \<and> hk_interfaceType u = NX_EVS_DEVICE_INTERFACE_ADB
            then Some u else Some (setRepeat eventType key u)) (quiet w)"
      using u quiet_trans [OF u quiet_setRepeat [OF assms(2)]] by simp
  qed
qed

lemma quiet_keyboardSpecialEvent:
  assumes "keyboard_ok C w" and "eventType \<noteq> NX_KEYDOWN \<or> repeatable key"
  shows "ensures (keyboardSpecialEvent eventType flags key flavor w) (quiet w)"
proof -
  have "ensures (outsideLock (\<lambda>w. static_keyboardSpecialEvent eventType flags key flavor (hk_isRepeat w) w) w)
      (quiet w)"
    by (rule quiet_outsideLock [OF assms(1)]) (simp add: static_keyboardSpecialEvent_def)
  then show ?thesis
    unfolding keyboardSpecialEvent_def ensures_bind
  proof (rule ensures_mono)
    fix u assume u: "quiet w u"
    then have "hk_hasKeyMap u" using keyboard_ok_quiet [OF u] assms(1) by (simp add: keyboard_ok_map)
    then show "ensures (if \<not> hk_hasKeyMap u then None
       else if unrepeatable key (parsedMapping u) then Some u else Some (setRepeat eventType key u)) (quiet w)"
      using u quiet_trans [OF u quiet_setRepeat [OF assms(2)]] by simp
  qed
qed

lemma quiet_updateEventFlags: "keyboard_ok C w \<Longrightarrow> ensures (updateEventFlags flags w) (quiet w)"
  unfolding updateEventFlags_def by (erule quiet_outsideLock) (simp add: static_updateEventFlags_def)

lemma calm_setDeviceFlags [simp]: "calm w (setDeviceFlags flags w)"
  by (simp add: setDeviceFlags_def calm_def repeat_ok_def) (simp add: frozen_def)

lemma fields_setDeviceFlags [simp]:
  "hk_eventFlags (setDeviceFlags flags w) = flags" "hk_keyState (setDeviceFlags flags w) = hk_keyState w"
  "hk_keyMap (setDeviceFlags flags w) = hk_keyMap w"
  by (simp_all add: setDeviceFlags_def)

lemma quiet_setDeviceFlags:
  "(\<And>n. n \<noteq> 16 \<Longrightarrow> bit flags n = bit (hk_eventFlags w) n) \<Longrightarrow> quiet w (setDeviceFlags flags w)"
  by (simp add: quiet_def untouched_def)

lemma quiet_locks [simp]:
  "quiet w (setAlphaLock b w)" "quiet w (setNumLock b w)" "quiet w (setCharKeyActive b w)"
  by (simp_all add: setAlphaLock_def setNumLock_def setCharKeyActive_def quiet_defs frozen_def post_def Let_def)

lemma fields_locks [simp]:
  "hk_eventFlags (setAlphaLock b w) = hk_eventFlags w" "hk_eventFlags (setNumLock b w) = hk_eventFlags w"
  "hk_keyState (setAlphaLock b w) = hk_keyState w" "hk_keyState (setNumLock b w) = hk_keyState w"
  "hk_keyMap (setAlphaLock b w) = hk_keyMap w" "hk_keyMap (setNumLock b w) = hk_keyMap w"
  by (simp_all add: setAlphaLock_def setNumLock_def post_def Let_def)

lemma calm_specialFlags [simp]: "calm w (updMapper (\<lambda>m. m\<lparr>mp_specialKeyModifierFlags := f m\<rparr>) w)"
  by (simp add: calm_def frozen_def updMapper_def repeat_ok_def)

end
