(* ===== verification/HID_Translate.thy ===== *)
theory HID_Translate
  imports HID_Sound
begin

text \<open>
  The translation of one key, routine by routine: on a keyboard with a sound key map each
  returns, and leaves the frozen part of the keyboard alone.
\<close>

section \<open>The keys held\<close>

definition downKeys :: "u32 list \<Rightarrow> nat set" where
  "downKeys bits = {k. k < 128 \<and> bit (bits ! (k div 32)) (k mod 32)}"

abbreviation heldKeys :: "hik \<Rightarrow> nat set" where
  "heldKeys w \<equiv> downKeys (hk_keyState w)"

lemma evk_index:
  fixes n :: u32
  shows "unat (drop_bit 5 n) = unat n div 32" and "unat (n AND 31) = unat n mod 32"
proof -
  show "unat (drop_bit 5 n) = unat n div 32" by (simp add: drop_bit_eq_div unat_div)
  have "n AND 31 = n mod 32"
    using take_bit_eq_mask [of 5 n] take_bit_eq_mod [of 5 n] by (simp add: mask_eq_exp_minus_1)
  then show "unat (n AND 31) = unat n mod 32" by (simp add: unat_mod)
qed

lemma EVK_set:
  assumes l: "length bits = 4" and n: "unat (n :: u32) < 128"
  shows "EVK_IS_KEYDOWN n bits = Some (unat n \<in> downKeys bits)"
    and "\<exists>bits'. EVK_KEYDOWN n bits = Some bits' \<and> length bits' = 4 \<and>
           downKeys bits' = insert (unat n) (downKeys bits)"
    and "\<exists>bits'. EVK_KEYUP n bits = Some bits' \<and> length bits' = 4 \<and>
           downKeys bits' = downKeys bits - {unat n}"
proof -
  have u: "unat n div 32 < length bits" using l n by simp
  have m: "unat n mod 32 < 32" by simp
  show "EVK_IS_KEYDOWN n bits = Some (unat n \<in> downKeys bits)"
    using u n m and_push_bit_nonzero [of "bits ! (unat n div 32)" "unat n mod 32"]
    by (simp add: EVK_IS_KEYDOWN_def evk_index downKeys_def del: push_bit_of_1)
  let ?d = "bits[unat n div 32 := bits ! (unat n div 32) OR push_bit (unat n mod 32) 1]"
  have "k \<in> downKeys ?d \<longleftrightarrow> k \<in> insert (unat n) (downKeys bits)" for k
    using u n m same_bit [of k "unat n"] by (auto simp: downKeys_def nth_list_update bit_simps)
  then have "downKeys ?d = insert (unat n) (downKeys bits)" by blast
  with u l show "\<exists>bits'. EVK_KEYDOWN n bits = Some bits' \<and> length bits' = 4 \<and>
      downKeys bits' = insert (unat n) (downKeys bits)"
    by (auto simp: EVK_KEYDOWN_def evk_index simp del: push_bit_of_1)
  let ?u = "bits[unat n div 32 := bits ! (unat n div 32) AND NOT (push_bit (unat n mod 32) 1)]"
  have "k \<in> downKeys ?u \<longleftrightarrow> k \<in> downKeys bits - {unat n}" for k
    using u n m same_bit [of k "unat n"] by (auto simp: downKeys_def nth_list_update bit_simps)
  then have "downKeys ?u = downKeys bits - {unat n}" by blast
  with u l show "\<exists>bits'. EVK_KEYUP n bits = Some bits' \<and> length bits' = 4 \<and>
      downKeys bits' = downKeys bits - {unat n}"
    by (auto simp: EVK_KEYUP_def evk_index simp del: push_bit_of_1)
qed

section \<open>Modifiers\<close>

definition isDown :: "hik_class \<Rightarrow> keymap \<Rightarrow> nat set \<Rightarrow> nat \<Rightarrow> bool" where
  "isDown C km D j \<longleftrightarrow> (case modOf C km j of None \<Rightarrow> False | Some ks \<Rightarrow> \<exists>k\<in>set ks. k \<in> D)"

lemma modOf_sound:
  assumes "sound_keymap C shorts km" and "modOf C km j = Some ks"
  shows "\<forall>k\<in>set ks. k < 128 \<and> fits shorts k" and "fits shorts (length ks)" and "j < NX_NUMMODIFIERS"
proof -
  have "(j, ks) \<in> set (km_modifiers km)"
    using assms(2) by (auto simp: modOf_def dest: map_of_SomeD split: if_splits)
  note entry = this
  have wf: "wf_modifiers shorts (km_modifiers km)"
    using assms(1) by (simp add: sound_keymap_def wf_keymap_def)
  show "fits shorts (length ks)" "j < NX_NUMMODIFIERS"
    using wf entry unfolding wf_modifiers_def list_all_iff by blast+
  have "\<forall>k\<in>set ks. k < 128"
    using assms(1) entry unfolding sound_keymap_def list_all_iff by blast
  then show "\<forall>k\<in>set ks. k < 128 \<and> fits shorts k" by (auto simp: fits_def allOnes_def)
qed

lemma anyKeyDown_enc:
  assumes "length bits = 4" and "\<forall>k\<in>set ks. k < 128 \<and> fits shorts k"
  shows "anyKeyDown shorts bits (length ks) (encNums shorts ks @ r) = Some (\<exists>k\<in>set ks. k \<in> downKeys bits)"
  using assms(2)
proof (induction ks)
  case (Cons k ks)
  have k: "unat (of_nat k :: u32) = k" using Cons.prems by (simp add: unat_of_nat)
  then have "EVK_IS_KEYDOWN (of_nat k) bits = Some (k \<in> downKeys bits)"
    using EVK_set(1) [OF assms(1), of "of_nat k"] Cons.prems by simp
  then show ?case using Cons by simp
qed simp

lemma IsModifierDown_set:
  assumes "sound_keymap C shorts km" and "represents C shorts (parsedMapping w) km"
    and "length (hk_keyState w) = 4" and "j < NX_NUMMODIFIERS"
  shows "IsModifierDown True j w = Some (isDown C km (heldKeys w) j)"
proof -
  have sh: "isShorts (parsedMapping w) = shorts" using assms(2) by (simp add: represents_def)
  have p: "points_to (encKeys shorts) (modOf C km j) (pm_modDefs (parsedMapping w) ! j)"
    using assms(2,4) unfolding represents_def by blast
  show ?thesis
  proof (cases "modOf C km j")
    case None
    then show ?thesis using p by (simp add: IsModifierDown_def points_to_def isDown_def)
  next
    case (Some ks)
    note ks = modOf_sound [OF assms(1) Some]
    show ?thesis using p Some ks(2) anyKeyDown_enc [OF assms(3) ks(1)]
      by (auto simp: IsModifierDown_def points_to_def encKeys_def sh isDown_def)
  qed
qed

text \<open>The flags after one modifier has been computed anew.\<close>

definition modFlags :: "hik_class \<Rightarrow> keymap \<Rightarrow> nat set \<Rightarrow> nat \<Rightarrow> u32 \<Rightarrow> u32" where
  "modFlags C km D j flags =
     (let cleared = (flags AND NOT (systemBitMask j)) AND NOT (DeviceModifierMasks ! j)
      in if isDown C km D j then cleared OR (systemBitMask j OR DeviceModifierMasks ! j)
         else if DeviceModifierMasks ! j \<noteq> 0 \<and> isDown C km D (otherHandBit j) then cleared OR systemBitMask j
         else cleared)"

definition applyLocks :: "nat \<Rightarrow> u32 \<Rightarrow> hik \<Rightarrow> hik" where
  "applyLocks j flags w =
     (if j = NX_MODIFIERKEY_ALPHALOCK then setAlphaLock (flags AND NX_ALPHASHIFTMASK \<noteq> 0) w
      else if j = NX_MODIFIERKEY_NUMLOCK then setNumLock (flags AND NX_NUMERICPADMASK \<noteq> 0) w else w)"

lemma calcModBit_flags:
  assumes "sound_keymap C shorts km" and "represents C shorts (parsedMapping w) km"
    and "length (hk_keyState w) = 4" and "j < NX_NUMMODIFIERS"
  shows "calcModBit j True w =
    (let flags = modFlags C km (heldKeys w) j (hk_eventFlags w) OR mp_specialKeyModifierFlags (hk_keyMap w)
     in Some (setDeviceFlags flags (applyLocks j flags w)))"
proof -
  have "otherHandBit j < NX_NUMMODIFIERS"
    using assms(4) by (auto simp: otherHandBit_def isRightBit_def isLeftBit_def hid_consts)
  note down = IsModifierDown_set [OF assms(1-3)]
  show ?thesis
    unfolding calcModBit_def down [OF assms(4)] down [OF \<open>otherHandBit j < _\<close>]
    by (simp add: modFlags_def applyLocks_def Let_def)
qed

lemma quiet_applyLocks [simp]: "quiet w (applyLocks j flags w)"
  by (simp add: applyLocks_def)

lemma whichMod_less: "whichMod b < NX_NUMMODIFIERS"
proof -
  have "unat (b AND 15) \<le> unat (15 :: u8)" by (metis word_and_le1 word_le_nat_alt)
  then show ?thesis by (simp add: whichMod_def hid_consts)
qed

lemma calm_calcModBit:
  assumes "keyboard_ok C w" and "j < NX_NUMMODIFIERS"
  shows "ensures (calcModBit j True w) (calm w)"
proof -
  obtain shorts km where km: "sound_keymap C shorts km" "represents C shorts (parsedMapping w) km"
    "length (hk_keyState w) = 4"
    using assms(1) by (auto simp: keyboard_ok_def)
  show ?thesis
    unfolding calcModBit_flags [OF km assms(2)] Let_def ensures_simps
    by (rule calm_trans [OF quiet_calm [OF quiet_applyLocks] calm_setDeviceFlags])
qed

lemma unat_ucast_key [simp]: "unat (ucast (key :: u8) :: u32) = unat key"
  by (simp add: unsigned_ucast_eq take_bit_nat_eq_self_iff less_trans [OF unat_u8_less])

lemma ucast_key_less: "unat key < 128 \<Longrightarrow> (ucast (key :: u8) :: u32) < 128"
  by (simp add: word_less_nat_alt)

lemma repeatable_ucast: "unat key < 128 \<Longrightarrow> repeatable (ucast (key :: u8))"
  by (rule repeatable_key) (rule ucast_key_less)

lemma calm_doModCalc:
  assumes ok: "keyboard_ok C w" and key: "unat key < 128"
  shows "ensures (doModCalc key True w) (calm w)"
  unfolding doModCalc_def Let_def
  by (auto intro!: calm_bind [OF ok] calm_calcModBit [OF ok whichMod_less]
      quiet_keyboardEvent [THEN ensures_calm] quiet_updateEventFlags [THEN ensures_calm] simp: hid_consts)

section \<open>Characters\<close>

lemma quiet_playSequence:
  assumes "keyboard_ok C w" and "fit_pairs shorts s" and "list_all (\<lambda>(a, b). a = 0xFF \<longrightarrow> b < NX_NUMMODIFIERS) s"
    and "unat key < 128"
  shows "ensures (playSequence shorts down eventType key (length s) flags (encPairs shorts s @ r) w)
    (\<lambda>(flags', w'). quiet w w')"
  using assms(1-3)
proof (induction s arbitrary: flags w)
  case (Cons p s)
  obtain a b where p: "p = (a, b)" by force
  have ab: "fits shorts a" "fits shorts b" "a = 0xFF \<longrightarrow> b < NX_NUMMODIFIERS"
    and s: "fit_pairs shorts s" "list_all (\<lambda>(a, b). a = 0xFF \<longrightarrow> b < NX_NUMMODIFIERS) s"
    using Cons.prems(2,3) by (auto simp: p fit_pairs_def)
  have ev: "ensures (keyboardEvent ty fl (ucast key) c d e f w) (quiet w)" for ty fl c d e f
    by (rule quiet_keyboardEvent [OF Cons.prems(1)]) (simp add: repeatable_ucast assms(4))
  have rest: "ensures (playSequence shorts down eventType key (length s) fl (encPairs shorts s @ r) u)
      (\<lambda>(flags', w'). quiet w w')" if "quiet w u" for fl u
  proof -
    have "keyboard_ok C u" using keyboard_ok_quiet [OF that] Cons.prems(1) by simp
    from Cons.IH [OF this s, of fl] show ?thesis
      by (rule ensures_mono) (auto intro: quiet_trans [OF that])
  qed
  show ?case
    using ab rest ensures_mono [OF ev rest]
    by (auto simp: p ensures_bind hid_consts)
qed simp

lemma charEvent:
  assumes "sound_keymap C shorts km" and "represents C shorts (parsedMapping w) km"
    and "keyOf C km (unat key) = Some (thisMask, cs)"
    and "pm_keyDefs (parsedMapping w) ! unat key = Some mapping"
  defines "char \<equiv> \<lambda>modifiers. cs ! charIndex (nat (maxModOf km + 1)) thisMask modifiers"
  shows "generateChars key down flags mapping w =
    (let eventType = (if down then NX_KEYDOWN else NX_KEYUP);
         (charSet, charCode) = char (charModifiers flags);
         (origSet, origCode) = char (charModifiers flags AND drop_bit 16 (NX_ALPHASHIFTMASK OR NX_SHIFTMASK))
     in if charSet = allOnes shorts
        then do { mapping \<leftarrow> (if charCode < length (pm_seqDefs (parsedMapping w))
                               then pm_seqDefs (parsedMapping w) ! charCode else None);
                  (n, mapping) \<leftarrow> NEXTNUM shorts mapping;
                  (flags', w) \<leftarrow> playSequence shorts down eventType key n flags mapping w;
                  if flags' \<noteq> flags
                  then keyboardEvent NX_FLAGSCHANGED (hk_eventFlags w) (ucast key) 0 0 0 0 w
                  else Some w }
        else keyboardEvent eventType flags (ucast key) (of_nat charCode) (of_nat charSet)
               (of_nat origCode) (of_nat origSet) w)"
proof -
  have wf: "wf_keymap C shorts km" using assms(1) by (simp add: sound_keymap_def)
  have key: "unat key < NX_NUMKEYCODES" by (simp add: hid_consts)
  have sh: "isShorts (parsedMapping w) = shorts" using assms(2) by (simp add: represents_def)
  note look = lookupChar_index(1) [OF assms(2) wf assms(3) key assms(4)]
  show ?thesis
    by (simp only: generateChars_def Let_def look sh Option.bind.simps char_def)
qed

lemma quiet_generateChars:
  assumes ok: "keyboard_ok C w" and key: "unat key < 128"
    and def: "pm_keyDefs (parsedMapping w) ! unat key = Some mapping"
  shows "ensures (generateChars key down flags mapping w) (quiet w)"
proof -
  obtain shorts km where km: "sound_keymap C shorts km" "represents C shorts (parsedMapping w) km"
    using ok by (auto simp: keyboard_ok_def)
  have wf: "wf_keymap C shorts km" using km(1) by (simp add: sound_keymap_def)
  have kc: "unat key < NX_NUMKEYCODES" by (simp add: hid_consts)
  have "points_to (encDef shorts) (keyOf C km (unat key)) (Some mapping)"
    using km(2) kc def unfolding represents_def by metis
  then obtain thisMask cs where cs: "keyOf C km (unat key) = Some (thisMask, cs)"
    by (auto simp: points_to_def split: option.splits)
  let ?i = "charIndex (nat (maxModOf km + 1)) thisMask (charModifiers flags)"
  obtain a b where ab: "cs ! ?i = (a, b)" by force
  have "cs ! ?i \<in> set cs" by (rule nth_mem [OF lookupChar_index(2) [OF km(2) wf cs kc def]])
  then have seq: "a = allOnes shorts \<longrightarrow> b < length (km_seqs km)"
    using wf_keymap_def_of [OF wf cs] ab by (auto simp: wf_def_def list_all_iff)
  have ev: "ensures (keyboardEvent ty fl (ucast key) c d e f u) (quiet u)" if "keyboard_ok C u" for ty fl c d e f u
    by (rule quiet_keyboardEvent [OF that]) (simp add: repeatable_ucast key)
  have after: "ensures (keyboardEvent ty fl (ucast key) c d e f u) (quiet w)" if "quiet w u" for ty fl c d e f u
    using that by (rule quiet_after [OF _ ev]) (simp add: keyboard_ok_quiet [OF that] ok)
  show ?thesis
  proof (cases "a = allOnes shorts")
    case False
    then show ?thesis
      unfolding charEvent [OF km cs def] by (simp add: ab Let_def ev ok split: prod.split)
  next
    case True
    then have b: "b < length (km_seqs km)" using seq by simp
    let ?s = "km_seqs km ! b"
    have p: "points_to (encSeq shorts) (Some ?s) (pm_seqDefs (parsedMapping w) ! b)"
      and len: "length (pm_seqDefs (parsedMapping w)) = NX_NUMSEQUENCES"
      using km(2) b unfolding represents_def by blast+
    then obtain r where r: "pm_seqDefs (parsedMapping w) ! b =
        Some (encNum shorts (length ?s) @ encPairs shorts ?s @ r)"
      by (auto simp: points_to_def encSeq_def)
    have s: "fits shorts (length ?s)" "fit_pairs shorts ?s" "length (km_seqs km) \<le> NX_NUMSEQUENCES"
      using wf nth_mem [OF b] by (auto simp: wf_keymap_def list_all_iff)
    have meta: "list_all (\<lambda>(a, b). a = 0xFF \<longrightarrow> b < NX_NUMMODIFIERS) ?s"
      using km(1) nth_mem [OF b] by (auto simp: sound_keymap_def list_all_iff)
    have "b < length (pm_seqDefs (parsedMapping w))" using b s(3) len by simp
    moreover have "ensures (playSequence shorts down ty key (length ?s) flags (encPairs shorts ?s @ r) w)
        (\<lambda>p. ensures (if fst p \<noteq> flags
           then keyboardEvent NX_FLAGSCHANGED (hk_eventFlags (snd p)) (ucast key) 0 0 0 0 (snd p)
           else Some (snd p)) (quiet w))" for ty
      by (rule ensures_mono [OF quiet_playSequence [OF ok s(2) meta key]])
        (auto intro: after)
    ultimately show ?thesis
      unfolding charEvent [OF km cs def]
      by (cases down) (simp_all add: ab True Let_def r s(1) ensures_bind case_prod_beta)
  qed
qed

section \<open>Special keys\<close>

lemma quiet_toggleAlphaLock:
  "quiet w (setDeviceFlags
     (if on then hk_eventFlags w OR NX_ALPHASHIFTMASK else hk_eventFlags w AND NOT NX_ALPHASHIFTMASK)
     (updMapper (\<lambda>m. m\<lparr>mp_specialKeyModifierFlags :=
         (if on then mp_specialKeyModifierFlags m OR NX_ALPHASHIFTMASK
          else mp_specialKeyModifierFlags m AND NOT NX_ALPHASHIFTMASK)\<rparr>) (setAlphaLock b w)))"
proof -
  have mask: "bit NX_ALPHASHIFTMASK n \<longleftrightarrow> n = 16" for n
    using bit_push_bit_iff [of 16 "1 :: u32" n] by (auto simp: hid_consts bit_simps)
  show ?thesis
    unfolding quiet_def
    by (rule conjI [OF calm_trans [OF calm_trans [OF quiet_calm [OF quiet_locks(1)] calm_specialFlags]
            calm_setDeviceFlags]])
      (auto simp: untouched_def updMapper_def bit_simps mask dest: bit_imp_le_length)
qed

lemma quiet_doSpecialKey:
  assumes ok: "keyboard_ok C w" and key: "unat key < 128"
  shows "ensures (doSpecialKey C key down flags w) (quiet w)"
proof (cases "specialIndex (parsedMapping w) key")
  case None
  then show ?thesis by (simp add: doSpecialKey_def)
next
  case (Some i)
  have plain: "\<not> doesKeyLock C NX_KEYTYPE_NUM_LOCK" "\<not> isADBButtons C"
    using ok by (simp_all add: keyboard_ok_def plain_class_def)
  have toggle: "ensures (keyboardEvent NX_FLAGSCHANGED fl (ucast key) 0 0 0 0 v) (quiet u)"
    if "quiet u v" "keyboard_ok C u" for fl u v
    using that(1) by (rule quiet_after [OF _ quiet_keyboardEvent [where C = C]])
      (simp_all add: keyboard_ok_quiet [OF that(1)] that(2) hid_consts)
  have locks: "ensures (toggleAlphaLock key u) (quiet u)" if "keyboard_ok C u" for u
    unfolding toggleAlphaLock_def Let_def
    by (rule toggle [OF quiet_toggleAlphaLock that])
  show ?thesis
    unfolding doSpecialKey_def Some option.case
    by (rule quiet_bind [OF ok])
      (auto intro!: quiet_keyboardSpecialEvent [OF ok] locks repeatable_ucast key simp: plain)
qed

lemma quiet_doCharGen:
  assumes ok: "keyboard_ok C w" and key: "unat key < 128"
  shows "ensures (doCharGen C key down w) (quiet w)"
proof -
  let ?u = "setCharKeyActive True w"
  have u: "quiet w ?u" "keyboard_ok C ?u" using ok by (simp_all add: keyboard_ok_quiet [OF quiet_locks(3)])
  have "ensures (doCharGen C key down w) (quiet ?u)"
    unfolding doCharGen_def Let_def
    by (rule quiet_bind [OF u(2)])
      (auto intro!: quiet_generateChars quiet_doSpecialKey u(2) key split: option.split)
  then show ?thesis by (rule quiet_after [OF u(1)])
qed

section \<open>One key\<close>

lemma calm_updateKeyState:
  assumes ok: "keyboard_ok C w" and key: "unat key < 128"
    and evk: "evk = EVK_KEYDOWN \<or> evk = EVK_KEYUP"
  shows "ensures (updateKeyState evk key True w) (calm w)"
proof -
  have l: "length (hk_keyState w) = 4" using ok by (simp add: keyboard_ok_def)
  have "\<exists>bits. evk (ucast key) (hk_keyState w) = Some bits \<and> length bits = 4"
    using EVK_set(2,3) [OF l, of "ucast key"] key evk by auto
  then obtain bits where b: "evk (ucast key) (hk_keyState w) = Some bits" "length bits = 4" by blast
  have "calm w (w\<lparr>hk_keyState := bits\<rparr>)"
    using l b(2) by (simp add: calm_def frozen_def repeat_ok_def map_replicate_const)
  then show ?thesis by (simp add: updateKeyState_def b(1))
qed

lemma calm_rawTranslateKeyCode:
  assumes ok: "keyboard_ok C w" and key: "unat key < 128"
  shows "ensures (rawTranslateKeyCode C key down True w) (calm w)"
  unfolding rawTranslateKeyCode_def Let_def
  by (rule calm_bind [OF ok])
    (auto intro!: calm_bind calm_updateKeyState calm_doModCalc quiet_doCharGen [THEN ensures_calm]
      quiet_keyboardEvent [THEN ensures_calm] ok key repeatable_ucast)

end
