(* ===== verification/HID_Modifiers.thy ===== *)
theory HID_Modifiers
  imports HID_Translate
begin

text \<open>
  The modifier flags of a keyboard are an implementation of the set of keys held: a flag is
  set exactly if a key of its modifier is in the set, whatever keys are translated.
\<close>

section \<open>The modifier of a key\<close>

definition modPart :: "u8 \<Rightarrow> u8" where
  "modPart b = b AND 0x1F"

lemma modPart_or [simp]:
  "modPart (b OR NX_CHARGENMASK) = modPart b" "modPart (b OR (NX_CHARGENMASK OR NX_SPECIALKEYMASK)) = modPart b"
  "modPart (b AND NOT NX_CHARGENMASK) = modPart b"
  by (auto intro!: u8_eqI simp: modPart_def hid_consts bit_simps)

lemma modPart_setBits:
  assumes "\<And>b. modPart (f b) = modPart b"
  shows "modPart (setBits f i bits ! k) = modPart (bits ! k)"
proof (cases "i < length bits")
  case True
  then show ?thesis by (simp add: nth_setBits assms)
qed (simp add: setBits_def list_update_beyond)

lemma modPart_markDefs: "modPart (markDefs i defs bits ! k) = modPart (bits ! k)"
  by (induction defs arbitrary: i bits) (simp_all add: modPart_setBits)

lemma modPart_markSpecials: "modPart (markSpecials keys bits ! k) = modPart (bits ! k)"
  unfolding markSpecials_def
  by (induction keys arbitrary: bits) (simp_all add: modPart_setBits)

lemma modPart_keyBitsOf: "modPart (keyBitsOf C shorts km ! k) = modPart (modifierKeyBits C km ! k)"
  by (simp add: keyBitsOf_def Let_def modPart_setBits modPart_markSpecials modPart_markDefs split: option.split)

lemma setBits_neq: "k \<noteq> i \<Longrightarrow> setBits f i bits ! k = bits ! k"
  by (simp add: setBits_def)

lemma fold_setBits_hit:
  "distinct ks \<Longrightarrow> k \<in> set ks \<Longrightarrow> k < length bits \<Longrightarrow> fold (setBits f) ks bits ! k = f (bits ! k)"
proof (induction ks arbitrary: bits)
  case (Cons l ks)
  then show ?case
    by (cases "k = l") (simp add: fold_setBits_other nth_setBits, simp add: setBits_neq)
qed simp

lemma markModifiers_hit:
  assumes "distinct (concat (map snd ms))" and "(j, ks) \<in> set ms" and "k \<in> set ks" and "k < length bits"
    and "j \<noteq> NX_MODIFIERKEY_ALPHALOCK \<or> doesKeyLock C NX_KEYTYPE_CAPS_LOCK"
  shows "fold (markModifier C) ms bits ! k = bits ! k OR modifierBits j"
  using assms(1,2,4)
proof (induction ms arbitrary: bits)
  case (Cons m ms)
  have other: "fold (markModifier C) ns b ! k = b ! k" if "k \<notin> set (concat (map snd ns))" for ns b
    using that by (induction ns arbitrary: b) (auto simp: markModifier_other)
  show ?case
  proof (cases "m = (j, ks)")
    case True
    have "distinct ks" using Cons.prems(1) True by simp
    then have "markModifier C m bits ! k = bits ! k OR modifierBits j"
      using assms(3,5) Cons.prems(3) by (simp add: markModifier_def True fold_setBits_hit)
    moreover have "k \<notin> set (concat (map snd ms))" using Cons.prems(1) assms(3) True by auto
    ultimately show ?thesis by (simp add: other)
  next
    case False
    then have m: "(j, ks) \<in> set ms" using Cons.prems(2) by simp
    then have "k \<in> set (concat (map snd ms))" using assms(3) by force
    then have "k \<notin> set (snd m)" using Cons.prems(1) by auto
    then show ?thesis using Cons.IH [of "markModifier C m bits"] Cons.prems m
      by (simp add: markModifier_other)
  qed
qed simp

lemma modifierBits_cases:
  assumes "j < NX_NUMMODIFIERS" and "modPart b = modifierBits j"
  shows "b AND NX_MODMASK \<noteq> 0" and "whichMod b = j"
proof -
  have m: "b AND NX_MODMASK = modPart b AND NX_MODMASK" "b AND NX_WHICHMODMASK = modPart b AND NX_WHICHMODMASK"
    by (simp_all add: modPart_def hid_consts and.assoc)
  have "j \<in> set [0..<16]" using assms(1) by (simp add: hid_consts)
  then show "b AND NX_MODMASK \<noteq> 0" "whichMod b = j"
    unfolding whichMod_def m assms(2)
    by (auto simp: modifierBits_def hid_consts upt_rec)
qed

lemma keyBits_modifier:
  assumes "sound_keymap C shorts km" and "represents C shorts pm km"
    and "modOf C km j = Some ks" and "k \<in> set ks"
  shows "pm_keyBits pm ! k AND NX_MODMASK \<noteq> 0" and "whichMod (pm_keyBits pm ! k) = j"
proof -
  have mem: "(j, ks) \<in> set (km_modifiers km)" and
    lock: "j \<noteq> NX_MODIFIERKEY_ALPHALOCK \<or> doesKeyLock C NX_KEYTYPE_CAPS_LOCK"
    using assms(3) by (auto simp: modOf_def dest: map_of_SomeD split: if_splits)
  have k: "k < 128" using modOf_sound(1) [OF assms(1,3)] assms(4) by blast
  have fn: "k = 0x3f \<longrightarrow> j = NX_MODIFIERKEY_SECONDARYFN"
    using assms(1) mem assms(4) unfolding sound_keymap_def list_all_iff by blast
  have dist: "distinct (concat (map snd (km_modifiers km)))"
    using assms(1) by (simp add: sound_keymap_def wf_keymap_def wf_modifiers_def)
  let ?bits = "fold (markModifier C) (km_modifiers km) (replicate NX_NUMKEYCODES 0)"
  have hit: "?bits ! k = modifierBits j"
    using markModifiers_hit [OF dist mem assms(4) _ lock, of "replicate NX_NUMKEYCODES 0"] k
    by (simp add: hid_consts)
  have "modifierKeyBits C km ! k = modifierBits j"
    using hit fn k
    by (cases "k = 0x3f") (simp_all add: modifierKeyBits_def Let_def nth_setBits hid_consts)
  moreover have "modPart (modifierBits j) = modifierBits j"
    by (auto intro!: u8_eqI simp: modPart_def modifierBits_def hid_consts bit_simps)
  ultimately have "modPart (pm_keyBits pm ! k) = modifierBits j"
    using assms(2) by (simp add: represents_def modPart_keyBitsOf)
  then show "pm_keyBits pm ! k AND NX_MODMASK \<noteq> 0" "whichMod (pm_keyBits pm ! k) = j"
    using modifierBits_cases [OF modOf_sound(3) [OF assms(1,3)]] by blast+
qed

section \<open>Flags\<close>

text \<open>The bit of each modifier, and of each of its keys on either side, in the flags.\<close>

definition systemBit :: "nat \<Rightarrow> nat" where
  "systemBit j = (if isRightBit j then j - 8 else j) + 16"

definition deviceBit :: "nat \<Rightarrow> nat option" where
  "deviceBit j = map_of [(1, 1), (2, 0), (3, 5), (4, 3), (9, 2), (10, 13), (11, 6), (12, 4)] j"

lemma bit_systemBitMask: "j < NX_NUMMODIFIERS \<Longrightarrow> bit (systemBitMask j) n \<longleftrightarrow> n = systemBit j"
  by (auto simp: systemBitMask_def systemBit_def otherHandBit_def isRightBit_def bit_simps hid_consts)

lemma single_bit: "m < 32 \<Longrightarrow> bit (push_bit m 1 :: u32) n \<longleftrightarrow> n = m"
  by (auto simp: bit_simps)

lemma bit_masks:
  "bit (0x2 :: u32) n \<longleftrightarrow> n = 1" "bit (0x4 :: u32) n \<longleftrightarrow> n = 2" "bit (0x8 :: u32) n \<longleftrightarrow> n = 3"
  "bit (0x10 :: u32) n \<longleftrightarrow> n = 4" "bit (0x20 :: u32) n \<longleftrightarrow> n = 5" "bit (0x40 :: u32) n \<longleftrightarrow> n = 6"
  "bit (0x2000 :: u32) n \<longleftrightarrow> n = 13"
  using single_bit [of 1 n] single_bit [of 2 n] single_bit [of 3 n] single_bit [of 4 n] single_bit [of 5 n]
    single_bit [of 6 n] single_bit [of 13 n]
  by simp_all

lemma bit_deviceMask:
  assumes "j < NX_NUMMODIFIERS"
  shows "bit (DeviceModifierMasks ! j) n \<longleftrightarrow> deviceBit j = Some n"
    and "DeviceModifierMasks ! j \<noteq> 0 \<longleftrightarrow> deviceBit j \<noteq> None"
proof -
  have "j \<in> set [0..<16]" using assms by (simp add: hid_consts)
  then show "bit (DeviceModifierMasks ! j) n \<longleftrightarrow> deviceBit j = Some n"
    by (auto simp: upt_rec deviceBit_def DeviceModifierMasks_def hid_consts bit_masks bit_1_iff
        simp del: bit_numeral_word_iff)
  show "DeviceModifierMasks ! j \<noteq> 0 \<longleftrightarrow> deviceBit j \<noteq> None"
    using \<open>j \<in> _\<close> by (auto simp: upt_rec deviceBit_def DeviceModifierMasks_def hid_consts)
qed

lemma bit_modFlags:
  assumes "j < NX_NUMMODIFIERS"
  shows "bit (modFlags C km D j flags) n \<longleftrightarrow>
    (if n = systemBit j then isDown C km D j \<or> deviceBit j \<noteq> None \<and> isDown C km D (otherHandBit j)
     else if deviceBit j = Some n then isDown C km D j else bit flags n)"
proof -
  have d: "deviceBit j = Some m \<Longrightarrow> m \<noteq> systemBit j" for m
    by (auto simp: deviceBit_def systemBit_def split: if_splits)
  show ?thesis
    unfolding modFlags_def Let_def
    using d bit_imp_le_length [of flags n]
    by (auto simp: bit_simps bit_systemBitMask [OF assms] bit_deviceMask [OF assms] systemBit_def)
qed

definition tracks :: "hik_class \<Rightarrow> keymap \<Rightarrow> nat set \<Rightarrow> u32 \<Rightarrow> bool" where
  "tracks C km D flags \<longleftrightarrow>
     (\<forall>j. 1 \<le> j \<and> j \<le> 7 \<longrightarrow>
       bit flags (16 + j) = (isDown C km D j \<or> j \<le> 4 \<and> isDown C km D (j + 8))) \<and>
     (\<forall>j n. deviceBit j = Some n \<longrightarrow> bit flags n = isDown C km D j)"

lemma otherHand_cases:
  "deviceBit j \<noteq> None \<Longrightarrow> 1 \<le> j \<and> j \<le> 4 \<and> otherHandBit j = j + 8 \<and> systemBit j = j + 16 \<or>
     9 \<le> j \<and> j \<le> 12 \<and> otherHandBit j = j - 8 \<and> systemBit j = j + 8"
  by (auto simp: deviceBit_def otherHandBit_def systemBit_def isRightBit_def isLeftBit_def hid_consts
      split: if_splits)

lemma deviceBit_inj: "deviceBit i = Some n \<Longrightarrow> deviceBit j = Some n \<Longrightarrow> i = j"
  by (auto simp: deviceBit_def split: if_splits)

lemma deviceBit_range: "deviceBit j = Some n \<Longrightarrow> n < 16"
  by (auto simp: deviceBit_def split: if_splits)

lemma deviceBit_left: "1 \<le> j \<Longrightarrow> j \<le> 4 \<Longrightarrow> deviceBit j \<noteq> None \<and> deviceBit (j + 8) \<noteq> None"
proof -
  assume "1 \<le> j" "j \<le> 4"
  then have "j = 1 \<or> j = 2 \<or> j = 3 \<or> j = 4" by auto
  then show ?thesis by (auto simp: deviceBit_def)
qed

text \<open>
  When the keys held change, but for no modifier other than \<open>j\<close>, then computing the flags
  for \<open>j\<close> anew is enough.
\<close>

lemma tracks_modFlags:
  assumes "tracks C km D flags" and j: "j < NX_NUMMODIFIERS"
    and other: "\<And>i. i \<noteq> j \<Longrightarrow> isDown C km D' i = isDown C km D i"
  shows "tracks C km D' (modFlags C km D' j flags)"
  unfolding tracks_def
proof (intro conjI allI impI)
  fix i :: nat
  assume i: "1 \<le> i \<and> i \<le> 7"
  have old: "bit flags (16 + i) = (isDown C km D i \<or> i \<le> 4 \<and> isDown C km D (i + 8))"
    using assms(1) i by (simp add: tracks_def)
  have dev: "deviceBit j \<noteq> Some (16 + i)" using deviceBit_range [of j "16 + i"] by auto
  show "bit (modFlags C km D' j flags) (16 + i) = (isDown C km D' i \<or> i \<le> 4 \<and> isDown C km D' (i + 8))"
  proof (cases "16 + i = systemBit j")
    case False
    have "j \<noteq> i" "i \<le> 4 \<longrightarrow> j \<noteq> i + 8"
      using False i by (auto simp: systemBit_def isRightBit_def hid_consts)
    then have "isDown C km D' i = isDown C km D i" "i \<le> 4 \<longrightarrow> isDown C km D' (i + 8) = isDown C km D (i + 8)"
      using other by metis+
    then show ?thesis using False dev by (auto simp: bit_modFlags [OF j] old)
  next
    case True
    then have ij: "j = i \<or> i \<le> 4 \<and> j = i + 8"
      using i j by (auto simp: systemBit_def isRightBit_def hid_consts split: if_splits)
    show ?thesis
    proof (cases "i \<le> 4")
      case left: True
      then have "deviceBit j \<noteq> None" using ij i deviceBit_left [of i] by auto
      then show ?thesis using ij left True otherHand_cases [of j] by (auto simp: bit_modFlags [OF j])
    next
      case False
      then have "j = i" "deviceBit j = None"
        using ij i by (auto simp: deviceBit_def)
      moreover from \<open>deviceBit j = None\<close> have "bit (modFlags C km D' j flags) (systemBit j) = isDown C km D' j"
        by (simp add: bit_modFlags [OF j])
      ultimately show ?thesis using False True by simp
    qed
  qed
next
  fix i n
  assume i: "deviceBit i = Some n"
  have old: "bit flags n = isDown C km D i" using assms(1) i by (simp add: tracks_def)
  have sys: "n \<noteq> systemBit j" using deviceBit_range [OF i] by (auto simp: systemBit_def)
  show "bit (modFlags C km D' j flags) n = isDown C km D' i"
  proof (cases "i = j")
    case True
    then show ?thesis using i sys by (simp add: bit_modFlags [OF j])
  next
    case False
    then have "deviceBit j \<noteq> Some n" using deviceBit_inj [OF i] by auto
    then show ?thesis using sys old other [OF False] by (simp add: bit_modFlags [OF j])
  qed
qed

lemma tracks_cong:
  assumes "\<And>n. n \<noteq> 16 \<Longrightarrow> bit flags' n = bit flags n" and "\<And>i. isDown C km D' i = isDown C km D i"
  shows "tracks C km D' flags' = tracks C km D flags"
proof -
  have "n \<noteq> 16" if "deviceBit j = Some n" for j n using deviceBit_range [OF that] by simp
  then show ?thesis using assms by (auto simp: tracks_def)
qed

section \<open>One key\<close>

text \<open>
  The part of the state of which the flags depend: the key map, and no flag of a tracked
  modifier among those that special keys switch. \<open>D\<close> is the set of keys that the flags show.
\<close>

definition shows_keys :: "hik_class \<Rightarrow> bool \<Rightarrow> keymap \<Rightarrow> nat set \<Rightarrow> hik \<Rightarrow> bool" where
  "shows_keys C shorts km D w \<longleftrightarrow>
     represents C shorts (parsedMapping w) km \<and>
     (\<forall>n. n \<noteq> 16 \<longrightarrow> \<not> bit (mp_specialKeyModifierFlags (hk_keyMap w)) n) \<and>
     tracks C km D (hk_eventFlags w)"

definition flags_ok :: "hik_class \<Rightarrow> bool \<Rightarrow> keymap \<Rightarrow> hik \<Rightarrow> bool" where
  "flags_ok C shorts km w \<longleftrightarrow> shows_keys C shorts km (heldKeys w) w"

lemma calm_parsed: "calm w w' \<Longrightarrow> parsedMapping w' = parsedMapping w"
  unfolding calm_def using frozen_mapper(1) by blast

lemma shows_keys_quiet:
  assumes "quiet w w'"
  shows "shows_keys C shorts km D w' = shows_keys C shorts km D w" and "heldKeys w' = heldKeys w"
proof -
  have u: "untouched w w'" and pm: "parsedMapping w' = parsedMapping w"
    using assms calm_parsed by (auto simp: quiet_def)
  have "tracks C km D (hk_eventFlags w') = tracks C km D (hk_eventFlags w)"
    by (rule tracks_cong) (use u in \<open>simp_all add: untouched_def\<close>)
  then show "shows_keys C shorts km D w' = shows_keys C shorts km D w"
    using u pm by (simp add: shows_keys_def untouched_def)
  show "heldKeys w' = heldKeys w" using u by (simp add: untouched_def)
qed

lemma shows_keys_after:
  assumes "ensures r (quiet v)" and "shows_keys C shorts km D v" and "heldKeys v = H"
  shows "ensures r (\<lambda>w'. shows_keys C shorts km D w' \<and> heldKeys w' = H)"
  using assms(1)
proof (rule ensures_mono)
  fix x assume "quiet v x"
  then show "shows_keys C shorts km D x \<and> heldKeys x = H"
    using shows_keys_quiet [of v x] assms(2,3) by blast
qed

lemma calm_shows_after:
  assumes "ensures r (quiet v)" and "calm u v \<and> shows_keys C shorts km D v \<and> heldKeys v = H"
  shows "ensures r (\<lambda>x. calm u x \<and> shows_keys C shorts km D x \<and> heldKeys x = H)"
  using assms(1)
proof (rule ensures_mono)
  fix x assume x: "quiet v x"
  then show "calm u x \<and> shows_keys C shorts km D x \<and> heldKeys x = H"
    using shows_keys_quiet [OF x] calm_trans [OF _ quiet_calm [OF x], of u] assms(2) by blast
qed

lemma modFlags_doModCalc:
  assumes ok: "keyboard_ok C w" and km: "sound_keymap C shorts km" and key: "unat key < 128"
    and s: "shows_keys C shorts km D w"
    and D: "\<And>i. i \<noteq> unat key \<Longrightarrow> i \<in> heldKeys w \<longleftrightarrow> i \<in> D"
    and mod: "pm_keyBits (parsedMapping w) ! unat key AND NX_MODMASK \<noteq> 0"
  shows "ensures (doModCalc key True w) (\<lambda>w'. shows_keys C shorts km (heldKeys w) w' \<and> heldKeys w' = heldKeys w)"
proof -
  let ?j = "whichMod (pm_keyBits (parsedMapping w) ! unat key)"
  have rep: "represents C shorts (parsedMapping w) km" and len: "length (hk_keyState w) = 4"
    using s ok by (simp_all add: shows_keys_def keyboard_ok_def)
  let ?F = "modFlags C km (heldKeys w) ?j (hk_eventFlags w)"
  let ?G = "?F OR mp_specialKeyModifierFlags (hk_keyMap w)"
  let ?v = "setDeviceFlags ?G (applyLocks ?j ?G w)"
  have other: "isDown C km (heldKeys w) i = isDown C km D i" if "i \<noteq> ?j" for i
  proof (cases "modOf C km i")
    case (Some ks)
    have "unat key \<notin> set ks" using keyBits_modifier(2) [OF km rep Some] that by auto
    then have "k \<in> heldKeys w \<longleftrightarrow> k \<in> D" if "k \<in> set ks" for k using D that by metis
    then show ?thesis by (simp add: isDown_def Some)
  qed (simp add: isDown_def)
  have "tracks C km (heldKeys w) ?F"
    by (rule tracks_modFlags [OF _ whichMod_less other]) (use s in \<open>simp add: shows_keys_def\<close>)
  moreover have "bit ?G n = bit ?F n" if "n \<noteq> 16" for n
    using s that by (auto simp: shows_keys_def bit_or_iff)
  ultimately have G: "tracks C km (heldKeys w) ?G" by (subst tracks_cong [where flags = ?F]) simp_all
  have locks: "hk_keyState (applyLocks j f w) = hk_keyState w" "hk_keyMap (applyLocks j f w) = hk_keyMap w" for j f
    by (simp_all add: applyLocks_def)
  have v: "shows_keys C shorts km (heldKeys w) ?v" "heldKeys ?v = heldKeys w"
    using s G by (simp_all add: shows_keys_def locks)
  have ok': "keyboard_ok C ?v"
    using keyboard_ok_calm [OF calm_trans [OF quiet_calm [OF quiet_applyLocks] calm_setDeviceFlags]] ok by simp
  have "ensures (keyboardEvent NX_FLAGSCHANGED fl (ucast key) 0 0 0 0 ?v)
        (\<lambda>w'. shows_keys C shorts km (heldKeys w) w' \<and> heldKeys w' = heldKeys w)"
    "ensures (updateEventFlags fl ?v) (\<lambda>w'. shows_keys C shorts km (heldKeys w) w' \<and> heldKeys w' = heldKeys w)" for fl
    by (auto intro!: shows_keys_after [OF _ v] quiet_keyboardEvent [OF ok'] quiet_updateEventFlags [OF ok']
        simp: hid_consts)
  then show ?thesis
    using mod calcModBit_flags [OF km rep len whichMod_less]
    by (simp add: doModCalc_def Let_def)
qed

text \<open>A key that is no modifier's changes what the flags should show of none.\<close>

lemma shows_keys_other:
  assumes km: "sound_keymap C shorts km" and s: "shows_keys C shorts km D w"
    and mod: "pm_keyBits (parsedMapping w) ! k AND NX_MODMASK = 0"
    and D': "\<And>i. i \<noteq> k \<Longrightarrow> i \<in> D' \<longleftrightarrow> i \<in> D"
  shows "shows_keys C shorts km D' w"
proof -
  have rep: "represents C shorts (parsedMapping w) km" using s by (simp add: shows_keys_def)
  have "isDown C km D' i = isDown C km D i" for i
  proof (cases "modOf C km i")
    case (Some ks)
    have "k \<notin> set ks" using keyBits_modifier(1) [OF km rep Some] mod by auto
    then have "l \<in> D' \<longleftrightarrow> l \<in> D" if "l \<in> set ks" for l using D' that by metis
    then show ?thesis by (simp add: isDown_def Some)
  qed (simp add: isDown_def)
  then have "tracks C km D' (hk_eventFlags w) = tracks C km D (hk_eventFlags w)" by (intro tracks_cong) simp_all
  then show ?thesis using s by (simp add: shows_keys_def)
qed

definition pressed :: "bool \<Rightarrow> nat \<Rightarrow> nat set \<Rightarrow> nat set" where
  "pressed down k D = (if down then insert k D else D - {k})"

lemma flags_rawTranslateKeyCode:
  assumes ok: "keyboard_ok C w" and km: "sound_keymap C shorts km" and key: "unat key < 128"
    and s: "flags_ok C shorts km w"
  shows "ensures (rawTranslateKeyCode C key down True w)
    (\<lambda>w'. flags_ok C shorts km w' \<and> heldKeys w' = pressed down (unat key) (heldKeys w))"
proof -
  let ?D = "heldKeys w" and ?D' = "pressed down (unat key) (heldKeys w)"
  let ?evk = "if down then EVK_KEYDOWN else EVK_KEYUP"
  let ?bits = "pm_keyBits (parsedMapping w) ! unat key"
  have len: "length (hk_keyState w) = 4" using ok by (simp add: keyboard_ok_def)
  have "\<exists>bits. ?evk (ucast key) (hk_keyState w) = Some bits \<and> downKeys bits = ?D'"
    using EVK_set(2,3) [OF len, of "ucast key"] key by (cases down) (auto simp: pressed_def)
  then obtain bits where b: "?evk (ucast key) (hk_keyState w) = Some bits" "downKeys bits = ?D'" by blast
  define u where "u = w\<lparr>hk_keyState := bits\<rparr>"
  have upd: "updateKeyState ?evk key True w = Some u" by (simp add: updateKeyState_def b(1) u_def)
  have "calm w u"
    using calm_updateKeyState [OF ok key, of ?evk] upd by (auto simp: ensures_def)
  then have uok: "keyboard_ok C u" using ok by (simp add: keyboard_ok_calm)
  have us: "shows_keys C shorts km ?D u" "heldKeys u = ?D'" "parsedMapping u = parsedMapping w"
    using s b(2) by (simp_all add: flags_ok_def shows_keys_def u_def)
  let ?R = "\<lambda>D v. calm u v \<and> shows_keys C shorts km D v \<and> heldKeys v = ?D'"
  have D: "i \<in> ?D' \<longleftrightarrow> i \<in> ?D" if "i \<noteq> unat key" for i using that by (auto simp: pressed_def)
  have mods: "ensures (if ?bits AND NX_MODMASK \<noteq> 0 then doModCalc key True v else Some v) (?R ?D')"
    if v: "?R ?D v" for v
  proof (cases "?bits AND NX_MODMASK = 0")
    case True
    then have "shows_keys C shorts km ?D' v"
      using shows_keys_other [OF km, of ?D v "unat key" ?D'] v D us(3) calm_parsed [of u v] by simp
    then show ?thesis using True v by simp
  next
    case False
    have vok: "keyboard_ok C v" using uok by (rule keyboard_ok_after) (use v in simp)
    have pm: "parsedMapping v = parsedMapping w" using v us(3) calm_parsed by metis
    have "ensures (doModCalc key True v) (\<lambda>x. shows_keys C shorts km ?D' x \<and> heldKeys x = ?D')"
      using modFlags_doModCalc [OF vok km key, of ?D] v D False pm by simp
    moreover have "ensures (doModCalc key True v) (calm v)" by (rule calm_doModCalc [OF vok key])
    ultimately show ?thesis using False v by (auto simp: ensures_def intro: calm_trans)
  qed
  have chars: "ensures (if ?bits AND NX_CHARGENMASK \<noteq> 0 then doCharGen C key down v else Some v) (?R E)"
    if v: "?R E v" for v E
  proof -
    have vok: "keyboard_ok C v" using uok by (rule keyboard_ok_after) (use v in simp)
    have "ensures (doCharGen C key down v) (quiet v)" by (rule quiet_doCharGen [OF vok key])
    from calm_shows_after [OF this v] show ?thesis using v by simp
  qed
  have last: "ensures (if ?bits AND (NX_MODMASK OR NX_CHARGENMASK) = 0 \<and> interfaceID C = NX_EVS_DEVICE_INTERFACE_ADB
      then keyboardEvent (if down then NX_KEYDOWN else NX_KEYUP) (hk_eventFlags v) (ucast key) (jisChar key) 0 0 0 v
      else Some v) (?R ?D')" if v: "?R ?D' v" for v
  proof -
    have vok: "keyboard_ok C v" using uok by (rule keyboard_ok_after) (use v in simp)
    have "ensures (keyboardEvent ty fl (ucast key) (jisChar key) 0 0 0 v) (quiet v)" for ty fl
      by (rule quiet_keyboardEvent [OF vok]) (simp add: repeatable_ucast key)
    from calm_shows_after [OF this v] show ?thesis using v by simp
  qed
  have start: "?R ?D u" using us by simp
  have body: "ensures (if down then Option.bind (if ?bits AND NX_MODMASK \<noteq> 0 then doModCalc key True u else Some u)
        (\<lambda>v. if ?bits AND NX_CHARGENMASK \<noteq> 0 then doCharGen C key down v else Some v)
      else Option.bind (if ?bits AND NX_CHARGENMASK \<noteq> 0 then doCharGen C key down u else Some u)
        (\<lambda>v. if ?bits AND NX_MODMASK \<noteq> 0 then doModCalc key True v else Some v)) (?R ?D')"
    using ensures_mono [OF mods [OF start] chars] ensures_mono [OF chars [OF start] mods]
    by (cases down) (simp_all only: ensures_bind if_True if_False)
  have "rawTranslateKeyCode C key down True w = Option.bind
      (if down then Option.bind (if ?bits AND NX_MODMASK \<noteq> 0 then doModCalc key True u else Some u)
        (\<lambda>v. if ?bits AND NX_CHARGENMASK \<noteq> 0 then doCharGen C key down v else Some v)
      else Option.bind (if ?bits AND NX_CHARGENMASK \<noteq> 0 then doCharGen C key down u else Some u)
        (\<lambda>v. if ?bits AND NX_MODMASK \<noteq> 0 then doModCalc key True v else Some v))
      (\<lambda>v. if ?bits AND (NX_MODMASK OR NX_CHARGENMASK) = 0 \<and> interfaceID C = NX_EVS_DEVICE_INTERFACE_ADB
        then keyboardEvent (if down then NX_KEYDOWN else NX_KEYUP) (hk_eventFlags v) (ucast key) (jisChar key) 0 0 0 v
        else Some v)"
    using upd unfolding rawTranslateKeyCode_def Let_def by (cases down) simp_all
  then show ?thesis
    unfolding ensures_bind
    by (simp only: ensures_bind)
      (rule ensures_mono [OF body], rule ensures_mono [OF last], assumption, simp add: flags_ok_def)
qed

end
