(* ===== verification/HID_Filters.thy ===== *)
theory HID_Filters
  imports HID_Modifiers
begin

text \<open>
  Sticky keys, slow keys, the eject key and swapped modifiers, on top of the translation of
  one key: they all return, and keep the mapper's own tables in order. What they keep of the
  keyboard is a parameter, the contract \<open>key_translation\<close>.
\<close>

section \<open>The mapper's tables\<close>

text \<open>
  An entry of the table of stuck modifiers belongs to a modifier key, and no modifier is
  there twice. The table of recent presses has room for five. Every modifier is swapped with
  a modifier or switched off. While a slow key is pending, its code is a key of the keyboard.
\<close>

definition stuck_ok :: "mapper \<Rightarrow> stuck_modifier \<Rightarrow> bool" where
  "stuck_ok m s \<longleftrightarrow>
     unat (sk_key s) < 128 \<and>
     modifierOfInterest (pm_keyBits (mp_parsed m) ! unat (sk_key s)) \<and>
     unat (sk_leftModBit s) = leftBit (pm_keyBits (mp_parsed m) ! unat (sk_key s))"

definition toggle_ok :: "toggle_info \<Rightarrow> bool" where
  "toggle_ok t \<longleftrightarrow> length (tg_deadlines t) = kNUM_SHIFTS_TO_ACTIVATE \<and>
     tg_repetitionsToToggle t = kNUM_SHIFTS_TO_ACTIVATE \<and> tg_currentCount t \<le> kNUM_SHIFTS_TO_ACTIVATE"

definition swapEntry :: "u32 \<Rightarrow> int" where
  "swapEntry e = sint (ucast e :: u16)"

definition swap_ok :: "u32 list \<Rightarrow> bool" where
  "swap_ok es \<longleftrightarrow> length es = NX_NUMMODIFIERS \<and>
     list_all (\<lambda>e. - 1 \<le> swapEntry e \<and> swapEntry e < int NX_NUMMODIFIERS) es"

definition table_ok :: "mapper \<Rightarrow> bool" where
  "table_ok m \<longleftrightarrow>
     length (mp_stuck m) = kMAX_MODIFIERS \<and> mp_numModifiersDown m \<le> kMAX_MODIFIERS \<and>
     (\<forall>i < mp_numModifiersDown m. stuck_ok m (mp_stuck m ! i)) \<and>
     distinct (map sk_leftModBit (take (mp_numModifiersDown m) (mp_stuck m)))"

definition slow_ok :: "mapper \<Rightarrow> bool" where
  "slow_ok m \<longleftrightarrow>
     mp_slowKeysState m AND (kState_In_Progess_Flag OR kState_Is_Repeat_Flag) \<noteq> 0 \<longrightarrow>
       mp_cachedKeyBits m \<and> unat (mp_slowKeysCurrent m) < 128"

definition mapper_ok :: "mapper \<Rightarrow> bool" where
  "mapper_ok m \<longleftrightarrow> table_ok m \<and> (0 < mp_numModifiersDown m \<longrightarrow> mp_cachedKeyBits m) \<and>
     toggle_ok (mp_shiftToggle m) \<and> toggle_ok (mp_optionToggle m) \<and> swap_ok (mp_modifierSwap m) \<and> slow_ok m"

definition features_ok :: "hik_class \<Rightarrow> hik \<Rightarrow> bool" where
  "features_ok C w \<longleftrightarrow> keyboard_ok C w \<and> repeat_ok w \<and> mapper_ok (hk_keyMap w)"

lemma mapper_ok_calm:
  assumes "calm w w'"
  shows "mapper_ok (hk_keyMap w') = mapper_ok (hk_keyMap w)"
proof -
  have fr: "frozen w' = frozen w" using assms by (simp add: calm_def)
  show ?thesis
    by (simp only: mapper_ok_def table_ok_def slow_ok_def stuck_ok_def frozen_mapper [OF fr])
qed

lemma features_ok_calm: "calm w w' \<Longrightarrow> features_ok C w \<Longrightarrow> features_ok C w'"
  using mapper_ok_calm [of w w'] keyboard_ok_after [of C w w']
  by (auto simp: features_ok_def calm_def)

lemma updMapper_fields [simp]:
  "hk_keyMap (updMapper f w) = f (hk_keyMap w)" "hk_keyState (updMapper f w) = hk_keyState w"
  "hk_eventFlags (updMapper f w) = hk_eventFlags w" "hk_hasKeyMap (updMapper f w) = hk_hasKeyMap w"
  "hk_deviceLock (updMapper f w) = hk_deviceLock w" "hk_reserved (updMapper f w) = hk_reserved w"
  "hk_codeToRepeat (updMapper f w) = hk_codeToRepeat w" "hk_isRepeat (updMapper f w) = hk_isRepeat w"
  by (simp_all add: updMapper_def)

lemma features_ok_updMapper:
  assumes "features_ok C w" and "mp_parsed (f (hk_keyMap w)) = mp_parsed (hk_keyMap w)"
    and "mapper_ok (f (hk_keyMap w))"
  shows "features_ok C (updMapper f w)"
  using assms by (simp add: features_ok_def keyboard_ok_def dispatching_def repeat_ok_def)

subsection \<open>Updates of the tables\<close>

lemma shift_left:
  assumes "n < length xs"
  shows "length (fold (\<lambda>i xs. xs[i := xs ! (i + 1)]) [h..<n] xs) = length xs"
    and "fold (\<lambda>i xs. xs[i := xs ! (i + 1)]) [h..<n] xs ! i = (if h \<le> i \<and> i < n then xs ! (i + 1) else xs ! i)"
proof -
  have "length (fold (\<lambda>i xs. xs[i := xs ! (i + 1)]) [h..<n] xs) = length xs \<and>
    (\<forall>i. fold (\<lambda>i xs. xs[i := xs ! (i + 1)]) [h..<n] xs ! i = (if h \<le> i \<and> i < n then xs ! (i + 1) else xs ! i))"
    using assms
  proof (induction n)
    case (Suc n)
    then show ?case
      by (cases "h \<le> n") (auto simp: upt_Suc_append nth_list_update)
  qed simp
  then show "length (fold (\<lambda>i xs. xs[i := xs ! (i + 1)]) [h..<n] xs) = length xs"
    "fold (\<lambda>i xs. xs[i := xs ! (i + 1)]) [h..<n] xs ! i = (if h \<le> i \<and> i < n then xs ! (i + 1) else xs ! i)"
    by blast+
qed

lemma distinct_nth_take:
  "n \<le> length xs \<Longrightarrow> distinct (map f (take n xs)) \<longleftrightarrow> (\<forall>i < n. \<forall>j < n. f (xs ! i) = f (xs ! j) \<longrightarrow> i = j)"
  by (auto simp: distinct_conv_nth)

lemma heldModifier_Some:
  assumes "heldModifier b m = Some i"
  shows "i < mp_numModifiersDown m" and "unat (sk_leftModBit (mp_stuck m ! i)) = b"
proof -
  from assms have "i < mp_numModifiersDown m \<and> unat (sk_leftModBit (mp_stuck m ! i)) = b"
    unfolding heldModifier_def find_Some_iff by auto
  then show "i < mp_numModifiersDown m" "unat (sk_leftModBit (mp_stuck m ! i)) = b" by auto
qed

lemma heldModifier_None:
  "heldModifier b m = None \<longleftrightarrow> (\<forall>i < mp_numModifiersDown m. unat (sk_leftModBit (mp_stuck m ! i)) \<noteq> b)"
  by (auto simp: heldModifier_def find_None_iff)

text \<open>An entry is found under its own modifier.\<close>

lemma heldModifier_own:
  assumes "table_ok m" and "i < mp_numModifiersDown m"
  shows "heldModifier (unat (sk_leftModBit (mp_stuck m ! i))) m = Some i"
proof -
  let ?b = "unat (sk_leftModBit (mp_stuck m ! i))"
  have "heldModifier ?b m \<noteq> None" using assms(2) by (auto simp: heldModifier_None)
  then obtain j where j: "heldModifier ?b m = Some j" by blast
  have "sk_leftModBit (mp_stuck m ! j) = sk_leftModBit (mp_stuck m ! i)"
    using heldModifier_Some(2) [OF j] unfolding word_unat_eq_iff .
  then have "i = j"
    using assms heldModifier_Some(1) [OF j] distinct_nth_take [of "mp_numModifiersDown m" "mp_stuck m" sk_leftModBit]
    by (auto simp: table_ok_def)
  then show ?thesis using j by simp
qed

lemma mapper_ok_other [simp]:
  "mapper_ok (m\<lparr>mp_stickyState := a\<rparr>) = mapper_ok m" "mapper_ok (m\<lparr>mp_stateDirty := b\<rparr>) = mapper_ok m"
  "mapper_ok (m\<lparr>mp_f12EjectState := c\<rparr>) = mapper_ok m" "mapper_ok (m\<lparr>mp_ejectTimer := b\<rparr>) = mapper_ok m"
  "mapper_ok (m\<lparr>mp_mouseClickSource := b\<rparr>) = mapper_ok m" "mapper_ok (m\<lparr>mp_setFnStateSource := b\<rparr>) = mapper_ok m"
  "mapper_ok (m\<lparr>mp_slowKeysTimer := b\<rparr>) = mapper_ok m" "mapper_ok (m\<lparr>mp_slowKeysAborted := k\<rparr>) = mapper_ok m"
  "mapper_ok (m\<lparr>mp_ejectDelay := a\<rparr>) = mapper_ok m" "mapper_ok (m\<lparr>mp_slowKeysDelay := a\<rparr>) = mapper_ok m"
  "mapper_ok (m\<lparr>mp_hidSystem := b\<rparr>) = mapper_ok m" "mapper_ok (m\<lparr>mp_specialKeyModifierFlags := a\<rparr>) = mapper_ok m"
  by (simp_all add: mapper_ok_def table_ok_def stuck_ok_def slow_ok_def)

lemma mapper_ok_toggles:
  "mapper_ok m \<Longrightarrow> toggle_ok t \<Longrightarrow> mapper_ok (m\<lparr>mp_shiftToggle := t\<rparr>)"
  "mapper_ok m \<Longrightarrow> toggle_ok t \<Longrightarrow> mapper_ok (m\<lparr>mp_optionToggle := t\<rparr>)"
  by (simp_all add: mapper_ok_def table_ok_def stuck_ok_def slow_ok_def)

lemma mapper_ok_cached: "mapper_ok m \<Longrightarrow> mapper_ok (m\<lparr>mp_cachedKeyBits := mp_cachedKeyBits m \<or> b\<rparr>)"
  by (auto simp: mapper_ok_def table_ok_def stuck_ok_def slow_ok_def)

lemma mapper_ok_none: "mapper_ok m \<Longrightarrow> mapper_ok (m\<lparr>mp_numModifiersDown := 0\<rparr>)"
  by (simp add: mapper_ok_def table_ok_def slow_ok_def)

text \<open>A new state for an entry.\<close>

lemma mapper_ok_state:
  assumes "mapper_ok m" and "\<And>s. sk_key (f s) = sk_key s \<and> sk_leftModBit (f s) = sk_leftModBit s"
  shows "mapper_ok (m\<lparr>mp_stuck := (mp_stuck m)[i := f (mp_stuck m ! i)]\<rparr>)"
proof -
  let ?xs = "(mp_stuck m)[i := f (mp_stuck m ! i)]"
  have key: "sk_key (?xs ! j) = sk_key (mp_stuck m ! j)" "sk_leftModBit (?xs ! j) = sk_leftModBit (mp_stuck m ! j)" for j
    using assms(2) by (cases "i < length (mp_stuck m)"; simp add: nth_list_update list_update_beyond)+
  have "map sk_leftModBit (take n ?xs) = map sk_leftModBit (take n (mp_stuck m))" for n
    by (rule nth_equalityI) (simp_all add: key)
  then show ?thesis
    using assms(1) by (simp add: mapper_ok_def table_ok_def stuck_ok_def slow_ok_def key)
qed

text \<open>A new entry for a modifier that was in none.\<close>

lemma mapper_ok_enter:
  assumes "mapper_ok m" and "mp_numModifiersDown m < kMAX_MODIFIERS" and "mp_cachedKeyBits m"
    and "stuck_ok m s" and "heldModifier (unat (sk_leftModBit s)) m = None"
  shows "mapper_ok (m\<lparr>mp_numModifiersDown := mp_numModifiersDown m + 1,
    mp_stuck := (mp_stuck m)[mp_numModifiersDown m := s]\<rparr>)"
proof -
  let ?n = "mp_numModifiersDown m" and ?xs = "mp_stuck m"
  have len: "?n < length ?xs" "length ?xs = kMAX_MODIFIERS"
    using assms(1,2) by (simp_all add: mapper_ok_def table_ok_def)
  have new: "sk_leftModBit (?xs ! i) \<noteq> sk_leftModBit s \<and> sk_leftModBit s \<noteq> sk_leftModBit (?xs ! i)"
    if "i < ?n" for i
    using assms(5) that by (metis heldModifier_None)
  have old: "\<forall>i < ?n. \<forall>j < ?n. sk_leftModBit (?xs ! i) = sk_leftModBit (?xs ! j) \<longrightarrow> i = j"
    using assms(1) len(1) distinct_nth_take [of ?n ?xs sk_leftModBit] by (simp add: mapper_ok_def table_ok_def)
  have "distinct (map sk_leftModBit (take (Suc ?n) (?xs[?n := s])))"
    using len(1) new old by (subst distinct_nth_take) (auto simp: nth_list_update less_Suc_eq)
  then show ?thesis
    using assms(1-4) len
    by (auto simp: mapper_ok_def table_ok_def stuck_ok_def slow_ok_def nth_list_update less_Suc_eq)
qed

text \<open>The removal of an entry.\<close>

definition removeEntry :: "nat \<Rightarrow> mapper \<Rightarrow> mapper" where
  "removeEntry h m =
     m\<lparr>mp_stuck := fold (\<lambda>i xs. xs[i := xs ! (i + 1)]) [h..<mp_numModifiersDown m - 1] ((mp_stuck m)[h := clearStuck]),
       mp_numModifiersDown := mp_numModifiersDown m - 1\<rparr>"

lemma removeEntry_fields [simp]:
  "mp_parsed (removeEntry h m) = mp_parsed m" "mp_numModifiersDown (removeEntry h m) = mp_numModifiersDown m - 1"
  "mp_specialKeyModifierFlags (removeEntry h m) = mp_specialKeyModifierFlags m"
  "mp_cachedKeyBits (removeEntry h m) = mp_cachedKeyBits m"
  by (simp_all add: removeEntry_def)

lemma mapper_ok_remove:
  assumes "mapper_ok m" and "h < mp_numModifiersDown m"
  shows "mapper_ok (removeEntry h m)"
proof -
  let ?n = "mp_numModifiersDown m" and ?xs = "mp_stuck m"
  define ys where "ys = fold (\<lambda>i xs. xs[i := xs ! (i + 1)]) [h..<?n - 1] (?xs[h := clearStuck])"
  have len: "?n \<le> length ?xs" "length ?xs = kMAX_MODIFIERS" "?n - 1 < length (?xs[h := clearStuck])"
    using assms by (auto simp: mapper_ok_def table_ok_def)
  have ys: "length ys = length ?xs"
    "i < ?n - 1 \<Longrightarrow> ys ! i = ?xs ! (if i < h then i else i + 1)" for i
    using shift_left [OF len(3), of h] unfolding ys_def by (auto simp: nth_list_update)
  have "i = j" if "i < ?n - 1" "j < ?n - 1" "sk_leftModBit (ys ! i) = sk_leftModBit (ys ! j)" for i j
  proof -
    have inj: "a < ?n \<Longrightarrow> b < ?n \<Longrightarrow> sk_leftModBit (?xs ! a) = sk_leftModBit (?xs ! b) \<Longrightarrow> a = b" for a b
      using assms(1) len(1) distinct_nth_take [of ?n ?xs sk_leftModBit]
      by (auto simp: mapper_ok_def table_ok_def)
    have "(if i < h then i else i + 1) = (if j < h then j else j + 1)"
      by (rule inj) (use that in \<open>auto simp: ys(2)\<close>)
    then show ?thesis by (auto split: if_splits)
  qed
  then have "distinct (map sk_leftModBit (take (?n - 1) ys))"
    using len(1) ys(1) by (subst distinct_nth_take) auto
  moreover have "stuck_ok m (ys ! i)" if "i < ?n - 1" for i
    using assms(1) that by (simp add: ys(2) mapper_ok_def table_ok_def)
  ultimately show ?thesis
    using assms(1) len ys(1)
    unfolding removeEntry_def ys_def [symmetric]
    by (simp add: mapper_ok_def table_ok_def slow_ok_def stuck_ok_def)
qed

section \<open>The contract of the translation\<close>

text \<open>
  \<open>J\<close> is kept by the translation of one key, and depends only on the key map, the keys held,
  the flags, the lock, and on whether the mapper knows the bit vector.
\<close>

locale key_translation =
  fixes C :: hik_class and J :: "hik \<Rightarrow> bool"
  assumes J_raw: "keyboard_ok C w \<Longrightarrow> J w \<Longrightarrow> unat key < 128 \<Longrightarrow>
      ensures (rawTranslateKeyCode C key down True w) J"
    and J_cong: "parsedMapping w' = parsedMapping w \<Longrightarrow> untouched w w' \<Longrightarrow>
      mp_cachedKeyBits (hk_keyMap w') = mp_cachedKeyBits (hk_keyMap w) \<Longrightarrow>
      hk_reserved w' = hk_reserved w \<Longrightarrow> hk_deviceLock w' = hk_deviceLock w \<Longrightarrow> J w \<Longrightarrow> J w'"

definition keeps_ok :: "hik_class \<Rightarrow> (hik \<Rightarrow> bool) \<Rightarrow> hik \<Rightarrow> bool" where
  "keeps_ok C J w \<longleftrightarrow> features_ok C w \<and> J w"

definition calmly :: "hik_class \<Rightarrow> (hik \<Rightarrow> bool) \<Rightarrow> hik \<Rightarrow> hik \<Rightarrow> bool" where
  "calmly C J w w' \<longleftrightarrow> calm w w' \<and> keeps_ok C J w'"

abbreviation modifiersDown :: "hik \<Rightarrow> nat" where
  "modifiersDown w \<equiv> mp_numModifiersDown (hk_keyMap w)"

lemma calm_mapper:
  assumes "calm w w'"
  shows "parsedMapping w' = parsedMapping w" "mp_stuck (hk_keyMap w') = mp_stuck (hk_keyMap w)"
    "modifiersDown w' = modifiersDown w" "mp_cachedKeyBits (hk_keyMap w') = mp_cachedKeyBits (hk_keyMap w)"
    "mp_slowKeysState (hk_keyMap w') = mp_slowKeysState (hk_keyMap w)"
    "mp_slowKeysCurrent (hk_keyMap w') = mp_slowKeysCurrent (hk_keyMap w)"
  using assms frozen_mapper [of w' w] by (auto simp: calm_def)

lemma release_eq:
  "releaseStickyModifier C h thisBits kb w =
     do { w \<leftarrow> rawTranslateKeyCode C (sk_key (mp_stuck (hk_keyMap w) ! h)) False kb w;
          let w = updMapper (\<lambda>m. (removeEntry h m)\<lparr>mp_stickyState :=
                    (if mp_numModifiersDown m - 1 = 0 then mp_stickyState m AND NOT kState_On_ModifiersDown
                     else mp_stickyState m)\<rparr>) w;
          let w = (if whichMod thisBits = NX_MODIFIERKEY_SECONDARYFN
                   then triggerSetFnState
                          (updSticky (\<lambda>s. s AND NOT (kState_StickyFnKeyStateOn OR
                                                      kState_StickyFnKeyStateChangePending)) w)
                   else w);
          postSticky NX_SUBTYPE_STICKYKEYS_SHIFT_UP (whichMod thisBits) w }"
proof -
  have eq: "updMapper (\<lambda>m. m\<lparr>mp_stuck := fold (\<lambda>i xs. xs[i := xs ! (i + 1)]) [h..<mp_numModifiersDown m] (mp_stuck m)\<rparr>)
      (let u = updMapper (\<lambda>m. m\<lparr>mp_numModifiersDown := mp_numModifiersDown m - 1\<rparr>) (updStuck h (\<lambda>_. clearStuck) v)
       in if modifiersDown u = 0 then updSticky (\<lambda>s. s AND NOT kState_On_ModifiersDown) u else u) =
    updMapper (\<lambda>m. (removeEntry h m)\<lparr>mp_stickyState :=
                    (if mp_numModifiersDown m - 1 = 0 then mp_stickyState m AND NOT kState_On_ModifiersDown
                     else mp_stickyState m)\<rparr>) v" for v
    by (cases v; cases "hk_keyMap v") (simp add: updMapper_def updStuck_def updSticky_def removeEntry_def Let_def)
  show ?thesis unfolding releaseStickyModifier_def eq [symmetric] by (simp only: Let_def)
qed

context key_translation
begin

lemma ok_calm: "calm w w' \<Longrightarrow> J w' \<Longrightarrow> keeps_ok C J w \<Longrightarrow> keeps_ok C J w'"
  using features_ok_calm by (simp add: keeps_ok_def)

lemma ok_quiet: "quiet w w' \<Longrightarrow> keeps_ok C J w \<Longrightarrow> calmly C J w w'"
  using J_cong [of w' w] calm_mapper(1,4) [of w w'] features_ok_calm [of w w' C] frozen_fields(1,2) [of w' w]
  by (auto simp: keeps_ok_def calmly_def quiet_def calm_def)

lemma ok_keyboard: "keeps_ok C J w \<Longrightarrow> keyboard_ok C w"
  by (simp add: keeps_ok_def features_ok_def)

lemma ok_mapper: "keeps_ok C J w \<Longrightarrow> mapper_ok (hk_keyMap w)"
  by (simp add: keeps_ok_def features_ok_def)

lemma ok_upd:
  assumes "keeps_ok C J w" and "mp_parsed (f (hk_keyMap w)) = mp_parsed (hk_keyMap w)"
    and "mp_specialKeyModifierFlags (f (hk_keyMap w)) = mp_specialKeyModifierFlags (hk_keyMap w)"
    and "mp_cachedKeyBits (f (hk_keyMap w)) = mp_cachedKeyBits (hk_keyMap w)"
    and "mapper_ok (f (hk_keyMap w))"
  shows "keeps_ok C J (updMapper f w)"
proof -
  have "J (updMapper f w)"
    by (rule J_cong [of _ w]) (use assms in \<open>simp_all add: untouched_def keeps_ok_def\<close>)
  then show ?thesis using assms features_ok_updMapper by (simp add: keeps_ok_def)
qed

lemma ok_post: "keeps_ok C J w \<Longrightarrow> keeps_ok C J (post e w)"
  using ok_quiet [OF quiet_post] by (simp add: calmly_def)

lemma ok_updSticky: "keeps_ok C J w \<Longrightarrow> keeps_ok C J (updSticky f w)"
  unfolding updSticky_def by (rule ok_upd) (simp_all add: ok_mapper)

lemma ok_trigger: "keeps_ok C J w \<Longrightarrow> keeps_ok C J (triggerSetFnState w)"
  by (simp add: triggerSetFnState_def ok_post)

lemma num_sticky [simp]:
  "modifiersDown (updSticky f w) = modifiersDown w" "modifiersDown (triggerSetFnState w) = modifiersDown w"
  by (simp_all add: updSticky_def triggerSetFnState_def post_def)

lemma ok_raw:
  assumes "keeps_ok C J w" and "unat key < 128"
  shows "ensures (rawTranslateKeyCode C key down True w) (calmly C J w)"
proof -
  have "ensures (rawTranslateKeyCode C key down True w) (calm w)"
    by (rule calm_rawTranslateKeyCode [OF ok_keyboard [OF assms(1)] assms(2)])
  moreover have "ensures (rawTranslateKeyCode C key down True w) J"
    by (rule J_raw [OF ok_keyboard [OF assms(1)] _ assms(2)]) (use assms(1) in \<open>simp add: keeps_ok_def\<close>)
  ultimately show ?thesis using ok_calm assms(1) by (auto simp: ensures_def calmly_def)
qed

lemma ok_special:
  assumes "keeps_ok C J w"
  shows "ensures (postKeyboardSpecialEvent subtype eventType w) (calmly C J w)"
  unfolding postKeyboardSpecialEvent_def
  by (rule ensures_mono [OF quiet_keyboardSpecialEvent [OF ok_keyboard [OF assms]]])
    (use assms ok_quiet repeatable_none in auto)

lemma ok_postSticky: "keeps_ok C J w \<Longrightarrow> ensures (postSticky subtype b w) (calmly C J w)"
  using ok_special by (auto simp: postSticky_def calmly_def split: option.split)

lemma ok_release:
  assumes "keeps_ok C J w" and "h < modifiersDown w"
  shows "ensures (releaseStickyModifier C h thisBits True w)
    (\<lambda>w'. keeps_ok C J w' \<and> modifiersDown w' = modifiersDown w - 1)"
proof -
  have key: "unat (sk_key (mp_stuck (hk_keyMap w) ! h)) < 128"
    using ok_mapper [OF assms(1)] assms(2) by (auto simp: mapper_ok_def table_ok_def stuck_ok_def)
  let ?f = "\<lambda>m. (removeEntry h m)\<lparr>mp_stickyState :=
    (if mp_numModifiersDown m - 1 = 0 then mp_stickyState m AND NOT kState_On_ModifiersDown
     else mp_stickyState m)\<rparr>"
  have rest: "ensures (let w = updMapper ?f v;
         w = (if whichMod thisBits = NX_MODIFIERKEY_SECONDARYFN
              then triggerSetFnState (updSticky (\<lambda>s. s AND NOT (kState_StickyFnKeyStateOn OR
                kState_StickyFnKeyStateChangePending)) w) else w)
       in postSticky NX_SUBTYPE_STICKYKEYS_SHIFT_UP (whichMod thisBits) w)
     (\<lambda>w'. keeps_ok C J w' \<and> modifiersDown w' = modifiersDown w - 1)" if v: "calmly C J w v" for v
  proof -
    have num: "modifiersDown v = modifiersDown w" and okv: "keeps_ok C J v"
      using v calm_mapper by (auto simp: calmly_def)
    have "keeps_ok C J (updMapper ?f v)"
      by (rule ok_upd [OF okv]) (use mapper_ok_remove [OF ok_mapper [OF okv]] assms(2) num in simp_all)
    then show ?thesis
      unfolding Let_def
      by (intro ensures_mono [OF ok_postSticky])
        (auto simp: calmly_def num calm_mapper ok_updSticky ok_trigger)
  qed
  show ?thesis
    unfolding release_eq ensures_bind by (rule ensures_mono [OF ok_raw [OF assms(1) key] rest])
qed

lemma ok_state:
  assumes "keeps_ok C J w" and "\<And>s. sk_key (f s) = sk_key s \<and> sk_leftModBit (f s) = sk_leftModBit s"
  shows "keeps_ok C J (updStuck i f w)" and "modifiersDown (updStuck i f w) = modifiersDown w"
proof -
  show "keeps_ok C J (updStuck i f w)"
    unfolding updStuck_def
    by (rule ok_upd [OF assms(1)]) (simp_all add: mapper_ok_state [OF ok_mapper [OF assms(1)] assms(2)])
  show "modifiersDown (updStuck i f w) = modifiersDown w" by (simp add: updStuck_def)
qed

text \<open>A modifier key that is released: it may leave the table.\<close>

lemma ok_modifier_up:
  assumes "keeps_ok C J w" and kb: "0 < modifiersDown w \<longrightarrow> kb"
  shows "ensures (stickyKeysModifierKey C key False kb w)
    (\<lambda>(b, w'). keeps_ok C J w' \<and>
      (\<forall>i. heldModifier (leftBit (keyBitsOfKey key w)) (hk_keyMap w) = Some i \<and>
         hasFlag (sk_state (mp_stuck (hk_keyMap w) ! i)) kModifier_DidPerformModifiy \<and>
         \<not> hasFlag (sk_state (mp_stuck (hk_keyMap w) ! i)) kModifier_Locked \<longrightarrow>
         modifiersDown w' = modifiersDown w - 1))"
proof (cases "heldModifier (leftBit (keyBitsOfKey key w)) (hk_keyMap w)")
  case None
  then show ?thesis using assms(1) by (simp add: stickyKeysModifierKey_def)
next
  case (Some i)
  have i: "i < modifiersDown w" by (rule heldModifier_Some(1) [OF Some])
  then have kb: "kb" using kb by linarith
  let ?state = "sk_state (mp_stuck (hk_keyMap w) ! i)"
  show ?thesis
  proof (cases "hasFlag ?state kModifier_DidPerformModifiy \<and> \<not> hasFlag ?state kModifier_Locked")
    case True
    have "ensures (releaseStickyModifier C i (keyBitsOfKey key w) kb w)
        (\<lambda>w'. keeps_ok C J w' \<and> modifiersDown w' = modifiersDown w - 1)"
      using ok_release [OF assms(1) i] kb by simp
    then show ?thesis
      using True Some unfolding stickyKeysModifierKey_def Let_def
      by (auto simp: ensures_bind elim!: ensures_mono)
  next
    case False
    let ?u = "updStuck i (\<lambda>s. s\<lparr>sk_state := sk_state s OR kModifier_DidKeyUp\<rparr>) w"
    have u: "keeps_ok C J ?u" by (rule ok_state(1) [OF assms(1)]) simp
    then show ?thesis
      using False Some unfolding stickyKeysModifierKey_def Let_def
      by (auto intro: ok_trigger ok_updSticky)
  qed
qed

text \<open>A modifier key that is pressed: it is entered, locked or released.\<close>

lemma ok_modifier_down:
  assumes "keeps_ok C J w" and "unat key < 128" and "mp_cachedKeyBits (hk_keyMap w)"
    and "modifierOfInterest (keyBitsOfKey key w)"
  shows "ensures (stickyKeysModifierKey C key True True w) (\<lambda>(b, w'). keeps_ok C J w')"
proof (cases "heldModifier (leftBit (keyBitsOfKey key w)) (hk_keyMap w)")
  case (Some i)
  have i: "i < modifiersDown w" by (rule heldModifier_Some(1) [OF Some])
  let ?u = "updStuck i (\<lambda>s. s\<lparr>sk_state := sk_state s OR kModifier_Locked\<rparr>) w"
  have u: "keeps_ok C J ?u" by (rule ok_state(1) [OF assms(1)]) simp
  show ?thesis
    using Some ensures_mono [OF ok_postSticky [OF u]] ensures_mono [OF ok_release [OF assms(1) i]]
    unfolding stickyKeysModifierKey_def Let_def
    by (auto simp: ensures_bind calmly_def)
next
  case None
  let ?b = "keyBitsOfKey key w"
  let ?s = "\<lparr>sk_key = key, sk_state = 0, sk_leftModBit = of_nat (leftBit ?b)\<rparr> :: stuck_modifier"
  let ?e = "\<lambda>w. if modifiersDown w < kMAX_MODIFIERS
    then updStuck (modifiersDown w) (\<lambda>_. ?s) (updMapper (\<lambda>m. m\<lparr>mp_numModifiersDown := modifiersDown w + 1\<rparr>) w)
    else w"
  have left: "unat (of_nat (leftBit ?b) :: u8) = leftBit ?b"
    using whichMod_less [of ?b] by (simp add: leftBit_def unat_of_nat hid_consts)
  have enter: "keeps_ok C J (?e v)" if v: "calmly C J w v" for v
  proof (cases "modifiersDown v < kMAX_MODIFIERS")
    case True
    have okv: "keeps_ok C J v" and cv: "calm w v" using v by (simp_all add: calmly_def)
    have "mapper_ok ((hk_keyMap v)\<lparr>mp_numModifiersDown := modifiersDown v + 1,
        mp_stuck := (mp_stuck (hk_keyMap v))[modifiersDown v := ?s]\<rparr>)"
    proof (rule mapper_ok_enter [OF ok_mapper [OF okv] True])
      show "mp_cachedKeyBits (hk_keyMap v)" using assms(3) calm_mapper [OF cv] by simp
      show "stuck_ok (hk_keyMap v) ?s"
        using assms(2,4) left calm_mapper(1) [OF cv] by (simp add: stuck_ok_def keyBitsOfKey_def)
      show "heldModifier (unat (sk_leftModBit ?s)) (hk_keyMap v) = None"
        using None left calm_mapper [OF cv] by (simp add: heldModifier_def)
    qed
    then have "keeps_ok C J (updMapper (\<lambda>m. m\<lparr>mp_numModifiersDown := modifiersDown v + 1,
        mp_stuck := (mp_stuck m)[modifiersDown v := ?s]\<rparr>) v)"
      by (intro ok_upd [OF okv]) simp_all
    then show ?thesis using True by (simp add: updStuck_def updMapper_def)
  qed (use v in \<open>simp add: calmly_def\<close>)
  have rest: "ensures (let w = ?e v; w = updSticky (\<lambda>s. s OR kState_On_ModifiersDown) w;
         w = (if whichMod ?b = NX_MODIFIERKEY_SECONDARYFN
              then updSticky (\<lambda>s. s OR (kState_StickyFnKeyStateOn OR kState_StickyFnKeyStateChangePending)) w
              else w)
       in Option.bind (postSticky NX_SUBTYPE_STICKYKEYS_SHIFT_DOWN (whichMod ?b) w) (\<lambda>w. Some (True, w)))
     (\<lambda>(b, w'). keeps_ok C J w')" if v: "calmly C J w v" for v
  proof -
    have "keeps_ok C J (updSticky f (?e v))" for f by (rule ok_updSticky [OF enter [OF v]])
    then have ok: "keeps_ok C J (if c then updSticky g (updSticky f (?e v)) else updSticky f (?e v))" for c f g
      using ok_updSticky by (cases c) (simp_all only: if_True if_False)
    show ?thesis
      unfolding Let_def ensures_bind
      by (rule ensures_mono [OF ok_postSticky [OF ok]]) (simp add: calmly_def)
  qed
  show ?thesis
    using None ensures_mono [OF ok_raw [OF assms(1,2)] rest]
    unfolding stickyKeysModifierKey_def by (simp add: ensures_bind Let_def)
qed

text \<open>
  The loop that releases modifiers ends: either there is one modifier less, or the index
  moves on.
\<close>

lemma ok_releaseLoop:
  assumes "keeps_ok C J w" and "0 < modifiersDown w \<longrightarrow> kb"
  shows "ensures (releaseLoop C kb i w) (keeps_ok C J)"
  using assms
proof (induction "modifiersDown w - i" arbitrary: i w rule: less_induct)
  case less
  show ?case
  proof (cases "i < modifiersDown w")
    case False
    then show ?thesis using less.prems by (simp add: releaseLoop.simps)
  next
    case True
    let ?u = "updStuck i (\<lambda>s. s\<lparr>sk_state := sk_state s OR kModifier_DidPerformModifiy\<rparr>) w"
    let ?s = "mp_stuck (hk_keyMap ?u) ! i"
    have u: "keeps_ok C J ?u" "modifiersDown ?u = modifiersDown w"
      using ok_state [OF less.prems(1)] by simp_all
    show ?thesis
    proof (cases "hasFlag (sk_state ?s) kModifier_DidKeyUp \<and> \<not> hasFlag (sk_state ?s) kModifier_Locked")
      case False
      have "ensures (releaseLoop C kb (i + 1) ?u) (keeps_ok C J)"
        by (rule less.hyps) (use True u less.prems in simp_all)
      then show ?thesis using True False by (subst releaseLoop.simps) (auto simp: Let_def)
    next
      case release: True
      have table: "table_ok (hk_keyMap ?u)" using ok_mapper [OF u(1)] by (simp add: mapper_ok_def)
      then have "stuck_ok (hk_keyMap ?u) ?s" using True u(2) by (simp add: table_ok_def)
      then have "leftBit (keyBitsOfKey (sk_key ?s) ?u) = unat (sk_leftModBit ?s)"
        by (simp add: stuck_ok_def keyBitsOfKey_def)
      then have own: "heldModifier (leftBit (keyBitsOfKey (sk_key ?s) ?u)) (hk_keyMap ?u) = Some i"
        using heldModifier_own [OF table, of i] True u(2) by simp
      have "i < length (mp_stuck (hk_keyMap w))"
        using True ok_mapper [OF less.prems(1)] by (simp add: mapper_ok_def table_ok_def)
      then have done': "hasFlag (sk_state ?s) kModifier_DidPerformModifiy"
        by (simp add: updStuck_def hasFlag_def or_mask_hit kModifier_DidPerformModifiy_def)
      have "ensures (stickyKeysModifierKey C (sk_key ?s) False kb ?u)
          (\<lambda>(b, w'). keeps_ok C J w' \<and> modifiersDown w' = modifiersDown w - 1)"
        by (rule ensures_mono [OF ok_modifier_up [OF u(1)]]) (use less.prems own done' release u(2) in auto)
      note released = this
      have step: "ensures (releaseLoop C kb i b) (keeps_ok C J)"
        if "keeps_ok C J b" "modifiersDown b = modifiersDown w - 1" for b
        by (rule less.hyps) (use that True less.prems in simp_all)
      from released have "ensures (stickyKeysModifierKey C (sk_key ?s) False kb ?u)
          (\<lambda>(b, w'). ensures (releaseLoop C kb i w') (keeps_ok C J))"
        by (rule ensures_mono) (use step in auto)
      then show ?thesis using True release
        by (subst releaseLoop.simps) (simp add: Let_def ensures_bind case_prod_unfold)
    qed
  qed
qed

lemma ok_nonModifierKey:
  assumes "keeps_ok C J w" and "\<not> mouseClick \<longrightarrow> kb \<and> unat key < 128" and "0 < modifiersDown w \<longrightarrow> kb"
  shows "ensures (stickyKeysNonModifierKey C key keyDown kb mouseClick w) (keeps_ok C J)"
proof -
  have raw: "ensures (if \<not> mouseClick then rawTranslateKeyCode C key keyDown kb w else Some w) (calmly C J w)"
    using ok_raw [OF assms(1)] assms(1,2) by (auto simp: calmly_def)
  have rest: "ensures (Option.bind (releaseLoop C kb 0 v) (\<lambda>w. Some (if modifiersDown w = 0
      then updSticky (\<lambda>s. s AND NOT kState_On_ModifiersDown) w else w))) (keeps_ok C J)"
    if "calmly C J w v" for v
    unfolding ensures_bind
    by (rule ensures_mono [OF ok_releaseLoop]) (use that assms(3) calm_mapper in \<open>auto simp: calmly_def intro: ok_updSticky\<close>)
  show ?thesis
    unfolding stickyKeysNonModifierKey_def ensures_bind
    by (rule ensures_mono [OF raw]) (rule rest [unfolded ensures_bind])
qed

lemma ok_releaseAll:
  assumes "keeps_ok C J w" and "list_all (\<lambda>i. i < modifiersDown w) is" and "0 < modifiersDown w \<longrightarrow> mp_cachedKeyBits (hk_keyMap w)"
  shows "ensures (releaseAll C is w) (calmly C J w)"
  using assms
proof (induction "is" arbitrary: w)
  case Nil
  then show ?case by (simp add: calmly_def)
next
  case (Cons i "is")
  have "unat (sk_key (mp_stuck (hk_keyMap w) ! i)) < 128"
    using ok_mapper [OF Cons.prems(1)] Cons.prems(2) by (auto simp: mapper_ok_def table_ok_def stuck_ok_def)
  moreover have "mp_cachedKeyBits (hk_keyMap w)" using Cons.prems(2,3) by auto
  ultimately have raw: "ensures (rawTranslateKeyCode C (sk_key (mp_stuck (hk_keyMap w) ! i)) False
      (mp_cachedKeyBits (hk_keyMap w)) w) (calmly C J w)"
    using ok_raw [OF Cons.prems(1)] by simp
  have rest: "ensures (releaseAll C is v) (calmly C J w)" if v: "calmly C J w v" for v
    by (rule ensures_mono [OF Cons.IH])
      (use v Cons.prems calm_mapper [of w v] in \<open>auto simp: calmly_def intro: calm_trans\<close>)
  show ?case using ensures_mono [OF raw rest] by (simp add: ensures_bind)
qed

lemma ok_cleanup:
  assumes "keeps_ok C J w"
  shows "ensures (stickyKeysCleanup C w) (keeps_ok C J)"
proof -
  let ?u = "updSticky (\<lambda>s. s AND NOT kState_On) w"
  have u: "keeps_ok C J ?u" by (rule ok_updSticky [OF assms])
  have "ensures (releaseAll C [0..<modifiersDown ?u] ?u) (calmly C J ?u)"
    by (rule ok_releaseAll [OF u]) (use ok_mapper [OF u] in \<open>simp_all add: list_all_iff mapper_ok_def\<close>)
  moreover have "keeps_ok C J (updMapper (\<lambda>m. m\<lparr>mp_numModifiersDown := 0\<rparr>) v)" if "keeps_ok C J v" for v
    by (rule ok_upd [OF that]) (simp_all add: mapper_ok_none [OF ok_mapper [OF that]])
  ultimately show ?thesis
    unfolding stickyKeysCleanup_def Let_def ensures_bind
    by (elim ensures_mono) (auto simp: calmly_def intro!: ok_trigger ok_updSticky)
qed

subsection \<open>The toggles\<close>

lemma ok_prune: "toggle_ok t \<Longrightarrow> toggle_ok (pruneDeadlines now t)"
proof -
  have len: "length (fold (\<lambda>k ds. ds[k := g k ds]) ks ds) = length ds" for g ks and ds :: "u64 list"
    by (induction ks arbitrary: ds) simp_all
  then show "toggle_ok t \<Longrightarrow> toggle_ok (pruneDeadlines now t)"
    unfolding pruneDeadlines_def toggle_ok_def by (auto split: option.split)
qed

lemma ok_toggleCheck:
  assumes "toggle_ok t"
  shows "ensures (stickyKeysModifierToggleCheck now thisBits keyDown mouseClick t)
    (\<lambda>(b, t). toggle_ok t \<and> (mouseClick \<longrightarrow> \<not> b))"
proof -
  have t: "toggle_ok (pruneDeadlines now t)" by (rule ok_prune [OF assms])
  show ?thesis using t assms by (auto simp: stickyKeysModifierToggleCheck_def Let_def toggle_ok_def)
qed

lemma ok_shiftToggle:
  assumes "keeps_ok C J w"
  shows "ensures (checkShiftToggle thisBits keyDown mouseClick w)
    (\<lambda>(b, w'). keeps_ok C J w' \<and> (mouseClick \<longrightarrow> \<not> b) \<and> modifiersDown w' = modifiersDown w \<and>
       mp_cachedKeyBits (hk_keyMap w') = mp_cachedKeyBits (hk_keyMap w) \<and> parsedMapping w' = parsedMapping w)"
proof -
  have "toggle_ok (mp_shiftToggle (hk_keyMap w))" using ok_mapper [OF assms] by (simp add: mapper_ok_def)
  moreover have "keeps_ok C J (updMapper (\<lambda>m. m\<lparr>mp_shiftToggle := t\<rparr>) w)" if "toggle_ok t" for t
    by (rule ok_upd [OF assms]) (simp_all add: mapper_ok_toggles [OF ok_mapper [OF assms] that])
  ultimately show ?thesis
    using ok_toggleCheck [of "mp_shiftToggle (hk_keyMap w)" "hk_uptime w" thisBits keyDown mouseClick] assms
    by (auto simp: checkShiftToggle_def ensures_bind elim!: ensures_mono)
qed

lemma ok_optionToggle:
  assumes "keeps_ok C J w"
  shows "ensures (checkOptionToggle thisBits keyDown mouseClick w)
    (\<lambda>w'. keeps_ok C J w' \<and> modifiersDown w' = modifiersDown w \<and>
       mp_cachedKeyBits (hk_keyMap w') = mp_cachedKeyBits (hk_keyMap w) \<and> parsedMapping w' = parsedMapping w)"
proof -
  have t: "toggle_ok (mp_optionToggle (hk_keyMap w))" using ok_mapper [OF assms] by (simp add: mapper_ok_def)
  let ?u = "\<lambda>t. updMapper (\<lambda>m. m\<lparr>mp_optionToggle := t\<rparr>) w"
  have u: "keeps_ok C J (?u t)" if "toggle_ok t" for t
    by (rule ok_upd [OF assms]) (simp_all add: mapper_ok_toggles [OF ok_mapper [OF assms] that])
  have ev: "ensures (postKeyboardSpecialEvent subtype NX_SYSDEFINED (?u t))
      (\<lambda>w'. keeps_ok C J w' \<and> modifiersDown w' = modifiersDown w \<and>
       mp_cachedKeyBits (hk_keyMap w') = mp_cachedKeyBits (hk_keyMap w) \<and> parsedMapping w' = parsedMapping w)"
    if "toggle_ok t" for subtype t
    by (rule ensures_mono [OF ok_special [OF u [OF that]]]) (auto simp: calmly_def calm_mapper hid_consts)
  show ?thesis
    using ok_toggleCheck [OF t, of "hk_uptime w" thisBits keyDown mouseClick] assms u ev
    by (auto simp: checkOptionToggle_def ensures_bind Let_def elim!: ensures_mono)
qed

lemma ok_toggle:
  assumes "keeps_ok C J w"
  shows "ensures (toggleStickyKeys C w) (keeps_ok C J)"
proof -
  have off: "ensures (Option.bind (stickyKeysCleanup C w)
      (postKeyboardSpecialEvent NX_SUBTYPE_STICKYKEYS_OFF NX_SYSDEFINED)) (keeps_ok C J)"
    unfolding ensures_bind
    by (rule ensures_mono [OF ok_cleanup [OF assms]], rule ensures_mono [OF ok_special])
      (auto simp: calmly_def hid_consts)
  have on: "ensures (postKeyboardSpecialEvent NX_SUBTYPE_STICKYKEYS_ON NX_SYSDEFINED
      (updSticky (\<lambda>s. s OR kState_On) w)) (keeps_ok C J)"
    by (rule ensures_mono [OF ok_special [OF ok_updSticky [OF assms]]]) (auto simp: calmly_def hid_consts)
  have dirty: "keeps_ok C J (triggerSetFnState (updMapper (\<lambda>m. m\<lparr>mp_stateDirty := True\<rparr>) v))" if "keeps_ok C J v" for v
    by (rule ok_trigger, rule ok_upd [OF that]) (simp_all add: ok_mapper [OF that])
  show ?thesis
    unfolding toggleStickyKeys_def Let_def
    using ensures_mono [OF off dirty] ensures_mono [OF on dirty] by (simp add: ensures_bind)
qed

subsection \<open>The filter of sticky keys\<close>

lemma ok_sources:
  assumes "keeps_ok C J w"
  shows "keeps_ok C J (createStickySources timersWork w)"
proof -
  have "mapper_ok ((hk_keyMap w)\<lparr>mp_mouseClickSource := a, mp_setFnStateSource := b\<rparr>)" for a b
    using ok_mapper [OF assms] by simp
  then show ?thesis unfolding createStickySources_def by (intro ok_upd [OF assms]) simp_all
qed

lemma sources_fields [simp]:
  "modifiersDown (createStickySources timersWork w) = modifiersDown w"
  "mp_cachedKeyBits (hk_keyMap (createStickySources timersWork w)) = mp_cachedKeyBits (hk_keyMap w)"
  "parsedMapping (createStickySources timersWork w) = parsedMapping w"
  by (simp_all add: createStickySources_def)

text \<open>The part behind the toggles, for a modifier key and for another key.\<close>

lemma ok_stickyKey:
  assumes "keeps_ok C J w" and "unat key < 128" and "0 < modifiersDown w \<longrightarrow> kb"
    and "keyDown \<longrightarrow> kb \<and> mp_cachedKeyBits (hk_keyMap w)" and b: "b = keyBitsOfKey key w"
  shows "ensures (if stickyIs kState_On w
      then let w = createStickySources timersWork w
           in if modifierOfInterest b then stickyKeysModifierKey C key keyDown kb w
              else Some (claimed, w)
      else Some (claimed, w)) (\<lambda>(b, w'). keeps_ok C J w')"
proof -
  let ?u = "createStickySources timersWork w"
  have u: "keeps_ok C J ?u" by (rule ok_sources [OF assms(1)])
  have "ensures (stickyKeysModifierKey C key keyDown kb ?u) (\<lambda>(b, w'). keeps_ok C J w')"
    if "modifierOfInterest (keyBitsOfKey key ?u)"
  proof (cases keyDown)
    case True
    then show ?thesis using ok_modifier_down [OF u assms(2) _ that] assms(4) by simp
  next
    case False
    then show ?thesis using ensures_mono [OF ok_modifier_up [OF u, of kb key]] assms(3) by auto
  qed
  then show ?thesis using u assms(1) by (simp add: Let_def b keyBitsOfKey_def)
qed

lemma ok_stickyFilter:
  assumes "keeps_ok C J w" and key: "unat key < 128" and kb: "0 < modifiersDown w \<longrightarrow> kb"
    and real: "\<not> mouseClick \<longrightarrow> kb \<and> mp_cachedKeyBits (hk_keyMap w)" and click: "mouseClick \<longrightarrow> \<not> keyDown"
  shows "ensures (stickyKeysFilterKey C timersWork key keyDown kb mouseClick w) (\<lambda>(b, w'). keeps_ok C J w')"
proof -
  let ?b = "keyBitsOfKey key w"
  let ?claimed = "stickyKeysClaim ?b key keyDown mouseClick"
  let ?same = "\<lambda>v. keeps_ok C J v \<and> modifiersDown v = modifiersDown w \<and>
    mp_cachedKeyBits (hk_keyMap v) = mp_cachedKeyBits (hk_keyMap w) \<and> parsedMapping v = parsedMapping w"
  have last: "ensures (Option.bind
        (if stickyIs kState_On v
         then let w = createStickySources timersWork v
              in if modifierOfInterest ?b then stickyKeysModifierKey C key keyDown kb w else Some (c, w)
         else Some (c, v))
        (\<lambda>(filtered, w). Option.bind (if toggled then toggleStickyKeys C w else Some w) (\<lambda>w. Some (filtered, w))))
      (\<lambda>(b, w'). keeps_ok C J w')"
    if v: "keeps_ok C J v" "modifierOfInterest ?b \<longrightarrow> ?same v" for v c toggled
  proof -
    have "ensures (if stickyIs kState_On v
         then let w = createStickySources timersWork v
              in if modifierOfInterest ?b then stickyKeysModifierKey C key keyDown kb w else Some (c, w)
         else Some (c, v)) (\<lambda>(b, w'). keeps_ok C J w')"
    proof (cases "modifierOfInterest ?b")
      case True
      then have "?b = keyBitsOfKey key v" using v by (simp add: keyBitsOfKey_def)
      moreover have "0 < modifiersDown v \<longrightarrow> kb" "keyDown \<longrightarrow> kb \<and> mp_cachedKeyBits (hk_keyMap v)"
        using True v kb real click by auto
      ultimately show ?thesis by (intro ok_stickyKey [OF v(1) key])
    qed (simp add: v(1) ok_sources Let_def)
    then show ?thesis
      unfolding ensures_bind
      by (rule ensures_mono) (auto simp: ensures_bind elim!: ensures_mono [OF ok_toggle])
  qed
  have middle: "ensures (Option.bind (checkOptionToggle ?b keyDown mouseClick u) (\<lambda>x. Option.bind
        (if ?claimed x then stickyKeysNonModifierKey C key keyDown kb mouseClick x else Some x) (\<lambda>v. Option.bind
        (if stickyIs kState_On v
         then let w = createStickySources timersWork v
              in if modifierOfInterest ?b then stickyKeysModifierKey C key keyDown kb w else Some (?claimed x, w)
         else Some (?claimed x, v))
        (\<lambda>(filtered, w). Option.bind (if toggled then toggleStickyKeys C w else Some w) (\<lambda>w. Some (filtered, w))))))
      (\<lambda>(b, w'). keeps_ok C J w')"
    if u: "?same u" for u toggled
  proof -
    have non: "ensures (if ?claimed v then stickyKeysNonModifierKey C key keyDown kb mouseClick v else Some v)
        (\<lambda>x. keeps_ok C J x \<and> (modifierOfInterest ?b \<longrightarrow> ?same x))" if v: "?same v" for v
    proof (cases "?claimed v")
      case True
      then have "\<not> modifierOfInterest ?b" by (simp add: stickyKeysClaim_def)
      then show ?thesis
        using True ensures_mono [OF ok_nonModifierKey [of v mouseClick kb key keyDown]] v kb real key by auto
    qed (simp add: v)
    show ?thesis
      unfolding ensures_bind
      by (rule ensures_mono [OF ok_optionToggle], use u in blast, rule ensures_mono [OF non],
          use u in metis, rule last [unfolded ensures_bind]) blast+
  qed
  show ?thesis
  proof (cases "pm_maxMod (parsedMapping w) = - 1 \<or> stickyIs kState_Disabled_Flag w")
    case True
    then show ?thesis using assms(1) by (simp add: stickyKeysFilterKey_def)
  next
    case False
    have shift: "ensures (checkShiftToggle ?b keyDown mouseClick w) (\<lambda>p. ?same (snd p))"
      by (rule ensures_mono [OF ok_shiftToggle [OF assms(1)]]) auto
    have if_no: "(if pm_maxMod (parsedMapping w) = - 1 \<or> stickyIs kState_Disabled_Flag w then x else y) = y" for x y
      using False by simp
    show ?thesis
      unfolding stickyKeysFilterKey_def Let_def if_no
      by (simp only: ensures_bind [of "checkShiftToggle ?b keyDown mouseClick w"], rule ensures_mono [OF shift])
        (simp only: case_prod_unfold, rule middle [unfolded Let_def case_prod_unfold], assumption)
  qed
qed

end

end
