(* ===== verification/HID_Entry.thy ===== *)
theory HID_Entry
  imports HID_Filters
begin

text \<open>
  All filters of the mapper in turn, and what enters them from outside: keys, timers, clicks
  of the mouse. Whatever enters, the call returns and keeps the invariant. The contract
  \<open>cached_translation\<close> is that of \<open>key_translation\<close> for a mapper that knows the bit vector.
\<close>

section \<open>Slow keys\<close>

lemma mapper_ok_slow:
  assumes "mapper_ok m" and "mp_cachedKeyBits m"
    and "s AND (kState_In_Progess_Flag OR kState_Is_Repeat_Flag) \<noteq> 0 \<longrightarrow> unat k < 128"
  shows "mapper_ok (m\<lparr>mp_slowKeysState := s, mp_slowKeysCurrent := k\<rparr>)"
  using assms by (simp add: mapper_ok_def table_ok_def stuck_ok_def slow_ok_def)

lemma and_less:
  fixes s :: "'a :: len word"
  shows "(s AND z) AND y \<noteq> 0 \<Longrightarrow> s AND y \<noteq> 0"
  by (metis and.assoc and.commute and_zero_eq)

lemma and_more:
  fixes s :: "'a :: len word"
  shows "s AND y \<noteq> 0 \<Longrightarrow> s AND (x OR y) \<noteq> 0"
  by (simp add: bit.conj_disj_distrib or_eq_0_iff)

lemma single_bit16: "m < 16 \<Longrightarrow> bit (push_bit m 1 :: u16) n \<longleftrightarrow> n = m"
  by (auto simp: bit_simps simp del: push_bit_of_1)

lemma slow_bits:
  "bit kState_Aborted_Flag n \<longleftrightarrow> n = 9" "bit kState_In_Progess_Flag n \<longleftrightarrow> n = 10"
  "bit kState_Is_Repeat_Flag n \<longleftrightarrow> n = 11"
  using single_bit16 [of 9 n] single_bit16 [of 10 n] single_bit16 [of 11 n]
  by (simp_all add: hid_consts del: bit_numeral_word_iff)

lemma post_fields [simp]:
  "hk_keyMap (post e w) = hk_keyMap w" "hk_isRepeat (post e w) = hk_isRepeat w"
  by (simp_all add: post_def)

context key_translation
begin

lemma ok_eject: "keeps_ok C J w \<Longrightarrow> keeps_ok C J (updEject f w)"
  unfolding updEject_def by (rule ok_upd) (simp_all add: ok_mapper)

text \<open>The timer of the eject key.\<close>

lemma ok_performEject:
  assumes "keeps_ok C J w"
  shows "ensures (performF12Eject w) (keeps_ok C J)"
  unfolding performF12Eject_def ensures_bind
  by (rule ensures_mono [OF ok_special [OF assms]]) (auto simp: calmly_def intro: ok_eject)

end

locale cached_translation = key_translation +
  assumes J_cached: "J w \<Longrightarrow> mp_cachedKeyBits (hk_keyMap w)"

context cached_translation
begin

lemma ok_cached: "keeps_ok C J w \<Longrightarrow> mp_cachedKeyBits (hk_keyMap w)"
  by (simp add: keeps_ok_def J_cached)

lemma ok_slow:
  assumes "keeps_ok C J w"
    and "s AND (kState_In_Progess_Flag OR kState_Is_Repeat_Flag) \<noteq> 0 \<longrightarrow> unat k < 128"
  shows "keeps_ok C J (updMapper (\<lambda>m. m\<lparr>mp_slowKeysState := s, mp_slowKeysCurrent := k\<rparr>) w)"
  by (rule ok_upd [OF assms(1)]) (simp_all add: mapper_ok_slow [OF ok_mapper [OF assms(1)] ok_cached [OF assms(1)] assms(2)])

lemma ok_current:
  assumes "keeps_ok C J w"
    and "mp_slowKeysState (hk_keyMap w) AND (kState_In_Progess_Flag OR kState_Is_Repeat_Flag) \<noteq> 0"
  shows "unat (mp_slowKeysCurrent (hk_keyMap w)) < 128"
  using ok_mapper [OF assms(1)] assms(2) by (simp add: mapper_ok_def slow_ok_def)

lemma updSlow_eq:
  "updSlow f w = updMapper (\<lambda>m. m\<lparr>mp_slowKeysState := f (mp_slowKeysState (hk_keyMap w)),
     mp_slowKeysCurrent := mp_slowKeysCurrent (hk_keyMap w)\<rparr>) w"
  by (cases w; cases "hk_keyMap w") (simp add: updSlow_def updMapper_def)

text \<open>Clearing flags, and setting them while the current key is a key of the keyboard.\<close>

lemma ok_slow_set:
  assumes "keeps_ok C J w" and "unat (mp_slowKeysCurrent (hk_keyMap w)) < 128"
  shows "keeps_ok C J (updSlow f w)"
  unfolding updSlow_eq by (rule ok_slow [OF assms(1)]) (use assms(2) in simp)

lemma ok_slow_less:
  assumes "keeps_ok C J w"
    and "\<And>s. f s AND (kState_In_Progess_Flag OR kState_Is_Repeat_Flag) \<noteq> 0 \<Longrightarrow>
           s AND (kState_In_Progess_Flag OR kState_Is_Repeat_Flag) \<noteq> 0"
  shows "keeps_ok C J (updSlow f w)"
  unfolding updSlow_eq by (rule ok_slow [OF assms(1)]) (use assms(2) ok_current [OF assms(1)] in blast)

lemma ok_slow_clear: "keeps_ok C J w \<Longrightarrow> keeps_ok C J (updSlow (\<lambda>s. s AND z) w)"
  by (rule ok_slow_less, assumption) (erule and_less)

lemma ok_system:
  "keeps_ok C J w \<Longrightarrow> ensures (postKeyboardSpecialEvent subtype NX_SYSDEFINED w) (keeps_ok C J)"
  by (rule ensures_mono [OF ok_special]) (auto simp: calmly_def)

subsection \<open>The eject key\<close>

lemma ok_ejectTimer: "keeps_ok C J w \<Longrightarrow> keeps_ok C J (updMapper (\<lambda>m. m\<lparr>mp_ejectTimer := b\<rparr>) w)"
  by (rule ok_upd) (simp_all add: ok_mapper)

lemma ok_f12:
  assumes "keeps_ok C J w" and "unat key < 128"
  shows "ensures (f12EjectFilterKey C timersWork key keyDown True w) (\<lambda>p. keeps_ok C J (snd p))"
proof -
  have raw: "ensures (rawTranslateKeyCode C key True True v) (keeps_ok C J)" if "keeps_ok C J v" for v
    using ensures_mono [OF ok_raw [OF that assms(2)]] by (simp add: calmly_def)
  have up: "ensures (rawTranslateKeyCode C key True True
      (updEject f (post CancelEjectTimer (updMapper (\<lambda>m. m\<lparr>mp_ejectTimer := True\<rparr>) w)))) (keeps_ok C J)" for f
    by (rule raw) (intro ok_eject ok_post ok_ejectTimer assms(1))
  show ?thesis
    using up unfolding f12EjectFilterKey_def Let_def
    by (auto simp: ensures_bind intro: ok_post ok_eject ok_ejectTimer assms(1))
qed

lemma ok_postSlow:
  assumes "keeps_ok C J w" and "unat key < 128"
  shows "ensures (postSlowKeyTranslateKeyCode C timersWork key keyDown True w) (keeps_ok C J)"
proof -
  have raw: "ensures (rawTranslateKeyCode C key keyDown True v) (keeps_ok C J)" if "keeps_ok C J v" for v
    using ensures_mono [OF ok_raw [OF that assms(2)]] by (simp add: calmly_def)
  have sticky: "ensures (stickyKeysFilterKey C timersWork key keyDown True False v) (\<lambda>p. keeps_ok C J (snd p))"
    if "keeps_ok C J v" for v
    using ensures_mono [OF ok_stickyFilter [OF that assms(2), of True False]] ok_cached [OF that]
    by (auto simp: case_prod_unfold)
  have rest: "ensures (Option.bind (stickyKeysFilterKey C timersWork key keyDown True False v)
      (\<lambda>p. if fst p then Some (snd p) else rawTranslateKeyCode C key keyDown True (snd p))) (keeps_ok C J)"
    if "keeps_ok C J v" for v
    unfolding ensures_bind by (rule ensures_mono [OF sticky [OF that]]) (simp add: raw)
  show ?thesis
    unfolding postSlowKeyTranslateKeyCode_def case_prod_unfold ensures_bind [of "f12EjectFilterKey _ _ _ _ _ _"]
    by (rule ensures_mono [OF ok_f12 [OF assms]]) (simp add: rest)
qed

subsection \<open>Slow keys\<close>

lemma ok_endRepeat:
  assumes "keeps_ok C J w"
  shows "ensures (endSlowRepeat C timersWork w) (keeps_ok C J)"
proof (cases "slowIs kState_Is_Repeat_Flag w")
  case True
  then have "mp_slowKeysState (hk_keyMap w) AND (kState_In_Progess_Flag OR kState_Is_Repeat_Flag) \<noteq> 0"
    unfolding slowIs_def by (rule and_more)
  note key = ok_current [OF assms this]
  show ?thesis
    using True ok_cached [OF assms] ensures_mono [OF ok_postSlow [OF assms key]] ok_slow_clear
    by (simp add: endSlowRepeat_def ensures_bind)
qed (simp add: endSlowRepeat_def assms)

lemma ok_slowKeysDown:
  assumes "keeps_ok C J w" and "unat key < 128"
  shows "ensures (slowKeysDown C timersWork key w) (keeps_ok C J)"
proof -
  let ?start = "\<lambda>v. let w = updSlow (\<lambda>s. s OR kState_In_Progess_Flag) v;
      w = updMapper (\<lambda>m. m\<lparr>mp_slowKeysCurrent := key\<rparr>) w;
      w = post (SetSlowKeysTimer (mp_slowKeysDelay (hk_keyMap w))) w
    in if hk_isRepeat w then updSlow (\<lambda>s. s OR kState_Is_Repeat_Flag) w else w"
  have start: "keeps_ok C J (?start v)" if v: "keeps_ok C J v" for v
  proof -
    have "updMapper (\<lambda>m. m\<lparr>mp_slowKeysCurrent := key\<rparr>) (updSlow f v) =
        updMapper (\<lambda>m. m\<lparr>mp_slowKeysState := f (mp_slowKeysState (hk_keyMap v)), mp_slowKeysCurrent := key\<rparr>) v" for f
      by (cases v; cases "hk_keyMap v") (simp add: updSlow_def updMapper_def)
    then have u: "keeps_ok C J (updMapper (\<lambda>m. m\<lparr>mp_slowKeysCurrent := key\<rparr>) (updSlow f v))" for f
      using ok_slow [OF v, of _ key] assms(2) by simp
    show ?thesis
      unfolding Let_def by (auto intro!: ok_slow_set ok_post u simp: assms(2))
  qed
  have abort: "keeps_ok C J (updMapper (\<lambda>m. m\<lparr>mp_slowKeysAborted := key\<rparr>)
      (updSlow (\<lambda>s. (s OR kState_Aborted_Flag) AND NOT kState_In_Progess_Flag) (post CancelSlowKeysTimer w)))"
  proof (rule ok_upd)
    have drop: "((s OR kState_Aborted_Flag) AND NOT kState_In_Progess_Flag) AND
        (kState_In_Progess_Flag OR kState_Is_Repeat_Flag) = s AND kState_Is_Repeat_Flag" for s
      by (rule bit_word_eqI) (auto simp: bit_and_iff bit_or_iff bit_not_iff slow_bits)
    show ok: "keeps_ok C J (updSlow (\<lambda>s. (s OR kState_Aborted_Flag) AND NOT kState_In_Progess_Flag)
        (post CancelSlowKeysTimer w))"
    proof (rule ok_slow_less [OF ok_post [OF assms(1)]])
      fix s :: u16
      assume "((s OR kState_Aborted_Flag) AND NOT kState_In_Progess_Flag) AND
        (kState_In_Progess_Flag OR kState_Is_Repeat_Flag) \<noteq> 0"
      then show "s AND (kState_In_Progess_Flag OR kState_Is_Repeat_Flag) \<noteq> 0"
        unfolding drop by (rule and_more)
    qed
    show "mapper_ok ((hk_keyMap (updSlow (\<lambda>s. (s OR kState_Aborted_Flag) AND NOT kState_In_Progess_Flag)
        (post CancelSlowKeysTimer w)))\<lparr>mp_slowKeysAborted := key\<rparr>)"
      using ok_mapper [OF ok] by simp
  qed simp_all
  have first: "ensures (if key \<noteq> mp_slowKeysCurrent (hk_keyMap w) then endSlowRepeat C timersWork w else Some w)
      (keeps_ok C J)" using ok_endRepeat [OF assms(1)] assms(1) by simp
  note started = ensures_mono [OF first ok_system [OF start]]
  note aborted = ensures_mono [OF ok_endRepeat [OF abort] ok_system]
  show ?thesis
    unfolding slowKeysDown_def
    using started [unfolded Let_def] aborted assms(1)
    by (auto simp only: Let_def ensures_bind ensures_simps split: if_split)
qed

lemma ok_slowKeysUp:
  assumes "keeps_ok C J w"
  shows "ensures (slowKeysUp C timersWork key w) (\<lambda>p. keeps_ok C J (snd p))"
proof -
  let ?f = "\<lambda>s. s AND NOT kState_Aborted_Flag AND NOT kState_In_Progess_Flag"
  have "keeps_ok C J (updSlow ?f (post CancelSlowKeysTimer w))"
    by (intro ok_slow_clear ok_post assms)
  then have "ensures (Option.bind (endSlowRepeat C timersWork (updSlow ?f (post CancelSlowKeysTimer w)))
      (postKeyboardSpecialEvent NX_SUBTYPE_SLOWKEYS_ABORT NX_SYSDEFINED)) (keeps_ok C J)"
    unfolding ensures_bind by (intro ensures_mono [OF ok_endRepeat ok_system])
  then show ?thesis
    unfolding slowKeysUp_def Let_def
    by (auto simp: ensures_bind intro!: ok_slow_clear ok_post assms elim!: ensures_mono)
qed

lemma ok_slowFilter:
  assumes "keeps_ok C J w" and "unat key < 128"
  shows "ensures (slowKeysFilterKey C timersWork key keyDown w) (\<lambda>p. keeps_ok C J (snd p))"
proof -
  have timer: "keeps_ok C J (updMapper (\<lambda>m. m\<lparr>mp_slowKeysTimer := b\<rparr>) w)" for b
    by (rule ok_upd [OF assms(1)]) (simp_all add: ok_mapper [OF assms(1)])
  note down = ok_slowKeysDown [OF timer assms(2)] and up = ok_slowKeysUp [OF timer]
  show ?thesis
    unfolding slowKeysFilterKey_def Let_def
    using down up by (auto simp: ensures_bind timer assms(1) elim!: ensures_mono)
qed

text \<open>The timer of slow keys; it runs only while a key is pending.\<close>

lemma ok_slowTimer:
  assumes "keeps_ok C J w" and "slowIs kState_In_Progess_Flag w"
  shows "ensures (slowKeysPostProcess C timersWork w) (keeps_ok C J)"
proof -
  let ?u = "updSlow (\<lambda>s. s AND NOT kState_In_Progess_Flag) w"
  have "mp_slowKeysState (hk_keyMap w) AND (kState_Is_Repeat_Flag OR kState_In_Progess_Flag) \<noteq> 0"
    using assms(2) unfolding slowIs_def by (rule and_more)
  then have "unat (mp_slowKeysCurrent (hk_keyMap w)) < 128"
    by (intro ok_current [OF assms(1)]) (simp add: or.commute)
  then have key: "unat (mp_slowKeysCurrent (hk_keyMap ?u)) < 128" by (simp add: updSlow_def)
  have u: "keeps_ok C J ?u" by (rule ok_slow_clear [OF assms(1)])
  show ?thesis
    using ensures_mono [OF ok_postSlow [OF u key] ok_system] ok_cached [OF u]
    by (simp add: slowKeysPostProcess_def ensures_bind Let_def)
qed

end

subsection \<open>Swapped modifiers and all filters\<close>

lemma keyboard_caps:
  assumes "keyboard_ok C w"
  shows "unat (getParsedSpecialKey (parsedMapping w) NX_KEYTYPE_CAPS_LOCK) < 128"
proof -
  have c: "specialsOf C km ! NX_KEYTYPE_CAPS_LOCK < 128 \<Longrightarrow> unat (ucast (specialsOf C km ! NX_KEYTYPE_CAPS_LOCK) :: u8) < 128"
    for km by (simp add: word_less_nat_alt unsigned_ucast_eq take_bit_eq_mod)
  show ?thesis
    using assms c
    by (auto simp: keyboard_ok_def sound_keymap_def represents_def getParsedSpecialKey_def hid_consts)
qed

lemma keyboard_swapped:
  assumes "keyboard_ok C w" and "0 \<le> b" "b < int NX_NUMMODIFIERS" and "unat key < 128"
  shows "ensures (swappedKey b key (parsedMapping w)) (\<lambda>k. unat k < 128)"
proof -
  obtain shorts km where km: "sound_keymap C shorts km" "represents C shorts (parsedMapping w) km"
    using assms(1) by (auto simp: keyboard_ok_def)
  have sh: "isShorts (parsedMapping w) = shorts" using km(2) by (simp add: represents_def)
  have at: "modDefAt (parsedMapping w) b = Some (pm_modDefs (parsedMapping w) ! nat b)"
    using assms(2,3) km(2) by (auto simp: modDefAt_def represents_def)
  have p: "points_to (encKeys shorts) (modOf C km (nat b)) (pm_modDefs (parsedMapping w) ! nat b)"
    using km(2) assms(2,3) unfolding represents_def by (metis nat_less_iff)
  let ?other = "if b = int NX_MODIFIERKEY_ALPHALOCK then getParsedSpecialKey (parsedMapping w) NX_KEYTYPE_CAPS_LOCK
    else key"
  have other: "unat ?other < 128" using keyboard_caps [OF assms(1)] assms(4) by simp
  show ?thesis
  proof (cases "modOf C km (nat b)")
    case None
    then show ?thesis using p other by (simp add: swappedKey_def at points_to_def Let_def)
  next
    case (Some ks)
    note ks = modOf_sound [OF km(1) Some]
    obtain r where r: "pm_modDefs (parsedMapping w) ! nat b = Some (encNum shorts (length ks) @ encNums shorts ks @ r)"
      using p Some by (auto simp: points_to_def encKeys_def)
    show ?thesis
      using ks(1,2) other
      by (cases ks) (simp_all add: swappedKey_def at r sh Let_def unat_of_nat)
  qed
qed

context cached_translation
begin

text \<open>On a keyboard without locking keys a swap changes the key only.\<close>

lemma ok_swap:
  assumes "keeps_ok C J w" and "unat key < 128"
  shows "ensures (modifierSwapFilterKey C key w) (\<lambda>(b, k, w'). w' = w \<and> unat k < 128)"
proof -
  have ok: "keyboard_ok C w" by (rule ok_keyboard [OF assms(1)])
  then have plain: "\<not> doesKeyLock C NX_KEYTYPE_CAPS_LOCK" by (simp add: keyboard_ok_def plain_class_def)
  have same: "updMapper (\<lambda>m. m\<lparr>mp_parsed := parsedMapping w\<rparr>) w = w"
    by (cases w; cases "hk_keyMap w") (simp add: updMapper_def)
  let ?b = "\<lambda>j. swapEntry (mp_modifierSwap (hk_keyMap w) ! j)"
  have b: "- 1 \<le> ?b j" "?b j < int NX_NUMMODIFIERS" if "j \<le> NX_MODIFIERKEY_RCOMMAND" for j
  proof -
    have "swap_ok (mp_modifierSwap (hk_keyMap w))" using ok_mapper [OF assms(1)] by (simp add: mapper_ok_def)
    then have "mp_modifierSwap (hk_keyMap w) ! j \<in> set (mp_modifierSwap (hk_keyMap w))"
      "list_all (\<lambda>e. - 1 \<le> swapEntry e \<and> swapEntry e < int NX_NUMMODIFIERS) (mp_modifierSwap (hk_keyMap w))"
      using that by (simp_all add: swap_ok_def hid_consts)
    then show "- 1 \<le> ?b j" "?b j < int NX_NUMMODIFIERS" by (auto simp: list_all_iff)
  qed
  let ?k = "\<lambda>j. do { key \<leftarrow> swappedKey (?b j) key (parsedMapping w); Some (False, key, w) }"
  have k: "ensures (?k j) (\<lambda>(c, k, w'). w' = w \<and> unat k < 128)"
    if "j \<le> NX_MODIFIERKEY_RCOMMAND" "?b j \<noteq> - 1" for j
    using ensures_mono [OF keyboard_swapped [OF ok _ b(2) assms(2), of j]] b(1) [of j] that
    by (simp add: ensures_bind)
  show ?thesis
    unfolding modifierSwapFilterKey_def Let_def swapEntry_def [symmetric]
    using k assms(2) by (auto simp: plain same ensures_bind not_less split: option.split)
qed

lemma ok_translate:
  assumes "keeps_ok C J w" and "unat key < 128"
  shows "ensures (translateKeyCode C timersWork key keyDown True w) (keeps_ok C J)"
proof -
  let ?u = "updMapper (\<lambda>m. m\<lparr>mp_cachedKeyBits := mp_cachedKeyBits m \<or> True\<rparr>) w"
  have "?u = w" using ok_cached [OF assms(1)] by (cases w; cases "hk_keyMap w") (simp add: updMapper_def)
  note same = this
  have slow: "ensures (Option.bind (slowKeysFilterKey C timersWork k keyDown w)
      (\<lambda>p. if fst p then Some (snd p) else postSlowKeyTranslateKeyCode C timersWork k keyDown True (snd p)))
      (keeps_ok C J)" if "unat k < 128" for k
    unfolding ensures_bind
    by (rule ensures_mono [OF ok_slowFilter [OF assms(1) that]]) (simp add: ok_postSlow that)
  have small: "(NX_NUMKEYCODES \<le> unat key) = False" using assms(2) by (simp add: hid_consts)
  let ?rest = "\<lambda>p. if fst p then Some (snd (snd p))
    else Option.bind (slowKeysFilterKey C timersWork (fst (snd p)) keyDown (snd (snd p)))
      (\<lambda>q. if fst q then Some (snd q)
           else postSlowKeyTranslateKeyCode C timersWork (fst (snd p)) keyDown True (snd q))"
  have "translateKeyCode C timersWork key keyDown True w = Option.bind (modifierSwapFilterKey C key w) ?rest"
    unfolding translateKeyCode_def Let_def same case_prod_unfold by (simp only: small if_False)
  moreover have "ensures (modifierSwapFilterKey C key w) (\<lambda>p. ensures (?rest p) (keeps_ok C J))"
    by (rule ensures_mono [OF ok_swap [OF assms, unfolded case_prod_unfold]]) (simp only: slow assms(1) ensures_simps split: if_split, simp)
  ultimately show ?thesis by (simp only: ensures_bind)
qed

end

text \<open>The button of the mouse goes up.\<close>

context key_translation
begin

lemma ok_mouseUp:
  assumes "keeps_ok C J w"
  shows "ensures (stickyKeysMouseUp C timersWork w) (keeps_ok C J)"
proof -
  have "0 < modifiersDown w \<longrightarrow> mp_cachedKeyBits (hk_keyMap w)"
    using ok_mapper [OF assms] by (simp add: mapper_ok_def)
  then show ?thesis
    using ensures_mono [OF ok_stickyFilter [OF assms, of 0 "mp_cachedKeyBits (hk_keyMap w)" True False]]
    by (simp add: stickyKeysMouseUp_def ensures_bind case_prod_unfold)
qed

lemma ok_param:
  assumes "keeps_ok C J w"
  shows "keeps_ok C J (setStickyFlag flag v w)"
  using ok_updSticky [OF assms] assms by (simp add: setStickyFlag_def split: option.split)

end

subsection \<open>Preferences\<close>

text \<open>
  A pair of modifiers whose target is a modifier or none, if the pair is looked at; and
  preferences that switch sticky keys off, upon which the modifiers that they hold are
  released. The flags from before that are the ones that a change of the caps lock writes
  back, so that the two must not come together while modifiers are held.
\<close>

definition pair_ok :: "(u32 \<times> u32) option \<Rightarrow> bool" where
  "pair_ok pair \<longleftrightarrow>
     (case pair of None \<Rightarrow> True
      | Some (src, dst) \<Rightarrow> src \<le> of_nat NX_MODIFIERKEY_RCOMMAND \<longrightarrow>
          - 1 \<le> swapEntry dst \<and> swapEntry dst < int NX_NUMMODIFIERS)"

definition cleansUp :: "params \<Rightarrow> bool" where
  "cleansUp d \<longleftrightarrow>
     (case value32 (pa_stickyDisabled d) of None \<Rightarrow> False | Some v \<Rightarrow> v \<noteq> 0) \<or>
     value32 (pa_stickyOn d) = Some 0"

definition swaps_ok :: "params \<Rightarrow> hik \<Rightarrow> bool" where
  "swaps_ok d w \<longleftrightarrow>
     (case pa_modifierPairs d of None \<Rightarrow> True
      | Some pairs \<Rightarrow> list_all pair_ok pairs \<and> (modifiersDown w = 0 \<or> \<not> cleansUp d))"

lemma swap_ok_update:
  "swap_ok es \<Longrightarrow> - 1 \<le> swapEntry e \<Longrightarrow> swapEntry e < int NX_NUMMODIFIERS \<Longrightarrow> swap_ok (es[i := e])"
  using set_update_subset_insert [of es i e] by (auto simp: swap_ok_def list_all_iff)

lemma swap_ok_pair: "swap_ok (fst st) \<Longrightarrow> pair_ok pair \<Longrightarrow> swap_ok (fst (swapPair C flags pair st))"
  by (auto simp: swapPair_def pair_ok_def Let_def case_prod_unfold intro: swap_ok_update split: option.splits)

lemma swap_ok_pairs:
  "list_all pair_ok pairs \<Longrightarrow> swap_ok (fst st) \<Longrightarrow> swap_ok (fst (fold (swapPair C flags) pairs st))"
  by (induction pairs arbitrary: st) (simp_all add: swap_ok_pair)

lemma swapEntry_small: "i < NX_NUMMODIFIERS \<Longrightarrow> swapEntry (of_nat i) = int i"
proof -
  have "list_all (\<lambda>i. swapEntry (of_nat i) = int i) [0..<NX_NUMMODIFIERS]"
    by (simp add: hid_consts upt_rec swapEntry_def)
  then show "i < NX_NUMMODIFIERS \<Longrightarrow> swapEntry (of_nat i) = int i" by (simp add: list_all_iff)
qed

lemma swap_ok_reset:
  "list_all (\<lambda>i. i < NX_NUMMODIFIERS) is \<Longrightarrow> swap_ok (fst st) \<Longrightarrow> swap_ok (fst (fold (resetSwap C flags) is st))"
  by (induction "is" arbitrary: st)
    (simp_all add: resetSwap_def case_prod_unfold Let_def swap_ok_update swapEntry_small)

lemma mapper_ok_swap: "mapper_ok m \<Longrightarrow> swap_ok es \<Longrightarrow> mapper_ok (m\<lparr>mp_modifierSwap := es\<rparr>)"
  by (simp add: mapper_ok_def table_ok_def stuck_ok_def slow_ok_def)

lemma caps_code:
  assumes "keyboard_ok C w"
  shows "capsKeyCode (parsedMapping w) \<noteq> None"
proof -
  have "ensures (swappedKey (int NX_MODIFIERKEY_ALPHALOCK) 0 (parsedMapping w)) (\<lambda>k. unat k < 128)"
    by (rule keyboard_swapped [OF assms]) (simp_all add: hid_consts)
  then obtain k where "swappedKey (int NX_MODIFIERKEY_ALPHALOCK) 0 (parsedMapping w) = Some k"
    by (auto simp: ensures_def)
  then show ?thesis
    by (auto simp: swappedKey_def modDefAt_def capsKeyCode_def Let_def split: option.splits if_splits)
qed

lemma alpha_bit: "bit NX_ALPHASHIFTMASK n \<longleftrightarrow> n = 16"
  using single_bit [of 16 n] by (simp add: hid_consts)

text \<open>Releasing the modifiers that sticky keys hold, when there are none.\<close>

lemma cleanup_none:
  "modifiersDown w = 0 \<Longrightarrow> ensures (stickyKeysCleanup C w)
     (\<lambda>w'. hk_eventFlags w' = hk_eventFlags w \<and> modifiersDown w' = 0)"
  by (simp add: stickyKeysCleanup_def updSticky_def triggerSetFnState_def Let_def) (simp add: post_def)

lemma param_fields [simp]:
  "hk_eventFlags (setStickyFlag flag v w) = hk_eventFlags w" "modifiersDown (setStickyFlag flag v w) = modifiersDown w"
  by (simp_all add: setStickyFlag_def updSticky_def split: option.split)

context key_translation
begin

lemma ok_alphaState:
  assumes "keeps_ok C J w" and "\<And>n. n \<noteq> 16 \<Longrightarrow> bit myFlags n = bit (hk_eventFlags w) n"
  shows "ensures (changeAlphaState C myFlags on w) (keeps_ok C J)"
proof -
  let ?special = "\<lambda>m. if on then if \<not> doesKeyLock C NX_KEYTYPE_CAPS_LOCK
      then mp_specialKeyModifierFlags m OR NX_ALPHASHIFTMASK else mp_specialKeyModifierFlags m
    else mp_specialKeyModifierFlags m AND NOT NX_ALPHASHIFTMASK"
  let ?flags = "if on then myFlags OR NX_ALPHASHIFTMASK else myFlags AND NOT NX_ALPHASHIFTMASK"
  let ?u = "updMapper (\<lambda>m. m\<lparr>mp_specialKeyModifierFlags := ?special m\<rparr>) w"
  let ?v = "setAlphaLock on (setDeviceFlags ?flags ?u)"
  have u: "quiet w ?u"
    unfolding quiet_def by (rule conjI [OF calm_specialFlags]) (auto simp: untouched_def bit_simps alpha_bit dest: bit_imp_le_length)
  have v: "quiet ?u (setDeviceFlags ?flags ?u)"
    by (rule quiet_setDeviceFlags) (auto simp: assms(2) bit_simps alpha_bit dest: bit_imp_le_length)
  have q: "quiet w ?v" by (rule quiet_trans [OF u quiet_trans [OF v]]) simp
  have ok: "keeps_ok C J ?v" using ok_quiet [OF q assms(1)] by (simp add: calmly_def)
  obtain k where "capsKeyCode (parsedMapping ?v) = Some k"
    using caps_code [OF ok_keyboard [OF ok]] by blast
  then have eq: "changeAlphaState C myFlags on w = keyboardEvent NX_FLAGSCHANGED ?flags (ucast k) 0 0 0 0 ?v"
    by (simp add: changeAlphaState_def Let_def)
  show ?thesis
    unfolding eq
    by (rule ensures_mono [OF quiet_keyboardEvent [OF ok_keyboard [OF ok]]])
      (use ok ok_quiet in \<open>auto simp: calmly_def hid_consts\<close>)
qed

lemma ok_swapModifiers:
  assumes "keeps_ok C J w" and "swaps_ok d w"
    and "pa_modifierPairs d \<noteq> None \<longrightarrow> (\<forall>n. n \<noteq> 16 \<longrightarrow> bit myFlags n = bit (hk_eventFlags w) n)"
  shows "ensures (let (change, w) = swapModifiers C myFlags d w
      in case change of None \<Rightarrow> Some w | Some on \<Rightarrow> changeAlphaState C myFlags on w) (keeps_ok C J)"
proof (cases "pa_modifierPairs d")
  case None
  then show ?thesis using assms(1) by (simp add: swapModifiers_def)
next
  case (Some pairs)
  let ?st = "(mp_modifierSwap (hk_keyMap w), None)"
  let ?new = "if pairs \<noteq> [] then fold (swapPair C myFlags) pairs ?st
    else fold (resetSwap C myFlags) [0..<NX_NUMMODIFIERS] ?st"
  have "swap_ok (mp_modifierSwap (hk_keyMap w))"
    using ok_mapper [OF assms(1)] by (simp add: mapper_ok_def)
  moreover have "list_all pair_ok pairs" using assms(2) Some by (simp add: swaps_ok_def)
  moreover have "list_all (\<lambda>i. i < NX_NUMMODIFIERS) [0..<NX_NUMMODIFIERS]" by (simp add: list_all_iff)
  ultimately have "swap_ok (fst ?new)" using swap_ok_pairs swap_ok_reset by simp
  then have "keeps_ok C J (updMapper (\<lambda>m. m\<lparr>mp_modifierSwap := fst ?new\<rparr>) w)"
    by (intro ok_upd [OF assms(1)]) (simp_all add: mapper_ok_swap [OF ok_mapper [OF assms(1)]])
  note new = this ok_alphaState [OF this, of myFlags]
  show ?thesis
    using new assms(1,3) Some
    by (auto simp: swapModifiers_def Let_def case_prod_unfold split: option.split)
qed

text \<open>All preferences of the mapper.\<close>

lemma ok_params:
  assumes "keeps_ok C J w" and "swaps_ok d w"
  shows "ensures (mapper_setParamProperties C d w) (keeps_ok C J)"
proof -
  define S where "S v \<longleftrightarrow> keeps_ok C J v \<and> swaps_ok d v \<and>
    (pa_modifierPairs d \<noteq> None \<longrightarrow> hk_eventFlags v = hk_eventFlags w)" for v
  have S: "S w" using assms by (simp add: S_def)
  have same: "S v'" if "S v" "keeps_ok C J v'" "hk_eventFlags v' = hk_eventFlags v"
    "modifiersDown v' = modifiersDown v" for v v'
    using that by (simp add: S_def swaps_ok_def split: option.splits)
  have param: "S (setStickyFlag flag x v)" if "S v" for flag x v
    by (rule same [OF that]) (use that in \<open>simp_all add: ok_param S_def\<close>)
  have upd: "S (updMapper (\<lambda>m. m\<lparr>mp_ejectDelay := x\<rparr>) v)" "S (updMapper (\<lambda>m. m\<lparr>mp_slowKeysDelay := x\<rparr>) v)"
    if "S v" for v x
    by (rule same [OF that], rule ok_upd; use that in \<open>simp add: S_def ok_mapper\<close>)+
  have post: "S (post e v)" if "S v" for v e
    by (rule same [OF that]) (use that in \<open>simp_all add: S_def ok_post, simp_all add: post_def\<close>)
  have a: "S (let w = (case value32 (pa_ejectDelay d) of None \<Rightarrow> w
                   | Some v \<Rightarrow> updMapper (\<lambda>m. m\<lparr>mp_ejectDelay := v\<rparr>) w);
          w = setStickyFlag kState_MouseKeyStateOn (value32 (pa_mouseKeysOn d)) w;
          w = (case value32 (pa_slowKeysDelay d) of None \<Rightarrow> w
                   | Some v \<Rightarrow>
                       updMapper (\<lambda>m. m\<lparr>mp_slowKeysDelay := v\<rparr>)
                         (if mp_slowKeysDelay (hk_keyMap w) > 0 \<and> v = 0 \<and> slowIs kState_In_Progess_Flag w
                          then post CancelSlowKeysTimer w else w))
        in setStickyFlag kState_Disabled_Flag (value32 (pa_stickyDisabled d)) w)"
    unfolding Let_def by (auto intro!: param upd post S split: option.split)
  have cleanup: "ensures (stickyKeysCleanup C v) S" if "S v" "cleansUp d" for v
  proof (cases "pa_modifierPairs d")
    case None
    then show ?thesis
      using ensures_mono [OF ok_cleanup [of v]] that by (simp add: S_def swaps_ok_def)
  next
    case (Some pairs)
    then have "modifiersDown v = 0" using that by (simp add: S_def swaps_ok_def)
    from cleanup_none [OF this, of C] ok_cleanup [of v] that Some show ?thesis
      by (auto simp: S_def swaps_ok_def ensures_def)
  qed
  have b: "ensures (case value32 (pa_stickyDisabled d) of None \<Rightarrow> Some v
                | Some y \<Rightarrow> if y \<noteq> 0 then stickyKeysCleanup C v else Some v) S"
    "ensures (case value32 (pa_stickyOn d) of None \<Rightarrow> Some v
                | Some y \<Rightarrow> if y \<noteq> 0 then Some (updSticky (\<lambda>s. s OR kState_On) v) else stickyKeysCleanup C v) S"
    if v: "S v" for v
  proof -
    have "S (updSticky f v)" for f
      by (rule same [OF v]) (use v in \<open>simp_all add: S_def ok_updSticky\<close>, simp add: updSticky_def)
    then show "ensures (case value32 (pa_stickyDisabled d) of None \<Rightarrow> Some v
                | Some y \<Rightarrow> if y \<noteq> 0 then stickyKeysCleanup C v else Some v) S"
      and "ensures (case value32 (pa_stickyOn d) of None \<Rightarrow> Some v
                | Some y \<Rightarrow> if y \<noteq> 0 then Some (updSticky (\<lambda>s. s OR kState_On) v) else stickyKeysCleanup C v) S"
      using v cleanup [OF v] by (auto simp: cleansUp_def split: option.split)
  qed
  have c: "ensures (let w = setStickyFlag kState_PrefFnKeyStateOn (fKeyModeValue d) v;
          w = setStickyFlag kState_ShiftActivates_Flag (value32 (pa_shiftToggles d)) w;
          w = setStickyFlag kState_OptionActivates_Flag (value32 (pa_optionToggles d)) w;
          (change, w) = swapModifiers C (hk_eventFlags w0) d w
        in case change of None \<Rightarrow> Some w | Some alphaState \<Rightarrow> changeAlphaState C (hk_eventFlags w0) alphaState w)
      (keeps_ok C J)" if "S v" "w0 = w" for v w0
    unfolding Let_def [of "setStickyFlag _ _ _"] that(2)
    by (rule ok_swapModifiers; use param [OF param [OF param [OF that(1)]]] in \<open>simp add: S_def\<close>)
  show ?thesis
    unfolding mapper_setParamProperties_def
    using ensures_mono [OF b(1) [OF a], OF ensures_mono [OF b(2) c [OF _ refl]]]
    by (simp only: Let_def ensures_bind)
qed

end

end
