(* ===== verification/HID_Machine.thy ===== *)
theory HID_Machine
  imports HID_Entry
begin

text \<open>
  The keyboard as a state machine: its inputs are keys, timers, clicks and messages. Every
  input returns, and keeps the invariant: the tables in order, the lock free, and the
  modifier flags those of the keys held.
\<close>

section \<open>The contract holds for the flags\<close>

definition showing :: "hik_class \<Rightarrow> bool \<Rightarrow> keymap \<Rightarrow> kbd_reserved option \<Rightarrow> bool \<Rightarrow> hik \<Rightarrow> bool" where
  "showing C shorts km r l w \<longleftrightarrow>
     sound_keymap C shorts km \<and> flags_ok C shorts km w \<and> hk_reserved w = r \<and> hk_deviceLock w = l"

definition knowing :: "hik_class \<Rightarrow> bool \<Rightarrow> keymap \<Rightarrow> kbd_reserved option \<Rightarrow> bool \<Rightarrow> hik \<Rightarrow> bool" where
  "knowing C shorts km r l w \<longleftrightarrow> showing C shorts km r l w \<and> mp_cachedKeyBits (hk_keyMap w)"

lemma flags_ok_cong:
  assumes "parsedMapping w' = parsedMapping w" and "untouched w w'"
  shows "flags_ok C shorts km w' = flags_ok C shorts km w"
proof -
  have "tracks C km (heldKeys w') (hk_eventFlags w') = tracks C km (heldKeys w) (hk_eventFlags w)"
    by (rule tracks_cong) (use assms(2) in \<open>simp_all add: untouched_def\<close>)
  then show ?thesis using assms by (simp add: flags_ok_def shows_keys_def untouched_def)
qed

lemma calm_context:
  "calm w w' \<Longrightarrow> hk_reserved w' = hk_reserved w \<and> hk_deviceLock w' = hk_deviceLock w"
  unfolding calm_def using frozen_fields(1,2) by blast

lemma showing_raw:
  assumes "keyboard_ok C w" and "showing C shorts km r l w" and "unat key < 128"
  shows "ensures (rawTranslateKeyCode C key down True w) (showing C shorts km r l)"
proof -
  have "ensures (rawTranslateKeyCode C key down True w) (\<lambda>w'. flags_ok C shorts km w')"
    using ensures_mono [OF flags_rawTranslateKeyCode [OF assms(1) _ assms(3), of shorts km]] assms(2)
    by (simp add: showing_def)
  then show ?thesis
    using calm_rawTranslateKeyCode [OF assms(1,3), of down] calm_context assms(2)
    by (auto simp: ensures_def showing_def)
qed

interpretation flags: key_translation C "showing C shorts km r l" for C shorts km r l
proof
  show "ensures (rawTranslateKeyCode C key down True w) (showing C shorts km r l)"
    if "keyboard_ok C w" "showing C shorts km r l w" "unat key < 128" for w key down
    using that by (rule showing_raw)
  show "showing C shorts km r l w'"
    if "parsedMapping w' = parsedMapping w" "untouched w w'" "hk_reserved w' = hk_reserved w"
      "hk_deviceLock w' = hk_deviceLock w" "showing C shorts km r l w" for w w'
    using flags_ok_cong [OF that(1,2)] that by (simp add: showing_def)
qed

interpretation bits: cached_translation C "knowing C shorts km r l" for C shorts km r l
proof
  show "ensures (rawTranslateKeyCode C key down True w) (knowing C shorts km r l)"
    if "keyboard_ok C w" "knowing C shorts km r l w" "unat key < 128" for w key down
    using showing_raw [OF that(1) _ that(3), of shorts km r l down] that(2)
      calm_rawTranslateKeyCode [OF that(1,3), of down] calm_mapper(4)
    by (auto simp: ensures_def knowing_def)
  show "knowing C shorts km r l w'"
    if "parsedMapping w' = parsedMapping w" "untouched w w'"
      "mp_cachedKeyBits (hk_keyMap w') = mp_cachedKeyBits (hk_keyMap w)"
      "hk_reserved w' = hk_reserved w" "hk_deviceLock w' = hk_deviceLock w" "knowing C shorts km r l w" for w w'
    using flags_ok_cong [OF that(1,2)] that by (simp add: knowing_def showing_def)
  show "mp_cachedKeyBits (hk_keyMap w)" if "knowing C shorts km r l w" for w
    using that by (simp add: knowing_def)
qed

section \<open>The invariant between calls\<close>

definition kbd_inv :: "hik_class \<Rightarrow> bool \<Rightarrow> keymap \<Rightarrow> hik \<Rightarrow> bool" where
  "kbd_inv C shorts km w \<longleftrightarrow>
     features_ok C w \<and> sound_keymap C shorts km \<and> flags_ok C shorts km w \<and>
     \<not> hk_deviceLock w \<and> \<not> dispatching w"

text \<open>Two states that differ in what the invariant does not look at.\<close>

definition alike :: "hik \<Rightarrow> hik \<Rightarrow> bool" where
  "alike w w' \<longleftrightarrow> hk_keyMap w' = hk_keyMap w \<and> hk_keyState w' = hk_keyState w \<and>
     hk_hasKeyMap w' = hk_hasKeyMap w \<and> hk_eventFlags w' = hk_eventFlags w \<and>
     hk_codeToRepeat w' = hk_codeToRepeat w"

lemma alike_ok:
  assumes "alike w w'" and "features_ok C w" and "dispatching w' \<longrightarrow> hk_deviceLock w'"
  shows "features_ok C w'" and "flags_ok C shorts km w' = flags_ok C shorts km w"
  using assms by (simp_all add: alike_def features_ok_def keyboard_ok_def repeat_ok_def flags_ok_def shows_keys_def)

lemma alike_inv:
  assumes "alike w w'" and "kbd_inv C shorts km w" and "\<not> hk_deviceLock w'" and "\<not> dispatching w'"
  shows "kbd_inv C shorts km w'"
  using alike_ok [OF assms(1)] assms(2-4) by (simp add: kbd_inv_def)

lemma keeps_ok_alike:
  assumes "alike w w'" and "kbd_inv C shorts km w" and "dispatching w' \<longrightarrow> hk_deviceLock w'"
  shows "keeps_ok C (showing C shorts km (hk_reserved w') (hk_deviceLock w')) w'"
  using alike_ok [OF assms(1)] assms(2,3) by (simp add: keeps_ok_def showing_def kbd_inv_def)

lemma inv_keeps:
  "kbd_inv C shorts km w \<Longrightarrow> keeps_ok C (showing C shorts km (hk_reserved w) False) w"
  using keeps_ok_alike [of w w] by (simp add: alike_def kbd_inv_def)

lemma keeps_inv:
  assumes "keeps_ok C (showing C shorts km r l) w" and "alike w w'" and "\<not> hk_deviceLock w'" and "\<not> dispatching w'"
  shows "kbd_inv C shorts km w'"
  using alike_ok [OF assms(2)] assms(1,3,4) by (simp add: keeps_ok_def showing_def kbd_inv_def)

lemma knowing_showing: "keeps_ok C (knowing C shorts km r l) w \<Longrightarrow> keeps_ok C (showing C shorts km r l) w"
  by (simp add: keeps_ok_def knowing_def)

lemma byte_key: "\<not> 256 \<le> unat (key :: u8)"
  by (simp add: linorder_not_le)

text \<open>A key of the keyboard, translated with the lock held.\<close>

lemma translate_key:
  assumes "keeps_ok C (showing C shorts km r l) w" and "unat (ucast keyCode :: u8) < 128"
  shows "ensures (translateIfMapped C timersWork keyCode goingDown w) (keeps_ok C (showing C shorts km r l))"
proof -
  let ?u = "updMapper (\<lambda>m. m\<lparr>mp_cachedKeyBits := True\<rparr>) w"
  have ok: "features_ok C w" and "hk_hasKeyMap w"
    using assms(1) by (auto simp: keeps_ok_def features_ok_def keyboard_ok_def)
  have "mapper_ok ((hk_keyMap w)\<lparr>mp_cachedKeyBits := True\<rparr>)"
    using mapper_ok_cached [of "hk_keyMap w" True] ok by (simp add: features_ok_def)
  then have "features_ok C ?u" by (intro features_ok_updMapper [OF ok]) simp_all
  moreover have "flags_ok C shorts km ?u = flags_ok C shorts km w"
    by (rule flags_ok_cong) (simp_all add: untouched_def)
  ultimately have "keeps_ok C (knowing C shorts km r l) ?u"
    using assms(1) by (simp add: keeps_ok_def knowing_def showing_def)
  from ensures_mono [OF bits.ok_translate [OF this assms(2)] knowing_showing]
  have "ensures (translateKeyCode C timersWork (ucast keyCode) goingDown True ?u)
      (keeps_ok C (showing C shorts km r l))" .
  moreover have "translateKeyCode C timersWork key goingDown True ?u = translateKeyCode C timersWork key goingDown True w"
    for key using byte_key [of key] by (simp add: translateKeyCode_def updMapper_def hid_consts)
  ultimately show ?thesis using \<open>hk_hasKeyMap w\<close> by (simp add: translateIfMapped_def)
qed

section \<open>The inputs\<close>

lemma inv_updMapper:
  assumes "kbd_inv C shorts km w" and "mp_parsed (f (hk_keyMap w)) = mp_parsed (hk_keyMap w)"
    and "mp_specialKeyModifierFlags (f (hk_keyMap w)) = mp_specialKeyModifierFlags (hk_keyMap w)"
    and "mapper_ok (f (hk_keyMap w))"
  shows "kbd_inv C shorts km (updMapper f w)"
proof -
  have "flags_ok C shorts km (updMapper f w) = flags_ok C shorts km w"
    by (rule flags_ok_cong) (use assms in \<open>simp_all add: untouched_def\<close>)
  then show ?thesis
    using assms features_ok_updMapper [of C w f]
    by (simp add: kbd_inv_def) (simp add: updMapper_def dispatching_def)
qed

lemma inv_mapper: "kbd_inv C shorts km w \<Longrightarrow> mapper_ok (hk_keyMap w)"
  by (simp add: kbd_inv_def features_ok_def)

lemma alike_post [simp]: "alike w (post e w)"
  by (simp add: alike_def post_def)

lemma inv_post: "kbd_inv C shorts km w \<Longrightarrow> kbd_inv C shorts km (post e w)"
  by (rule alike_inv [OF alike_post]) (simp_all add: kbd_inv_def post_def dispatching_def)

lemma inv_postProcess: "kbd_inv C shorts km w \<Longrightarrow> kbd_inv C shorts km (keyEventPostProcess w)"
  unfolding keyEventPostProcess_def Let_def
  by (auto intro!: inv_updMapper inv_post simp: inv_mapper)

lemma dispatching_set [simp]:
  "\<not> dispatching (setDispatching False w)" "\<not> dispatching (unlockDevice (setDispatching False w))"
  by (simp_all add: dispatching_def setDispatching_def unlockDevice_def split: option.split)

lemma inv_dispatch:
  assumes inv: "kbd_inv C shorts km w" and key: "unat (ucast keyCode :: u8) < 128"
  shows "ensures (dispatchKeyboardEvent C timersWork keyCode goingDown time w) (kbd_inv C shorts km)"
proof -
  let ?l = "w\<lparr>hk_deviceLock := True, hk_lastEventTime := time\<rparr>"
  define v where "v = (if hasNub ?l then post (NubKeyboardEvent keyCode goingDown) ?l else ?l)"
  have lock: "lockDevice w = Some (w\<lparr>hk_deviceLock := True\<rparr>)"
    using inv by (simp add: lockDevice_def kbd_inv_def)
  have v: "alike w v" "hk_deviceLock v" "hk_reserved v = hk_reserved w"
    by (simp_all add: v_def alike_def post_def)
  have "\<not> dispatching v" using inv v(3) by (simp add: kbd_inv_def dispatching_def)
  then have seized: "kbd_inv C shorts km (unlockDevice v)"
    using v by (intro alike_inv [OF _ inv]) (simp_all add: alike_def unlockDevice_def dispatching_def)
  let ?u = "setDispatching True v"
  have "keeps_ok C (showing C shorts km (hk_reserved ?u) (hk_deviceLock ?u)) ?u"
    using v by (intro keeps_ok_alike [OF _ inv]) (simp_all add: alike_def setDispatching_def)
  note tr = translate_key [OF this key, of timersWork goingDown]
  have rest: "kbd_inv C shorts km (let w = unlockDevice (setDispatching False x)
      in if hk_hasKeyMap w then keyEventPostProcess w else w)" if "keeps_ok C (showing C shorts km r l) x" for r l x
  proof -
    have "kbd_inv C shorts km (unlockDevice (setDispatching False x))"
      by (rule keeps_inv [OF that]) (simp_all add: alike_def, simp_all add: unlockDevice_def setDispatching_def)
    then show ?thesis by (simp add: Let_def inv_postProcess)
  qed
  note all = ensures_mono [OF tr rest]
  have fold: "(let w = (w\<lparr>hk_deviceLock := True\<rparr>)\<lparr>hk_lastEventTime := time\<rparr>;
      w = (if hasNub w then post (NubKeyboardEvent keyCode goingDown) w else w) in F w) = F v" for F :: "hik \<Rightarrow> hik option"
    by (simp add: v_def Let_def)
  show ?thesis
    unfolding dispatchKeyboardEvent_def lock Option.bind.simps fold
    using seized all by (simp add: ensures_bind Let_def)
qed

text \<open>
  The timer of the repeat translates the key to repeat, if the repeat has not been cancelled.
\<close>

definition repeats_key :: "hik \<Rightarrow> bool" where
  "repeats_key w \<longleftrightarrow> (hk_calloutPending w \<and> hk_downRepeatTime w \<noteq> 0 \<longrightarrow> hk_codeToRepeat w < 128)"

lemma inv_repeat:
  assumes inv: "kbd_inv C shorts km w" and code: "repeats_key w"
  shows "ensures (autoRepeat C timersWork w) (kbd_inv C shorts km)"
proof (cases "hk_calloutPending w")
  case False
  have "kbd_inv C shorts km (unlockDevice (w\<lparr>hk_deviceLock := True\<rparr>))"
    by (rule alike_inv [OF _ inv]) (use inv in \<open>simp_all add: alike_def unlockDevice_def kbd_inv_def dispatching_def\<close>)
  then show ?thesis using False inv by (simp add: autoRepeat_def lockDevice_def kbd_inv_def)
next
  case True
  define u where "u = setDispatching True (w\<lparr>hk_deviceLock := True, hk_calloutPending := False, hk_isRepeat := True\<rparr>)"
  have u: "alike w u" "hk_deviceLock u" by (simp_all add: u_def alike_def setDispatching_def)
  then have ok: "keeps_ok C (showing C shorts km (hk_reserved u) (hk_deviceLock u)) u"
    by (intro keeps_ok_alike [OF _ inv]) simp_all
  have rest: "kbd_inv C shorts km (unlockDevice (scheduleAutoRepeat ((setDispatching False x)\<lparr>hk_isRepeat := False\<rparr>)))"
    if "keeps_ok C (showing C shorts km r l) y" "alike y x" for r l x y
  proof (rule keeps_inv [OF that(1)])
    let ?z = "unlockDevice (scheduleAutoRepeat ((setDispatching False x)\<lparr>hk_isRepeat := False\<rparr>))"
    have res: "hk_reserved (scheduleAutoRepeat a) = hk_reserved a" "hk_hasKeyMap (scheduleAutoRepeat a) = hk_hasKeyMap a" for a
      by (simp_all add: scheduleAutoRepeat_def post_def Let_def)
    show "alike y ?z" using that(2) by (simp add: alike_def unlockDevice_def setDispatching_def res)
    show "\<not> hk_deviceLock ?z" by (simp add: unlockDevice_def)
    show "\<not> dispatching ?z"
      using dispatching_set(1) [of x] by (simp add: dispatching_def unlockDevice_def res)
  qed
  have eq: "autoRepeat C timersWork w = Option.bind
      (if hk_downRepeatTime u \<noteq> 0
       then Option.bind (translateIfMapped C timersWork (hk_codeToRepeat u) True u)
              (\<lambda>w. Some (w\<lparr>hk_downRepeatTime := hk_keyRepeat w\<rparr>))
       else Some u)
      (\<lambda>w. Some (unlockDevice (scheduleAutoRepeat ((setDispatching False w)\<lparr>hk_isRepeat := False\<rparr>))))"
    using True inv by (simp add: autoRepeat_def lockDevice_def kbd_inv_def dispatching_def Let_def u_def)
  show ?thesis
  proof (cases "hk_downRepeatTime u = 0")
    case True
    then show ?thesis unfolding eq using rest [OF ok] by (simp add: ensures_bind alike_def)
  next
    case False
    have "hk_codeToRepeat u < 128"
      using True False code by (simp add: repeats_key_def u_def setDispatching_def)
    then have "unat (ucast (hk_codeToRepeat u) :: u8) < 128"
      by (simp add: word_less_nat_alt unsigned_ucast_eq take_bit_eq_mod)
    note tr = translate_key [OF ok this, of timersWork True]
    have "kbd_inv C shorts km (unlockDevice (scheduleAutoRepeat
        ((setDispatching False (x\<lparr>hk_downRepeatTime := hk_keyRepeat x\<rparr>))\<lparr>hk_isRepeat := False\<rparr>)))"
      if "keeps_ok C (showing C shorts km r l) x" for r l x
      by (rule rest [OF that]) (simp add: alike_def)
    then show ?thesis unfolding eq using False ensures_mono [OF tr] by (simp add: ensures_bind)
  qed
qed

end
