(* ===== verification/HID_Open.thy ===== *)
theory HID_Open
  imports HID_Machine
begin

text \<open>
  A keyboard that has been initialised, started and opened satisfies the invariant: its mapper
  is new, its key map the one of its class, no key is held and no modifier shown.
\<close>

section \<open>A new mapper\<close>

text \<open>What the types of the fields say of freshly allocated memory.\<close>

definition junk_ok :: "mapper \<Rightarrow> bool" where
  "junk_ok junk \<longleftrightarrow> length (mp_stuck junk) = kMAX_MODIFIERS \<and>
     length (tg_deadlines (mp_shiftToggle junk)) = kNUM_SHIFTS_TO_ACTIVATE \<and>
     length (tg_deadlines (mp_optionToggle junk)) = kNUM_SHIFTS_TO_ACTIVATE"

text \<open>No feature but the eject key is switched on.\<close>

definition plain_mapper :: "mapper \<Rightarrow> bool" where
  "plain_mapper m \<longleftrightarrow> mp_stickyState m = 0 \<and> mp_slowKeysDelay m = 0 \<and>
     mp_modifierSwap m = map of_nat [0..<NX_NUMMODIFIERS]"

definition lock_only :: "u32 \<Rightarrow> bool" where
  "lock_only flags \<longleftrightarrow> (\<forall>n. n \<noteq> 16 \<longrightarrow> \<not> bit flags n)"

lemma swap_identity: "swap_ok (map of_nat [0..<NX_NUMMODIFIERS])"
  by (simp add: swap_ok_def hid_consts upt_rec swapEntry_def)

lemma lock_only_mask [simp]:
  "lock_only 0" "lock_only x \<Longrightarrow> lock_only (x OR NX_ALPHASHIFTMASK)" "lock_only x \<Longrightarrow> lock_only (x AND NOT y)"
  "lock_only NX_ALPHASHIFTMASK"
  by (simp_all add: lock_only_def bit_simps alpha_bit)

lemma setDeviceFlags_rest [simp]:
  "hk_deviceLock (setDeviceFlags f w) = hk_deviceLock w" "hk_reserved (setDeviceFlags f w) = hk_reserved w"
  "repeat_ok w \<Longrightarrow> repeat_ok (setDeviceFlags f w)" "hk_keysDefined (setDeviceFlags f w) = hk_keysDefined w"
  by (simp_all add: setDeviceFlags_def repeat_ok_def scheduleAutoRepeat_def post_def Let_def)

lemma repeat_ok_simps [simp]:
  "repeat_ok (post e w) = repeat_ok w" "repeat_ok (w\<lparr>hk_supportedModifiers := x\<rparr>) = repeat_ok w"
  "repeat_ok (w\<lparr>hk_keysDefined := b\<rparr>) = repeat_ok w"
  by (simp_all add: repeat_ok_def post_def)

lemma post_rest [simp]:
  "hk_keyState (post e w) = hk_keyState w" "hk_eventFlags (post e w) = hk_eventFlags w"
  "hk_deviceLock (post e w) = hk_deviceLock w" "hk_reserved (post e w) = hk_reserved w"
  "hk_alphaLock (post e w) = hk_alphaLock w" "hk_keysDefined (post e w) = hk_keysDefined w"
  by (simp_all add: post_def)

lemma new_mapper:
  assumes "plain_class C" and "parseKeyMapping C mapping = Some (Some pm)" and "0 < pm_maxMod pm"
    and "junk_ok junk" and "repeat_ok w"
  shows "ensures (keyboardMapper C mapping junk w)
    (\<lambda>(r, w'). \<exists>m. r = Some m \<and> mp_parsed m = pm \<and> mapper_ok m \<and> plain_mapper m \<and>
       mp_numModifiersDown m = 0 \<and> lock_only (mp_specialKeyModifierFlags m) \<and>
       (\<forall>n. n \<noteq> 16 \<longrightarrow> bit (hk_eventFlags w') n = bit (hk_eventFlags w) n) \<and>
       hk_keyState w' = hk_keyState w \<and> hk_deviceLock w' = hk_deviceLock w \<and>
       hk_reserved w' = hk_reserved w \<and> repeat_ok w')"
proof -
  have plain: "\<not> doesKeyLock C NX_KEYTYPE_CAPS_LOCK" using assms(1) by (simp add: plain_class_def)
  have num: "\<not> pm_maxMod pm \<le> 0" using assms(3) by simp
  show ?thesis
    using assms(4,5) swap_identity
    by (auto simp: keyboardMapper_def assms(2) initModifiers_def initKeysDefined_def initAlphaLock_def
        initialMapper_def stickyKeysinit_def new_toggle_def plain num Let_def junk_ok_def
        mapper_ok_def table_ok_def slow_ok_def toggle_ok_def plain_mapper_def bit_simps alpha_bit
        dest: bit_imp_le_length)
qed


section \<open>Opening\<close>

definition openedKeyboard ::
  "hik_class \<Rightarrow> bool \<Rightarrow> bool \<Rightarrow> mapper \<Rightarrow> hik \<Rightarrow> (bool \<times> hik) option" where
  "openedKeyboard C clientIsSystem newNub junk w =
     hik_open C True clientIsSystem newNub junk (snd (hik_start True (snd (hik_init C True w))))"

definition seized :: "hik \<Rightarrow> bool" where
  "seized w \<longleftrightarrow> (case hk_reserved w of None \<Rightarrow> False | Some r \<Rightarrow> rs_isSeized r)"

text \<open>An open keyboard without features, with the keys \<open>D\<close> held.\<close>

definition plain_inv :: "hik_class \<Rightarrow> bool \<Rightarrow> keymap \<Rightarrow> nat set \<Rightarrow> hik \<Rightarrow> bool" where
  "plain_inv C shorts km D w \<longleftrightarrow>
     kbd_inv C shorts km w \<and> plain_mapper (hk_keyMap w) \<and> \<not> seized w \<and> hk_keyboardEventAction w \<and>
     heldKeys w = D"

lemma lock_only_tracks:
  assumes "lock_only flags"
  shows "tracks C km {} flags"
proof -
  have "\<not> bit flags (16 + j)" if "1 \<le> j" for j using assms that by (simp add: lock_only_def)
  moreover have "\<not> bit flags n" if "deviceBit j = Some n" for j n
    using assms deviceBit_range [OF that] by (simp add: lock_only_def)
  moreover have "\<not> isDown C km {} j" for j by (simp add: isDown_def split: option.split)
  ultimately show ?thesis by (simp add: tracks_def)
qed

lemma no_keys: "downKeys [0, 0, 0, 0] = {}"
proof -
  have "[0, 0, 0, 0 :: u32] ! (k div 32) = 0" if "k < 128" for k
  proof -
    have "k div 32 = 0 \<or> k div 32 = 1 \<or> k div 32 = 2 \<or> k div 32 = 3" using that by linarith
    then show ?thesis by auto
  qed
  then show ?thesis by (auto simp: downKeys_def)
qed

lemma represents_maxMod: "represents C shorts pm km \<Longrightarrow> pm_maxMod pm = maxModOf km"
  by (simp add: represents_def)

lemma four_words: "replicate 4 (0 :: u32) = [0, 0, 0, 0]"
  by (simp add: numeral_eq_Suc)

lemma opened_inv:
  assumes C: "plain_class C" "maxKeyCodes C = 128" "defaultKeymap C = encode shorts km"
    and km: "sound_keymap C shorts km" "0 < maxModOf km"
    and w: "junk_ok junk" "hk_eventFlags w = 0"
  shows "ensures (openedKeyboard C clientIsSystem newNub junk w)
    (\<lambda>(ok, w'). ok \<and> plain_inv C shorts km {} w')"
proof -
  let ?w = "snd (hik_start True (snd (hik_init C True w)))"
  have bits: "hk_keyState ?w = [0, 0, 0, 0]"
    by (simp add: hik_init_def hik_start_def C(2) four_words)
  have fields: "hk_eventFlags ?w = 0" "repeat_ok ?w" "\<not> hk_deviceLock ?w" "\<not> dispatching ?w" "\<not> hk_hasKeyMap ?w"
    using w(2) by (simp_all add: hik_init_def hik_start_def repeat_ok_def dispatching_def)
  obtain pm where pm: "parseKeyMapping C (defaultKeymap C) = Some (Some pm)" "represents C shorts pm km"
    using parse_encode [of C shorts km] km(1) C(3) by (auto simp: sound_keymap_def)
  let ?l = "?w\<lparr>hk_deviceLock := True\<rparr>"
  have "ensures (keyboardMapper C (defaultKeymap C) junk ?l)
    (\<lambda>(r, w'). \<exists>m. r = Some m \<and> mp_parsed m = pm \<and> mapper_ok m \<and> plain_mapper m \<and>
       mp_numModifiersDown m = 0 \<and> lock_only (mp_specialKeyModifierFlags m) \<and>
       (\<forall>n. n \<noteq> 16 \<longrightarrow> bit (hk_eventFlags w') n = bit (hk_eventFlags ?l) n) \<and>
       hk_keyState w' = hk_keyState ?l \<and> hk_deviceLock w' = hk_deviceLock ?l \<and>
       hk_reserved w' = hk_reserved ?l \<and> repeat_ok w')"
    using pm represents_maxMod [OF pm(2)] fields km(2)
    by (intro new_mapper [OF C(1) pm(1) _ w(1)]) (simp_all add: repeat_ok_def)
  then obtain m v where v: "keyboardMapper C (defaultKeymap C) junk ?l = Some (Some m, v)"
    "mp_parsed m = pm" "mapper_ok m" "plain_mapper m" "lock_only (mp_specialKeyModifierFlags m)"
    "lock_only (hk_eventFlags v)" "hk_keyState v = [0, 0, 0, 0]" "hk_reserved v = hk_reserved ?w" "repeat_ok v"
    using fields(1) by (auto simp: ensures_def bits lock_only_def)
  have res: "hk_reserved v = Some \<lparr>rs_dispatchEventCalled = False, rs_isSeized = False,
      rs_repeatMode = True, rs_keyboardNub = False\<rparr>"
    unfolding v(8) by (simp add: hik_init_def hik_start_def)
  have "ensures (openedKeyboard C clientIsSystem newNub junk w) (\<lambda>(ok, u). ok \<and>
    hk_keyMap u = m\<lparr>mp_hidSystem := clientIsSystem\<rparr> \<and> hk_hasKeyMap u \<and> hk_keyState u = [0, 0, 0, 0] \<and>
    hk_eventFlags u = hk_eventFlags v \<and> hk_codeToRepeat u = hk_codeToRepeat v \<and> \<not> hk_deviceLock u \<and>
    \<not> dispatching u \<and> \<not> seized u \<and> hk_keyboardEventAction u)"
    unfolding openedKeyboard_def hik_open_def resetKeyboard_def lockDevice_def
    using fields(3,5) v(7) res
    by (simp add: v(1) Let_def installMapper_def unlockDevice_def dispatching_def seized_def updMapper_def post_def)
  then obtain u where u: "openedKeyboard C clientIsSystem newNub junk w = Some (True, u)"
    "hk_keyMap u = m\<lparr>mp_hidSystem := clientIsSystem\<rparr>" "hk_hasKeyMap u" "hk_keyState u = [0, 0, 0, 0]"
    "hk_eventFlags u = hk_eventFlags v" "hk_codeToRepeat u = hk_codeToRepeat v" "\<not> hk_deviceLock u"
    "\<not> dispatching u" "\<not> seized u" "hk_keyboardEventAction u"
    by (auto simp: ensures_def)
  have "keyboard_ok C u"
    using C(1) u fields v(2) pm(2) km(1) by (auto simp: keyboard_ok_def)
  then have "features_ok C u"
    using u v(3,9) by (simp add: features_ok_def repeat_ok_def)
  moreover have "flags_ok C shorts km u"
    using u v(2,5,6) pm(2) lock_only_tracks by (simp add: flags_ok_def shows_keys_def no_keys lock_only_def)
  ultimately show ?thesis
    using u km(1) fields v(4) by (simp add: plain_inv_def kbd_inv_def no_keys plain_mapper_def)
qed

section \<open>A concrete keyboard\<close>

text \<open>Cleared memory, and the key map of the PS/2 keyboard driver.\<close>

definition blank_toggle :: toggle_info where
  "blank_toggle = \<lparr>tg_toggleModifier = 0, tg_repetitionsToToggle = 0, tg_expireInterval = 0,
     tg_currentCount = 0, tg_deadlines = [0, 0, 0, 0, 0]\<rparr>"

definition blank_mapper :: mapper where
  "blank_mapper = \<lparr>mp_parsed = emptyMapping [], mp_hidSystem = False, mp_stateDirty = False,
     mp_f12EjectState = 0, mp_ejectDelay = 0, mp_ejectTimer = False, mp_cachedKeyBits = False,
     mp_stuck = [clearStuck, clearStuck, clearStuck, clearStuck, clearStuck], mp_mouseClickSource = False,
     mp_setFnStateSource = False, mp_slowKeysState = 0, mp_slowKeysDelay = 0, mp_slowKeysTimer = False,
     mp_slowKeysAborted = 0, mp_slowKeysCurrent = 0, mp_specialKeyModifierFlags = 0,
     mp_supportsF12Eject = False, mp_modifierSwap = [], mp_cachedAlphaLockModDefs = None,
     mp_stickyState = 0, mp_numModifiersDown = 0, mp_shiftToggle = blank_toggle, mp_optionToggle = blank_toggle\<rparr>"

definition blank_keyboard :: hik where
  "blank_keyboard = \<lparr>hk_events = [], hk_uptime = 0, hk_deviceLock = False, hk_hasKeyMap = False,
     hk_keyMap = blank_mapper, hk_interfaceType = 0, hk_deviceType = 0, hk_keyState = [], hk_eventFlags = 0,
     hk_alphaLock = False, hk_numLock = False, hk_charKeyActive = False, hk_isRepeat = False,
     hk_codeToRepeat = 0, hk_calloutPending = False, hk_lastEventTime = 0, hk_downRepeatTime = 0,
     hk_keyRepeat = 0, hk_initialKeyRepeat = 0, hk_guid = 0, hk_keyboardEventAction = False,
     hk_keyboardSpecialEventAction = False, hk_updateEventFlagsAction = False, hk_reserved = None,
     hk_keysDefined = False, hk_supportedModifiers = 0\<rparr>"

lemma blank_ok: "junk_ok blank_mapper" "hk_eventFlags blank_keyboard = 0"
  by (simp_all add: junk_ok_def blank_mapper_def blank_toggle_def blank_keyboard_def hid_consts)

lemma ps2_plain: "plain_class (ps2_class model absolute)" "maxKeyCodes (ps2_class model absolute) = 128"
  by (simp_all add: plain_class_def ps2_class_def)

lemma ps2_keymap: "defaultKeymap (ps2_class model absolute) = encode False usKeyMap"
  by (simp add: usKeyMap_bytes ps2_class_def defaultKeymapOfLength_def)

lemma usKeyMap_sound: "sound_keymap (ps2_class model absolute) False usKeyMap"
proof -
  have "wf_keymap (ps2_class model absolute) False usKeyMap"
    by (rule usKeyMap_wf) (simp add: ps2_class_def)
  moreover have "list_all (\<lambda>(j, ks). list_all (\<lambda>k. k < 128 \<and> (k = 0x3f \<longrightarrow> j = NX_MODIFIERKEY_SECONDARYFN)) ks)
      (km_modifiers usKeyMap)"
    "list_all (list_all (\<lambda>(a, b). a = 0xFF \<longrightarrow> b < NX_NUMMODIFIERS)) (km_seqs usKeyMap)"
    by (simp_all add: usKeyMap_def hid_consts)
  moreover have "specialsOf (ps2_class model absolute) usKeyMap ! NX_KEYTYPE_CAPS_LOCK < 128"
    by (simp add: specialsOf_def usKeyMap_def hid_consts)
  ultimately show ?thesis by (simp add: sound_keymap_def)
qed

lemmas ps2_opened = opened_inv [OF ps2_plain ps2_keymap usKeyMap_sound, unfolded usKeyMap_maxMod, simplified]

end
