(* ===== verification/HID_Runs.thy ===== *)
theory HID_Runs
  imports HID_Open
begin

text \<open>
  Runs of a keyboard: the inputs that reach it, in any order, with the clock going on. The
  properties say that no input stops a run, and what the modifier flags are after it.
\<close>

section \<open>The other inputs\<close>

lemma inv_slowTimer:
  assumes inv: "kbd_inv C shorts km w" and "slowIs kState_In_Progess_Flag w"
  shows "ensures (slowKeysPostProcess C timersWork w) (kbd_inv C shorts km)"
proof -
  have "mp_slowKeysState (hk_keyMap w) AND (kState_In_Progess_Flag OR kState_Is_Repeat_Flag) \<noteq> 0"
    using assms(2) and_more [of _ kState_In_Progess_Flag kState_Is_Repeat_Flag]
    by (simp add: slowIs_def or.commute)
  then have "mp_cachedKeyBits (hk_keyMap w)"
    using inv_mapper [OF inv] by (simp add: mapper_ok_def slow_ok_def)
  then have "keeps_ok C (knowing C shorts km (hk_reserved w) False) w"
    using inv_keeps [OF inv] by (simp add: keeps_ok_def knowing_def)
  from ensures_mono [OF bits.ok_slowTimer [OF this assms(2)]] inv show ?thesis
    by (auto simp: keeps_ok_def knowing_def showing_def kbd_inv_def dispatching_def)
qed

lemma showing_inv:
  "\<not> dispatching w \<Longrightarrow> keeps_ok C (showing C shorts km (hk_reserved w) False) w' \<Longrightarrow> kbd_inv C shorts km w'"
  by (simp add: keeps_ok_def showing_def kbd_inv_def dispatching_def)

lemma inv_mouseUp:
  assumes "kbd_inv C shorts km w"
  shows "ensures (stickyKeysMouseUp C timersWork w) (kbd_inv C shorts km)"
  by (rule ensures_mono [OF flags.ok_mouseUp [OF inv_keeps [OF assms]]], rule showing_inv)
    (use assms in \<open>simp_all add: kbd_inv_def\<close>)

lemma inv_reserved:
  assumes "kbd_inv C shorts km w" and "\<And>r. rs_dispatchEventCalled (f r) = rs_dispatchEventCalled r"
  shows "kbd_inv C shorts km (w\<lparr>hk_reserved := map_option f (hk_reserved w)\<rparr>)"
proof (rule alike_inv [OF _ assms(1)])
  show "\<not> dispatching (w\<lparr>hk_reserved := map_option f (hk_reserved w)\<rparr>)"
    using assms by (cases "hk_reserved w") (simp_all add: kbd_inv_def dispatching_def)
qed (use assms in \<open>simp_all add: alike_def kbd_inv_def\<close>)

lemma inv_message: "kbd_inv C shorts km w \<Longrightarrow> kbd_inv C shorts km (hik_message msg w)"
  by (cases msg) (simp_all add: hik_message_def inv_post inv_reserved)

lemma inv_repeatMode:
  assumes "kbd_inv C shorts km w"
  shows "ensures (setRepeatMode b w) (kbd_inv C shorts km)"
proof -
  let ?u = "w\<lparr>hk_reserved := map_option (\<lambda>r. r\<lparr>rs_repeatMode := b\<rparr>) (hk_reserved w)\<rparr>"
  have u: "kbd_inv C shorts km ?u" by (rule inv_reserved [OF assms]) simp
  have "setRepeatMode b w = Some (unlockDevice ?u)"
    using assms by (simp add: setRepeatMode_def lockDevice_def kbd_inv_def unlockDevice_def)
  moreover have "kbd_inv C shorts km (unlockDevice ?u)"
    by (rule alike_inv [OF _ u]) (use u in \<open>simp_all add: alike_def unlockDevice_def kbd_inv_def dispatching_def\<close>)
  ultimately show ?thesis by simp
qed

subsection \<open>Preferences\<close>

text \<open>
  The key map of the class, with at least one modifier: what a reset of the keyboard installs
  again. The flags survive it, since the bit vector does and the modifiers are the same keys.
\<close>

definition own_map :: "hik_class \<Rightarrow> bool \<Rightarrow> keymap \<Rightarrow> bool" where
  "own_map C shorts km \<longleftrightarrow> defaultKeymap C = encode shorts km \<and> 0 < maxModOf km"

lemma keeps_alike:
  assumes "keeps_ok C (showing C shorts km r l) w" and "alike w w'"
    and "hk_reserved w' = hk_reserved w" and "hk_deviceLock w' = hk_deviceLock w"
  shows "keeps_ok C (showing C shorts km r l) w'"
proof -
  have ok: "features_ok C w" "showing C shorts km r l w" using assms(1) by (simp_all add: keeps_ok_def)
  have "dispatching w' = dispatching w" using assms(3) by (simp add: dispatching_def)
  moreover have "dispatching w \<longrightarrow> hk_deviceLock w" using ok(1) by (simp add: features_ok_def keyboard_ok_def)
  ultimately have "dispatching w' \<longrightarrow> hk_deviceLock w'" using assms(4) by simp
  from alike_ok [OF assms(2) ok(1) this] show ?thesis
    using ok assms(3,4) by (simp add: keeps_ok_def showing_def)
qed

lemma new_mapper_keeps:
  assumes ok: "keeps_ok C (showing C shorts km r l) w" and own: "own_map C shorts km" and junk: "junk_ok junk"
  shows "ensures (keyboardMapper C (defaultKeymap C) junk w) (\<lambda>(m, v). \<exists>m'. m = Some m' \<and>
    keeps_ok C (showing C shorts km r l) (installMapper t m' v) \<and> mp_numModifiersDown m' = 0)"
proof -
  have w: "plain_class C" "length (hk_keyState w) = 4" "dispatching w \<longrightarrow> hk_deviceLock w" "repeat_ok w"
    and sh: "sound_keymap C shorts km" "flags_ok C shorts km w" "hk_reserved w = r" "hk_deviceLock w = l"
    using ok by (auto simp: keeps_ok_def features_ok_def keyboard_ok_def showing_def)
  obtain pm where pm: "parseKeyMapping C (defaultKeymap C) = Some (Some pm)" "represents C shorts pm km"
    using parse_encode [of C shorts km] sh(1) own by (auto simp: sound_keymap_def own_map_def)
  have "0 < pm_maxMod pm" using own represents_maxMod [OF pm(2)] by (simp add: own_map_def)
  note new = new_mapper [OF w(1) pm(1) this junk w(4)]
  have "keeps_ok C (showing C shorts km r l) (installMapper t m v)"
    if m: "mp_parsed m = pm" "mapper_ok m" "lock_only (mp_specialKeyModifierFlags m)"
      and v: "\<forall>n. n \<noteq> 16 \<longrightarrow> bit (hk_eventFlags v) n = bit (hk_eventFlags w) n" "hk_keyState v = hk_keyState w"
        "hk_deviceLock v = hk_deviceLock w" "hk_reserved v = hk_reserved w" "repeat_ok v" for m v
  proof -
    let ?u = "installMapper t m v"
    have u: "hk_keyMap ?u = m\<lparr>mp_hidSystem := t\<rparr>" "hk_hasKeyMap ?u" "hk_keyState ?u = hk_keyState w"
      "hk_deviceLock ?u = l" "hk_reserved ?u = r" "hk_eventFlags ?u = hk_eventFlags v" "repeat_ok ?u"
      using v sh by (simp_all add: installMapper_def repeat_ok_def)
    have "keyboard_ok C ?u"
      unfolding keyboard_ok_def using w u m(1) pm(2) sh by (auto simp: dispatching_def)
    then have "features_ok C ?u" using u m(2) by (simp add: features_ok_def)
    moreover have "tracks C km (heldKeys w) (hk_eventFlags v) = tracks C km (heldKeys w) (hk_eventFlags w)"
      by (rule tracks_cong) (simp_all add: v(1))
    then have "flags_ok C shorts km ?u"
      using sh(2) m(1,3) pm(2) by (simp add: flags_ok_def shows_keys_def u lock_only_def)
    ultimately show ?thesis using sh(1) u by (simp add: keeps_ok_def showing_def)
  qed
  then show ?thesis by (intro ensures_mono [OF new]) auto
qed

lemma inv_reset:
  assumes inv: "kbd_inv C shorts km w" and own: "own_map C shorts km" and junk: "junk_ok junk"
  shows "ensures (resetKeyboard C t nub junk w) (\<lambda>p. kbd_inv C shorts km (snd p) \<and> modifiersDown (snd p) = 0)"
proof -
  let ?l = "w\<lparr>hk_deviceLock := True\<rparr>"
  have lock: "lockDevice w = Some ?l" using inv by (simp add: lockDevice_def kbd_inv_def)
  have idle: "\<not> dispatching w" using inv by (simp add: kbd_inv_def)
  have "keeps_ok C (showing C shorts km (hk_reserved ?l) (hk_deviceLock ?l)) ?l"
    by (rule keeps_ok_alike [OF _ inv]) (simp_all add: alike_def)
  note new = new_mapper_keeps [OF this own junk, of t]
  define rest where "rest m v = (let w = (installMapper t m v)
      \<lparr>hk_keyRepeat := nanosecondsToAbsolute C EV_DEFAULTKEYREPEAT,
       hk_initialKeyRepeat := nanosecondsToAbsolute C EV_DEFAULTINITIALREPEAT\<rparr>;
      w = post UpdateProperties w;
      w = w\<lparr>hk_interfaceType := interfaceID C, hk_deviceType := deviceType C, hk_guid := getGUID C\<rparr>
    in if hk_keysDefined w
       then w\<lparr>hk_reserved := map_option (\<lambda>r. r\<lparr>rs_keyboardNub := rs_keyboardNub r \<or> nub\<rparr>) (hk_reserved w)\<rparr>
       else w)" for m v
  obtain m v where k: "keyboardMapper C (defaultKeymap C) junk ?l = Some (Some m, v)"
    "keeps_ok C (showing C shorts km (hk_reserved w) True) (installMapper t m v)" "mp_numModifiersDown m = 0"
    using new by (auto simp: ensures_def)
  have eq: "resetKeyboard C t nub junk w = Some (hk_hasKeyMap (rest m v), unlockDevice (rest m v))"
    by (simp add: resetKeyboard_def lock rest_def k(1) Let_def)
  have "kbd_inv C shorts km (unlockDevice (rest m v)) \<and> modifiersDown (unlockDevice (rest m v)) = 0"
  proof
    have "hk_reserved v = hk_reserved w" using k(2) by (simp add: keeps_ok_def showing_def installMapper_def)
    then have "\<not> dispatching (unlockDevice (rest m v))"
      using idle by (cases "hk_reserved w") (auto simp: rest_def Let_def unlockDevice_def dispatching_def installMapper_def)
    then show "kbd_inv C shorts km (unlockDevice (rest m v))"
      by (intro keeps_inv [OF k(2)])
        (simp_all add: rest_def Let_def alike_def unlockDevice_def post_def)
    show "modifiersDown (unlockDevice (rest m v)) = 0"
      using k(3) by (simp add: rest_def Let_def unlockDevice_def post_def installMapper_def)
  qed
  then show ?thesis by (simp add: eq)
qed

text \<open>
  Preferences that a run may contain: no key map but the class's own, and pairs of modifiers
  as in \<open>swaps_ok\<close>.
\<close>

definition gentle :: "hik_class \<Rightarrow> params \<Rightarrow> hik \<Rightarrow> bool" where
  "gentle C d w \<longleftrightarrow> (pa_keyMapping d = None \<or> pa_keyMapping d = Some (defaultKeymap C)) \<and> swaps_ok d w"

lemma swaps_fewer:
  "swaps_ok d w \<Longrightarrow> modifiersDown v = modifiersDown w \<or> modifiersDown v = 0 \<Longrightarrow> swaps_ok d v"
  by (auto simp: swaps_ok_def split: option.splits)

lemma inv_params:
  assumes inv: "kbd_inv C shorts km w" and own: "own_map C shorts km" and junk: "junk_ok junk"
    and g: "gentle C d w"
  shows "ensures (hik_setParamProperties C sys nub junk d w) (\<lambda>p. kbd_inv C shorts km (snd p))"
proof -
  have reset: "ensures (if pa_resetKeyboard d
      then do { (_, w) \<leftarrow> resetKeyboard C sys nub junk w; Some w } else Some w)
      (\<lambda>v. kbd_inv C shorts km v \<and> swaps_ok d v)"
    using inv g ensures_mono [OF inv_reset [OF inv own junk, of sys nub]] swaps_fewer [of d w]
    by (auto simp: ensures_bind gentle_def case_prod_unfold)
  define rest where "rest v = do {
          w \<leftarrow> lockDevice v;
          let w = (case pa_keyRepeat d of None \<Rightarrow> w | Some p \<Rightarrow> w\<lparr>hk_keyRepeat := repeatInterval C p\<rparr>);
          let w = (case pa_initialKeyRepeat d of None \<Rightarrow> w
                   | Some p \<Rightarrow> w\<lparr>hk_initialKeyRepeat := repeatInterval C p\<rparr>);
          (ok, mapped, w) \<leftarrow> setKeyMapping C sys junk (pa_keyMapping d) w;
          let w = (case pa_subinterfaceID d of None \<Rightarrow> w | Some i \<Rightarrow> w\<lparr>hk_deviceType := i\<rparr>);
          w \<leftarrow> (if hk_hasKeyMap w then mapper_setParamProperties C d w else Some w);
          let w = unlockDevice w;
          Some (ok, if pa_keyRepeat d \<noteq> None \<or> pa_initialKeyRepeat d \<noteq> None \<or> mapped \<or>
                       pa_subinterfaceID d \<noteq> None
                    then post UpdateProperties w else w) }" for v
  have "ensures (rest v) (\<lambda>p. kbd_inv C shorts km (snd p))" if v: "kbd_inv C shorts km v" "swaps_ok d v" for v
  proof -
    define u where "u = (let w = v\<lparr>hk_deviceLock := True\<rparr>;
        w = (case pa_keyRepeat d of None \<Rightarrow> w | Some p \<Rightarrow> w\<lparr>hk_keyRepeat := repeatInterval C p\<rparr>)
      in case pa_initialKeyRepeat d of None \<Rightarrow> w | Some p \<Rightarrow> w\<lparr>hk_initialKeyRepeat := repeatInterval C p\<rparr>)"
    have u: "alike v u" "hk_deviceLock u" "hk_reserved u = hk_reserved v"
      unfolding u_def alike_def Let_def by (simp_all split: option.split)
    have idle: "\<not> dispatching v" using v(1) by (simp add: kbd_inv_def)
    let ?J = "showing C shorts km (hk_reserved v) True"
    have ok: "keeps_ok C ?J u"
      using keeps_ok_alike [OF u(1) v(1)] u(2,3) by simp
    have swaps: "swaps_ok d u" using swaps_fewer [OF v(2), of u] u(1) by (simp add: alike_def)
    have map: "ensures (setKeyMapping C sys junk (pa_keyMapping d) u) (\<lambda>p. keeps_ok C ?J (snd (snd p)) \<and>
        swaps_ok d (snd (snd p)))"
    proof (cases "pa_keyMapping d")
      case None
      then show ?thesis using ok swaps by (simp add: setKeyMapping_def)
    next
      case (Some m)
      then have "m = defaultKeymap C" using g by (simp add: gentle_def)
      moreover obtain m' b where "keyboardMapper C (defaultKeymap C) junk u = Some (Some m', b)"
        "keeps_ok C ?J (installMapper sys m' b)" "mp_numModifiersDown m' = 0"
        using new_mapper_keeps [OF ok own junk, of sys] by (auto simp: ensures_def)
      ultimately show ?thesis
        using Some swaps_fewer [OF swaps, of "installMapper sys m' b"]
        by (simp add: setKeyMapping_def) (simp add: installMapper_def)
    qed
    define final where "final a c x = do {
          let x = (case pa_subinterfaceID d of None \<Rightarrow> x | Some i \<Rightarrow> x\<lparr>hk_deviceType := i\<rparr>);
          w \<leftarrow> (if hk_hasKeyMap x then mapper_setParamProperties C d x else Some x);
          let w = unlockDevice w;
          Some (a, if c then post UpdateProperties w else w) }" for a :: bool and c x
    have last: "ensures (final a c x) (\<lambda>p. kbd_inv C shorts km (snd p))"
      if x: "keeps_ok C ?J x" "swaps_ok d x" for x a c
    proof -
      let ?x = "case pa_subinterfaceID d of None \<Rightarrow> x | Some i \<Rightarrow> x\<lparr>hk_deviceType := i\<rparr>"
      have x': "keeps_ok C ?J ?x" "swaps_ok d ?x"
        using x by (auto intro: keeps_alike simp: alike_def swaps_ok_def split: option.split)
      have hm: "hk_hasKeyMap ?x" using x'(1) by (simp add: keeps_ok_def features_ok_def keyboard_ok_def)
      have unlock: "kbd_inv C shorts km (if c then post UpdateProperties (unlockDevice y) else unlockDevice y)"
        if y: "keeps_ok C ?J y" for y
      proof -
        have "hk_reserved y = hk_reserved v" using y by (simp add: keeps_ok_def showing_def)
        then have "kbd_inv C shorts km (unlockDevice y)"
          using idle by (intro keeps_inv [OF y]) (simp_all add: alike_def unlockDevice_def dispatching_def)
        then show ?thesis using inv_post by simp
      qed
      show ?thesis
        using ensures_mono [OF flags.ok_params [OF x'(1,2)] unlock] hm by (simp add: final_def Let_def ensures_bind)
    qed
    have "rest v = Option.bind (setKeyMapping C sys junk (pa_keyMapping d) u) (\<lambda>p. final (fst p)
        (pa_keyRepeat d \<noteq> None \<or> pa_initialKeyRepeat d \<noteq> None \<or> fst (snd p) \<or> pa_subinterfaceID d \<noteq> None)
        (snd (snd p)))"
      using v(1) by (simp add: rest_def u_def lockDevice_def kbd_inv_def case_prod_unfold Let_def final_def)
    then show ?thesis
      by (simp only: ensures_bind) (rule ensures_mono [OF map], rule last, blast+)
  qed
  note all = ensures_mono [OF reset this]
  have "hik_setParamProperties C sys nub junk d w = Option.bind (if pa_resetKeyboard d
      then do { (_, w) \<leftarrow> resetKeyboard C sys nub junk w; Some w } else Some w) rest"
    by (simp add: hik_setParamProperties_def rest_def [abs_def])
  then show ?thesis using all by (simp only: ensures_bind)
qed

section \<open>Runs\<close>

datatype kbd_input =
    Key u32 bool u64
  | RepeatTimer
  | SlowKeysTimer
  | EjectTimer
  | MouseUp
  | SetFnState
  | Message hik_message
  | RepeatMode bool
  | Params bool bool mapper params
  | Clock u64

definition kbd_call :: "hik_class \<Rightarrow> bool \<Rightarrow> kbd_input \<Rightarrow> hik \<Rightarrow> hik option" where
  "kbd_call C timersWork i w =
     (case i of
        Key keyCode down time \<Rightarrow> dispatchKeyboardEvent C timersWork keyCode down time w
      | RepeatTimer \<Rightarrow> autoRepeat C timersWork w
      | SlowKeysTimer \<Rightarrow> slowKeysPostProcess C timersWork w
      | EjectTimer \<Rightarrow> performF12Eject w
      | MouseUp \<Rightarrow> stickyKeysMouseUp C timersWork w
      | SetFnState \<Rightarrow> stickyKeysSetFnState w
      | Message msg \<Rightarrow> Some (hik_message msg w)
      | RepeatMode b \<Rightarrow> setRepeatMode b w
      | Params targetIsSystem newNub junk d \<Rightarrow>
          map_option snd (hik_setParamProperties C targetIsSystem newNub junk d w)
      | Clock t \<Rightarrow> Some (w\<lparr>hk_uptime := t\<rparr>))"

text \<open>
  The inputs that a run is made of. Keys are those of the keyboard: the others end the run, as
  \<open>scan_codes_outside_bit_vector\<close> in \<open>HID_Faults\<close> says. The timer of the repeat goes off with a
  key to repeat; with the code that the timer of the eject key leaves it ends the run
  (\<open>eject_repeats_no_key\<close> there). The timer of slow keys goes off only when it is set, and the
  event source of the fn state exists only in a mapper that knows the HID system. Preferences
  are those of \<open>gentle\<close>, with a reset of the keyboard or without.
\<close>

definition possible :: "hik_class \<Rightarrow> kbd_input \<Rightarrow> hik \<Rightarrow> bool" where
  "possible C i w \<longleftrightarrow>
     (case i of
        Key keyCode down time \<Rightarrow> unat (ucast keyCode :: u8) < 128
      | RepeatTimer \<Rightarrow> repeats_key w
      | SlowKeysTimer \<Rightarrow> slowIs kState_In_Progess_Flag w
      | SetFnState \<Rightarrow> mp_hidSystem (hk_keyMap w)
      | Params targetIsSystem newNub junk d \<Rightarrow> junk_ok junk \<and> gentle C d w
      | _ \<Rightarrow> True)"

inductive reaches :: "hik_class \<Rightarrow> bool \<Rightarrow> hik \<Rightarrow> hik \<Rightarrow> bool" for C timersWork w where
  start: "reaches C timersWork w w"
| call: "reaches C timersWork w v \<Longrightarrow> possible C i v \<Longrightarrow> kbd_call C timersWork i v = Some v' \<Longrightarrow>
    reaches C timersWork w v'"

lemma inv_eject:
  assumes "kbd_inv C shorts km w"
  shows "ensures (performF12Eject w) (kbd_inv C shorts km)"
  by (rule ensures_mono [OF flags.ok_performEject [OF inv_keeps [OF assms]]], rule showing_inv)
    (use assms in \<open>simp_all add: kbd_inv_def\<close>)

lemma inv_call:
  assumes inv: "kbd_inv C shorts km w" and own: "own_map C shorts km" and "possible C i w"
  shows "ensures (kbd_call C timersWork i w) (kbd_inv C shorts km)"
proof (cases i)
  case (Params sys nub junk d)
  then have "ensures (hik_setParamProperties C sys nub junk d w) (\<lambda>p. kbd_inv C shorts km (snd p))"
    using inv_params [OF inv own] assms(3) by (simp add: possible_def)
  then show ?thesis by (auto simp: Params kbd_call_def ensures_def)
next
  case (Clock t)
  have "kbd_inv C shorts km (w\<lparr>hk_uptime := t\<rparr>)"
    by (rule alike_inv [OF _ inv]) (use inv in \<open>simp_all add: alike_def kbd_inv_def dispatching_def\<close>)
  then show ?thesis by (simp add: Clock kbd_call_def)
qed (use assms in \<open>simp_all add: kbd_call_def possible_def inv_dispatch inv_repeat inv_slowTimer
    inv_eject inv_mouseUp inv_message inv_repeatMode stickyKeysSetFnState_def Let_def inv_post\<close>)

lemma inv_reaches:
  "reaches C timersWork w v \<Longrightarrow> own_map C shorts km \<Longrightarrow> kbd_inv C shorts km w \<Longrightarrow> kbd_inv C shorts km v"
proof (induction rule: reaches.induct)
  case (call v i v')
  then show ?case using inv_call [OF call.IH [OF call.prems] call.prems(1) call.hyps(2), of timersWork]
    by (simp add: ensures_def)
qed

section \<open>The properties\<close>

text \<open>
  C29. A keyboard never gets stuck: from the moment it is opened until it is closed, with all
  the features of the mapper in use and the calls below coming in any order, every such call
  returns. In particular every access of the key map, the bit vector and the tables is inside
  its object, the loop that releases sticky modifiers ends, and the device lock is never
  taken twice. The calls are: keys with codes below 128, at any time; the timer of the
  repeat while there is a key to repeat, that of slow keys while it is set, that of the eject
  key; clicks of the mouse and the other messages that IOHIKeyboard takes, the fn state; and
  preferences, among them a reset of the keyboard, but no key map other than the class's own,
  no swap with a modifier that does not exist, and none in the same call that switches sticky
  keys off while they hold modifiers.
\<close>

theorem keyboard_never_stuck:
  assumes "plain_class C" and "maxKeyCodes C = 128" and "defaultKeymap C = encode shorts km"
    and "sound_keymap C shorts km" and "0 < maxModOf km" and "junk_ok junk" and "hk_eventFlags w = 0"
  shows "\<exists>v. openedKeyboard C clientIsSystem newNub junk w = Some (True, v) \<and>
    (\<forall>v' i. reaches C timersWork v v' \<and> possible C i v' \<longrightarrow> kbd_call C timersWork i v' \<noteq> None)"
proof -
  obtain v where v: "openedKeyboard C clientIsSystem newNub junk w = Some (True, v)" "kbd_inv C shorts km v"
    using opened_inv [OF assms, of clientIsSystem newNub] by (auto simp: ensures_def plain_inv_def)
  have own: "own_map C shorts km" using assms(3,5) by (simp add: own_map_def)
  have "kbd_call C timersWork i v' \<noteq> None" if "reaches C timersWork v v'" "possible C i v'" for v' i
    using inv_call [OF inv_reaches [OF that(1) own v(2)] own that(2), of timersWork] by (auto simp: ensures_def)
  then show ?thesis using v(1) by blast
qed

theorem keyboard_never_stuck_witness:
  "\<exists>v. openedKeyboard (ps2_class None id) True True blank_mapper blank_keyboard = Some (True, v) \<and>
    kbd_call (ps2_class None id) True (Key 56 True 7) v \<noteq> None"
proof -
  have "0 < maxModOf usKeyMap" by (simp add: usKeyMap_maxMod)
  from keyboard_never_stuck [OF ps2_plain ps2_keymap usKeyMap_sound this blank_ok, of None id True True True]
  obtain v where v: "openedKeyboard (ps2_class None id) True True blank_mapper blank_keyboard = Some (True, v)"
    "reaches (ps2_class None id) True v v' \<and> possible (ps2_class None id) i v' \<Longrightarrow> kbd_call (ps2_class None id) True i v' \<noteq> None" for v' i
    by blast
  have "possible (ps2_class None id) (Key 56 True 7) v" by (simp add: possible_def)
  then show ?thesis using v reaches.start by blast
qed

text \<open>
  C30. The flags never drift from the keys: after any run of the calls of C29 on an opened
  keyboard, with all the features in use, the flag of each of the modifiers 1 to 7 is set if
  and only if a key of the modifier is marked in the bit vector, on either side for the four
  that have two, and each device-dependent bit if and only if a key of its side is.
\<close>

theorem flags_show_bit_vector:
  assumes "plain_class C" and "maxKeyCodes C = 128" and "defaultKeymap C = encode shorts km"
    and "sound_keymap C shorts km" and "0 < maxModOf km" and "junk_ok junk" and "hk_eventFlags w = 0"
    and "openedKeyboard C clientIsSystem newNub junk w = Some (True, v)" and "reaches C timersWork v v'"
  shows "(1 \<le> j \<and> j \<le> 7 \<longrightarrow> bit (hk_eventFlags v') (16 + j) =
      (isDown C km (downKeys (hk_keyState v')) j \<or> j \<le> 4 \<and> isDown C km (downKeys (hk_keyState v')) (j + 8))) \<and>
    (\<forall>n. deviceBit j = Some n \<longrightarrow> bit (hk_eventFlags v') n = isDown C km (downKeys (hk_keyState v')) j)"
proof -
  have "kbd_inv C shorts km v"
    using opened_inv [OF assms(1-7), of clientIsSystem newNub] assms(8) by (simp add: plain_inv_def)
  then have "flags_ok C shorts km v'"
    using inv_reaches [OF assms(9), of shorts km] assms(3,5) by (simp add: kbd_inv_def own_map_def)
  then show ?thesis by (simp add: flags_ok_def shows_keys_def tracks_def)
qed

theorem flags_show_bit_vector_witness:
  "\<exists>v v'. openedKeyboard (ps2_class None id) True True blank_mapper blank_keyboard = Some (True, v) \<and>
    kbd_call (ps2_class None id) True (Key 59 True 7) v = Some v' \<and>
    bit (hk_eventFlags v') 0 = bit (hk_keyState v' ! 1) 27"
proof -
  let ?C = "ps2_class None id"
  have pos: "0 < maxModOf usKeyMap" by (simp add: usKeyMap_maxMod)
  then have own: "own_map ?C False usKeyMap" by (simp add: own_map_def ps2_keymap)
  obtain v where v: "openedKeyboard ?C True True blank_mapper blank_keyboard = Some (True, v)"
    "kbd_inv ?C False usKeyMap v"
    using opened_inv [OF ps2_plain ps2_keymap usKeyMap_sound pos blank_ok, of None id True True]
    by (auto simp: ensures_def plain_inv_def)
  have i: "possible ?C (Key 59 True 7) v" by (simp add: possible_def)
  obtain v' where v': "kbd_call ?C True (Key 59 True 7) v = Some v'"
    using inv_call [OF v(2) own i, of True] by (auto simp: ensures_def)
  have "reaches ?C True v v'" by (rule reaches.call [OF reaches.start i v'])
  from flags_show_bit_vector [OF ps2_plain ps2_keymap usKeyMap_sound pos blank_ok v(1) this, of 2]
  have "bit (hk_eventFlags v') 0 = isDown ?C usKeyMap (heldKeys v') 2" by (simp add: deviceBit_def)
  moreover have "isDown ?C usKeyMap D 2 \<longleftrightarrow> 59 \<in> D" for D
    by (simp add: isDown_def modOf_def usKeyMap_def hid_consts)
  ultimately have "bit (hk_eventFlags v') 0 = bit (hk_keyState v' ! 1) 27" by (simp add: downKeys_def)
  then show ?thesis using v(1) v' by blast
qed

text \<open>
  C32. After any run of the calls of C29 on an opened keyboard, with sticky keys, slow keys and
  swapped modifiers as they may be, its tables are well formed: the bit vector has its 128
  bits, at most five modifiers are in the table of sticky keys, each once, with a modifier key
  of the keyboard, the counts of presses are within their five deadlines, and the key to be
  repeated is a key of the keyboard or no key: -1, or the code 0xFFFF that the event of the
  eject key leaves.
\<close>

theorem keyboard_tables_well_formed:
  assumes "plain_class C" and "maxKeyCodes C = 128" and "defaultKeymap C = encode shorts km"
    and "sound_keymap C shorts km" and "0 < maxModOf km" and "junk_ok junk" and "hk_eventFlags w = 0"
    and "openedKeyboard C clientIsSystem newNub junk w = Some (True, v)" and "reaches C timersWork v v'"
  shows "length (hk_keyState v') = 4 \<and> mp_numModifiersDown (hk_keyMap v') \<le> length (mp_stuck (hk_keyMap v')) \<and>
    distinct (map sk_leftModBit (take (mp_numModifiersDown (hk_keyMap v')) (mp_stuck (hk_keyMap v')))) \<and>
    (\<forall>i < mp_numModifiersDown (hk_keyMap v'). unat (sk_key (mp_stuck (hk_keyMap v') ! i)) < 128 \<and>
      modifierOfInterest (keyBitsOfKey (sk_key (mp_stuck (hk_keyMap v') ! i)) v')) \<and>
    tg_currentCount (mp_shiftToggle (hk_keyMap v')) \<le> length (tg_deadlines (mp_shiftToggle (hk_keyMap v'))) \<and>
    tg_currentCount (mp_optionToggle (hk_keyMap v')) \<le> length (tg_deadlines (mp_optionToggle (hk_keyMap v'))) \<and>
    (hk_codeToRepeat v' < 128 \<or> hk_codeToRepeat v' = - 1 \<or> hk_codeToRepeat v' = 0xFFFF)"
proof -
  have "kbd_inv C shorts km v"
    using opened_inv [OF assms(1-7), of clientIsSystem newNub] assms(8) by (simp add: plain_inv_def)
  then have "features_ok C v'"
    using inv_reaches [OF assms(9), of shorts km] assms(3,5) by (simp add: kbd_inv_def own_map_def)
  then have tables: "keyboard_ok C v'" "repeat_ok v'" "mapper_ok (hk_keyMap v')"
    by (simp_all add: features_ok_def)
  have "hk_codeToRepeat v' < 128 \<or> hk_codeToRepeat v' = - 1 \<or> hk_codeToRepeat v' = 0xFFFF"
    using tables(2) by (auto simp: repeat_ok_def NX_NOSPECIALKEY_def)
  then show ?thesis
    using tables(1,3)
    by (simp add: keyboard_ok_def mapper_ok_def table_ok_def toggle_ok_def stuck_ok_def keyBitsOfKey_def)
qed

theorem keyboard_tables_well_formed_witness:
  "\<exists>v v'. openedKeyboard (ps2_class None id) True True blank_mapper blank_keyboard = Some (True, v) \<and>
    kbd_call (ps2_class None id) True EjectTimer v = Some v' \<and> length (hk_keyState v') = 4"
proof -
  let ?C = "ps2_class None id"
  have pos: "0 < maxModOf usKeyMap" by (simp add: usKeyMap_maxMod)
  then have own: "own_map ?C False usKeyMap" by (simp add: own_map_def ps2_keymap)
  obtain v where v: "openedKeyboard ?C True True blank_mapper blank_keyboard = Some (True, v)"
    "kbd_inv ?C False usKeyMap v"
    using opened_inv [OF ps2_plain ps2_keymap usKeyMap_sound pos blank_ok, of None id True True]
    by (auto simp: ensures_def plain_inv_def)
  have i: "possible ?C EjectTimer v" by (simp add: possible_def)
  obtain v' where v': "kbd_call ?C True EjectTimer v = Some v'"
    using inv_call [OF v(2) own i, of True] by (auto simp: ensures_def)
  have "reaches ?C True v v'" by (rule reaches.call [OF reaches.start i v'])
  from keyboard_tables_well_formed [OF ps2_plain ps2_keymap usKeyMap_sound pos blank_ok v(1) this]
  show ?thesis using v(1) v' by blast
qed

end
