(* ===== verification/HID_Plain.thy ===== *)
theory HID_Plain
  imports HID_Runs
begin

text \<open>
  A keyboard on which no feature of the mapper is switched on: every filter lets every key but
  F12 through, so that a key event is the translation of its key.
\<close>

section \<open>The filters let the key through\<close>

lemma plain_fields:
  assumes "plain_mapper (hk_keyMap w)"
  shows "stickyIs flag w = False" "mp_slowKeysDelay (hk_keyMap w) = 0"
  using assms by (simp_all add: plain_mapper_def stickyIs_def)

lemma identity_swap:
  assumes "plain_class C" and swap: "mp_modifierSwap (hk_keyMap w) = map of_nat [0..<NX_NUMMODIFIERS]"
  shows "modifierSwapFilterKey C key w = Some (False, key, w)"
proof -
  have same: "sint (ucast (of_nat j :: u32) :: u16) = int j" if "j < NX_NUMMODIFIERS" for j
  proof -
    have "j \<in> set [0..<16]" using that by (simp add: hid_consts)
    moreover have "list_all (\<lambda>j. sint (ucast (of_nat j :: u32) :: u16) = int j) [0..<16]"
      by (simp add: upt_rec)
    ultimately show ?thesis unfolding list_all_iff by blast
  qed
  have entry: "sint (ucast (mp_modifierSwap (hk_keyMap w) ! j) :: u16) = int j" if "j < NX_NUMMODIFIERS" for j
    using swap that same [OF that] by simp
  have "\<not> doesKeyLock C NX_KEYTYPE_CAPS_LOCK" using assms(1) by (simp add: plain_class_def)
  moreover have "NX_MODIFIERKEY_ALPHALOCK < NX_NUMMODIFIERS" by (simp add: hid_consts)
  ultimately show ?thesis
    using entry whichMod_less by (auto simp: modifierSwapFilterKey_def Let_def split: option.split)
qed

lemma plain_swap:
  assumes "plain_class C" and "plain_mapper (hk_keyMap w)"
  shows "modifierSwapFilterKey C key w = Some (False, key, w)"
  using identity_swap [OF assms(1)] assms(2) by (simp add: plain_mapper_def)

lemma plain_sticky:
  "plain_mapper (hk_keyMap w) \<Longrightarrow> stickyKeysFilterKey C timersWork key keyDown kb False w = Some (False, w)"
  by (simp add: stickyKeysFilterKey_def checkShiftToggle_def checkOptionToggle_def plain_fields(1)
      stickyKeysClaim_def Let_def)

lemma plain_translate:
  assumes "plain_class C" and m: "plain_mapper (hk_keyMap w)" and "key \<noteq> kADB_KEYBOARD_F12"
  shows "translateKeyCode C timersWork key keyDown True w =
    rawTranslateKeyCode C key keyDown True (updMapper (\<lambda>m. m\<lparr>mp_cachedKeyBits := True\<rparr>) w)"
proof -
  let ?u = "updMapper (\<lambda>m. m\<lparr>mp_cachedKeyBits := True\<rparr>) w"
  have u: "plain_mapper (hk_keyMap ?u)" using m by (simp add: plain_mapper_def)
  have "\<not> NX_NUMKEYCODES \<le> unat key" using byte_key [of key] by (simp add: hid_consts)
  then show ?thesis
    by (simp add: translateKeyCode_def plain_swap [OF assms(1) u] slowKeysFilterKey_def
        postSlowKeyTranslateKeyCode_def f12EjectFilterKey_def plain_sticky [OF u] plain_fields(2) [OF m] assms(3))
qed

section \<open>One key event\<close>

text \<open>The state in which a key is translated.\<close>

definition entered :: "u32 \<Rightarrow> bool \<Rightarrow> u64 \<Rightarrow> hik \<Rightarrow> hik" where
  "entered keyCode down time w =
     (let w = w\<lparr>hk_deviceLock := True, hk_lastEventTime := time\<rparr>;
          w = (if hasNub w then post (NubKeyboardEvent keyCode down) w else w)
      in updMapper (\<lambda>m. m\<lparr>mp_cachedKeyBits := True\<rparr>) (setDispatching True w))"

definition leaving :: "hik \<Rightarrow> hik" where
  "leaving w = keyEventPostProcess (unlockDevice (setDispatching False w))"

lemma plain_dispatch:
  assumes inv: "plain_inv C shorts km D w" and "ucast keyCode \<noteq> kADB_KEYBOARD_F12"
  shows "dispatchKeyboardEvent C timersWork keyCode down time w =
    Option.bind (rawTranslateKeyCode C (ucast keyCode) down True (entered keyCode down time w))
      (\<lambda>w. Some (if hk_hasKeyMap w then leaving w else unlockDevice (setDispatching False w)))"
proof -
  let ?w = "w\<lparr>hk_deviceLock := True, hk_lastEventTime := time\<rparr>"
  define v where "v = (if hasNub ?w then post (NubKeyboardEvent keyCode down) ?w else ?w)"
  have v: "hk_reserved v = hk_reserved w" "hk_keyMap v = hk_keyMap w" "hk_hasKeyMap v = hk_hasKeyMap w"
    by (simp_all add: v_def post_def)
  have C: "plain_class C" and unlocked: "\<not> hk_deviceLock w" and map: "hk_hasKeyMap w"
    using inv by (auto simp: plain_inv_def kbd_inv_def features_ok_def keyboard_ok_def)
  have "\<not> (case hk_reserved v of None \<Rightarrow> False | Some r \<Rightarrow> rs_isSeized r)"
    using inv v(1) by (simp add: plain_inv_def seized_def)
  note free = this
  have "plain_mapper (hk_keyMap (setDispatching True v))"
    using inv v(2) by (simp add: plain_inv_def setDispatching_def)
  note tr = plain_translate [OF C this assms(2)]
  have dis: "hk_hasKeyMap (setDispatching b u) = hk_hasKeyMap u" "hk_hasKeyMap (unlockDevice u) = hk_hasKeyMap u" for b u
    by (simp_all add: setDispatching_def unlockDevice_def)
  have entered: "entered keyCode down time w = updMapper (\<lambda>m. m\<lparr>mp_cachedKeyBits := True\<rparr>) (setDispatching True v)"
    by (simp add: entered_def v_def Let_def)
  have fold: "(let w = (w\<lparr>hk_deviceLock := True\<rparr>)\<lparr>hk_lastEventTime := time\<rparr>;
      w = (if hasNub w then post (NubKeyboardEvent keyCode down) w else w) in F w) = F v" for F :: "hik \<Rightarrow> hik option"
    by (simp add: v_def Let_def)
  have lock: "lockDevice w = Some (w\<lparr>hk_deviceLock := True\<rparr>)"
    using unlocked by (simp add: lockDevice_def)
  show ?thesis
    unfolding dispatchKeyboardEvent_def lock Option.bind.simps fold entered leaving_def
    using free map v(3) by (simp add: translateIfMapped_def tr dis Let_def)
qed

lemma entered_ok:
  assumes "plain_inv C shorts km D w"
  shows "keeps_ok C (showing C shorts km (hk_reserved (setDispatching True w)) True) (entered keyCode down time w)"
    and "heldKeys (entered keyCode down time w) = D" and "plain_mapper (hk_keyMap (entered keyCode down time w))"
proof -
  let ?w = "w\<lparr>hk_deviceLock := True, hk_lastEventTime := time\<rparr>"
  define v where "v = setDispatching True (if hasNub ?w then post (NubKeyboardEvent keyCode down) ?w else ?w)"
  have inv: "kbd_inv C shorts km w" using assms by (simp add: plain_inv_def)
  have v: "alike w v" "hk_deviceLock v" "hk_reserved v = hk_reserved (setDispatching True w)"
    by (simp_all add: v_def alike_def setDispatching_def post_def)
  have ok: "keeps_ok C (showing C shorts km (hk_reserved (setDispatching True w)) True) v"
    using keeps_ok_alike [OF v(1) inv] v(2,3) by simp
  have eq: "entered keyCode down time w = updMapper (\<lambda>m. m\<lparr>mp_cachedKeyBits := True\<rparr>) v"
    by (simp add: entered_def v_def Let_def)
  have f: "features_ok C v" using ok by (simp add: keeps_ok_def)
  have "mapper_ok ((hk_keyMap v)\<lparr>mp_cachedKeyBits := True\<rparr>)"
    using mapper_ok_cached [of "hk_keyMap v" True] f by (simp add: features_ok_def)
  then have "features_ok C (entered keyCode down time w)"
    unfolding eq by (intro features_ok_updMapper [OF f]) simp_all
  moreover have "flags_ok C shorts km (entered keyCode down time w) = flags_ok C shorts km v"
    unfolding eq by (rule flags_ok_cong) (simp_all add: untouched_def)
  ultimately show "keeps_ok C (showing C shorts km (hk_reserved (setDispatching True w)) True) (entered keyCode down time w)"
    using ok unfolding eq by (simp add: keeps_ok_def showing_def)
  show "heldKeys (entered keyCode down time w) = D"
    using assms v(1) unfolding eq by (simp add: plain_inv_def alike_def)
  show "plain_mapper (hk_keyMap (entered keyCode down time w))"
    using assms v(1) unfolding eq by (simp add: plain_inv_def alike_def plain_mapper_def)
qed

lemma calm_plain:
  assumes "calm w w'"
  shows "plain_mapper (hk_keyMap w') = plain_mapper (hk_keyMap w)"
proof -
  have fr: "frozen w' = frozen w" using assms by (simp add: calm_def)
  show ?thesis
    using arg_cong [OF frozen_fields(10) [OF fr], of mp_slowKeysDelay]
    by (simp add: plain_mapper_def frozen_mapper [OF fr])
qed

lemma leaving_fields [simp]:
  "heldKeys (leaving w) = heldKeys w" "hk_eventFlags (leaving w) = hk_eventFlags w"
  "plain_mapper (hk_keyMap (leaving w)) = plain_mapper (hk_keyMap w)"
  "seized (leaving w) = seized w"
  by (simp_all add: leaving_def keyEventPostProcess_def Let_def unlockDevice_def setDispatching_def
      plain_mapper_def seized_def updMapper_def post_def split: option.split)

lemma ensures_conj: "ensures r P \<Longrightarrow> ensures r Q \<Longrightarrow> ensures r (\<lambda>x. P x \<and> Q x)"
  by (auto simp: ensures_def)

lemma leaving_action [simp]:
  "hk_keyboardEventAction (leaving w) = hk_keyboardEventAction w"
  by (simp add: leaving_def keyEventPostProcess_def Let_def unlockDevice_def setDispatching_def updMapper_def post_def)

lemma entered_context:
  "seized (entered keyCode down time w) = seized w"
  "hk_keyboardEventAction (entered keyCode down time w) = hk_keyboardEventAction w"
  "hk_eventFlags (entered keyCode down time w) = hk_eventFlags w"
  "parsedMapping (entered keyCode down time w) = parsedMapping w"
  by (simp_all add: entered_def Let_def seized_def setDispatching_def post_def updMapper_def split: option.split)

lemma calm_outside:
  assumes "calm w w'"
  shows "seized w' = seized w" "hk_keyboardEventAction w' = hk_keyboardEventAction w"
    "hk_hasKeyMap w' = hk_hasKeyMap w"
proof -
  have fr: "frozen w' = frozen w" using assms by (simp add: calm_def)
  show "seized w' = seized w" "hk_keyboardEventAction w' = hk_keyboardEventAction w"
    "hk_hasKeyMap w' = hk_hasKeyMap w"
    using frozen_fields [OF fr] by (simp_all add: seized_def)
qed

lemma plain_step:
  assumes inv: "plain_inv C shorts km D w" and key: "unat (ucast keyCode :: u8) < 128"
    and other: "ucast keyCode \<noteq> kADB_KEYBOARD_F12"
  shows "ensures (dispatchKeyboardEvent C timersWork keyCode down time w)
    (plain_inv C shorts km (pressed down (unat (ucast keyCode :: u8)) D))"
proof -
  let ?u = "entered keyCode down time w" and ?k = "ucast keyCode :: u8"
  have ok: "keyboard_ok C ?u" and km: "sound_keymap C shorts km" and fl: "flags_ok C shorts km ?u"
    using entered_ok(1) [OF inv, of keyCode down time] by (auto simp: keeps_ok_def features_ok_def showing_def)
  have "ensures (rawTranslateKeyCode C ?k down True ?u) (\<lambda>w'. heldKeys w' = pressed down (unat ?k) D)"
    using ensures_mono [OF flags_rawTranslateKeyCode [OF ok km key fl]] entered_ok(2) [OF inv] by simp
  from ensures_conj [OF this calm_rawTranslateKeyCode [OF ok key, of down]]
  have "ensures (dispatchKeyboardEvent C timersWork keyCode down time w)
      (\<lambda>w'. plain_mapper (hk_keyMap w') \<and> \<not> seized w' \<and> hk_keyboardEventAction w' \<and>
        heldKeys w' = pressed down (unat ?k) D)"
    unfolding plain_dispatch [OF inv other] ensures_bind ensures_simps
  proof (rule ensures_mono)
    fix x assume x: "heldKeys x = pressed down (unat ?k) D \<and> calm ?u x"
    then have "hk_hasKeyMap x" using calm_outside(3) [of ?u x] keyboard_ok_map [OF ok] by blast
    then show "plain_mapper (hk_keyMap (if hk_hasKeyMap x then leaving x else unlockDevice (setDispatching False x))) \<and>
        \<not> seized (if hk_hasKeyMap x then leaving x else unlockDevice (setDispatching False x)) \<and>
        hk_keyboardEventAction (if hk_hasKeyMap x then leaving x else unlockDevice (setDispatching False x)) \<and>
        heldKeys (if hk_hasKeyMap x then leaving x else unlockDevice (setDispatching False x)) =
          pressed down (unat ?k) D"
      using x calm_plain [of ?u x] calm_outside(1,2) [of ?u x] entered_ok(3) [OF inv] entered_context inv
      by (simp add: plain_inv_def)
  qed
  moreover have "ensures (dispatchKeyboardEvent C timersWork keyCode down time w) (kbd_inv C shorts km)"
    using inv by (intro inv_dispatch [OF _ key]) (simp add: plain_inv_def)
  ultimately show ?thesis by (auto simp: ensures_def plain_inv_def)
qed

section \<open>Sequences of key events\<close>

primrec dispatchKeys :: "hik_class \<Rightarrow> bool \<Rightarrow> (u32 \<times> bool \<times> u64) list \<Rightarrow> hik \<Rightarrow> hik option" where
  "dispatchKeys C timersWork [] w = Some w"
| "dispatchKeys C timersWork (e # es) w =
     do { w \<leftarrow> dispatchKeyboardEvent C timersWork (fst e) (fst (snd e)) (snd (snd e)) w;
          dispatchKeys C timersWork es w }"

definition heldAfter :: "(u32 \<times> bool \<times> u64) list \<Rightarrow> nat set \<Rightarrow> nat set" where
  "heldAfter es D = fold (\<lambda>(keyCode, down, _). pressed down (unat keyCode)) es D"

definition ordinary :: "(u32 \<times> bool \<times> u64) list \<Rightarrow> bool" where
  "ordinary es \<longleftrightarrow> list_all (\<lambda>(keyCode, _). keyCode < 128 \<and> keyCode \<noteq> 0x6f) es"

lemma ordinary_key:
  assumes "(k :: u32) < 128" and "k \<noteq> 0x6f"
  shows "unat (ucast k :: u8) = unat k" and "unat (ucast k :: u8) < 128" and "ucast k \<noteq> kADB_KEYBOARD_F12"
proof -
  have small: "unat k < 128" using assms(1) by (simp add: word_less_nat_alt)
  then show u: "unat (ucast k :: u8) = unat k" by (simp add: unsigned_ucast_eq take_bit_nat_eq_self_iff)
  then show "unat (ucast k :: u8) < 128" using small by simp
  show "ucast k \<noteq> kADB_KEYBOARD_F12"
  proof
    assume "ucast k = kADB_KEYBOARD_F12"
    then have "unat k = unat (0x6f :: u32)" using u by (simp add: hid_consts)
    then show False using assms(2) by (simp add: word_unat_eq_iff)
  qed
qed

lemma plain_steps:
  assumes "plain_inv C shorts km D w" and "ordinary es"
  shows "ensures (dispatchKeys C timersWork es w) (plain_inv C shorts km (heldAfter es D))"
  using assms
proof (induction es arbitrary: D w)
  case (Cons e es)
  obtain k down time where e: "e = (k, down, time)" by (cases e) auto
  have k: "k < 128" "k \<noteq> 0x6f" and es: "ordinary es" using Cons.prems(2) by (simp_all add: ordinary_def e)
  have "ensures (dispatchKeyboardEvent C timersWork k down time w) (plain_inv C shorts km (pressed down (unat k) D))"
    using plain_step [OF Cons.prems(1) ordinary_key(2,3) [OF k], of timersWork down time]
    by (simp add: ordinary_key(1) [OF k])
  moreover have "heldAfter (e # es) D = heldAfter es (pressed down (unat k) D)"
    by (simp add: heldAfter_def e)
  ultimately show ?case
    using Cons.IH [OF _ es] by (auto simp: e ensures_bind elim!: ensures_mono)
qed (simp add: heldAfter_def)

section \<open>The property\<close>

text \<open>
  C31. The modifier flags implement the set of keys held: on a keyboard that has just been
  opened, with the default key map of its class, any sequence of key events returns, leaves
  in the bit vector exactly the keys that were pressed and not yet released, and leaves in
  the flags exactly the modifiers one of whose keys is held, for left and right and for the
  device-dependent bits. F12, which may eject, is left out.
\<close>

theorem key_events_refine_held_set:
  assumes "plain_class C" and "maxKeyCodes C = 128" and "defaultKeymap C = encode shorts km"
    and "sound_keymap C shorts km" and "0 < maxModOf km" and "junk_ok junk" and "hk_eventFlags w = 0"
    and "ordinary es"
  shows "\<exists>v v'. openedKeyboard C clientIsSystem newNub junk w = Some (True, v) \<and>
    dispatchKeys C timersWork es v = Some v' \<and>
    downKeys (hk_keyState v') = heldAfter es {} \<and> tracks C km (heldAfter es {}) (hk_eventFlags v')"
proof -
  obtain v where v: "openedKeyboard C clientIsSystem newNub junk w = Some (True, v)" "plain_inv C shorts km {} v"
    using opened_inv [OF assms(1-7), of clientIsSystem newNub] by (auto simp: ensures_def)
  obtain v' where v': "dispatchKeys C timersWork es v = Some v'" "plain_inv C shorts km (heldAfter es {}) v'"
    using plain_steps [OF v(2) assms(8), of timersWork] by (auto simp: ensures_def)
  then have "heldKeys v' = heldAfter es {}" "tracks C km (heldAfter es {}) (hk_eventFlags v')"
    by (auto simp: plain_inv_def kbd_inv_def flags_ok_def shows_keys_def)
  then show ?thesis using v(1) v'(1) by blast
qed

text \<open>Shift down, A down, A up: the bit of shift is set, and that of the left shift key.\<close>

theorem key_events_refine_held_set_witness:
  "\<exists>v v'. openedKeyboard (ps2_class None id) True True blank_mapper blank_keyboard = Some (True, v) \<and>
    dispatchKeys (ps2_class None id) True [(56, True, 1), (0, True, 2), (0, False, 3)] v = Some v' \<and>
    downKeys (hk_keyState v') = {56} \<and> bit (hk_eventFlags v') 17 \<and> bit (hk_eventFlags v') 1 \<and>
    \<not> bit (hk_eventFlags v') 2"
proof -
  let ?C = "ps2_class None id" and ?es = "[(56, True, 1), (0, True, 2), (0, False, 3)] :: (u32 \<times> bool \<times> u64) list"
  have "0 < maxModOf usKeyMap" "ordinary ?es" by (simp_all add: usKeyMap_maxMod ordinary_def)
  from key_events_refine_held_set [OF ps2_plain ps2_keymap usKeyMap_sound this(1) blank_ok this(2), of None id True True True]
  obtain v v' where v: "openedKeyboard ?C True True blank_mapper blank_keyboard = Some (True, v)"
    "dispatchKeys ?C True ?es v = Some v'" "downKeys (hk_keyState v') = heldAfter ?es {}"
    "tracks ?C usKeyMap (heldAfter ?es {}) (hk_eventFlags v')" by blast
  have held: "heldAfter ?es {} = {56}" by (simp add: heldAfter_def pressed_def insert_Diff_if)
  have mods: "isDown ?C usKeyMap {56} 1" "\<not> isDown ?C usKeyMap {56} 9"
    by (simp_all add: isDown_def modOf_def usKeyMap_def hid_consts)
  have t: "tracks ?C usKeyMap {56} (hk_eventFlags v')" using v(4) unfolding held .
  have dev: "deviceBit 1 = Some 1" "deviceBit 9 = Some 2" by (simp_all add: deviceBit_def)
  have "bit (hk_eventFlags v') (16 + 1)" using t mods(1) unfolding tracks_def by auto
  moreover have "bit (hk_eventFlags v') 1" "\<not> bit (hk_eventFlags v') 2"
    using t dev mods unfolding tracks_def by blast+
  ultimately show ?thesis using v(1-3) held by auto
qed

end
