(* ===== verification/HID_Typing.thy ===== *)
theory HID_Typing
  imports HID_Plain
begin

text \<open>
  The key events that reach the HID system: for a key that makes characters, one event per
  press and release, with the character that the modifiers held select.
\<close>

section \<open>Key events\<close>

fun isKeyEvent :: "hid_event \<Rightarrow> bool" where
  "isKeyEvent (PostKeyEvent _ _ _ _ _ _ _ _ _ _) = True"
| "isKeyEvent _ = False"

definition keyEventsOf :: "hik \<Rightarrow> hid_event list" where
  "keyEventsOf w = filter isKeyEvent (hk_events w)"

lemma keyEventsOf_post [simp]:
  "keyEventsOf (post e w) = keyEventsOf w @ (if isKeyEvent e then [e] else [])"
  by (simp add: keyEventsOf_def post_def)

lemma keyEventsOf_repeat [simp]:
  "keyEventsOf (scheduleAutoRepeat w) = keyEventsOf w" "keyEventsOf (setRepeat ty k w) = keyEventsOf w"
proof -
  show s: "keyEventsOf (scheduleAutoRepeat w) = keyEventsOf w" for w
    by (simp add: scheduleAutoRepeat_def keyEventsOf_def post_def Let_def)
  show "keyEventsOf (setRepeat ty k w) = keyEventsOf w"
    by (simp add: setRepeat_def s Let_def) (simp add: keyEventsOf_def)
qed

lemma keyboardEvent_posts:
  assumes "keyboard_ok C w" and "hk_keyboardEventAction w"
  shows "ensures (keyboardEvent ty flags k a b c d w)
    (\<lambda>w'. keyEventsOf w' = keyEventsOf w @ [PostKeyEvent ty flags k a b c d (hk_deviceType w)
       (hk_isRepeat w) (hk_lastEventTime w)])"
proof -
  let ?e = "PostKeyEvent ty flags k a b c d (hk_deviceType w) (hk_isRepeat w) (hk_lastEventTime w)"
  have "hk_hasKeyMap w" "dispatching w \<longrightarrow> hk_deviceLock w" using assms(1) by (simp_all add: keyboard_ok_def)
  moreover have "keyEventsOf (w\<lparr>hk_deviceLock := l\<rparr>) = keyEventsOf w" for l w by (simp add: keyEventsOf_def)
  ultimately show ?thesis
    using assms(2)
    by (simp add: keyboardEvent_def outsideLock_def lockDevice_def unlockDevice_def static_keyboardEvent_def)
      (simp add: post_def keyEventsOf_def)
qed

section \<open>A key that makes characters\<close>

text \<open>The key has a definition, is no modifier and no special key, and the character is no sequence.\<close>

definition charKey :: "hik_class \<Rightarrow> bool \<Rightarrow> keymap \<Rightarrow> nat \<Rightarrow> nat \<Rightarrow> chars \<Rightarrow> bool" where
  "charKey C shorts km k thisMask cs \<longleftrightarrow>
     keyOf C km k = Some (thisMask, cs) \<and> keyBitsOf C shorts km ! k = NX_CHARGENMASK \<and>
     list_all (\<lambda>(set, code). set \<noteq> allOnes shorts) cs"

definition charOf :: "keymap \<Rightarrow> nat \<Rightarrow> chars \<Rightarrow> u32 \<Rightarrow> nat \<times> nat" where
  "charOf km thisMask cs modifiers = cs ! charIndex (nat (maxModOf km + 1)) thisMask modifiers"

lemma raw_char:
  assumes ok: "keyboard_ok C w" and km: "sound_keymap C shorts km" and rep: "represents C shorts (parsedMapping w) km"
    and key: "unat key < 128" and char: "charKey C shorts km (unat key) thisMask cs" and act: "hk_keyboardEventAction w"
  defines "m \<equiv> charModifiers (hk_eventFlags w)"
  defines "orig \<equiv> m AND drop_bit 16 (NX_ALPHASHIFTMASK OR NX_SHIFTMASK)"
  shows "ensures (rawTranslateKeyCode C key down True w)
    (\<lambda>w'. keyEventsOf w' = keyEventsOf w @ [PostKeyEvent (if down then NX_KEYDOWN else NX_KEYUP)
       (hk_eventFlags w) (ucast key) (of_nat (snd (charOf km thisMask cs m))) (of_nat (fst (charOf km thisMask cs m)))
       (of_nat (snd (charOf km thisMask cs orig))) (of_nat (fst (charOf km thisMask cs orig)))
       (hk_deviceType w) (hk_isRepeat w) (hk_lastEventTime w)])"
proof -
  have wf: "wf_keymap C shorts km" using km by (simp add: sound_keymap_def)
  have kc: "unat key < NX_NUMKEYCODES" by (simp add: hid_consts)
  have cs: "keyOf C km (unat key) = Some (thisMask, cs)" and bits: "pm_keyBits (parsedMapping w) ! unat key = NX_CHARGENMASK"
    using char rep by (simp_all add: charKey_def represents_def)
  have masks: "NX_CHARGENMASK AND NX_MODMASK = 0" "NX_CHARGENMASK AND NX_SPECIALKEYMASK = 0"
    "NX_CHARGENMASK AND (NX_MODMASK OR NX_CHARGENMASK) \<noteq> 0" "NX_CHARGENMASK \<noteq> 0"
    by (simp_all add: hid_consts)
  have "points_to (encDef shorts) (keyOf C km (unat key)) (pm_keyDefs (parsedMapping w) ! unat key)"
    using rep kc unfolding represents_def by blast
  then obtain mapping where def: "pm_keyDefs (parsedMapping w) ! unat key = Some mapping"
    using cs by (auto simp: points_to_def)
  let ?evk = "if down then EVK_KEYDOWN else EVK_KEYUP"
  have len: "length (hk_keyState w) = 4" using ok by (simp add: keyboard_ok_def)
  obtain b where b: "?evk (ucast key) (hk_keyState w) = Some b" "length b = 4"
    using EVK_set(2,3) [OF len, of "ucast key"] key by (cases down) auto
  define u where "u = setCharKeyActive True (w\<lparr>hk_keyState := b\<rparr>)"
  have u: "parsedMapping u = parsedMapping w" "hk_eventFlags u = hk_eventFlags w" "keyEventsOf u = keyEventsOf w"
    "hk_deviceType u = hk_deviceType w" "hk_isRepeat u = hk_isRepeat w" "hk_lastEventTime u = hk_lastEventTime w"
    "hk_keyboardEventAction u = hk_keyboardEventAction w" "keyboard_ok C u"
    using ok b(2) by (simp_all add: u_def setCharKeyActive_def keyEventsOf_def keyboard_ok_def dispatching_def)
  have "thisMask < allOnes shorts \<and> length cs = charCount (nat (maxModOf km + 1)) thisMask 1"
    using wf_keymap_def_of [OF wf cs] by (auto simp: wf_def_def fits_def)
  then have member: "charOf km thisMask cs x \<in> set cs" for x
    unfolding charOf_def using charIndex_less by (metis nth_mem)
  have noseq: "fst (charOf km thisMask cs x) \<noteq> allOnes shorts" for x
    using char member [of x] by (auto simp: charKey_def list_all_iff)
  have raw: "rawTranslateKeyCode C key down True w =
      Option.bind (generateChars key down (hk_eventFlags u) mapping u) Some"
  proof -
    have tail: "pm_keyBits (parsedMapping x) ! unat key = NX_CHARGENMASK"
      if "generateChars key down fl mapping u = Some x" for fl x
    proof -
      have "quiet u x"
        using quiet_generateChars [OF u(8) key, of mapping down fl] def u(1) that by (simp add: ensures_def)
      then show ?thesis using bits u(1) calm_parsed quiet_calm by metis
    qed
    have char': "doCharGen C key down (w\<lparr>hk_keyState := b\<rparr>) = generateChars key down (hk_eventFlags u) mapping u"
      using def u(1) tail masks
      by (cases "generateChars key down (hk_eventFlags u) mapping u")
        (simp_all add: doCharGen_def u_def [symmetric])
    have upd: "updateKeyState ?evk key True w = Some (w\<lparr>hk_keyState := b\<rparr>)"
      by (simp add: updateKeyState_def b(1))
    then show ?thesis
      unfolding rawTranslateKeyCode_def Let_def bits
      using masks char' by (cases down) simp_all
  qed
  have repu: "represents C shorts (parsedMapping u) km" "pm_keyDefs (parsedMapping u) ! unat key = Some mapping"
    using rep def u(1) by simp_all
  let ?ty = "if down then NX_KEYDOWN else NX_KEYUP"
  let ?c = "charOf km thisMask cs m" and ?q = "charOf km thisMask cs orig"
  have "generateChars key down (hk_eventFlags u) mapping u =
      keyboardEvent ?ty (hk_eventFlags u) (ucast key) (of_nat (snd ?c)) (of_nat (fst ?c)) (of_nat (snd ?q)) (of_nat (fst ?q)) u"
    unfolding charEvent [OF km repu(1) cs repu(2)] u(2) charOf_def [symmetric] m_def [symmetric] orig_def [symmetric]
    using noseq [of m] by (simp add: Let_def case_prod_unfold)
  then show ?thesis
    unfolding raw using keyboardEvent_posts [OF u(8), of ?ty "hk_eventFlags u" "ucast key"] act u
    by simp
qed

section \<open>One key event\<close>

lemma entered_events:
  "keyEventsOf (entered k down time w) = keyEventsOf w" "hk_lastEventTime (entered k down time w) = time"
  "hk_deviceType (entered k down time w) = hk_deviceType w" "hk_isRepeat (entered k down time w) = hk_isRepeat w"
  by (simp_all add: entered_def Let_def setDispatching_def updMapper_def post_def keyEventsOf_def)

lemma leaving_events:
  "keyEventsOf (leaving w) = keyEventsOf w" "keyEventsOf (unlockDevice (setDispatching False w)) = keyEventsOf w"
  by (simp_all add: leaving_def keyEventPostProcess_def Let_def unlockDevice_def setDispatching_def
      updMapper_def post_def keyEventsOf_def)

lemma dispatch_char:
  assumes inv: "plain_inv C shorts km D w" and k: "k < 128" "k \<noteq> 0x6f"
    and char: "charKey C shorts km (unat k) thisMask cs"
  defines "m \<equiv> charModifiers (hk_eventFlags w)"
  defines "orig \<equiv> m AND drop_bit 16 (NX_ALPHASHIFTMASK OR NX_SHIFTMASK)"
  shows "ensures (dispatchKeyboardEvent C timersWork k down time w)
    (\<lambda>w'. keyEventsOf w' = keyEventsOf w @ [PostKeyEvent (if down then NX_KEYDOWN else NX_KEYUP)
       (hk_eventFlags w) k (of_nat (snd (charOf km thisMask cs m))) (of_nat (fst (charOf km thisMask cs m)))
       (of_nat (snd (charOf km thisMask cs orig))) (of_nat (fst (charOf km thisMask cs orig)))
       (hk_deviceType w) (hk_isRepeat w) time])"
proof -
  let ?u = "entered k down time w" and ?k = "ucast k :: u8"
  note key = ordinary_key [OF k]
  have ok: "keyboard_ok C ?u" and km: "sound_keymap C shorts km" and rep: "represents C shorts (parsedMapping ?u) km"
    using entered_ok(1) [OF inv, of k down time]
    by (auto simp: keeps_ok_def features_ok_def showing_def flags_ok_def shows_keys_def)
  have act: "hk_keyboardEventAction ?u" using inv by (simp add: entered_context plain_inv_def)
  have char': "charKey C shorts km (unat ?k) thisMask cs" using char key(1) by simp
  have code: "ucast ?k = k"
    using key(1) unat_ucast_key [of ?k] by (simp add: word_unat_eq_iff)
  show ?thesis
    unfolding plain_dispatch [OF inv key(3)] ensures_bind ensures_simps
    by (rule ensures_mono [OF raw_char [OF ok km rep key(2) char' act, of down]])
      (simp add: leaving_events entered_events entered_context code m_def orig_def)
qed

section \<open>Finding such keys\<close>

lemma markDefs_other: "k < i \<Longrightarrow> markDefs i defs bits ! k = bits ! k"
  by (induction defs arbitrary: i bits) (simp_all add: setBits_neq)

lemma markDefs_hit:
  assumes "i \<le> k" "k < i + length defs" "defs ! (k - i) \<noteq> None" "k < length bits"
  shows "markDefs i defs bits ! k = bits ! k OR NX_CHARGENMASK"
  using assms
proof (induction defs arbitrary: i bits)
  case (Cons d defs)
  show ?case
  proof (cases "i = k")
    case True
    then show ?thesis using Cons.prems by (auto simp: markDefs_other nth_setBits)
  next
    case False
    let ?bits = "if d = None then bits else setBits (\<lambda>b. b OR NX_CHARGENMASK) i bits"
    have "k - i = Suc (k - Suc i)" using False Cons.prems(1) by simp
    then have "defs ! (k - Suc i) \<noteq> None" using Cons.prems(3) by simp
    moreover have "length ?bits = length bits" by (simp add: setBits_def)
    moreover have "?bits ! k = bits ! k" using False by (simp add: setBits_neq)
    ultimately show ?thesis using Cons.IH [of "Suc i" ?bits] Cons.prems False by simp
  qed
qed simp

lemma markSpecials_other: "\<forall>key\<in>set keys. unat key \<noteq> k \<Longrightarrow> markSpecials keys bits ! k = bits ! k"
  unfolding markSpecials_def by (induction keys arbitrary: bits) (auto simp: setBits_neq)

lemma markModifiers_other:
  "k \<notin> set (concat (map snd ms)) \<Longrightarrow> fold (markModifier C) ms bits ! k = bits ! k"
  by (induction ms arbitrary: bits) (auto simp: markModifier_other)

lemma keyBits_char:
  assumes "\<not> doesKeyLock C NX_KEYTYPE_CAPS_LOCK" and "keyAt km k \<noteq> None" and "k < NX_NUMKEYCODES" and "k \<noteq> 0x3f"
    and "k \<notin> set (concat (map snd (km_modifiers km)))" and "list_all (\<lambda>s. unat s \<noteq> k) (specialsOf C km)"
    and "map_of (km_modifiers km) NX_MODIFIERKEY_SECONDARYFN = None"
  shows "keyBitsOf C shorts km ! k = NX_CHARGENMASK"
proof -
  have len: "length (modifierKeyBits C km) = NX_NUMKEYCODES"
  proof -
    have "length (fold (setBits f) ks bits) = length bits" for f ks bits
      by (induction ks arbitrary: bits) (simp_all add: setBits_def)
    then have "length (fold (markModifier C) ms bits) = length bits" for ms bits
      by (induction ms arbitrary: bits) (simp_all add: markModifier_def)
    then show ?thesis by (simp add: modifierKeyBits_def Let_def setBits_def)
  qed
  have "modifierKeyBits C km ! k = 0"
    using assms(3,4,5) by (simp add: modifierKeyBits_def Let_def setBits_neq markModifiers_other)
  moreover have "k < length (km_keys km)" "km_keys km ! k \<noteq> None"
    using assms(2) by (auto simp: keyAt_def split: if_splits)
  ultimately have "markDefs 0 (km_keys km) (modifierKeyBits C km) ! k = NX_CHARGENMASK"
    using markDefs_hit [of 0 k "km_keys km" "modifierKeyBits C km"] assms(3) len by simp
  then show ?thesis
    using assms(1,6,7) by (simp add: keyBitsOf_def Let_def modOf_def markSpecials_other list_all_iff)
qed

section \<open>The property\<close>

text \<open>
  C33. What is typed is what the key map says: after any sequence of key events on an opened
  keyboard, each press and release of a key that makes characters posts exactly one key event,
  with the flags of the keys held, the time of the event, and the character that stands at
  the index of the held modifiers in the definition of the key; the original character is
  that of shift and caps lock alone.
\<close>

theorem typed_characters:
  assumes "plain_class C" and "maxKeyCodes C = 128" and "defaultKeymap C = encode shorts km"
    and "sound_keymap C shorts km" and "0 < maxModOf km" and "junk_ok junk" and "hk_eventFlags w = 0"
    and "ordinary es" and "k < 128" and "k \<noteq> 0x6f" and "charKey C shorts km (unat k) thisMask cs"
  shows "\<exists>v v' v''. openedKeyboard C clientIsSystem newNub junk w = Some (True, v) \<and>
    dispatchKeys C timersWork es v = Some v' \<and> dispatchKeyboardEvent C timersWork k down time v' = Some v'' \<and>
    tracks C km (heldAfter es {}) (hk_eventFlags v') \<and>
    (\<exists>origCode origSet. keyEventsOf v'' = keyEventsOf v' @
      [PostKeyEvent (if down then NX_KEYDOWN else NX_KEYUP) (hk_eventFlags v') k
         (of_nat (snd (charOf km thisMask cs (charModifiers (hk_eventFlags v')))))
         (of_nat (fst (charOf km thisMask cs (charModifiers (hk_eventFlags v')))))
         origCode origSet (hk_deviceType v') (hk_isRepeat v') time])"
proof -
  obtain v where v: "openedKeyboard C clientIsSystem newNub junk w = Some (True, v)" "plain_inv C shorts km {} v"
    using opened_inv [OF assms(1-7), of clientIsSystem newNub] by (auto simp: ensures_def)
  obtain v' where v': "dispatchKeys C timersWork es v = Some v'" "plain_inv C shorts km (heldAfter es {}) v'"
    using plain_steps [OF v(2) assms(8), of timersWork] by (auto simp: ensures_def)
  then have "tracks C km (heldAfter es {}) (hk_eventFlags v')"
    by (auto simp: plain_inv_def kbd_inv_def flags_ok_def shows_keys_def)
  then show ?thesis
    using v(1) v'(1) dispatch_char [OF v'(2) assms(9-11), of timersWork down time]
    by (elim ensuresE) blast
qed

text \<open>With the left shift key held, the key of A makes the character 65.\<close>

lemma no_specials: "replicate 24 (x :: u16) = [x, x, x, x, x, x, x, x, x, x, x, x, x, x, x, x, x, x, x, x, x, x, x, x]"
  by (simp add: numeral_eq_Suc)

lemma us_key_a: "charKey (ps2_class None id) False usKeyMap 0 13
   [(0, 97), (0, 65), (0, 1), (0, 1), (0, 202), (0, 199), (0, 1), (0, 1)]"
proof -
  have "keyBitsOf (ps2_class None id) False usKeyMap ! 0 = NX_CHARGENMASK"
  proof (rule keyBits_char)
    show "list_all (\<lambda>s. unat s \<noteq> 0) (specialsOf (ps2_class None id) usKeyMap)"
      by (simp add: specialsOf_def usKeyMap_def ps2_class_def hid_consts no_specials)
  qed (simp_all add: ps2_class_def keyAt_def usKeyMap_def hid_consts)
  then show ?thesis
    by (simp add: charKey_def keyOf_def keyAt_def usKeyMap_def allOnes_def)
qed

lemma lowest_bit: "(x :: u32) AND 1 \<noteq> 0 \<longleftrightarrow> bit x 0" "(x :: u32) AND 1 = 0 \<longleftrightarrow> \<not> bit x 0"
  by (simp_all add: and_one_eq bit_0 odd_iff_mod_2_eq_one)

lemma charIndex_numeral:
  "charIndex (numeral n) thisMask modifiers =
     (if odd thisMask
      then (if modifiers AND 1 \<noteq> 0 then 1 else 0) + 2 * charIndex (pred_numeral n) (thisMask div 2) (drop_bit 1 modifiers)
      else charIndex (pred_numeral n) (thisMask div 2) (drop_bit 1 modifiers))"
  by (simp add: numeral_eq_Suc)

lemma us_index_a:
  assumes "bit m 0" "\<not> bit m 2" "\<not> bit m 3"
  shows "charOf usKeyMap 13 [(0, 97), (0, 65), (0, 1), (0, 1), (0, 202), (0, 199), (0, 1), (0, 1)] m = (0, 65)"
proof -
  have n: "nat (maxModOf usKeyMap + 1) = numeral (num.Bit1 (num.Bit0 (num.Bit1 num.One)))"
    by (simp add: usKeyMap_maxMod)
  have "\<not> bit m (Suc (Suc 0))" "\<not> bit m (Suc (Suc (Suc 0)))"
    using assms(2,3) by (simp_all add: numeral_2_eq_2 numeral_3_eq_3)
  then have "charIndex (nat (maxModOf usKeyMap + 1)) 13 m = 1"
    using assms unfolding n
    by (simp only: charIndex_numeral pred_numeral_simps)
      (simp add: charIndex_numeral lowest_bit bit_drop_bit_eq charIndex_0 del: bit_0)
  then show ?thesis by (simp add: charOf_def)
qed

lemma tracks_flag:
  "tracks C km D flags \<Longrightarrow> 1 \<le> j \<Longrightarrow> j \<le> 4 \<Longrightarrow>
    bit flags (16 + j) = (isDown C km D j \<or> isDown C km D (j + 8))"
  by (simp add: tracks_def)

theorem typed_characters_witness:
  "\<exists>v v' v''. openedKeyboard (ps2_class None id) True True blank_mapper blank_keyboard = Some (True, v) \<and>
    dispatchKeys (ps2_class None id) True [(56, True, 1)] v = Some v' \<and>
    dispatchKeyboardEvent (ps2_class None id) True 0 True 2 v' = Some v'' \<and>
    (\<exists>flags origCode origSet type repeating. keyEventsOf v'' = keyEventsOf v' @
      [PostKeyEvent NX_KEYDOWN flags 0 65 0 origCode origSet type repeating 2])"
proof -
  let ?C = "ps2_class None id" and ?es = "[(56, True, 1)] :: (u32 \<times> bool \<times> u64) list"
  let ?cs = "[(0, 97), (0, 65), (0, 1), (0, 1), (0, 202), (0, 199), (0, 1), (0, 1)] :: chars"
  have pre: "0 < maxModOf usKeyMap" "ordinary ?es" "(0 :: u32) < 128" "(0 :: u32) \<noteq> 0x6f"
    "charKey ?C False usKeyMap (unat (0 :: u32)) 13 ?cs"
    using us_key_a by (simp_all add: usKeyMap_maxMod ordinary_def)
  obtain v v' v'' oc os where v: "openedKeyboard ?C True True blank_mapper blank_keyboard = Some (True, v)"
    "dispatchKeys ?C True ?es v = Some v'" "dispatchKeyboardEvent ?C True 0 True 2 v' = Some v''"
    "tracks ?C usKeyMap (heldAfter ?es {}) (hk_eventFlags v')"
    "keyEventsOf v'' = keyEventsOf v' @ [PostKeyEvent (if True then NX_KEYDOWN else NX_KEYUP) (hk_eventFlags v') 0
         (of_nat (snd (charOf usKeyMap 13 ?cs (charModifiers (hk_eventFlags v')))))
         (of_nat (fst (charOf usKeyMap 13 ?cs (charModifiers (hk_eventFlags v')))))
         oc os (hk_deviceType v') (hk_isRepeat v') 2]"
    using typed_characters [OF ps2_plain ps2_keymap usKeyMap_sound pre(1) blank_ok pre(2-5),
        where clientIsSystem = True and newNub = True and timersWork = True and down = True and time = 2]
    by blast
  let ?f = "hk_eventFlags v'"
  have "heldAfter ?es {} = {56}" by (simp add: heldAfter_def pressed_def)
  then have t: "tracks ?C usKeyMap {56} ?f" using v(4) by simp
  have bits: "bit ?f (16 + 1)" "\<not> bit ?f (16 + 2)" "\<not> bit ?f (16 + 3)"
    using tracks_flag [OF t, of 1] tracks_flag [OF t, of 2] tracks_flag [OF t, of 3]
    by (simp_all add: isDown_def modOf_def usKeyMap_def hid_consts)
  have "charOf usKeyMap 13 ?cs (charModifiers ?f) = (0, 65)"
  proof (rule us_index_a)
    have mask: "drop_bit 16 NX_SHIFTMASK = 2" "drop_bit 16 NX_ALPHASHIFTMASK = 1" by (simp_all add: hid_consts)
    have "drop_bit 16 ?f AND 2 \<noteq> 0"
      using bits(1) and_push_bit_nonzero [of "drop_bit 16 ?f" 1] by (simp add: bit_drop_bit_eq)
    then have m: "charModifiers ?f = drop_bit 16 ?f OR 1" by (simp add: charModifiers_def mask Let_def)
    show "bit (charModifiers ?f) 0" "\<not> bit (charModifiers ?f) 2" "\<not> bit (charModifiers ?f) 3"
      using bits by (simp_all add: m bit_or_iff bit_drop_bit_eq bit_1_iff del: bit_0)
  qed
  then show ?thesis using v(1-3,5) by auto
qed

end
