(* ===== verification/HID_Faults.thy ===== *)
theory HID_Faults
  imports HID_Typing PS2_KeyEvents
begin

text \<open>
  Key codes that the bit vector has no place for: which of the keys of a PS/2 keyboard lead to
  them, and the two key codes that the repeat of a key can bring up by itself.
\<close>

section \<open>An access outside the bit vector\<close>

lemma EVK_outside:
  assumes "length bits = 4" and "128 \<le> unat (n :: u32)"
  shows "EVK_KEYDOWN n bits = None" and "EVK_KEYUP n bits = None"
proof -
  have "\<not> unat n div 32 < length bits" using assms by simp
  then show "EVK_KEYDOWN n bits = None" "EVK_KEYUP n bits = None"
    by (simp_all add: EVK_KEYDOWN_def EVK_KEYUP_def evk_index)
qed

lemma raw_outside:
  assumes "length (hk_keyState w) = 4" and "128 \<le> unat key"
  shows "rawTranslateKeyCode C key down True w = None"
  using EVK_outside [OF assms(1), of "ucast key"] assms(2)
  by (simp add: rawTranslateKeyCode_def updateKeyState_def)

lemma not_F12: "128 \<le> unat key \<Longrightarrow> key \<noteq> kADB_KEYBOARD_F12"
  by (auto simp: hid_consts)

lemma entered_bits: "hk_keyState (entered k down time w) = hk_keyState w"
  by (simp add: entered_def Let_def setDispatching_def post_def)

lemma dispatch_outside:
  assumes inv: "plain_inv C shorts km D w" and "128 \<le> unat (ucast keyCode :: u8)"
  shows "dispatchKeyboardEvent C timersWork keyCode down time w = None"
proof -
  have "length (hk_keyState (entered keyCode down time w)) = 4"
    using inv by (simp add: entered_bits plain_inv_def kbd_inv_def features_ok_def keyboard_ok_def)
  from raw_outside [OF this assms(2)] show ?thesis
    unfolding plain_dispatch [OF inv not_F12 [OF assms(2)]] by simp
qed

lemma dispatch_inside_or_outside:
  assumes inv: "plain_inv C shorts km D w"
  shows "dispatchKeyboardEvent C timersWork keyCode down time w = None \<longleftrightarrow> 128 \<le> unat (ucast keyCode :: u8)"
proof (cases "128 \<le> unat (ucast keyCode :: u8)")
  case True
  then show ?thesis using dispatch_outside [OF inv] by blast
next
  case False
  then have "ensures (dispatchKeyboardEvent C timersWork keyCode down time w) (kbd_inv C shorts km)"
    using inv by (intro inv_dispatch) (simp_all add: plain_inv_def)
  then show ?thesis using False by (auto simp: ensures_def)
qed

section \<open>The eject key and the repeat\<close>

text \<open>
  The event for the eject key carries no key code; the repeat takes it for one. The next
  repeat translates its low byte.
\<close>

lemma unrepeatable_none: "\<not> unrepeatable 0xFFFF pm"
proof -
  have "(0xFFFF :: u32) \<noteq> ucast (k :: u8)" for k
  proof
    assume "(0xFFFF :: u32) = ucast k"
    then have "unat (0xFFFF :: u32) = unat k" by (metis unat_ucast_key)
    then show False using unat_u8_less [of k] by simp
  qed
  then show ?thesis by (simp add: unrepeatable_def)
qed

lemma repeat_outside:
  assumes inv: "kbd_inv C shorts km w" and plain: "plain_mapper (hk_keyMap w)"
    and c: "hk_calloutPending v" "hk_downRepeatTime v \<noteq> 0" "128 \<le> unat (ucast (hk_codeToRepeat v) :: u8)"
    and v: "hk_keyMap v = (hk_keyMap w)\<lparr>mp_f12EjectState := e\<rparr>" "hk_keyState v = hk_keyState w"
      "hk_hasKeyMap v = hk_hasKeyMap w" "hk_reserved v = hk_reserved w" "\<not> hk_deviceLock v"
  shows "autoRepeat C timersWork v = None"
proof -
  let ?u = "setDispatching True (v\<lparr>hk_deviceLock := True, hk_calloutPending := False, hk_isRepeat := True\<rparr>)"
  have C: "plain_class C" "hk_hasKeyMap w" "length (hk_keyState w) = 4" "\<not> dispatching w"
    using inv by (auto simp: kbd_inv_def features_ok_def keyboard_ok_def)
  have m: "plain_mapper (hk_keyMap ?u)" using plain v(1) by (simp add: plain_mapper_def setDispatching_def)
  have l: "length (hk_keyState ?u) = 4" using C(3) v(2) by (simp add: setDispatching_def)
  have "translateKeyCode C timersWork (ucast (hk_codeToRepeat v)) True True ?u = None"
    using raw_outside [OF _ c(3)] l by (simp add: plain_translate [OF C(1) m not_F12 [OF c(3)]])
  then have "translateIfMapped C timersWork (hk_codeToRepeat ?u) True ?u = None"
    using C(2) v(3) by (simp add: translateIfMapped_def) (simp add: setDispatching_def)
  moreover have "hk_downRepeatTime ?u \<noteq> 0" using c(2) by (simp add: setDispatching_def)
  moreover have "\<not> dispatching v" using C(4) v(4) by (simp add: dispatching_def)
  ultimately show ?thesis
    using c(1) v(5) by (simp add: autoRepeat_def lockDevice_def dispatching_def Let_def)
qed

lemma eject_repeats_no_key:
  assumes inv: "kbd_inv C shorts km w" and plain: "plain_mapper (hk_keyMap w)"
    and r: "hk_reserved w = Some r" "rs_repeatMode r" and "\<not> hk_isRepeat w" and "hk_initialKeyRepeat w \<noteq> 0"
  shows "\<exists>w'. performF12Eject w = Some w' \<and> hk_codeToRepeat w' = 0xFFFF \<and> autoRepeat C timersWork w' = None"
proof -
  let ?s = "static_keyboardSpecialEvent NX_KEYDOWN (hk_eventFlags w) (of_nat NX_NOSPECIALKEY) (of_nat NX_KEYTYPE_EJECT) False w"
  have none: "(of_nat NX_NOSPECIALKEY :: u32) = 0xFFFF" by (simp add: hid_consts)
  have s: "hk_hasKeyMap ?s = hk_hasKeyMap w" "hk_keyMap ?s = hk_keyMap w" "hk_reserved ?s = hk_reserved w"
    "hk_isRepeat ?s = hk_isRepeat w" "hk_initialKeyRepeat ?s = hk_initialKeyRepeat w" "hk_keyState ?s = hk_keyState w"
    "hk_deviceLock ?s = hk_deviceLock w"
    by (simp_all add: static_keyboardSpecialEvent_def post_def)
  have idle: "\<not> dispatching w" "hk_hasKeyMap w" "\<not> hk_deviceLock w"
    using inv by (auto simp: kbd_inv_def features_ok_def keyboard_ok_def)
  define v where "v = setRepeat NX_KEYDOWN 0xFFFF ?s"
  have v: "hk_calloutPending v" "hk_downRepeatTime v = hk_initialKeyRepeat w" "hk_codeToRepeat v = 0xFFFF"
    "hk_keyMap v = hk_keyMap w" "hk_keyState v = hk_keyState w" "hk_hasKeyMap v = hk_hasKeyMap w"
    "hk_reserved v = hk_reserved w" "hk_deviceLock v = hk_deviceLock w"
    using assms(3-6) by (simp_all add: v_def setRepeat_def s scheduleAutoRepeat_def Let_def post_def)
  let ?w = "updEject (\<lambda>s. s AND NOT kState_In_Progess_Flag) v"
  have "performF12Eject w = Some ?w"
    using idle assms(5) s(1,2)
    by (simp add: performF12Eject_def postKeyboardSpecialEvent_def keyboardSpecialEvent_def outsideLock_def
        none unrepeatable_none v_def)
  moreover have "autoRepeat C timersWork ?w = None"
    by (rule repeat_outside [OF inv plain]) (use v idle assms(6) in \<open>simp_all add: updEject_def updMapper_def\<close>)
  moreover have "hk_codeToRepeat ?w = 0xFFFF" using v(3) by (simp add: updEject_def)
  ultimately show ?thesis by blast
qed

section \<open>The property\<close>

lemma adb_codes: "k < 130 \<Longrightarrow> 128 \<le> unat (PS2ToADBMap ! k) \<longleftrightarrow> PS2ToADBMap ! k = 0x80"
proof -
  have "replicate 2 (0 :: u8) = [0, 0]" by (simp add: numeral_2_eq_2)
  then have "list_all (\<lambda>c. 128 \<le> unat c \<longleftrightarrow> c = 0x80) PS2ToADBMap" by (simp add: PS2ToADBMap_def)
  then show "k < 130 \<Longrightarrow> 128 \<le> unat (PS2ToADBMap ! k) \<longleftrightarrow> PS2ToADBMap ! k = 0x80"
    by (simp add: list_all_length PS2ToADBMap_length)
qed

lemma plainKeyCode_less: "unat (plainKeyCode e m sc) < 130"
  using plainKeyCode_bound [of e m sc] by (simp add: KBV_NUM_KEYCODES_def)

lemma ucast_ucast_key: "ucast (ucast (k :: u8) :: u32) = k"
  by (rule bit_word_eqI) (simp add: bit_simps)

text \<open>
  C34. The two drivers together, for a scan code without a prefix: if it leads to an event,
  the keyboard of the HID system handles the event, unless the table of ADB codes has no code
  for the key; the code 0x80 that stands there instead is outside the bit vector of 128 keys,
  and the access to it is the one that is not inside its object.
\<close>

theorem scan_codes_outside_bit_vector:
  assumes "kb_wf p" and "kb_extendCount p = 0" and "scanCode \<noteq> kSC_Extend" and "scanCode \<noteq> kSC_Pause"
    and "plain_inv C shorts km D w"
  defines "k \<equiv> unat (plainKeyCode (kb_emacsMode p) (kb_macintoshMode p) scanCode)"
    and "down \<equiv> scanCode AND kSC_UpBit = 0"
  shows "\<exists>sent p'. dispatchKeyboardEventWithScancode E scanCode p = Some (sent, p') \<and>
    (sent \<longleftrightarrow> k \<noteq> 0 \<and> \<not> (down \<and> k \<in> keysDown p)) \<and>
    (sent \<longrightarrow> effects p' = effects p @ [KeyEvent (PS2ToADBMap ! k) down (Some (uptime E (hw p)))] \<and>
      (dispatchKeyboardEvent C timersWork (ucast (PS2ToADBMap ! k)) down time w = None \<longleftrightarrow>
       PS2ToADBMap ! k = 0x80))"
proof -
  obtain sent p' where p': "dispatchKeyboardEventWithScancode E scanCode p = Some (sent, p')"
    "after_key E k down p sent p'"
    using dispatch_plain [OF assms(1-4), of E] unfolding k_def down_def by blast
  have spec: "keySpec k down (keysDown p) = (sent, keysDown p')" and
    eff: "effects p' = effects p @ (if sent then [KeyEvent (PS2ToADBMap ! k) down (Some (uptime E (hw p)))] else [])"
    using after_key_keeps [OF p'(2)] p'(2) unfolding after_key_def by (blast, metis kbd.select_convs(1))
  have "k < 130" using plainKeyCode_less by (simp add: k_def)
  then have "dispatchKeyboardEvent C timersWork (ucast (PS2ToADBMap ! k)) down time w = None \<longleftrightarrow>
      PS2ToADBMap ! k = 0x80"
    using dispatch_inside_or_outside [OF assms(5), of timersWork "ucast (PS2ToADBMap ! k)" down time]
    by (simp add: ucast_ucast_key adb_codes)
  moreover have "sent \<longleftrightarrow> k \<noteq> 0 \<and> \<not> (down \<and> k \<in> keysDown p)"
    using spec by (auto simp: keySpec_def split: if_splits)
  ultimately show ?thesis using p'(1) eff by auto
qed

text \<open>The key SysReq, scan code 0x54, on a keyboard that has just been opened.\<close>

theorem scan_codes_outside_bit_vector_witness:
  "\<exists>p' v. dispatchKeyboardEventWithScancode (example_env 0) 0x54 (example_world []) = Some (True, p') \<and>
    effects p' = [KeyEvent 0x80 True (Some 7)] \<and>
    openedKeyboard (ps2_class None id) True True blank_mapper blank_keyboard = Some (True, v) \<and>
    dispatchKeyboardEvent (ps2_class None id) True 0x80 True 7 v = None"
proof -
  let ?w = "example_world []" and ?C = "ps2_class None id"
  have w: "kb_extendCount ?w = 0" "\<not> kb_emacsMode ?w" "\<not> kb_macintoshMode ?w" "effects ?w = []" "keysDown ?w = {}"
    by (auto simp: example_world_def keySet_def ps2_consts nth_Cons' split: if_splits)
  have e: "uptime (example_env 0) h = 7" for h by (simp add: example_env_def example_ports_def)
  have "0 < maxModOf usKeyMap" by (simp add: usKeyMap_maxMod)
  then obtain v where v: "openedKeyboard ?C True True blank_mapper blank_keyboard = Some (True, v)"
    "plain_inv ?C False usKeyMap {} v"
    using opened_inv [OF ps2_plain ps2_keymap usKeyMap_sound _ blank_ok, of None id True True]
    by (auto simp: ensures_def)
  from scan_codes_outside_bit_vector [OF example_kb_wf w(1) _ _ v(2),
      where scanCode = "0x54" and E = "example_env 0" and timersWork = True and time = 7]
  show ?thesis using v(1) by (auto simp: w e plainKeyCode_def PS2ToADBMap_def ps2_consts)
qed

end
