(* ===== verification/HID_Accessibility.thy ===== *)
theory HID_Accessibility
  imports HID_Typing
begin

text \<open>
  What users see of the keyboard's aids: sticky keys are switched by pressing shift five times
  in a row, and slow keys ignore keys that are pressed for a short time only.
\<close>

section \<open>Several presses in a row\<close>

text \<open>
  The reference: a list of deadlines, from which those that have passed are taken away, and
  which is forgotten when another key is pressed.
\<close>

definition pressesInARow :: "u64 \<Rightarrow> u64 \<Rightarrow> bool \<Rightarrow> bool \<Rightarrow> u64 list \<Rightarrow> bool \<times> u64 list" where
  "pressesInARow now interval own down ds =
     (if \<not> own then (False, [])
      else let ds = filter (\<lambda>d. now \<le> d) ds
           in if down then (False, if length ds < kNUM_SHIFTS_TO_ACTIVATE then ds @ [now + interval] else ds)
              else if length ds = kNUM_SHIFTS_TO_ACTIVATE then (True, []) else (False, ds))"

definition activeDeadlines :: "toggle_info \<Rightarrow> u64 list" where
  "activeDeadlines t = take (tg_currentCount t) (tg_deadlines t)"

lemma latestExpired_cases:
  "case latestExpired now ds n of
     None \<Rightarrow> \<forall>j < n. \<not> ds ! j < now
   | Some i \<Rightarrow> i < n \<and> ds ! i < now \<and> (\<forall>j. i < j \<and> j < n \<longrightarrow> \<not> ds ! j < now)"
  by (induction n) (auto split: option.splits simp: less_Suc_eq)

lemma move_forward:
  assumes "n + m \<le> length ds"
  shows "length (fold (\<lambda>k ds. ds[k := ds ! (k + m)]) [0..<n] ds) = length ds"
    and "fold (\<lambda>k ds. ds[k := ds ! (k + m)]) [0..<n] ds ! j = (if j < n then ds ! (j + m) else ds ! j)"
proof -
  have "length (fold (\<lambda>k ds. ds[k := ds ! (k + m)]) [0..<n] ds) = length ds \<and>
    (\<forall>j. fold (\<lambda>k ds. ds[k := ds ! (k + m)]) [0..<n] ds ! j = (if j < n then ds ! (j + m) else ds ! j))"
    using assms
  proof (induction n)
    case (Suc n)
    then show ?case by (auto simp: nth_list_update less_Suc_eq)
  qed simp
  then show "length (fold (\<lambda>k ds. ds[k := ds ! (k + m)]) [0..<n] ds) = length ds"
    "fold (\<lambda>k ds. ds[k := ds ! (k + m)]) [0..<n] ds ! j = (if j < n then ds ! (j + m) else ds ! j)"
    by blast+
qed

lemma prune_filter:
  assumes ok: "toggle_ok t" and sorted: "sorted (activeDeadlines t)"
  shows "activeDeadlines (pruneDeadlines now t) = filter (\<lambda>d. now \<le> d) (activeDeadlines t)"
    and "toggle_ok (pruneDeadlines now t)" and "tg_toggleModifier (pruneDeadlines now t) = tg_toggleModifier t"
    and "tg_expireInterval (pruneDeadlines now t) = tg_expireInterval t"
proof -
  let ?n = "tg_currentCount t" and ?ds = "tg_deadlines t"
  have len: "length ?ds = kNUM_SHIFTS_TO_ACTIVATE" "?n \<le> length ?ds" using ok by (simp_all add: toggle_ok_def)
  have "activeDeadlines (pruneDeadlines now t) = filter (\<lambda>d. now \<le> d) (activeDeadlines t) \<and>
    toggle_ok (pruneDeadlines now t)"
  proof (cases "latestExpired now ?ds ?n")
    case None
    then have "\<forall>d\<in>set (activeDeadlines t). now \<le> d"
      using latestExpired_cases [of ?n ?ds now] len(2)
      by (auto simp: activeDeadlines_def in_set_conv_nth not_less)
    then show ?thesis using None ok by (simp add: pruneDeadlines_def)
  next
    case (Some i)
    then have i: "i < ?n" "?ds ! i < now" "\<And>j. i < j \<Longrightarrow> j < ?n \<Longrightarrow> now \<le> ?ds ! j"
      using latestExpired_cases [of ?n ?ds now] by (auto simp: not_less)
    let ?as = "activeDeadlines t"
    have as: "length ?as = ?n" "\<And>j. j < ?n \<Longrightarrow> ?as ! j = ?ds ! j" using len(2) by (simp_all add: activeDeadlines_def)
    have "filter (\<lambda>d. now \<le> d) ?as = filter (\<lambda>d. now \<le> d) (take (Suc i) ?as) @ filter (\<lambda>d. now \<le> d) (drop (Suc i) ?as)"
      by (metis append_take_drop_id filter_append)
    also have "filter (\<lambda>d. now \<le> d) (take (Suc i) ?as) = []"
    proof -
      have "?as ! j < now" if le: "j \<le> i" for j
      proof -
        have "?as ! j \<le> ?as ! i" by (rule sorted_nth_mono [OF sorted le]) (use i(1) as in simp)
        also have "\<dots> < now" using i(1,2) as by simp
        finally show ?thesis .
      qed
      then show ?thesis using i(1) as by (auto simp: filter_empty_conv in_set_conv_nth not_le)
    qed
    also have "filter (\<lambda>d. now \<le> d) (drop (Suc i) ?as) = drop (Suc i) ?as"
      using i as by (auto simp: filter_id_conv in_set_conv_nth)
    finally have flt: "filter (\<lambda>d. now \<le> d) ?as = drop (Suc i) ?as" by simp
    have bound: "(?n - (i + 1)) + (i + 1) \<le> length ?ds" using i(1) len(2) by simp
    let ?es = "fold (\<lambda>k ds. ds[k := ds ! (k + (i + 1))]) [0..<?n - (i + 1)] ?ds"
    have "take (?n - (i + 1)) ?es = drop (Suc i) ?as"
      by (rule nth_equalityI) (use move_forward [OF bound] len(2) as in \<open>auto simp: add.commute\<close>)
    moreover have "?n - Suc i \<le> kNUM_SHIFTS_TO_ACTIVATE" using len by simp
    ultimately show ?thesis
      using Some flt ok move_forward(1) [OF bound]
      by (simp add: pruneDeadlines_def activeDeadlines_def toggle_ok_def)
  qed
  then show "activeDeadlines (pruneDeadlines now t) = filter (\<lambda>d. now \<le> d) (activeDeadlines t)"
    "toggle_ok (pruneDeadlines now t)" by blast+
  show "tg_toggleModifier (pruneDeadlines now t) = tg_toggleModifier t"
    "tg_expireInterval (pruneDeadlines now t) = tg_expireInterval t"
    by (simp_all add: pruneDeadlines_def split: option.split)
qed

lemma toggleCheck_reference:
  assumes ok: "toggle_ok t" and sorted: "sorted (activeDeadlines t)"
  shows "\<exists>b t'. stickyKeysModifierToggleCheck now thisBits keyDown mouseClick t = Some (b, t') \<and>
    pressesInARow now (tg_expireInterval t) (leftBit thisBits = tg_toggleModifier t \<and> \<not> mouseClick) keyDown
      (activeDeadlines t) = (b, activeDeadlines t') \<and>
    toggle_ok t' \<and> tg_toggleModifier t' = tg_toggleModifier t \<and> tg_expireInterval t' = tg_expireInterval t"
proof -
  let ?p = "pruneDeadlines now t"
  note p = prune_filter [OF ok sorted, of now]
  have len: "length (activeDeadlines ?p) = tg_currentCount ?p" "tg_currentCount ?p \<le> kNUM_SHIFTS_TO_ACTIVATE"
    "length (tg_deadlines ?p) = kNUM_SHIFTS_TO_ACTIVATE" "tg_repetitionsToToggle ?p = kNUM_SHIFTS_TO_ACTIVATE"
    using p(2) by (simp_all add: toggle_ok_def activeDeadlines_def)
  have store: "take (Suc n) (ds[n := d]) = take n ds @ [d]" if "n < length ds" for n d and ds :: "u64 list"
    using that by (simp add: take_Suc_conv_app_nth)
  let ?q = "?p\<lparr>tg_deadlines := (tg_deadlines ?p)[tg_currentCount ?p := now + tg_expireInterval ?p],
                tg_currentCount := tg_currentCount ?p + 1\<rparr>"
  have q: "activeDeadlines ?q = activeDeadlines ?p @ [now + tg_expireInterval t]" "toggle_ok ?q"
    if "tg_currentCount ?p < kNUM_SHIFTS_TO_ACTIVATE"
    using that len p(2,4) store by (simp_all add: activeDeadlines_def toggle_ok_def)
  have zero: "activeDeadlines (x\<lparr>tg_currentCount := 0\<rparr>) = []" "toggle_ok x \<Longrightarrow> toggle_ok (x\<lparr>tg_currentCount := 0\<rparr>)" for x
    by (simp_all add: activeDeadlines_def toggle_ok_def)
  show ?thesis
    using ok p len q zero
    by (auto simp: stickyKeysModifierToggleCheck_def pressesInARow_def Let_def simp flip: p(1))
qed

text \<open>
  A run of the check: every call comes with the time of the call, the bits of the key, whether
  the key is pressed and whether the call was made for a mouse button.
\<close>

type_synonym toggle_call = "u64 \<times> u8 \<times> bool \<times> bool"

fun toggleRun :: "toggle_call list \<Rightarrow> toggle_info \<Rightarrow> (bool list \<times> toggle_info) option" where
  "toggleRun [] t = Some ([], t)"
| "toggleRun ((now, bits, down, mouse) # calls) t =
     do { (b, t) \<leftarrow> stickyKeysModifierToggleCheck now bits down mouse t;
          (bs, t) \<leftarrow> toggleRun calls t;
          Some (b # bs, t) }"

definition ownCall :: "nat \<Rightarrow> toggle_call \<Rightarrow> bool" where
  "ownCall modifier c = (case c of (now, bits, down, mouse) \<Rightarrow> leftBit bits = modifier \<and> \<not> mouse)"

fun referenceRun :: "u64 \<Rightarrow> nat \<Rightarrow> toggle_call list \<Rightarrow> u64 list \<Rightarrow> bool list \<times> u64 list" where
  "referenceRun interval modifier [] ds = ([], ds)"
| "referenceRun interval modifier ((now, bits, down, mouse) # calls) ds =
     (let (b, ds) = pressesInARow now interval (ownCall modifier (now, bits, down, mouse)) down ds;
          (bs, ds) = referenceRun interval modifier calls ds
      in (b # bs, ds))"

text \<open>
  The clock: the calls come in the order of their times, and no deadline is past the largest
  time the clock can show.
\<close>

definition clock_ok :: "u64 \<Rightarrow> toggle_call list \<Rightarrow> bool" where
  "clock_ok interval calls \<longleftrightarrow>
     sorted (map fst calls) \<and> list_all (\<lambda>c. unat (fst c) + unat interval < 2 ^ 64) calls"

lemma deadline_mono: "s \<le> t \<Longrightarrow> unat t + unat i < 2 ^ 64 \<Longrightarrow> s + i \<le> t + (i :: u64)"
  by (simp add: word_le_nat_alt unat_word_ariths)

lemma pressesInARow_sorted:
  assumes "pressesInARow now i own down ds = (b, es)" "sorted ds" "\<forall>d\<in>set ds. d \<le> now + i"
  shows "sorted es" "\<forall>d\<in>set es. d \<le> now + i"
  using assms by (auto simp: pressesInARow_def Let_def sorted_append sorted_wrt_filter split: if_splits)

lemma toggleRun_reference:
  assumes "toggle_ok t" "sorted (activeDeadlines t)" "clock_ok (tg_expireInterval t) calls"
    and "\<forall>d\<in>set (activeDeadlines t). \<forall>c\<in>set calls. d \<le> fst c + tg_expireInterval t"
  shows "\<exists>bs t'. toggleRun calls t = Some (bs, t') \<and>
    referenceRun (tg_expireInterval t) (tg_toggleModifier t) calls (activeDeadlines t) = (bs, activeDeadlines t') \<and>
    toggle_ok t'"
  using assms
proof (induction calls arbitrary: t)
  case (Cons c calls)
  obtain now bits down mouse where c: "c = (now, bits, down, mouse)" by (cases c) auto
  obtain b s where s: "stickyKeysModifierToggleCheck now bits down mouse t = Some (b, s)"
    "pressesInARow now (tg_expireInterval t) (ownCall (tg_toggleModifier t) c) down (activeDeadlines t)
       = (b, activeDeadlines s)"
    "toggle_ok s" "tg_toggleModifier s = tg_toggleModifier t" "tg_expireInterval s = tg_expireInterval t"
    using toggleCheck_reference [OF Cons.prems(1,2), of now bits down mouse] c by (auto simp: ownCall_def)
  have now: "\<forall>d\<in>set (activeDeadlines t). d \<le> now + tg_expireInterval t" using Cons.prems(4) c by simp
  note sorted = pressesInARow_sorted [OF s(2) Cons.prems(2) now]
  have later: "now + tg_expireInterval t \<le> fst d + tg_expireInterval t" if "d \<in> set calls" for d
    using Cons.prems(3) c that by (auto simp: clock_ok_def list_all_iff intro: deadline_mono)
  have "\<forall>d\<in>set (activeDeadlines s). \<forall>e\<in>set calls. d \<le> fst e + tg_expireInterval s"
    using sorted(2) later s(5) by (auto intro: order_trans)
  moreover have "clock_ok (tg_expireInterval s) calls" using Cons.prems(3) s(5) by (simp add: clock_ok_def)
  ultimately show ?case using Cons.IH [OF s(3) sorted(1)] s c by auto
qed simp

text \<open>
  C35. The check for several presses in a row keeps an array of five deadlines, drops those that
  have passed by moving the others to the front, and counts. On every sequence of calls in the order of
  their times it answers what a list of deadlines answers that simply forgets the ones that
  have passed: it never fails, and it never reads or writes past its array.
\<close>

theorem toggle_check_equals_reference:
  assumes "toggle_ok t" and "tg_currentCount t = 0" and "clock_ok (tg_expireInterval t) calls"
  shows "\<exists>bs t'. toggleRun calls t = Some (bs, t') \<and>
    referenceRun (tg_expireInterval t) (tg_toggleModifier t) calls [] = (bs, activeDeadlines t') \<and>
    toggle_ok t'"
  using toggleRun_reference [OF assms(1) _ assms(3)] assms(2) by (simp add: activeDeadlines_def)

lemma toggle_check_equals_reference_witness:
  defines "t \<equiv> \<lparr>tg_toggleModifier = 2, tg_repetitionsToToggle = 5, tg_expireInterval = 100, tg_currentCount = 0,
                tg_deadlines = replicate 5 0\<rparr>"
    and "calls \<equiv> [(1, 2, True, False), (3, 2, False, False), (90, 2, True, False), (150, 2, False, False)]"
  shows "clock_ok (tg_expireInterval t) calls \<and>
    (\<exists>bs t'. toggleRun calls t = Some (bs, t') \<and>
      referenceRun (tg_expireInterval t) (tg_toggleModifier t) calls [] = (bs, activeDeadlines t') \<and> toggle_ok t')"
proof (intro conjI)
  show clock: "clock_ok (tg_expireInterval t) calls" by (simp add: t_def calls_def clock_ok_def)
  show "\<exists>bs t'. toggleRun calls t = Some (bs, t') \<and>
      referenceRun (tg_expireInterval t) (tg_toggleModifier t) calls [] = (bs, activeDeadlines t') \<and> toggle_ok t'"
    by (rule toggle_check_equals_reference [OF _ _ clock]) (simp_all add: t_def toggle_ok_def kNUM_SHIFTS_TO_ACTIVATE_def)
qed

text \<open>
  A modifier that is pressed and released several times, given with the times of each press and release.
\<close>

definition pressesOf :: "u8 \<Rightarrow> (u64 \<times> u64) list \<Rightarrow> toggle_call list" where
  "pressesOf bits presses = concat (map (\<lambda>(d, u). [(d, bits, True, False), (u, bits, False, False)]) presses)"

lemma referenceRun_presses:
  assumes "leftBit bits = modifier" "length ds + length presses \<le> kNUM_SHIFTS_TO_ACTIVATE"
    and "\<forall>d\<in>set ds \<union> (\<lambda>t. fst t + i) ` set presses. \<forall>t\<in>set presses. fst t \<le> d \<and> snd t \<le> d"
    and "presses \<noteq> []"
  shows "fst (referenceRun i modifier (pressesOf bits presses) ds) =
    replicate (2 * length presses - 1) False @ [length ds + length presses = kNUM_SHIFTS_TO_ACTIVATE]"
  using assms
proof (induction presses arbitrary: ds)
  case (Cons t presses)
  obtain d u where t: "t = (d, u)" by (cases t)
  have keep: "filter ((\<le>) d) ds = ds" "filter ((\<le>) u) (ds @ [d + i]) = ds @ [d + i]"
    using Cons.prems(3) t by (auto simp: filter_id_conv)
  show ?case
  proof (cases "presses = []")
    case True
    then show ?thesis using Cons.prems(1,2) t keep by (auto simp: pressesOf_def pressesInARow_def ownCall_def)
  next
    case False
    have "fst (referenceRun i modifier (pressesOf bits presses) (ds @ [d + i])) =
      replicate (2 * length presses - 1) False @ [length (ds @ [d + i]) + length presses = kNUM_SHIFTS_TO_ACTIVATE]"
      by (rule Cons.IH) (use Cons.prems False t in auto)
    moreover have step: "fst (referenceRun i modifier (pressesOf bits (t # presses)) ds) =
      False # False # fst (referenceRun i modifier (pressesOf bits presses) (ds @ [d + i]))"
      if "length ds < kNUM_SHIFTS_TO_ACTIVATE" "Suc (length ds) \<noteq> kNUM_SHIFTS_TO_ACTIVATE"
    proof -
      have "referenceRun i modifier (pressesOf bits (t # presses)) ds =
        (let (b, es) = pressesInARow d i True True ds; (b', es) = pressesInARow u i True False es;
             (bs, es) = referenceRun i modifier (pressesOf bits presses) es in (b # b' # bs, es))"
        using Cons.prems(1) t by (auto simp: pressesOf_def ownCall_def Let_def split: prod.splits)
      moreover have "pressesInARow d i True True ds = (False, ds @ [d + i])"
        "pressesInARow u i True False (ds @ [d + i]) = (False, ds @ [d + i])"
        using that keep by (simp_all only: pressesInARow_def Let_def) simp_all
      ultimately show ?thesis by (simp split: prod.split)
    qed
    moreover have "replicate (2 * length (t # presses) - 1) False = False # False # replicate (2 * length presses - 1) False"
      using False by (cases presses) simp_all
    moreover have "length ds < kNUM_SHIFTS_TO_ACTIVATE" "Suc (length ds) \<noteq> kNUM_SHIFTS_TO_ACTIVATE"
      using Cons.prems(2) False by (auto simp: Suc_le_eq length_greater_0_conv [symmetric] simp del: length_greater_0_conv)
    ultimately show ?thesis
      using Cons.prems(1) t keep
      by (simp add: step)
  qed
qed simp

text \<open>
  C36. Sticky keys are switched by five presses in a row: when the modifier is pressed and
  released up to five times, and the last release comes before the first press is forgotten, then
  the check answers no at every press and at every release but the fifth, where it answers yes.
\<close>

theorem five_presses_toggle:
  assumes "toggle_ok t" and "tg_currentCount t = 0" and "leftBit bits = tg_toggleModifier t"
    and "clock_ok (tg_expireInterval t) (pressesOf bits presses)"
    and "presses \<noteq> []" and "length presses \<le> kNUM_SHIFTS_TO_ACTIVATE"
    and "snd (last presses) \<le> fst (hd presses) + tg_expireInterval t"
  shows "\<exists>t'. toggleRun (pressesOf bits presses) t =
    Some (replicate (2 * length presses - 1) False @ [length presses = kNUM_SHIFTS_TO_ACTIVATE], t')"
proof -
  let ?i = "tg_expireInterval t"
  have map: "map fst (pressesOf bits ts) = concat (map (\<lambda>(d, u). [d, u]) ts)" for ts
    by (induction ts) (auto simp: pressesOf_def)
  have sorted: "sorted (concat (map (\<lambda>(d, u). [d, u]) presses))" using assms(4) by (simp add: clock_ok_def map)
  have first: "fst (hd presses) \<le> x" "x \<le> snd (last presses)"
    if "x \<in> set (concat (map (\<lambda>(d, u). [d, u]) presses))" for x
  proof -
    show "fst (hd presses) \<le> x" using sorted that assms(5) by (cases presses) auto
    obtain ts d u where "presses = ts @ [(d, u)]" using assms(5) by (cases presses rule: rev_cases) auto
    then show "x \<le> snd (last presses)" using sorted that by (auto simp: sorted_append)
  qed
  have time: "fst t \<in> set (concat (map (\<lambda>(d, u). [d, u]) presses))" "snd t \<in> set (concat (map (\<lambda>(d, u). [d, u]) presses))"
    if "t \<in> set presses" for t
    using that by (auto intro!: bexI [of _ t] simp: case_prod_beta)
  have clock: "unat d + unat ?i < 2 ^ 64" if "d \<in> set (concat (map (\<lambda>(d, u). [d, u]) presses))" for d
    using assms(4) that unfolding map [symmetric] by (auto simp: clock_ok_def list_all_iff)
  have first_deadline: "fst (hd presses) + ?i \<le> fst p + ?i" if "p \<in> set presses" for p
    using time [OF that] first(1) clock by (intro deadline_mono) auto
  have le: "x \<le> fst p + ?i" if "x \<in> set (concat (map (\<lambda>(d, u). [d, u]) presses))" "p \<in> set presses" for x p
    using first(2) [OF that(1)] assms(7) first_deadline [OF that(2)] by (meson order_trans)
  have "\<forall>d\<in>set [] \<union> (\<lambda>t. fst t + ?i) ` set presses. \<forall>t\<in>set presses. fst t \<le> d \<and> snd t \<le> d"
  proof (intro ballI)
    fix d q assume "d \<in> set [] \<union> (\<lambda>t. fst t + ?i) ` set presses" and q: "q \<in> set presses"
    then obtain p where "p \<in> set presses" "d = fst p + ?i" by auto
    then show "fst q \<le> d \<and> snd q \<le> d" using le time [OF q] by blast
  qed
  from referenceRun_presses [OF assms(3) _ this assms(5)] assms(6)
  have "fst (referenceRun ?i (tg_toggleModifier t) (pressesOf bits presses) []) =
    replicate (2 * length presses - 1) False @ [length presses = kNUM_SHIFTS_TO_ACTIVATE]" by simp
  then show ?thesis
    using toggleRun_reference [OF assms(1) _ assms(4)] assms(2) by (auto simp: activeDeadlines_def)
qed

lemma five_presses_toggle_witness:
  defines "t \<equiv> \<lparr>tg_toggleModifier = 2, tg_repetitionsToToggle = 5, tg_expireInterval = 100, tg_currentCount = 0,
                tg_deadlines = replicate 5 0\<rparr>"
    and "presses \<equiv> [(1, 3), (10, 12), (20, 22), (30, 31), (40, 50)]"
  shows "\<exists>t'. toggleRun (pressesOf 0x12 presses) t = Some (replicate 9 False @ [True], t')"
proof -
  have "\<exists>t'. toggleRun (pressesOf 0x12 presses) t =
    Some (replicate (2 * length presses - 1) False @ [length presses = kNUM_SHIFTS_TO_ACTIVATE], t')"
    by (rule five_presses_toggle)
       (simp_all add: t_def presses_def toggle_ok_def kNUM_SHIFTS_TO_ACTIVATE_def clock_ok_def pressesOf_def
         leftBit_def whichMod_def isRightBit_def hid_consts)
  then show ?thesis by (simp add: presses_def kNUM_SHIFTS_TO_ACTIVATE_def)
qed

end
