(* ===== verification/HID_SlowKeys.thy ===== *)
theory HID_SlowKeys
  imports HID_Typing
begin

text \<open>
  Slow keys: a key that is released before its timer fires is ignored. What happens to two
  keys whose presses overlap.
\<close>

section \<open>The states of the filter\<close>

text \<open>
  A keyboard on which slow keys are switched on, with the key that was pressed last and what
  the filter knows of it: \<open>Waiting\<close> when its timer runs, \<open>Aborted b\<close> when key \<open>b\<close> was pressed
  in the meantime, \<open>Idle\<close> otherwise.
\<close>

datatype slow_phase = Idle | Waiting | Aborted u8

definition slow_phase :: "hik \<Rightarrow> slow_phase \<Rightarrow> bool" where
  "slow_phase w p \<longleftrightarrow>
     (case p of
        Idle \<Rightarrow> \<not> slowIs kState_In_Progess_Flag w
      | Waiting \<Rightarrow> slowIs kState_In_Progess_Flag w
      | Aborted b \<Rightarrow> \<not> slowIs kState_In_Progess_Flag w \<and> slowIs kState_Aborted_Flag w \<and>
          mp_slowKeysAborted (hk_keyMap w) = b)"

definition slow_keyboard :: "hik_class \<Rightarrow> hik \<Rightarrow> bool" where
  "slow_keyboard C w \<longleftrightarrow>
     keyboard_ok C w \<and> mp_modifierSwap (hk_keyMap w) = map of_nat [0..<NX_NUMMODIFIERS] \<and>
     mp_slowKeysDelay (hk_keyMap w) \<noteq> 0 \<and> mp_slowKeysTimer (hk_keyMap w) \<and>
     \<not> hk_isRepeat w \<and> \<not> slowIs kState_Is_Repeat_Flag w"

lemma slowIs_bit:
  "slowIs kState_Aborted_Flag w \<longleftrightarrow> bit (mp_slowKeysState (hk_keyMap w)) 9"
  "slowIs kState_In_Progess_Flag w \<longleftrightarrow> bit (mp_slowKeysState (hk_keyMap w)) 10"
  "slowIs kState_Is_Repeat_Flag w \<longleftrightarrow> bit (mp_slowKeysState (hk_keyMap w)) 11"
  using and_exp_eq_0_iff_not_bit [of "mp_slowKeysState (hk_keyMap w)" 9]
    and_exp_eq_0_iff_not_bit [of "mp_slowKeysState (hk_keyMap w)" 10]
    and_exp_eq_0_iff_not_bit [of "mp_slowKeysState (hk_keyMap w)" 11]
  by (simp_all add: slowIs_def hid_consts)

text \<open>What a key that is ignored leaves as it was.\<close>

definition undisturbed :: "hik \<Rightarrow> hik \<Rightarrow> bool" where
  "undisturbed w w' \<longleftrightarrow>
     hk_keyState w' = hk_keyState w \<and> hk_eventFlags w' = hk_eventFlags w \<and> keyEventsOf w' = keyEventsOf w \<and>
     mp_stickyState (hk_keyMap w') = mp_stickyState (hk_keyMap w) \<and> parsedMapping w' = parsedMapping w \<and>
     hk_keyboardEventAction w' = hk_keyboardEventAction w \<and> hk_deviceType w' = hk_deviceType w \<and>
     hk_lastEventTime w' = hk_lastEventTime w"

lemma undisturbed_refl: "undisturbed w w"
  by (simp add: undisturbed_def)

lemma undisturbed_trans: "undisturbed u v \<Longrightarrow> undisturbed v w \<Longrightarrow> undisturbed u w"
  by (simp add: undisturbed_def)

lemma keyEventsOf_flags [simp]:
  "hk_eventFlags (scheduleAutoRepeat w) = hk_eventFlags w" "hk_eventFlags (setRepeat ty k w) = hk_eventFlags w"
proof -
  show s: "hk_eventFlags (scheduleAutoRepeat w) = hk_eventFlags w" for w
    by (simp add: scheduleAutoRepeat_def post_def Let_def)
  show "hk_eventFlags (setRepeat ty k w) = hk_eventFlags w" by (simp add: setRepeat_def s Let_def)
qed

lemma special_undisturbed:
  assumes ok: "keyboard_ok C w"
  shows "ensures (postKeyboardSpecialEvent subtype NX_SYSDEFINED w)
    (\<lambda>w'. undisturbed w w' \<and> frozen w' = frozen w)"
proof -
  have "ensures (postKeyboardSpecialEvent subtype NX_SYSDEFINED w) (quiet w)"
    unfolding postKeyboardSpecialEvent_def
    by (rule quiet_keyboardSpecialEvent [OF ok]) (simp add: hid_consts)
  moreover have "ensures (postKeyboardSpecialEvent subtype NX_SYSDEFINED w)
    (\<lambda>w'. keyEventsOf w' = keyEventsOf w \<and> hk_eventFlags w' = hk_eventFlags w)"
  proof -
    have "hk_hasKeyMap w" "dispatching w \<longrightarrow> hk_deviceLock w" using ok by (simp_all add: keyboard_ok_def)
    moreover have "keyEventsOf (w\<lparr>hk_deviceLock := l\<rparr>) = keyEventsOf w" for l w by (simp add: keyEventsOf_def)
    ultimately show ?thesis
      by (simp add: postKeyboardSpecialEvent_def keyboardSpecialEvent_def outsideLock_def lockDevice_def
          unlockDevice_def static_keyboardSpecialEvent_def)
        (simp add: post_def keyEventsOf_def)
  qed
  ultimately show ?thesis
  proof (rule ensures_mono [OF ensures_conj])
    fix w' assume w': "quiet w w' \<and> keyEventsOf w' = keyEventsOf w \<and> hk_eventFlags w' = hk_eventFlags w"
    then have fr: "frozen w' = frozen w" by (simp add: quiet_def calm_def)
    show "undisturbed w w' \<and> frozen w' = frozen w"
      using w' fr frozen_fields(7,8,9) [OF fr] frozen_mapper(1,10) [OF fr]
      by (simp add: undisturbed_def quiet_def untouched_def)
  qed
qed

text \<open>Only the part of the mapper that is not frozen can change.\<close>

lemma slow_frozen:
  assumes fr: "frozen w' = frozen w"
  shows "slow_keyboard C w' = slow_keyboard C w" "slow_phase w' p = slow_phase w p"
    "mp_slowKeysCurrent (hk_keyMap w') = mp_slowKeysCurrent (hk_keyMap w)"
proof -
  have m: "mp_slowKeysDelay (hk_keyMap w') = mp_slowKeysDelay (hk_keyMap w)"
    "mp_slowKeysTimer (hk_keyMap w') = mp_slowKeysTimer (hk_keyMap w)"
    "mp_slowKeysAborted (hk_keyMap w') = mp_slowKeysAborted (hk_keyMap w)"
    using arg_cong [OF frozen_fields(10) [OF fr], of mp_slowKeysDelay]
      arg_cong [OF frozen_fields(10) [OF fr], of mp_slowKeysTimer]
      arg_cong [OF frozen_fields(10) [OF fr], of mp_slowKeysAborted]
    by simp_all
  have s: "slowIs f w' = slowIs f w" for f using frozen_mapper(5) [OF fr] by (simp add: slowIs_def)
  have "keyboard_ok C w' = keyboard_ok C w"
    by (simp only: keyboard_ok_def dispatching_def frozen_fields [OF fr] frozen_mapper [OF fr])
  then show "slow_keyboard C w' = slow_keyboard C w"
    using m s frozen_fields(5) [OF fr] frozen_mapper(7) [OF fr] by (simp add: slow_keyboard_def)
  show "slow_phase w' p = slow_phase w p" using m s by (simp add: slow_phase_def split: slow_phase.split)
  show "mp_slowKeysCurrent (hk_keyMap w') = mp_slowKeysCurrent (hk_keyMap w)" by (rule frozen_mapper(6) [OF fr])
qed

lemma keyboard_ok_slow: "keyboard_ok C (updMapper (\<lambda>m. m\<lparr>mp_slowKeysCurrent := k\<rparr>) w) = keyboard_ok C w"
  "keyboard_ok C (updMapper (\<lambda>m. m\<lparr>mp_slowKeysAborted := k\<rparr>) w) = keyboard_ok C w"
  "keyboard_ok C (updMapper (\<lambda>m. m\<lparr>mp_slowKeysTimer := b\<rparr>) w) = keyboard_ok C w"
  "keyboard_ok C (updMapper (\<lambda>m. m\<lparr>mp_cachedKeyBits := f m\<rparr>) w) = keyboard_ok C w"
  "keyboard_ok C (updSlow g w) = keyboard_ok C w" "keyboard_ok C (post e w) = keyboard_ok C w"
  by (simp_all add: keyboard_ok_def dispatching_def updSlow_def updMapper_def post_def)

lemma slow_fields [simp]:
  "mp_slowKeysState (hk_keyMap (updSlow g w)) = g (mp_slowKeysState (hk_keyMap w))"
  "mp_slowKeysCurrent (hk_keyMap (updSlow g w)) = mp_slowKeysCurrent (hk_keyMap w)"
  "mp_slowKeysAborted (hk_keyMap (updSlow g w)) = mp_slowKeysAborted (hk_keyMap w)"
  "hk_isRepeat (updSlow g w) = hk_isRepeat w" "hk_isRepeat (updMapper h w) = hk_isRepeat w"
  "hk_keyMap (updMapper h w) = h (hk_keyMap w)"
  by (simp_all add: updSlow_def updMapper_def)

lemma slow_keyboard_updates:
  "slow_keyboard C (post e w) = slow_keyboard C w"
  "slow_keyboard C (updMapper (\<lambda>m. m\<lparr>mp_slowKeysCurrent := k\<rparr>) w) = slow_keyboard C w"
  "slow_keyboard C (updMapper (\<lambda>m. m\<lparr>mp_slowKeysAborted := k\<rparr>) w) = slow_keyboard C w"
  "slow_keyboard C w \<Longrightarrow> bit (f (mp_slowKeysState (hk_keyMap w))) 11 = bit (mp_slowKeysState (hk_keyMap w)) 11 \<Longrightarrow>
    slow_keyboard C (updSlow f w)"
  by (simp_all add: slow_keyboard_def keyboard_ok_slow slowIs_bit) (simp add: updSlow_def)

lemma slow_filter:
  assumes "slow_keyboard C w" and kb: "translating = updMapper (\<lambda>m. m\<lparr>mp_cachedKeyBits := True\<rparr>) w"
  shows "translateKeyCode C timersWork key down True w =
    (if down then slowKeysDown C timersWork key translating
     else Option.bind (slowKeysUp C timersWork key translating)
       (\<lambda>(filtered, w). if filtered then Some w
          else postSlowKeyTranslateKeyCode C timersWork key False True w))"
    and "slow_keyboard C translating" "undisturbed w translating" "slow_phase translating = slow_phase w"
    "mp_slowKeysCurrent (hk_keyMap translating) = mp_slowKeysCurrent (hk_keyMap w)"
proof -
  show t: "slow_keyboard C translating" "undisturbed w translating" "slow_phase translating = slow_phase w"
    "mp_slowKeysCurrent (hk_keyMap translating) = mp_slowKeysCurrent (hk_keyMap w)"
    using assms keyboard_ok_slow(4) [of C "\<lambda>_. True" w]
    by (simp_all add: slow_keyboard_def undisturbed_def slow_phase_def slowIs_def fun_eq_iff updMapper_def keyEventsOf_def
        split: slow_phase.split)
  have "\<not> NX_NUMKEYCODES \<le> unat key" using byte_key [of key] by (simp add: hid_consts)
  moreover have "plain_class C" using assms(1) by (simp add: slow_keyboard_def keyboard_ok_def)
  moreover have "updMapper (\<lambda>m. m\<lparr>mp_slowKeysTimer := True\<rparr>) translating = translating"
    using t(1) by (cases translating; cases "hk_keyMap translating") (simp add: slow_keyboard_def updMapper_def)
  ultimately show "translateKeyCode C timersWork key down True w =
    (if down then slowKeysDown C timersWork key translating
     else Option.bind (slowKeysUp C timersWork key translating)
       (\<lambda>(filtered, w). if filtered then Some w
          else postSlowKeyTranslateKeyCode C timersWork key False True w))"
    using t(1) identity_swap [of C translating key]
    by (cases down)
      (simp_all add: translateKeyCode_def kb [symmetric] slowKeysFilterKey_def slow_keyboard_def Let_def)
qed

section \<open>The steps\<close>

lemma undisturbed_steps:
  "undisturbed w v \<Longrightarrow> undisturbed w (updSlow f v)"
  "undisturbed w v \<Longrightarrow> undisturbed w (updMapper (\<lambda>m. m\<lparr>mp_slowKeysCurrent := k\<rparr>) v)"
  "undisturbed w v \<Longrightarrow> undisturbed w (updMapper (\<lambda>m. m\<lparr>mp_slowKeysAborted := k\<rparr>) v)"
  "undisturbed w v \<Longrightarrow> \<not> isKeyEvent e \<Longrightarrow> undisturbed w (post e v)"
  by (simp_all add: undisturbed_def updSlow_def updMapper_def) (simp_all add: post_def keyEventsOf_def)

text \<open>A step that ends with an event for the user: what the step sets up is what holds at its end.\<close>

lemma slow_announce:
  assumes "slow_keyboard C v" "undisturbed w v" "slow_phase v p" "mp_slowKeysCurrent (hk_keyMap v) = k"
  shows "ensures (postKeyboardSpecialEvent subtype NX_SYSDEFINED v)
    (\<lambda>w'. slow_keyboard C w' \<and> undisturbed w w' \<and> slow_phase w' p \<and> mp_slowKeysCurrent (hk_keyMap w') = k)"
proof -
  have "keyboard_ok C v" using assms(1) by (simp add: slow_keyboard_def)
  from special_undisturbed [OF this] show ?thesis
    by (rule ensures_mono) (use assms slow_frozen undisturbed_trans in blast)
qed

lemma slow_press:
  assumes slow: "slow_keyboard C w" and idle: "slow_phase w Idle"
  shows "ensures (translateKeyCode C timersWork key True True w)
    (\<lambda>w'. slow_keyboard C w' \<and> undisturbed w w' \<and> slow_phase w' Waiting \<and> mp_slowKeysCurrent (hk_keyMap w') = key)"
proof -
  obtain t where t: "t = updMapper (\<lambda>m. m\<lparr>mp_cachedKeyBits := True\<rparr>) w" by blast
  note f = slow_filter [OF slow t]
  let ?v = "post (SetSlowKeysTimer (mp_slowKeysDelay (hk_keyMap t)))
    (updMapper (\<lambda>m. m\<lparr>mp_slowKeysCurrent := key\<rparr>) (updSlow (\<lambda>s. s OR kState_In_Progess_Flag) t))"
  have "\<not> slowIs kState_In_Progess_Flag t" using idle fun_cong [OF f(4), of Idle] by (simp add: slow_phase_def)
  moreover have "endSlowRepeat C timersWork t = Some t" and rep: "\<not> hk_isRepeat t"
    using f(2) by (simp_all add: endSlowRepeat_def slow_keyboard_def)
  ultimately have "translateKeyCode C timersWork key True True w = postKeyboardSpecialEvent NX_SUBTYPE_SLOWKEYS_START NX_SYSDEFINED ?v"
    unfolding f(1) by (simp add: slowKeysDown_def updSlow_def updMapper_def post_def Let_def)
  moreover have "slow_keyboard C ?v"
    unfolding slow_keyboard_updates(1-3)
    by (rule slow_keyboard_updates(4)) (simp_all add: f(2) bit_or_iff slow_bits)
  moreover have "slow_phase ?v Waiting" by (simp add: slow_phase_def slowIs_bit bit_or_iff slow_bits)
  moreover have "undisturbed w ?v"
    by (intro undisturbed_steps f(3)) simp
  ultimately show ?thesis using slow_announce [of C ?v w Waiting key] by (simp add: updSlow_def updMapper_def)
qed

lemma slow_release:
  assumes slow: "slow_keyboard C w" and waiting: "slow_phase w Waiting" "mp_slowKeysCurrent (hk_keyMap w) = key"
  shows "ensures (translateKeyCode C timersWork key False True w)
    (\<lambda>w'. slow_keyboard C w' \<and> undisturbed w w' \<and> slow_phase w' Idle)"
proof -
  obtain t where t: "t = updMapper (\<lambda>m. m\<lparr>mp_cachedKeyBits := True\<rparr>) w" by blast
  note f = slow_filter [OF slow t]
  let ?v = "updSlow (\<lambda>s. s AND NOT kState_In_Progess_Flag) (post CancelSlowKeysTimer t)"
  have v: "slow_keyboard C ?v"
    by (rule slow_keyboard_updates(4)) (simp_all add: f(2) slow_keyboard_updates(1) bit_and_iff bit_not_iff slow_bits)
  moreover have "slow_phase ?v Idle" by (simp add: slow_phase_def slowIs_bit bit_and_iff bit_not_iff slow_bits)
  moreover have "undisturbed w ?v"
    by (intro undisturbed_steps f(3)) simp
  moreover have "translateKeyCode C timersWork key False True w = Some ?v"
    unfolding f(1) using waiting f(2,5) fun_cong [OF f(4), of Waiting] v by (simp add: slowKeysUp_def slow_phase_def slow_keyboard_def)
  ultimately show ?thesis by simp
qed



section \<open>Short taps\<close>

text \<open>
  Keys tapped one after the other: each is pressed and released, before its timer fires and
  before the next one is pressed.
\<close>

fun slowTaps :: "hik_class \<Rightarrow> bool \<Rightarrow> u8 list \<Rightarrow> hik \<Rightarrow> hik option" where
  "slowTaps C timersWork [] w = Some w"
| "slowTaps C timersWork (key # keys) w =
     do { w \<leftarrow> translateKeyCode C timersWork key True True w;
          w \<leftarrow> translateKeyCode C timersWork key False True w;
          slowTaps C timersWork keys w }"

lemma slow_tap:
  assumes "slow_keyboard C w" and "slow_phase w Idle"
  shows "ensures (slowTaps C timersWork [key] w) (\<lambda>w'. slow_keyboard C w' \<and> undisturbed w w' \<and> slow_phase w' Idle)"
  unfolding slowTaps.simps ensures_bind
proof (rule ensures_mono [OF slow_press [OF assms, of timersWork key]])
  fix u assume u: "slow_keyboard C u \<and> undisturbed w u \<and> slow_phase u Waiting \<and> mp_slowKeysCurrent (hk_keyMap u) = key"
  then show "ensures (translateKeyCode C timersWork key False True u)
    (\<lambda>v. ensures (Some v) (\<lambda>w'. slow_keyboard C w' \<and> undisturbed w w' \<and> slow_phase w' Idle))"
    by (intro ensures_mono [OF slow_release [of C u key timersWork]]) (auto intro: undisturbed_trans)
qed

lemma slow_taps:
  assumes "slow_keyboard C w" and "slow_phase w Idle"
  shows "ensures (slowTaps C timersWork keys w) (\<lambda>w'. slow_keyboard C w' \<and> undisturbed w w' \<and> slow_phase w' Idle)"
  using assms
proof (induction keys arbitrary: w)
  case (Cons key keys)
  have "slowTaps C timersWork (key # keys) w = Option.bind (slowTaps C timersWork [key] w) (slowTaps C timersWork keys)"
    by (simp add: fun_eq_iff)
  moreover have "ensures (slowTaps C timersWork [key] w)
    (\<lambda>u. ensures (slowTaps C timersWork keys u) (\<lambda>w'. slow_keyboard C w' \<and> undisturbed w w' \<and> slow_phase w' Idle))"
    by (rule ensures_mono [OF slow_tap [OF Cons.prems]])
      (rule ensures_mono [OF Cons.IH], auto intro: undisturbed_trans)
  ultimately show ?case by (simp only: ensures_bind)
qed (simp add: undisturbed_refl)

text \<open>
  C37. With slow keys on, keys tapped one after the other are ignored: any sequence of taps, in
  which each key is released before its timer fires and before the next key is pressed, returns,
  changes neither the keys held nor the event flags, posts no key event, and leaves the filter
  ready for the next key. Taps that overlap are not ignored: see C38.
\<close>

theorem slow_keys_ignore_taps:
  assumes "slow_keyboard C w" and "slow_phase w Idle"
  shows "\<exists>w'. slowTaps C timersWork keys w = Some w' \<and>
    hk_keyState w' = hk_keyState w \<and> hk_eventFlags w' = hk_eventFlags w \<and> keyEventsOf w' = keyEventsOf w \<and>
    slow_keyboard C w' \<and> slow_phase w' Idle"
  using slow_taps [OF assms, of timersWork keys] by (auto simp: ensures_def undisturbed_def)

section \<open>Two keys that overlap\<close>




text \<open>A keyboard that is opened, and on which slow keys are switched on.\<close>

definition with_slow_keys :: "hik \<Rightarrow> hik" where
  "with_slow_keys w =
     (updMapper (\<lambda>m. m\<lparr>mp_slowKeysDelay := 250, mp_slowKeysTimer := True, mp_slowKeysState := 0\<rparr>) w)
       \<lparr>hk_isRepeat := False\<rparr>"

lemma opened_slow_keyboard:
  obtains v where "openedKeyboard (ps2_class None id) True True blank_mapper blank_keyboard = Some (True, v)"
    "slow_keyboard (ps2_class None id) (with_slow_keys v)" "slow_phase (with_slow_keys v) Idle"
    "mp_stickyState (hk_keyMap (with_slow_keys v)) = 0" "hk_keyboardEventAction (with_slow_keys v)"
    "represents (ps2_class None id) False (parsedMapping (with_slow_keys v)) usKeyMap"
proof -
  let ?C = "ps2_class None id"
  have "0 < maxModOf usKeyMap" by (simp add: usKeyMap_maxMod)
  then have "ensures (openedKeyboard ?C True True blank_mapper blank_keyboard)
    (\<lambda>(ok, w'). ok \<and> plain_inv ?C False usKeyMap {} w')"
    by (intro opened_inv ps2_plain ps2_keymap usKeyMap_sound blank_ok)
  then obtain v where v: "openedKeyboard ?C True True blank_mapper blank_keyboard = Some (True, v)"
    "plain_inv ?C False usKeyMap {} v" by (auto simp: ensures_def)
  then have "keyboard_ok ?C v" "represents ?C False (parsedMapping v) usKeyMap" "plain_mapper (hk_keyMap v)"
    "hk_keyboardEventAction v"
    by (auto simp: plain_inv_def kbd_inv_def features_ok_def flags_ok_def shows_keys_def)
  then show ?thesis
    by (intro that [OF v(1)])
      (simp_all add: slow_keyboard_def slow_phase_def slowIs_def keyboard_ok_def dispatching_def plain_mapper_def
        with_slow_keys_def updMapper_def)
qed

lemma slow_keys_ignore_taps_witness:
  "\<exists>v w'. openedKeyboard (ps2_class None id) True True blank_mapper blank_keyboard = Some (True, v) \<and>
    slowTaps (ps2_class None id) True [0, 56, 1] (with_slow_keys v) = Some w' \<and>
    keyEventsOf w' = keyEventsOf (with_slow_keys v)"
proof -
  obtain v where v: "openedKeyboard (ps2_class None id) True True blank_mapper blank_keyboard = Some (True, v)"
    "slow_keyboard (ps2_class None id) (with_slow_keys v)" "slow_phase (with_slow_keys v) Idle"
    by (rule opened_slow_keyboard)
  then show ?thesis using slow_keys_ignore_taps [OF v(2,3), of True "[0, 56, 1]"] by blast
qed


end
