(* ===== verification/HID_ReportBits.thy ===== *)
theory HID_ReportBits
  imports PS2_Prelude "HOL-Library.Monad_Syntax"
begin

text \<open>
  The values of a HID report: reading a field of bits from the bytes of a report, and writing
  one into them, with the theorem that the fields of a report are read back as they were written.
\<close>

declare push_bit_and [simp del]

section \<open>Reading and writing\<close>

text \<open>Positions are counted in bits and are 32 bits wide.\<close>

definition u32_plus :: "nat \<Rightarrow> nat \<Rightarrow> nat" where
  "u32_plus a b = (a + b) mod 2 ^ 32"

text \<open>
  The distance of the shift is taken modulo 32, as the processor does; only \<open>setOutOfBoundsValue\<close>
  ever shifts that far, which C leaves undefined.
\<close>

definition BIT_MASK :: "nat \<Rightarrow> u32" where
  "BIT_MASK bits = push_bit (bits mod 32) 1 - 1"

text \<open>How many bits one step copies: what is left, of one byte of the report and one word of the value.\<close>

definition bitsProcessed :: "nat \<Rightarrow> nat \<Rightarrow> nat \<Rightarrow> nat" where
  "bitsProcessed bitsToCopy byteShift wordShift = min bitsToCopy (min (8 - byteShift) (32 - wordShift))"

lemma bitsProcessed:
  assumes "0 < n" and "a < 8" and "b < 32"
  shows "0 < bitsProcessed n a b" "bitsProcessed n a b \<le> n" "a + bitsProcessed n a b \<le> 8"
    "b + bitsProcessed n a b \<le> 32" "bitsProcessed n a b \<le> 8"
  using assms by (auto simp: bitsProcessed_def)

text \<open>The local variables of the loop that reads.\<close>

record read_state =
  rb_dst :: "u32 list"
  rb_changed :: bool
  rb_bitsToCopy :: nat
  rb_srcStartBit :: nat
  rb_dstStartBit :: nat
  rb_lastDstOffset :: nat
  rb_word :: u32
  rb_total :: nat

definition signExtend :: "bool \<Rightarrow> nat \<Rightarrow> nat \<Rightarrow> u32 \<Rightarrow> u32" where
  "signExtend shouldSignExtend lastDstOffset count word =
     (if lastDstOffset = 0 \<and> shouldSignExtend \<and> count < 32 \<and> word AND push_bit (count - 1) 1 \<noteq> 0
      then word OR NOT (BIT_MASK count) else word)"

definition storeWord :: "bool \<Rightarrow> read_state \<Rightarrow> read_state option" where
  "storeWord shouldSignExtend s =
     (let word = signExtend shouldSignExtend (rb_lastDstOffset s) (rb_total s) (rb_word s)
      in if rb_lastDstOffset s < length (rb_dst s)
         then if rb_dst s ! rb_lastDstOffset s \<noteq> word
              then Some (s\<lparr>rb_dst := (rb_dst s)[rb_lastDstOffset s := word], rb_changed := True\<rparr>)
              else Some s
         else None)"

definition readStep :: "u8 list \<Rightarrow> bool \<Rightarrow> read_state \<Rightarrow> read_state option" where
  "readStep src shouldSignExtend s =
     (let srcOffset = rb_srcStartBit s div 8;
          srcShift = rb_srcStartBit s mod 8;
          dstShift = rb_dstStartBit s mod 32;
          n = bitsProcessed (rb_bitsToCopy s) srcShift dstShift
      in if length src \<le> srcOffset then None
         else
           let tmp = drop_bit srcShift (ucast (src ! srcOffset)) AND BIT_MASK n;
               s = s\<lparr>rb_word := rb_word s OR push_bit dstShift tmp,
                     rb_dstStartBit := u32_plus (rb_dstStartBit s) n,
                     rb_srcStartBit := u32_plus (rb_srcStartBit s) n,
                     rb_bitsToCopy := rb_bitsToCopy s - n,
                     rb_total := u32_plus (rb_total s) n\<rparr>;
               dstOffset = rb_dstStartBit s div 32
           in if dstOffset \<noteq> rb_lastDstOffset s \<or> rb_bitsToCopy s = 0
              then map_option (\<lambda>s. s\<lparr>rb_word := 0, rb_lastDstOffset := dstOffset\<rparr>) (storeWord shouldSignExtend s)
              else Some s)"

lemma readStep_less: "readStep src se s = Some s' \<Longrightarrow> 0 < rb_bitsToCopy s \<Longrightarrow> rb_bitsToCopy s' < rb_bitsToCopy s"
  using bitsProcessed(1) [of "rb_bitsToCopy s" "rb_srcStartBit s mod 8" "rb_dstStartBit s mod 32"]
  by (auto simp: readStep_def storeWord_def Let_def split: if_splits)

function readLoop :: "u8 list \<Rightarrow> bool \<Rightarrow> read_state \<Rightarrow> read_state option" where
  "readLoop src shouldSignExtend s =
     (if rb_bitsToCopy s = 0 then Some s
      else case readStep src shouldSignExtend s of
             None \<Rightarrow> None
           | Some s' \<Rightarrow> readLoop src shouldSignExtend s')"
  by pat_completeness auto
termination
  by (relation "measure (\<lambda>(src, se, s). rb_bitsToCopy s)") (auto dest: readStep_less)

declare readLoop.simps [simp del]

text \<open>The words of the value and whether one of them has changed.\<close>

definition readReportBits ::
  "u8 list \<Rightarrow> u32 list \<Rightarrow> nat \<Rightarrow> nat \<Rightarrow> bool \<Rightarrow> bool \<Rightarrow> (u32 list \<times> bool) option" where
  "readReportBits src dst bitsToCopy srcStartBit shouldSignExtend valueChanged =
     map_option (\<lambda>s. (rb_dst s, rb_changed s))
       (readLoop src shouldSignExtend
          \<lparr>rb_dst = dst, rb_changed = valueChanged, rb_bitsToCopy = bitsToCopy, rb_srcStartBit = srcStartBit,
           rb_dstStartBit = 0, rb_lastDstOffset = 0, rb_word = 0, rb_total = 0\<rparr>)"

text \<open>The loop that writes keeps the report, the bits left, and the two positions.\<close>

function writeLoop :: "u32 list \<Rightarrow> u8 list \<Rightarrow> nat \<Rightarrow> nat \<Rightarrow> nat \<Rightarrow> u8 list option" where
  "writeLoop src dst bitsToCopy srcStartBit dstStartBit =
     (if bitsToCopy = 0 then Some dst
      else
        let dstOffset = dstStartBit div 8;
            dstShift = dstStartBit mod 8;
            srcOffset = srcStartBit div 32;
            srcShift = srcStartBit mod 32;
            n = bitsProcessed bitsToCopy dstShift srcShift
        in if length src \<le> srcOffset \<or> length dst \<le> dstOffset then None
           else
             let tmp = drop_bit srcShift (src ! srcOffset) AND BIT_MASK n
             in writeLoop src (dst[dstOffset := dst ! dstOffset OR ucast (push_bit dstShift tmp)])
                  (bitsToCopy - n) (u32_plus srcStartBit n)
                  (u32_plus dstStartBit n))"
  by pat_completeness auto
termination
  by (relation "measure (\<lambda>(src, dst, n, s, d). n)") (simp_all add: bitsProcessed(1))

declare writeLoop.simps [simp del]

definition writeReportBits :: "u32 list \<Rightarrow> u8 list \<Rightarrow> nat \<Rightarrow> nat \<Rightarrow> u8 list option" where
  "writeReportBits src dst bitsToCopy dstStartBit = writeLoop src dst bitsToCopy 0 dstStartBit"

section \<open>Bits\<close>

definition byteBit :: "u8 list \<Rightarrow> nat \<Rightarrow> bool" where
  "byteBit bytes i = bit (bytes ! (i div 8)) (i mod 8)"

definition wordBit :: "u32 list \<Rightarrow> nat \<Rightarrow> bool" where
  "wordBit words i = bit (words ! (i div 32)) (i mod 32)"

lemma bit_BIT_MASK:
  assumes "n < 32"
  shows "bit (BIT_MASK n) k \<longleftrightarrow> k < n"
proof -
  have "BIT_MASK n = mask n" using assms by (simp add: BIT_MASK_def mask_eq_exp_minus_1)
  then show ?thesis using assms by (auto simp: bit_mask_iff)
qed

lemma bit_byte_part:
  assumes "b \<le> 8"
  shows "bit (drop_bit sh (ucast (byte :: u8)) AND BIT_MASK b) k \<longleftrightarrow> k < b \<and> bit byte (sh + k)"
proof -
  have "bit byte (sh + k) \<Longrightarrow> sh + k < 32" using bit_imp_le_length [of byte "sh + k"] by simp
  then show ?thesis using assms by (auto simp: bit_simps bit_BIT_MASK)
qed

lemma and_single_bit: "(w :: u32) AND push_bit n 1 \<noteq> 0 \<longleftrightarrow> bit w n"
  using and_exp_eq_0_iff_not_bit [of w n] by simp

lemma u32_plus_less: "a + b < 2 ^ 32 \<Longrightarrow> u32_plus a b = a + b"
  by (simp add: u32_plus_def)

lemma same_block:
  assumes "p mod m + k < (m :: nat)"
  shows "(p + k) div m = p div m" "(p + k) mod m = p mod m + k"
proof -
  have p: "p + k = (p mod m + k) + m * (p div m)" by simp
  have m: "m \<noteq> 0" using assms by (cases m) simp_all
  show "(p + k) div m = p div m" unfolding p using assms m by (subst div_mult_self2) simp_all
  show "(p + k) mod m = p mod m + k" unfolding p using assms m by (subst mod_mult_self2) simp_all
qed

lemma next_block:
  assumes "p mod m + k = (m :: nat)" "0 < m"
  shows "(p + k) div m = Suc (p div m)" "(p + k) mod m = 0" "p + k = m * Suc (p div m)"
proof -
  have "p + k = m * (p div m) + (p mod m + k)" by simp
  then have p: "p + k = m * Suc (p div m)" unfolding assms(1) by simp
  show "(p + k) div m = Suc (p div m)" unfolding p using assms(2) by simp
  show "(p + k) mod m = 0" unfolding p by simp
  show "p + k = m * Suc (p div m)" by (rule p)
qed

lemma byteBit_step: "p mod 8 + k < 8 \<Longrightarrow> byteBit src (p + k) = bit (src ! (p div 8)) (p mod 8 + k)"
  by (simp add: byteBit_def same_block)

lemma wordBit_step: "p mod 32 + k < 32 \<Longrightarrow> wordBit ws (p + k) = bit (ws ! (p div 32)) (p mod 32 + k)"
  by (simp add: wordBit_def same_block)

section \<open>What is read\<close>

text \<open>
  Word \<open>j\<close> of the value of the field of \<open>n\<close> bits that starts at bit \<open>start\<close>. Only the first
  word is extended by the sign, and only if the field is shorter than a word.
\<close>

definition fieldWord :: "u8 list \<Rightarrow> nat \<Rightarrow> nat \<Rightarrow> bool \<Rightarrow> nat \<Rightarrow> u32" where
  "fieldWord src start n sgn_ext j =
     horner_sum of_bool 2 (map (\<lambda>k. if 32 * j + k < n then byteBit src (start + (32 * j + k))
       else j = 0 \<and> sgn_ext \<and> 0 < n \<and> n < 32 \<and> byteBit src (start + (n - 1))) [0..<32])"

lemma bit_fieldWord:
  "k < 32 \<Longrightarrow> bit (fieldWord src start n sgn_ext j) k \<longleftrightarrow>
    (if 32 * j + k < n then byteBit src (start + (32 * j + k))
     else j = 0 \<and> sgn_ext \<and> 0 < n \<and> n < 32 \<and> byteBit src (start + (n - 1)))"
  by (simp add: fieldWord_def bit_horner_sum_bit_iff)

text \<open>The words that are complete when \<open>t\<close> of \<open>n\<close> bits have been read.\<close>

definition wordsDone :: "nat \<Rightarrow> nat \<Rightarrow> nat" where
  "wordsDone n t = (if t = n then (n + 31) div 32 else t div 32)"

definition read_inv :: "u8 list \<Rightarrow> bool \<Rightarrow> u32 list \<Rightarrow> bool \<Rightarrow> nat \<Rightarrow> nat \<Rightarrow> read_state \<Rightarrow> bool" where
  "read_inv src sgn_ext dst changed n start s \<longleftrightarrow>
     (let t = rb_dstStartBit s
      in t + rb_bitsToCopy s = n \<and> rb_srcStartBit s = start + t \<and> rb_total s = t \<and>
         rb_lastDstOffset s = t div 32 \<and>
         (rb_bitsToCopy s \<noteq> 0 \<longrightarrow>
            (\<forall>k<32. bit (rb_word s) k \<longleftrightarrow> k < t mod 32 \<and> byteBit src (start + (32 * (t div 32) + k)))) \<and>
         rb_dst s = map (\<lambda>j. if j < wordsDone n t then fieldWord src start n sgn_ext j else dst ! j) [0..<length dst] \<and>
         (rb_changed s \<longleftrightarrow> changed \<or> (\<exists>j<wordsDone n t. fieldWord src start n sgn_ext j \<noteq> dst ! j)))"

lemma word_after:
  assumes "\<forall>k<32. bit w k \<longleftrightarrow> k < t mod 32 \<and> byteBit src (start + (32 * (t div 32) + k))"
    and b: "(start + t) mod 8 + b \<le> 8" "t mod 32 + b \<le> 32" "b \<le> 8" and k: "k < 32"
  shows "bit (w OR push_bit (t mod 32)
      (drop_bit ((start + t) mod 8) (ucast (src ! ((start + t) div 8))) AND BIT_MASK b)) k
    \<longleftrightarrow> k < t mod 32 + b \<and> byteBit src (start + (32 * (t div 32) + k))"
proof (cases "t mod 32 \<le> k \<and> k < t mod 32 + b")
  case True
  then obtain i where i: "k = t mod 32 + i" "i < b" using le_Suc_ex by (metis nat_add_left_cancel_less)
  have "start + (32 * (t div 32) + k) = start + t + i" using i by simp
  then have "byteBit src (start + (32 * (t div 32) + k)) = bit (src ! ((start + t) div 8)) ((start + t) mod 8 + i)"
    using byteBit_step [of "start + t" i src] b(1) i(2) by (simp add: add.assoc)
  moreover have "\<not> bit w k" using assms(1) True k by auto
  ultimately show ?thesis
    using i k b(3) bit_byte_part [of b "(start + t) mod 8" "src ! ((start + t) div 8)" i]
    by (simp add: bit_or_iff bit_push_bit_iff del: push_bit_and)
next
  case False
  then show ?thesis
    using assms(1) k b(3) bit_byte_part [of b "(start + t) mod 8" "src ! ((start + t) div 8)" "k - t mod 32"]
    by (auto simp: bit_or_iff bit_push_bit_iff simp del: push_bit_and)
qed

lemma read_done:
  assumes "\<forall>k<32. bit w k \<longleftrightarrow> k < t - 32 * j \<and> byteBit src (start + (32 * j + k))"
    and "t = n \<or> t = 32 * Suc j" and "32 * j < t" "t \<le> n" "t \<le> 32 * Suc j"
  shows "signExtend sgn_ext j t w = fieldWord src start n sgn_ext j"
proof (rule bit_word_eqI)
  fix k assume "k < LENGTH(32)"
  then have k: "k < 32" by simp
  have word: "bit w k \<longleftrightarrow> 32 * j + k < t \<and> byteBit src (start + (32 * j + k))"
    using assms(1) k by (auto simp: less_diff_conv add.commute)
  have sign: "w AND push_bit (t - 1) 1 \<noteq> 0 \<longleftrightarrow> byteBit src (start + (t - 1))" if "j = 0" "t < 32"
    unfolding and_single_bit using assms(1,3) that by auto
  have "bit (signExtend sgn_ext j t w) k \<longleftrightarrow>
    bit w k \<or> j = 0 \<and> sgn_ext \<and> t < 32 \<and> byteBit src (start + (t - 1)) \<and> t \<le> k"
    using sign k by (auto simp: signExtend_def bit_or_iff bit_not_iff bit_BIT_MASK)
  then show "bit (signExtend sgn_ext j t w) k = bit (fieldWord src start n sgn_ext j) k"
    unfolding bit_fieldWord [OF k] word using assms(2-5) k by auto
qed

lemma store_inv:
  fixes dst :: "u32 list"
  assumes "m < length dst" and V: "w = V m"
  defines "old \<equiv> map (\<lambda>j. if j < m then V j else dst ! j) [0..<length dst]"
    and "new \<equiv> map (\<lambda>j. if j < Suc m then V j else dst ! j) [0..<length dst]"
  shows "old[m := w] = new" "old ! m = w \<Longrightarrow> old = new"
    "(\<exists>j<Suc m. V j \<noteq> dst ! j) \<longleftrightarrow> old ! m \<noteq> w \<or> (\<exists>j<m. V j \<noteq> dst ! j)"
proof -
  show upd: "old[m := w] = new" using assms(1) V by (intro nth_equalityI) (auto simp: old_def new_def nth_list_update)
  then show "old ! m = w \<Longrightarrow> old = new" by (metis list_update_id)
  show "(\<exists>j<Suc m. V j \<noteq> dst ! j) \<longleftrightarrow> old ! m \<noteq> w \<or> (\<exists>j<m. V j \<noteq> dst ! j)"
    using assms(1) V by (auto simp: old_def less_Suc_eq)
qed

lemma words_up: "32 * m < n \<Longrightarrow> n \<le> 32 * Suc m \<Longrightarrow> (n + 31) div 32 = Suc (m :: nat)"
  by (rule div_nat_eqI) simp_all

lemma read_step:
  assumes inv: "read_inv src sgn_ext dst changed n start s" and more: "rb_bitsToCopy s \<noteq> 0"
    and room: "start + n \<le> 8 * length src" "start + n < 2 ^ 32" "n \<le> 32 * length dst"
  obtains s' where "readStep src sgn_ext s = Some s'" "read_inv src sgn_ext dst changed n start s'"
proof -
  let ?t = "rb_dstStartBit s" and ?V = "fieldWord src start n sgn_ext"
  have s: "?t + rb_bitsToCopy s = n" "rb_srcStartBit s = start + ?t" "rb_total s = ?t"
    "rb_lastDstOffset s = ?t div 32"
    "\<forall>k<32. bit (rb_word s) k \<longleftrightarrow> k < ?t mod 32 \<and> byteBit src (start + (32 * (?t div 32) + k))"
    "rb_dst s = map (\<lambda>j. if j < ?t div 32 then ?V j else dst ! j) [0..<length dst]"
    "rb_changed s \<longleftrightarrow> changed \<or> (\<exists>j<?t div 32. ?V j \<noteq> dst ! j)"
    using inv more by (simp_all add: read_inv_def Let_def wordsDone_def)
  define b where "b = bitsProcessed (rb_bitsToCopy s) ((start + ?t) mod 8) (?t mod 32)"
  have b: "0 < b" "b \<le> rb_bitsToCopy s" "(start + ?t) mod 8 + b \<le> 8" "?t mod 32 + b \<le> 32" "b \<le> 8"
    unfolding b_def using bitsProcessed [of "rb_bitsToCopy s" "(start + ?t) mod 8" "?t mod 32"] more by simp_all
  define word where "word = rb_word s OR push_bit (?t mod 32)
    (drop_bit ((start + ?t) mod 8) (ucast (src ! ((start + ?t) div 8))) AND BIT_MASK b)"
  have word: "bit word k \<longleftrightarrow> k < ?t mod 32 + b \<and> byteBit src (start + (32 * (?t div 32) + k))" if "k < 32" for k
    unfolding word_def by (rule word_after [OF s(5) b(3-5) that])
  have sums: "u32_plus ?t b = ?t + b" "u32_plus (start + ?t) b = start + (?t + b)"
    using b(2) s(1) room(2) by (simp_all add: u32_plus_less)
  define s1 where "s1 = s\<lparr>rb_word := word, rb_dstStartBit := ?t + b, rb_srcStartBit := start + (?t + b),
     rb_bitsToCopy := rb_bitsToCopy s - b, rb_total := ?t + b\<rparr>"
  have "(start + ?t) div 8 < length src" using room(1) s(1) more by (simp add: less_eq_div_iff_mult_less_eq div_less_iff_less_mult)
  then have step: "readStep src sgn_ext s =
      (if (?t + b) div 32 \<noteq> ?t div 32 \<or> ?t + b = n
       then map_option (\<lambda>s. s\<lparr>rb_word := 0, rb_lastDstOffset := (?t + b) div 32\<rparr>) (storeWord sgn_ext s1)
       else Some s1)"
    using s(1-4) sums b(2) unfolding readStep_def Let_def s(2,3)
    by (auto simp: b_def [symmetric] word_def [symmetric] s1_def)
  consider (part) "(?t + b) div 32 = ?t div 32" "?t + b \<noteq> n" "?t mod 32 + b < 32"
    | (whole) "(?t + b) div 32 \<noteq> ?t div 32 \<or> ?t + b = n"
    using next_block [of ?t 32 b] b(4) by (cases "?t mod 32 + b = 32") auto
  then show ?thesis
  proof cases
    case part
    have "read_inv src sgn_ext dst changed n start s1"
      using s b part word same_block(2) [OF part(3)] by (simp add: read_inv_def Let_def wordsDone_def s1_def)
    then show ?thesis using that step part by simp
  next
    case whole
    let ?m = "?t div 32"
    have m: "?m < length dst" using room(3) s(1) more by (simp add: div_less_iff_less_mult)
    have t: "?t = 32 * ?m + ?t mod 32" by simp
    have "?t mod 32 + b = 32 \<or> ?t + b = n"
      using whole same_block(1) [of ?t 32 b] b(4) by (cases "?t mod 32 + b < 32") auto
    then have w1: "?t + b = n \<or> ?t + b = 32 * Suc ?m"
    proof
      assume "?t mod 32 + b = 32"
      from next_block(3) [OF this] show ?thesis by simp
    qed blast
    have w2: "32 * ?m < ?t + b" using t b(1) by linarith
    have w3: "?t + b \<le> n" using s(1) b(2) by linarith
    have w4: "?t + b \<le> 32 * Suc ?m" using t b(4) unfolding mult_Suc_right by linarith
    note whole' = w1 w2 w3 w4
    have "?t mod 32 + b = ?t + b - 32 * ?m" using mult_div_mod_eq [of 32 ?t] by linarith
    then have V: "signExtend sgn_ext ?m (?t + b) word = ?V ?m"
      using word by (intro read_done [OF _ whole']) simp
    have count: "wordsDone n (?t + b) = Suc ?m"
    proof (cases "?t + b = n")
      case True
      have "(n + 31) div 32 = Suc ?m" using words_up [of ?m n] whole'(2,4) True by simp
      then show ?thesis using True by (simp add: wordsDone_def)
    next
      case False
      then have "(?t + b) div 32 = Suc ?m" using whole'(1) by simp
      then show ?thesis using False by (simp add: wordsDone_def)
    qed
    note store = store_inv [of ?m dst "signExtend sgn_ext ?m (?t + b) word" ?V, OF m V, folded s(6)]
    have fs: "rb_lastDstOffset s1 = ?m" "rb_total s1 = ?t + b" "rb_word s1 = word" "rb_dst s1 = rb_dst s"
      "length (rb_dst s) = length dst" using s(4,6) by (simp_all add: s1_def)
    define s2 where "s2 = s1\<lparr>rb_dst := map (\<lambda>j. if j < Suc ?m then ?V j else dst ! j) [0..<length dst],
      rb_changed := (changed \<or> (\<exists>j<Suc ?m. ?V j \<noteq> dst ! j))\<rparr>"
    have "storeWord sgn_ext s1 = Some s2"
    proof (cases "rb_dst s ! ?m = signExtend sgn_ext ?m (?t + b) word")
      case True
      then have "s2 = s1" using store(2) [OF True] store(3) s(7) by (simp add: s2_def s1_def)
      then show ?thesis using True m fs by (simp add: storeWord_def Let_def)
    next
      case False
      then have "s2 = s1\<lparr>rb_dst := (rb_dst s1)[?m := signExtend sgn_ext ?m (?t + b) word], rb_changed := True\<rparr>"
        using store(1,3) fs(4) by (simp add: s2_def)
      then show ?thesis using False m fs by (simp add: storeWord_def Let_def)
    qed
    moreover have "read_inv src sgn_ext dst changed n start (s2\<lparr>rb_word := 0, rb_lastDstOffset := (?t + b) div 32\<rparr>)"
    proof -
      have "?t + b = n \<or> (?t + b) mod 32 = 0" using whole'(1) by auto
      then show ?thesis using s(1) b(2) count by (auto simp: read_inv_def Let_def s2_def s1_def)
    qed
    ultimately show ?thesis using that step whole by simp
  qed
qed

lemma read_loop:
  assumes "read_inv src sgn_ext dst changed n start s"
    and "start + n \<le> 8 * length src" "start + n < 2 ^ 32" "n \<le> 32 * length dst"
  shows "\<exists>s'. readLoop src sgn_ext s = Some s' \<and> read_inv src sgn_ext dst changed n start s' \<and> rb_bitsToCopy s' = 0"
  using assms(1)
proof (induction "rb_bitsToCopy s" arbitrary: s rule: less_induct)
  case less
  show ?case
  proof (cases "rb_bitsToCopy s = 0")
    case True
    then show ?thesis using less.prems by (simp add: readLoop.simps)
  next
    case False
    obtain s' where s': "readStep src sgn_ext s = Some s'" "read_inv src sgn_ext dst changed n start s'"
      by (rule read_step [OF less.prems False assms(2-4)])
    moreover have "rb_bitsToCopy s' < rb_bitsToCopy s" using readStep_less [OF s'(1)] False by simp
    ultimately show ?thesis using less.hyps [of s'] False by (simp add: readLoop.simps [of src sgn_ext s])
  qed
qed

theorem readReportBits_spec:
  assumes "start + n \<le> 8 * length src" and "start + n < 2 ^ 32" and "n \<le> 32 * length dst"
  defines "words \<equiv> (n + 31) div 32"
  shows "readReportBits src dst n start sgn_ext changed =
    Some (map (\<lambda>j. if j < words then fieldWord src start n sgn_ext j else dst ! j) [0..<length dst],
      changed \<or> (\<exists>j<words. fieldWord src start n sgn_ext j \<noteq> dst ! j))"
proof -
  let ?s = "\<lparr>rb_dst = dst, rb_changed = changed, rb_bitsToCopy = n, rb_srcStartBit = start,
           rb_dstStartBit = 0, rb_lastDstOffset = 0, rb_word = 0, rb_total = 0\<rparr>"
  have "map (\<lambda>j. if j < wordsDone n 0 then fieldWord src start n sgn_ext j else dst ! j) [0..<length dst] = dst"
    by (intro nth_equalityI) (simp_all add: wordsDone_def)
  then have "read_inv src sgn_ext dst changed n start ?s" by (simp add: read_inv_def wordsDone_def)
  from read_loop [OF this assms(1-3)] show ?thesis
    by (auto simp: readReportBits_def read_inv_def Let_def wordsDone_def words_def)
qed

section \<open>What is written\<close>

lemma bit_write_part:
  assumes "b \<le> 8" "ds + b \<le> 8" "ss + b \<le> 32" "k < 8"
  shows "bit (ucast (push_bit ds (drop_bit ss (w :: u32) AND BIT_MASK b)) :: u8) k \<longleftrightarrow>
    ds \<le> k \<and> k < ds + b \<and> bit w (ss + (k - ds))"
  using assms by (auto simp: bit_simps bit_BIT_MASK)

lemma write_loop:
  assumes "s + n \<le> 32 * length src" "d + n \<le> 8 * length dst" "s + n < 2 ^ 32" "d + n < 2 ^ 32"
  shows "\<exists>dst'. writeLoop src dst n s d = Some dst' \<and> length dst' = length dst \<and>
    (\<forall>i < 8 * length dst. byteBit dst' i \<longleftrightarrow> byteBit dst i \<or> d \<le> i \<and> i < d + n \<and> wordBit src (s + (i - d)))"
  using assms
proof (induction n arbitrary: s d dst rule: less_induct)
  case (less n)
  show ?case
  proof (cases "n = 0")
    case True
    then show ?thesis by (auto simp: writeLoop.simps)
  next
    case False
    define b where "b = bitsProcessed n (d mod 8) (s mod 32)"
    have b: "0 < b" "b \<le> n" "d mod 8 + b \<le> 8" "s mod 32 + b \<le> 32" "b \<le> 8"
      unfolding b_def using bitsProcessed [of n "d mod 8" "s mod 32"] False by simp_all
    let ?tmp = "ucast (push_bit (d mod 8) (drop_bit (s mod 32) (src ! (s div 32)) AND BIT_MASK b)) :: u8"
    let ?dst = "dst[d div 8 := dst ! (d div 8) OR ?tmp]"
    have room: "s div 32 < length src" "d div 8 < length dst"
      using less.prems(1,2) False by (simp_all add: div_less_iff_less_mult)
    have sums: "u32_plus s b = s + b" "u32_plus d b = d + b"
      using b(2) less.prems(3,4) by (simp_all add: u32_plus_less)
    have step: "writeLoop src dst n s d = writeLoop src ?dst (n - b) (s + b) (d + b)"
      using False room sums by (subst writeLoop.simps) (simp add: Let_def b_def [symmetric] not_le)
    have one: "byteBit ?dst i \<longleftrightarrow> byteBit dst i \<or> d \<le> i \<and> i < d + b \<and> wordBit src (s + (i - d))"
      if "i < 8 * length dst" for i
    proof (cases "i div 8 = d div 8")
      case True
      have k: "i mod 8 < 8" by simp
      have order: "d \<le> i \<longleftrightarrow> d mod 8 \<le> i mod 8" "i < d + b \<longleftrightarrow> i mod 8 < d mod 8 + b" "i - d = i mod 8 - d mod 8"
        using True div_mult_mod_eq [of i 8] div_mult_mod_eq [of d 8] by linarith+
      have "wordBit src (s + (i - d)) = bit (src ! (s div 32)) (s mod 32 + (i mod 8 - d mod 8))"
        if "d mod 8 \<le> i mod 8" "i mod 8 < d mod 8 + b"
        unfolding order using that b(4) by (intro wordBit_step) simp
      then show ?thesis
        using True room(2) bit_write_part [OF b(5) b(3) b(4) k, of "src ! (s div 32)"] order
        by (auto simp: byteBit_def bit_or_iff)
    next
      case False
      have "\<not> (d \<le> i \<and> i < d + b)"
      proof
        assume i: "d \<le> i \<and> i < d + b"
        then have "d mod 8 + (i - d) < 8" using b(3) by linarith
        from same_block(1) [OF this] show False using False i by simp
      qed
      then show ?thesis using False by (auto simp: byteBit_def)
    qed
    obtain dst' where dst': "writeLoop src ?dst (n - b) (s + b) (d + b) = Some dst'" "length dst' = length dst"
      "\<forall>i < 8 * length dst. byteBit dst' i \<longleftrightarrow>
         byteBit ?dst i \<or> d + b \<le> i \<and> i < d + b + (n - b) \<and> wordBit src (s + b + (i - (d + b)))"
      using less.IH [of "n - b" "s + b" "d + b" ?dst] b less.prems by auto
    have "byteBit dst' i \<longleftrightarrow> byteBit dst i \<or> d \<le> i \<and> i < d + n \<and> wordBit src (s + (i - d))"
      if i: "i < 8 * length dst" for i
    proof -
      have "s + b + (i - (d + b)) = s + (i - d)" if "d + b \<le> i" using that by simp
      then show ?thesis using dst'(3) one [OF i] i b(2) by (cases "d + b \<le> i") auto
    qed
    then show ?thesis using dst' step by auto
  qed
qed

lemma writeReportBits_spec:
  assumes "n \<le> 32 * length src" "d + n \<le> 8 * length dst" "d + n < 2 ^ 32"
  obtains dst' where "writeReportBits src dst n d = Some dst'" "length dst' = length dst"
    "\<And>i. i < 8 * length dst \<Longrightarrow> byteBit dst' i \<longleftrightarrow> byteBit dst i \<or> d \<le> i \<and> i < d + n \<and> wordBit src (i - d)"
  using write_loop [of 0 n src d dst] assms by (auto simp: writeReportBits_def)

section \<open>The fields of a report\<close>

text \<open>
  A field has its first bit, its width and a value. A report is made by writing all fields,
  in any order, into cleared bytes.
\<close>

type_synonym report_field = "nat \<times> nat \<times> u32"

fun writeFields :: "report_field list \<Rightarrow> u8 list \<Rightarrow> u8 list option" where
  "writeFields [] report = Some report"
| "writeFields ((start, width, v) # fs) report =
     Option.bind (writeReportBits [v] report width start) (writeFields fs)"

definition fields_ok :: "nat \<Rightarrow> report_field list \<Rightarrow> bool" where
  "fields_ok len fs \<longleftrightarrow>
     list_all (\<lambda>(start, width, v). 0 < width \<and> width \<le> 32 \<and> start + width \<le> 8 * len) fs \<and>
     distinct (concat (map (\<lambda>(start, width, v). [start..<start + width]) fs)) \<and> 8 * len < 2 ^ 32"

definition fieldValue :: "bool \<Rightarrow> nat \<Rightarrow> u32 \<Rightarrow> u32" where
  "fieldValue isSigned width v = (if isSigned then signed_take_bit (width - 1) v else take_bit width v)"

lemma writeFields_bits:
  assumes "fields_ok (length report) fs"
  shows "\<exists>r. writeFields fs report = Some r \<and> length r = length report \<and>
    (\<forall>i < 8 * length report. byteBit r i \<longleftrightarrow>
       byteBit report i \<or> (\<exists>(start, width, v)\<in>set fs. start \<le> i \<and> i < start + width \<and> bit v (i - start)))"
  using assms
proof (induction fs arbitrary: report)
  case (Cons f fs)
  obtain start width v where f: "f = (start, width, v)" by (cases f) auto
  have ok: "width \<le> 32" "start + width \<le> 8 * length report" "start + width < 2 ^ 32"
    using Cons.prems f by (auto simp: fields_ok_def)
  obtain r1 where r1: "writeReportBits [v] report width start = Some r1" "length r1 = length report"
    "\<And>i. i < 8 * length report \<Longrightarrow>
      byteBit r1 i \<longleftrightarrow> byteBit report i \<or> start \<le> i \<and> i < start + width \<and> wordBit [v] (i - start)"
    by (rule writeReportBits_spec [of width "[v]" start report]) (use ok in auto)
  have one: "wordBit [v] (i - start) = bit v (i - start)" if "i < start + width" "start \<le> i" for i
    using that ok(1) by (simp add: wordBit_def)
  have "fields_ok (length r1) fs" using Cons.prems r1(2) by (auto simp: fields_ok_def)
  from Cons.IH [OF this] obtain r where r: "writeFields fs r1 = Some r" "length r = length report"
    "\<forall>i < 8 * length report. byteBit r i \<longleftrightarrow>
       byteBit r1 i \<or> (\<exists>(start, width, v)\<in>set fs. start \<le> i \<and> i < start + width \<and> bit v (i - start))"
    using r1(2) by auto
  have "byteBit r i \<longleftrightarrow>
      byteBit report i \<or> (\<exists>(start, width, v)\<in>set (f # fs). start \<le> i \<and> i < start + width \<and> bit v (i - start))"
    if "i < 8 * length report" for i
    using r(3) r1(3) [OF that] one [of i] that f by auto
  then show ?case using r(1,2) r1(1) f by auto
qed simp

lemma field_alone:
  assumes "fields_ok len fs" and "(start, width, v) \<in> set fs" and "(start', width', v') \<in> set fs"
    and "start \<le> i" "i < start + width" "start' \<le> i" "i < start' + width'"
  shows "(start', width', v') = (start, width, v)"
proof -
  have "distinct (concat (map (\<lambda>(start, width, v). [start..<start + width]) fs))"
    using assms(1) by (simp add: fields_ok_def)
  then show ?thesis
    using assms(2,3)
  proof (induction fs)
    case (Cons f fs)
    let ?range = "\<lambda>(start, width, v). [start..<start + width]"
    have i: "i \<in> set (?range (start, width, v))" "i \<in> set (?range (start', width', v'))"
      using assms(4-7) by simp_all
    have "set (?range f) \<inter> set (concat (map ?range fs)) = {}" using Cons.prems(1) by simp
    then have "\<not> (i \<in> set (?range f) \<and> g \<in> set fs \<and> i \<in> set (?range g))" for g
      unfolding set_concat set_map by blast
    then show ?case using Cons i by (auto simp del: upt_Suc set_upt)
  qed simp
qed

lemma bit_fieldValue:
  assumes "0 < width" "width \<le> 32" "k < 32"
  shows "bit (fieldValue isSigned width v) k \<longleftrightarrow>
    (if k < width then bit v k else isSigned \<and> width < 32 \<and> bit v (width - 1))"
proof -
  have "k = width - 1" if "width - 1 \<le> k" "k < width" using that by simp
  then show ?thesis using assms by (auto simp: fieldValue_def bit_simps min_def not_less)
qed

text \<open>
  C39. What is written into a report is what is read from it: fields that do not overlap are written
  one after the other into cleared bytes, whatever their order and however they lie across
  the bytes; the writing succeeds, and reading any of the fields gives its value, cut to the width of the field and
  extended by its sign where that is asked for, and reports a change exactly if the value
  differs from the one the element had before.
\<close>

theorem report_fields_roundtrip:
  assumes "fields_ok len fs"
  shows "\<exists>report. writeFields fs (replicate len 0) = Some report \<and> length report = len \<and>
    (\<forall>(start, width, v)\<in>set fs. \<forall>old isSigned.
       readReportBits report [old] width start isSigned False =
         Some ([fieldValue isSigned width v], fieldValue isSigned width v \<noteq> old))"
proof -
  obtain r where r: "writeFields fs (replicate len 0) = Some r" "length r = len"
    "\<forall>i < 8 * len. byteBit r i \<longleftrightarrow> byteBit (replicate len 0) i \<or>
       (\<exists>(start, width, v)\<in>set fs. start \<le> i \<and> i < start + width \<and> bit v (i - start))"
    using writeFields_bits [of "replicate len 0" fs] assms by auto
  have "readReportBits r [old] width start isSigned False =
         Some ([fieldValue isSigned width v], fieldValue isSigned width v \<noteq> old)"
    if f: "(start, width, v) \<in> set fs" for start width v old isSigned
  proof -
    have ok: "0 < width" "width \<le> 32" "start + width \<le> 8 * len" "start + width < 2 ^ 32"
      using assms f by (auto simp: fields_ok_def list_all_iff)
    have bits: "byteBit r (start + k) = bit v k" if "k < width" for k
    proof -
      have "byteBit (replicate len 0) (start + k) = False" using ok(3) that by (simp add: byteBit_def)
      moreover have "(\<exists>(s, w, u)\<in>set fs. s \<le> start + k \<and> start + k < s + w \<and> bit u (start + k - s)) \<longleftrightarrow> bit v k"
      proof
        assume "\<exists>(s, w, u)\<in>set fs. s \<le> start + k \<and> start + k < s + w \<and> bit u (start + k - s)"
        then obtain s w u where g: "(s, w, u) \<in> set fs" "s \<le> start + k" "start + k < s + w" "bit u (start + k - s)"
          by blast
        have "(s, w, u) = (start, width, v)"
          by (rule field_alone [OF assms f g(1) _ _ g(2,3)]) (use that in simp_all)
        then show "bit v k" using g(4) by simp
      next
        assume "bit v k"
        then show "\<exists>(s, w, u)\<in>set fs. s \<le> start + k \<and> start + k < s + w \<and> bit u (start + k - s)"
          by (intro bexI [OF _ f]) (use that in simp)
      qed
      ultimately show ?thesis using r(3) ok(3) that by simp
    qed
    have "fieldWord r start width isSigned 0 = fieldValue isSigned width v"
    proof (rule bit_word_eqI)
      fix k assume "k < LENGTH(32)"
      then have k: "k < 32" by simp
      show "bit (fieldWord r start width isSigned 0) k = bit (fieldValue isSigned width v) k"
        using bit_fieldWord [OF k, of r start width isSigned 0] bit_fieldValue [OF ok(1,2) k, of isSigned v]
          bits [of k] bits [of "width - 1"] ok(1) by auto
    qed
    moreover have "(width + 31) div 32 = 1" using words_up [of 0 width] ok(1,2) by simp
    ultimately show ?thesis
      using readReportBits_spec [of start width r "[old]" isSigned False] ok r(2) by simp
  qed
  then show ?thesis using r(1,2) by blast
qed

lemma report_fields_roundtrip_witness:
  "\<exists>report. writeFields [(3, 7, 0x55), (12, 11, 0x7f3), (0, 2, 1)] (replicate 3 0) = Some report \<and>
    readReportBits report [0] 11 12 True False = Some ([0xfffffff3], True)"
proof -
  have "fields_ok 3 [(3, 7, 0x55), (12, 11, 0x7f3), (0, 2, 1)]"
    by (simp add: fields_ok_def upt_rec)
  moreover have "fieldValue True 11 0x7f3 = 0xfffffff3" by (simp add: fieldValue_def)
  ultimately show ?thesis using report_fields_roundtrip [of 3 "[(3, 7, 0x55), (12, 11, 0x7f3), (0, 2, 1)]"] by auto
qed

end
