(* ===== verification/HID_Elements.thy ===== *)
theory HID_Elements
  imports HID_ReportBits
begin

text \<open>
  The elements of a HID device (\<open>IOHIDElementPrivate.cpp\<close>), the reports of the device and the
  event queues that its elements fill: registering an element, processing a report that comes
  in, creating one that goes out. An element is named by its cookie, the index at which it was registered.
\<close>

section \<open>Constants\<close>

definition kHIDDataArrayBit :: u32 where "kHIDDataArrayBit = 0x02"
definition kHIDDataRelativeBit :: u32 where "kHIDDataRelativeBit = 0x04"
definition kHIDPage_KeyboardOrKeypad :: u32 where "kHIDPage_KeyboardOrKeypad = 0x07"
definition kHIDUsage_KeyboardErrorRollOver :: u32 where "kHIDUsage_KeyboardErrorRollOver = 0x01"
definition kHIDUsage_KeyboardLeftControl :: u32 where "kHIDUsage_KeyboardLeftControl = 0xE0"
definition kHIDUsage_KeyboardRightGUI :: u32 where "kHIDUsage_KeyboardRightGUI = 0xE7"
definition kIOHIDReportOptionNotInterrupt :: u32 where "kIOHIDReportOptionNotInterrupt = 0x100"
definition kIOHIDQueueOptionsTypeEnqueueAll :: u32 where "kIOHIDQueueOptionsTypeEnqueueAll = 0x01"
definition kHIDQueueStarted :: u32 where "kHIDQueueStarted = 0x01"
definition kHIDQueueDisabled :: u32 where "kHIDQueueDisabled = 0x02"

text \<open>The size of \<open>IOHIDElementValue\<close> and that of a pointer.\<close>

definition DEFAULT_HID_ENTRY_SIZE :: nat where "DEFAULT_HID_ENTRY_SIZE = 24 + 4"

section \<open>Event queues\<close>

text \<open>
  The data queue itself is of the kernel: \<open>q_posted\<close> lists what was passed to it. An entry
  is the cookie of an element and its value at that time.
\<close>

type_synonym queue_entry = "nat \<times> u32 list"

record event_queue =
  q_state :: u32
  q_options :: u32
  q_numEntries :: nat
  q_currentEntrySize :: nat
  q_maxEntrySize :: nat
  q_elementSet :: "nat list option"
  q_posted :: "queue_entry list"

definition q_enqueue :: "queue_entry \<Rightarrow> event_queue \<Rightarrow> event_queue" where
  "q_enqueue entry q =
     (if q_state q AND (kHIDQueueStarted OR kHIDQueueDisabled) = kHIDQueueStarted
      then q\<lparr>q_posted := q_posted q @ [entry]\<rparr> else q)"

text \<open>
  Starting a queue drops what it holds; \<open>allocated\<close> tells whether memory for larger entries
  can be had when it is needed.
\<close>

definition q_start :: "bool \<Rightarrow> event_queue \<Rightarrow> event_queue" where
  "q_start allocated q =
     (if q_state q AND kHIDQueueStarted \<noteq> 0 then q
      else if q_currentEntrySize q \<noteq> q_maxEntrySize q
      then if allocated
           then q\<lparr>q_posted := [], q_currentEntrySize := q_maxEntrySize q, q_state := q_state q OR kHIDQueueStarted\<rparr>
           else q\<lparr>q_posted := []\<rparr>
      else q\<lparr>q_posted := [], q_state := q_state q OR kHIDQueueStarted\<rparr>)"

definition q_stop :: "event_queue \<Rightarrow> event_queue" where
  "q_stop q = q\<lparr>q_state := q_state q AND NOT kHIDQueueStarted\<rparr>"

definition q_enable :: "event_queue \<Rightarrow> event_queue" where
  "q_enable q = q\<lparr>q_state := q_state q AND NOT kHIDQueueDisabled\<rparr>"

definition q_disable :: "event_queue \<Rightarrow> event_queue" where
  "q_disable q = q\<lparr>q_state := q_state q OR kHIDQueueDisabled\<rparr>"

definition q_isStarted :: "event_queue \<Rightarrow> bool" where
  "q_isStarted q \<longleftrightarrow> q_state q AND kHIDQueueStarted \<noteq> 0"

text \<open>A pointer has four bytes. The element is looked up in the set, but not added to it.\<close>

definition q_addElement :: "nat \<Rightarrow> nat \<Rightarrow> event_queue \<Rightarrow> event_queue" where
  "q_addElement cookie valueSize q =
     (let s = (case q_elementSet q of None \<Rightarrow> [] | Some s \<Rightarrow> s);
          q = q\<lparr>q_elementSet := Some s\<rparr>
      in if cookie \<in> set s then q
         else q\<lparr>q_maxEntrySize := max (q_maxEntrySize q) (valueSize + 4)\<rparr>)"

text \<open>\<open>valueSize\<close> has the sizes of the values of the elements.\<close>

definition q_removeElement :: "nat \<Rightarrow> (nat \<Rightarrow> nat) \<Rightarrow> event_queue \<Rightarrow> event_queue" where
  "q_removeElement cookie valueSize q =
     (case q_elementSet q of
        None \<Rightarrow> q
      | Some s \<Rightarrow>
          if cookie \<notin> set s then q
          else let s = remove1 cookie s
               in q\<lparr>q_elementSet := Some s,
                    q_maxEntrySize := foldl (\<lambda>m e. max m (valueSize e + 4)) DEFAULT_HID_ENTRY_SIZE s\<rparr>)"

text \<open>
  A new queue, for a number of entries or for a size in bytes. The macro \<open>DEFAULT_HID_ENTRY_SIZE\<close>
  is a sum without brackets, so that the code divides by its first term and adds the second.
\<close>

definition q_withEntries :: "nat \<Rightarrow> event_queue" where
  "q_withEntries numEntries =
     \<lparr>q_state = 0, q_options = 0, q_numEntries = numEntries, q_currentEntrySize = DEFAULT_HID_ENTRY_SIZE,
      q_maxEntrySize = DEFAULT_HID_ENTRY_SIZE, q_elementSet = None, q_posted = []\<rparr>"

definition q_withCapacity :: "nat \<Rightarrow> event_queue" where
  "q_withCapacity capacity = q_withEntries (capacity div 24 + 4)"

section \<open>Elements\<close>

datatype transaction_state = TransactionIdle | TransactionPending

text \<open>
  The fields of the element, and those of its value, which lies in memory that is shared with
  user space. Null pointers are \<open>None\<close>.
\<close>

record element =
  el_type :: nat
  el_flags :: u32
  el_reportID :: u32
  el_reportSize :: nat
  el_reportBits :: nat
  el_reportCount :: nat
  el_reportStartBit :: nat
  el_usagePage :: u32
  el_usageMin :: u32
  el_usageMax :: u32
  el_rangeIndex :: u32
  el_logicalMin :: u32
  el_logicalMax :: u32
  el_nextReportHandler :: "nat option"
  el_arrayReportHandler :: "nat option"
  el_duplicateReportHandler :: "nat option"
  el_hasRollOverPtr :: bool
  el_arrayItems :: "nat list option"
  el_duplicateElements :: "nat list option"
  el_oldArraySelectors :: "u32 list"
  el_isInterruptReportHandler :: bool
  el_transactionState :: transaction_state
  el_queueArray :: "nat list option"
  el_generation :: u32
  el_timestamp :: u64
  el_value :: "u32 list"

definition IsArrayElement :: "element \<Rightarrow> bool" where
  "IsArrayElement el \<longleftrightarrow> el_flags el AND kHIDDataArrayBit = 0"

definition IsArrayReportHandler :: "nat \<Rightarrow> element \<Rightarrow> bool" where
  "IsArrayReportHandler e el \<longleftrightarrow> el_arrayReportHandler el = Some e"

definition IsDuplicateElement :: "element \<Rightarrow> bool" where
  "IsDuplicateElement el \<longleftrightarrow> el_duplicateReportHandler el \<noteq> None"

definition IsDuplicateReportHandler :: "nat \<Rightarrow> element \<Rightarrow> bool" where
  "IsDuplicateReportHandler e el \<longleftrightarrow> el_duplicateReportHandler el = Some e"

definition getUsage :: "element \<Rightarrow> u32" where
  "getUsage el = (if el_usageMax el \<noteq> el_usageMin el then el_usageMin el + el_rangeIndex el else el_usageMin el)"

definition valueBits :: "element \<Rightarrow> nat" where
  "valueBits el = (el_reportBits el * el_reportCount el) mod 2 ^ 32"

definition getValue :: "element \<Rightarrow> u32 option" where
  "getValue el = (if valueBits el < 32 then (case el_value el of [] \<Rightarrow> None | v # vs \<Rightarrow> Some v) else Some 0)"

text \<open>A value of up to one word takes the size of the structure, 24 bytes; every other word four bytes more.\<close>

definition getElementValueSize :: "element \<Rightarrow> nat" where
  "getElementValueSize el =
     (let reportWords = valueBits el div 32 + (if valueBits el mod 32 \<noteq> 0 then 1 else 0)
      in 24 + (if reportWords > 1 then (reportWords - 1) * 4 else 0))"

definition getReportType :: "element \<Rightarrow> nat option" where
  "getReportType el =
     (if el_type el \<le> 4 then Some 0 else if el_type el = 129 then Some 1
      else if el_type el = 257 then Some 2 else None)"

section \<open>Devices\<close>

text \<open>The head of a chain of report handlers stands at the slot of the report ID and the type of the report.\<close>

record hid_device =
  dv_elements :: "element list"
  dv_heads :: "nat \<times> nat \<Rightarrow> nat option"
  dv_rollOverElement :: "nat option"
  dv_queues :: "event_queue list"
  dv_reportCount :: nat
  dv_readyForInputReports :: bool

definition elementAt :: "nat \<Rightarrow> hid_device \<Rightarrow> element option" where
  "elementAt e d = (if e < length (dv_elements d) then Some (dv_elements d ! e) else None)"

definition updElement :: "nat \<Rightarrow> (element \<Rightarrow> element) \<Rightarrow> hid_device \<Rightarrow> hid_device" where
  "updElement e f d = d\<lparr>dv_elements := (dv_elements d)[e := f (dv_elements d ! e)]\<rparr>"

definition GetReportHandlerSlot :: "u32 \<Rightarrow> nat" where
  "GetReportHandlerSlot reportID = unat (reportID AND 7)"

definition objectAt :: "nat list \<Rightarrow> nat \<Rightarrow> nat option" where
  "objectAt xs i = (if i < length xs then Some (xs ! i) else None)"

text \<open>Registering: the new element becomes the head of its chain.\<close>

definition registerElement :: "element \<Rightarrow> hid_device \<Rightarrow> nat \<times> hid_device" where
  "registerElement el d =
     (let cookie = length (dv_elements d)
      in case getReportType el of
           None \<Rightarrow> (cookie, d\<lparr>dv_elements := dv_elements d @ [el]\<rparr>)
         | Some reportType \<Rightarrow>
             let slot = GetReportHandlerSlot (el_reportID el);
                 el = (case dv_heads d (slot, reportType) of
                         None \<Rightarrow> el
                       | Some h \<Rightarrow> el\<lparr>el_nextReportHandler := Some h\<rparr>);
                 d = d\<lparr>dv_heads := (dv_heads d)((slot, reportType) := Some cookie)\<rparr>;
                 d = (if el_usagePage el = kHIDPage_KeyboardOrKeypad \<and>
                         getUsage el = kHIDUsage_KeyboardErrorRollOver
                      then d\<lparr>dv_rollOverElement := Some cookie\<rparr> else d);
                 el = (if el_usagePage el = kHIDPage_KeyboardOrKeypad \<and>
                          kHIDUsage_KeyboardLeftControl \<le> getUsage el \<and> getUsage el \<le> kHIDUsage_KeyboardRightGUI
                       then el\<lparr>el_hasRollOverPtr := True\<rparr> else el)
             in (cookie, d\<lparr>dv_elements := dv_elements d @ [el]\<rparr>))"

partial_function (option) setReportSizeFrom ::
  "u8 \<Rightarrow> nat \<Rightarrow> nat option \<Rightarrow> hid_device \<Rightarrow> (bool \<times> hid_device) option" where
  "setReportSizeFrom reportID numberOfBits e d =
     (case e of
        None \<Rightarrow> Some (False, d)
      | Some e \<Rightarrow>
          Option.bind (elementAt e d) (\<lambda>el.
            if el_reportID el = ucast reportID
            then Some (True, updElement e (\<lambda>el. el\<lparr>el_reportSize := numberOfBits\<rparr>) d)
            else setReportSizeFrom reportID numberOfBits (el_nextReportHandler el) d))"

definition setReportSize :: "u8 \<Rightarrow> nat \<Rightarrow> nat \<Rightarrow> hid_device \<Rightarrow> (bool \<times> hid_device) option" where
  "setReportSize reportID reportType numberOfBits d =
     setReportSizeFrom reportID numberOfBits (dv_heads d (GetReportHandlerSlot (ucast reportID), reportType)) d"

section \<open>Reports that come in\<close>

text \<open>The value of an element goes to its queues.\<close>

definition enqueueAt :: "nat \<Rightarrow> bool \<Rightarrow> nat \<Rightarrow> hid_device \<Rightarrow> hid_device option" where
  "enqueueAt e always i d =
     do { el \<leftarrow> elementAt e d;
          if i < length (dv_queues d)
          then let q = dv_queues d ! i
               in Some (if always \<or> q_options q AND kIOHIDQueueOptionsTypeEnqueueAll \<noteq> 0
                        then d\<lparr>dv_queues := (dv_queues d)[i := q_enqueue (e, el_value el) q]\<rparr> else d)
          else None }"

primrec enqueueAll :: "nat \<Rightarrow> bool \<Rightarrow> nat list \<Rightarrow> hid_device \<Rightarrow> hid_device option" where
  "enqueueAll e always [] d = Some d"
| "enqueueAll e always (i # is) d = Option.bind (enqueueAt e always i d) (enqueueAll e always is)"

definition enqueueElement :: "nat \<Rightarrow> bool \<Rightarrow> hid_device \<Rightarrow> hid_device option" where
  "enqueueElement e always d =
     do { el \<leftarrow> elementAt e d;
          case el_queueArray el of None \<Rightarrow> Some d | Some qs \<Rightarrow> enqueueAll e always qs d }"

definition setArrayElementValue :: "nat \<Rightarrow> u32 \<Rightarrow> u32 \<Rightarrow> hid_device \<Rightarrow> hid_device option" where
  "setArrayElementValue h index v d =
     do { ar \<leftarrow> elementAt h d;
          case el_arrayItems ar of
            None \<Rightarrow> Some d
          | Some items \<Rightarrow>
              if unat index > length items then Some d
              else case objectAt items (unat index) of
                     None \<Rightarrow> Some d
                   | Some e \<Rightarrow>
                       do { el \<leftarrow> elementAt e d;
                            if el_value el = [] then None
                            else enqueueElement e True
                                   (updElement e (\<lambda>el. el\<lparr>el_generation := el_generation el + 1 + 1,
                                      el_value := (el_value el)[0 := v], el_timestamp := el_timestamp ar\<rparr>) d) } }"

text \<open>
  The selectors of an array: the values of its duplicates, or its own value if it has none.
  A selector for which there is no element is \<open>None\<close>.
\<close>

definition selectorElement :: "nat \<Rightarrow> element \<Rightarrow> nat \<Rightarrow> nat option" where
  "selectorElement h ar i = (case el_duplicateElements ar of None \<Rightarrow> Some h | Some ds \<Rightarrow> objectAt ds i)"

definition selectorAt :: "nat \<Rightarrow> nat \<Rightarrow> hid_device \<Rightarrow> u32 option option" where
  "selectorAt h i d =
     do { ar \<leftarrow> elementAt h d;
          case selectorElement h ar i of
            None \<Rightarrow> Some None
          | Some e \<Rightarrow> do { el \<leftarrow> elementAt e d;
                           case el_value el of [] \<Rightarrow> None | v # vs \<Rightarrow> Some (Some v) } }"

text \<open>The three loops: keys that are gone, keys that are new, and the selectors to remember.\<close>

primrec isSelected :: "nat \<Rightarrow> u32 \<Rightarrow> nat list \<Rightarrow> hid_device \<Rightarrow> bool option" where
  "isSelected h sel [] d = Some False"
| "isSelected h sel (i # is) d =
     do { s \<leftarrow> selectorAt h i d;
          if s = Some sel then Some True else isSelected h sel is d }"

primrec clearGone :: "nat \<Rightarrow> nat list \<Rightarrow> hid_device \<Rightarrow> hid_device option" where
  "clearGone h [] d = Some d"
| "clearGone h (i # is) d =
     do { ar \<leftarrow> elementAt h d;
          if i < length (el_oldArraySelectors ar)
          then do { let sel = el_oldArraySelectors ar ! i;
                    found \<leftarrow> isSelected h sel [0..<el_reportCount ar] d;
                    d \<leftarrow> (if found then Some d else setArrayElementValue h (sel - el_logicalMin ar) 0 d);
                    clearGone h is d }
          else None }"

primrec setNew :: "nat \<Rightarrow> nat list \<Rightarrow> hid_device \<Rightarrow> hid_device option" where
  "setNew h [] d = Some d"
| "setNew h (i # is) d =
     do { ar \<leftarrow> elementAt h d;
          s \<leftarrow> selectorAt h i d;
          d \<leftarrow> (case s of
                  None \<Rightarrow> Some d
                | Some sel \<Rightarrow>
                    if length (el_oldArraySelectors ar) < el_reportCount ar then None
                    else if sel \<in> set (take (el_reportCount ar) (el_oldArraySelectors ar)) then Some d
                    else setArrayElementValue h (sel - el_logicalMin ar) 1 d);
          setNew h is d }"

primrec saveSelectors :: "nat \<Rightarrow> nat list \<Rightarrow> hid_device \<Rightarrow> hid_device option" where
  "saveSelectors h [] d = Some d"
| "saveSelectors h (i # is) d =
     do { ar \<leftarrow> elementAt h d;
          s \<leftarrow> selectorAt h i d;
          d \<leftarrow> (case s of
                  None \<Rightarrow> Some d
                | Some sel \<Rightarrow>
                    if i < length (el_oldArraySelectors ar)
                    then Some (updElement h (\<lambda>ar. ar\<lparr>el_oldArraySelectors := (el_oldArraySelectors ar)[i := sel]\<rparr>) d)
                    else None);
          saveSelectors h is d }"

definition updateItems :: "nat \<Rightarrow> hid_device \<Rightarrow> hid_device option" where
  "updateItems h d =
     do { ar \<leftarrow> elementAt h d;
          let positions = [0..<el_reportCount ar];
          d \<leftarrow> clearGone h positions d;
          d \<leftarrow> setNew h positions d;
          saveSelectors h positions d }"

text \<open>
  The duplicates read their own selectors. \<open>process\<close> stands for the call of \<open>processReport\<close>
  on a duplicate, without the pointer to the next handler.
\<close>

primrec processSelectors ::
  "(nat \<Rightarrow> hid_device \<Rightarrow> (bool \<times> hid_device) option) \<Rightarrow> bool \<Rightarrow> nat list \<Rightarrow> nat list \<Rightarrow>
   bool \<Rightarrow> bool \<Rightarrow> hid_device \<Rightarrow> (bool \<times> bool \<times> hid_device) option" where
  "processSelectors process keyboard ds [] changed found d = Some (changed, found, d)"
| "processSelectors process keyboard ds (i # is) changed found d =
     (case objectAt ds i of
        None \<Rightarrow> processSelectors process keyboard ds is changed found d
      | Some e \<Rightarrow>
          do { (c, d) \<leftarrow> process e d;
               el \<leftarrow> elementAt e d;
               case el_value el of
                 [] \<Rightarrow> None
               | v # vs \<Rightarrow>
                   processSelectors process keyboard ds is (changed \<or> c)
                     (found \<and> \<not> (keyboard \<and> v \<noteq> kHIDUsage_KeyboardErrorRollOver)) d })"

definition processArrayReport ::
  "(nat \<Rightarrow> hid_device \<Rightarrow> (bool \<times> hid_device) option) \<Rightarrow> nat \<Rightarrow> hid_device \<Rightarrow> (bool \<times> hid_device) option" where
  "processArrayReport process h d =
     do { ar \<leftarrow> elementAt h d;
          case el_duplicateElements ar of
            None \<Rightarrow> do { d \<leftarrow> updateItems h d; Some (False, d) }
          | Some ds \<Rightarrow>
              let keyboard = (el_usagePage ar = kHIDPage_KeyboardOrKeypad)
              in do { (changed, found, d) \<leftarrow>
                        processSelectors process keyboard ds [0..<el_reportCount ar] False keyboard d;
                      if \<not> changed then Some (changed, d)
                      else do {
                        d \<leftarrow> (if keyboard
                               then setArrayElementValue h (kHIDUsage_KeyboardErrorRollOver - el_logicalMin ar)
                                      (if found then 1 else 0) d
                               else Some d);
                        if keyboard \<and> found then Some (False, d)
                        else do { d \<leftarrow> updateItems h d; Some (changed, d) } } } }"

text \<open>
  Processing a report. \<open>chained\<close> says that the caller wants the next handler of the chain,
  which is the second component of the result. The report of an array is processed by its
  handler, and its duplicates are processed in turn; as they are no handlers of arrays the
  calls are nested at most twice, and \<open>depth\<close> bounds the nesting.
\<close>

definition rolledOver :: "u64 \<Rightarrow> element \<Rightarrow> hid_device \<Rightarrow> bool option" where
  "rolledOver timestamp el d =
     (if el_usagePage el = kHIDPage_KeyboardOrKeypad \<and> kHIDUsage_KeyboardLeftControl \<le> getUsage el \<and>
         getUsage el \<le> kHIDUsage_KeyboardRightGUI \<and> el_hasRollOverPtr el
      then case dv_rollOverElement d of
             None \<Rightarrow> Some False
           | Some r \<Rightarrow> do { ro \<leftarrow> elementAt r d;
                           v \<leftarrow> getValue ro;
                           Some (v \<noteq> 0 \<and> el_timestamp ro = timestamp) }
      else Some False)"

definition sgnExtended :: "element \<Rightarrow> bool" where
  "sgnExtended el \<longleftrightarrow> el_logicalMin el <s 0 \<or> el_logicalMax el <s 0"

definition readElement :: "nat \<Rightarrow> u8 list \<Rightarrow> hid_device \<Rightarrow> (bool \<times> u32 \<times> hid_device) option" where
  "readElement e reportData d =
     do { el \<leftarrow> elementAt e d;
          case el_value el of
            [] \<Rightarrow> None
          | previousValue # vs \<Rightarrow>
              do { (words, changed) \<leftarrow> readReportBits reportData (el_value el) (valueBits el)
                     (el_reportStartBit el) (sgnExtended el) False;
                   Some (changed, previousValue,
                     updElement e (\<lambda>el. el\<lparr>el_generation := el_generation el + 1, el_value := words\<rparr>) d) } }"

text \<open>The time of an element that is relative and stays zero is not changed.\<close>

definition stampElement :: "nat \<Rightarrow> element \<Rightarrow> bool \<Rightarrow> u32 \<Rightarrow> u64 \<Rightarrow> hid_device \<Rightarrow> hid_device" where
  "stampElement e el changed previousValue timestamp d =
     (if el_flags el AND kHIDDataRelativeBit = 0 \<or> el_reportBits el > 32 \<or> changed \<or> previousValue \<noteq> 0
      then updElement e (\<lambda>el. el\<lparr>el_timestamp := timestamp\<rparr>) d else d)"

fun processReport ::
  "nat \<Rightarrow> u8 \<Rightarrow> u8 list \<Rightarrow> nat \<Rightarrow> u32 \<Rightarrow> bool \<Rightarrow> u64 \<Rightarrow> nat \<Rightarrow> hid_device \<Rightarrow>
   (bool \<times> nat option \<times> hid_device) option" where
  "processReport 0 reportID reportData reportBits options chained timestamp e d = None"
| "processReport (Suc depth) reportID reportData reportBits options chained timestamp e d =
     do { el \<leftarrow> elementAt e d;
          if chained \<and> el_reportID el \<noteq> ucast reportID then Some (False, el_nextReportHandler el, d)
          else if chained \<and> el_reportSize el \<noteq> 0 \<and> reportBits < el_reportSize el then Some (False, None, d)
          else if chained \<and> el_isInterruptReportHandler el \<and> options AND kIOHIDReportOptionNotInterrupt \<noteq> 0
          then Some (False, el_nextReportHandler el, d)
          else if chained \<and> IsArrayElement el \<and> \<not> IsArrayReportHandler e el
          then Some (False, el_arrayReportHandler el, d)
          else if el_reportID el \<noteq> ucast reportID then Some (False, el_nextReportHandler el, d)
          else do {
            rolled \<leftarrow> rolledOver timestamp el d;
            if rolled then Some (False, el_nextReportHandler el, d)
            else do {
              (changed, previousValue, d) \<leftarrow> readElement e reportData d;
              let relative = (el_flags el AND kHIDDataRelativeBit \<noteq> 0);
              let shouldProcess = (changed \<or> el_isInterruptReportHandler el \<or> relative);
              d \<leftarrow>
                (if shouldProcess
                 then do {
                   let stamped = stampElement e el changed previousValue timestamp d;
                   if IsArrayElement el \<and> IsArrayReportHandler e el
                   then do {
                     ar \<leftarrow> elementAt e stamped;
                     (c, d) \<leftarrow> processArrayReport
                       (\<lambda>e d. map_option (\<lambda>(c, next, d). (c, d))
                          (processReport depth reportID reportData reportBits 0 False (el_timestamp ar) e d))
                       e stamped;
                     Some d }
                   else Some stamped }
                 else Some d);
              d \<leftarrow> enqueueElement e shouldProcess d;
              Some (changed, el_nextReportHandler el,
                updElement e (\<lambda>el. el\<lparr>el_generation := el_generation el + 1,
                  el_transactionState := TransactionIdle\<rparr>) d) } } }"

text \<open>The chain of the handlers of a report, and the report as the device receives it.\<close>

partial_function (option) processChain ::
  "u8 \<Rightarrow> u8 list \<Rightarrow> u32 \<Rightarrow> u64 \<Rightarrow> nat option \<Rightarrow> bool \<Rightarrow> hid_device \<Rightarrow> (bool \<times> hid_device) option" where
  "processChain reportID reportData options timestamp e changed d =
     (case e of
        None \<Rightarrow> Some (changed, d)
      | Some e \<Rightarrow>
          Option.bind (processReport 2 reportID reportData (8 * length reportData) options True timestamp e d)
            (\<lambda>(c, next, d). processChain reportID reportData options timestamp next (changed \<or> c) d))"

datatype io_return = IOReturnSuccess | IOReturnNotReady | IOReturnBadArgument

definition handleReportWithTime ::
  "u64 \<Rightarrow> u8 list \<Rightarrow> nat \<Rightarrow> u32 \<Rightarrow> hid_device \<Rightarrow> (io_return \<times> bool \<times> hid_device) option" where
  "handleReportWithTime timeStamp report reportType options d =
     (if report = [] then Some (IOReturnBadArgument, False, d)
      else if \<not> dv_readyForInputReports d then Some (IOReturnNotReady, False, d)
      else
        let reportID = (if dv_reportCount d > 1 then report ! 0 else 0)
        in map_option (\<lambda>(changed, d). (IOReturnSuccess, changed, d))
             (processChain reportID report options timeStamp
                (dv_heads d (GetReportHandlerSlot (ucast reportID), reportType)) False d))"

section \<open>Reports that go out\<close>

text \<open>
  The comparisons of the code are unsigned, as one side of each is: that \<open>x > 0\<close> is that \<open>x\<close> is
  not zero, and that \<open>x < 0\<close> never holds.
\<close>

definition setOutOfBoundsValue :: "element \<Rightarrow> element" where
  "setOutOfBoundsValue el =
     (if getElementValueSize el \<noteq> 24 then el
      else if el_logicalMin el > 0 then el\<lparr>el_value := (el_value el)[0 := 0]\<rparr>
      else if BIT_MASK (el_reportBits el) - el_logicalMax el > 0
      then el\<lparr>el_value := (el_value el)[0 := el_logicalMax el + 1]\<rparr>
      else if - BIT_MASK (el_reportBits el) - el_logicalMin el < 0
      then el\<lparr>el_value := (el_value el)[0 := el_logicalMin el - 1]\<rparr>
      else el)"

text \<open>
  The report is \<open>None\<close> where the code has a null pointer. Its length is set by the element
  that has the size of the report, which also clears the report.
\<close>

record out_report =
  or_data :: "u8 list option"
  or_length :: nat

definition clearReport :: "element \<Rightarrow> out_report \<Rightarrow> out_report option" where
  "clearReport el r =
     (if el_reportSize el = 0 then Some r
      else
        let len = el_reportSize el div 8; r = r\<lparr>or_length := len\<rparr>
        in case or_data r of
             None \<Rightarrow> Some r
           | Some bytes \<Rightarrow>
               if length bytes < len then None
               else Some (r\<lparr>or_data := Some (replicate len 0 @ drop len bytes)\<rparr>))"

text \<open>The part of \<open>createReport\<close> that writes the value of the element.\<close>

definition writeElement :: "nat \<Rightarrow> out_report \<Rightarrow> hid_device \<Rightarrow> (bool \<times> out_report \<times> hid_device) option" where
  "writeElement e r d =
     do { el \<leftarrow> elementAt e d;
          let d = (if el_transactionState el = TransactionIdle then updElement e setOutOfBoundsValue d else d);
          el \<leftarrow> elementAt e d;
          case or_data r of
            None \<Rightarrow> Some (False, r, d)
          | Some bytes \<Rightarrow>
              do { bytes \<leftarrow> writeReportBits (el_value el) bytes (valueBits el) (el_reportStartBit el);
                   Some (True, r\<lparr>or_data := Some bytes\<rparr>,
                     updElement e (\<lambda>el. el\<lparr>el_transactionState := TransactionIdle\<rparr>) d) } }"

text \<open>\<open>createReport\<close> without the pointer to the next handler.\<close>

definition createReportAlone ::
  "u8 \<Rightarrow> nat \<Rightarrow> out_report \<Rightarrow> hid_device \<Rightarrow> (bool \<times> out_report \<times> hid_device) option" where
  "createReportAlone reportID e r d =
     do { el \<leftarrow> elementAt e d;
          if el_reportID el \<noteq> ucast reportID then Some (False, r, d)
          else do { cleared \<leftarrow> clearReport el r;
                    if el_reportSize el \<noteq> 0 \<and> or_data r = None then Some (False, cleared, d)
                    else writeElement e cleared d } }"

primrec createDuplicates ::
  "u8 \<Rightarrow> nat list \<Rightarrow> bool \<Rightarrow> out_report \<Rightarrow> hid_device \<Rightarrow> (bool \<times> out_report \<times> hid_device) option" where
  "createDuplicates reportID [] pending r d = Some (pending, r, d)"
| "createDuplicates reportID (e # es) pending r d =
     do { el \<leftarrow> elementAt e d;
          (_, r, d) \<leftarrow> createReportAlone reportID e r d;
          createDuplicates reportID es (pending \<or> el_transactionState el = TransactionPending) r d }"

definition createDuplicateReport ::
  "u8 \<Rightarrow> nat \<Rightarrow> out_report \<Rightarrow> hid_device \<Rightarrow> (bool \<times> out_report \<times> hid_device) option" where
  "createDuplicateReport reportID e r d =
     do { el \<leftarrow> elementAt e d;
          createDuplicates reportID (case el_duplicateElements el of None \<Rightarrow> [] | Some ds \<Rightarrow> ds) False r d }"

text \<open>One selector of an array is set and written.\<close>

definition writeSelector ::
  "u8 \<Rightarrow> nat \<Rightarrow> nat \<Rightarrow> u32 \<Rightarrow> out_report \<Rightarrow> hid_device \<Rightarrow> (out_report \<times> hid_device) option" where
  "writeSelector reportID h i sel r d =
     do { ar \<leftarrow> elementAt h d;
          case selectorElement h ar i of
            None \<Rightarrow> Some (r, d)
          | Some e \<Rightarrow>
              do { (_, r, d) \<leftarrow> createReportAlone reportID e r
                     (updElement e (\<lambda>el. el\<lparr>el_value := (el_value el)[0 := sel],
                        el_transactionState := TransactionPending\<rparr>) d);
                   Some (r, d) } }"

text \<open>
  The items that are set and pending, from the item at \<open>i\<close> on; \<open>n\<close> selectors have been
  written. The result has the number of selectors written in the end.
\<close>

primrec createItems ::
  "u8 \<Rightarrow> nat \<Rightarrow> nat list \<Rightarrow> nat \<Rightarrow> nat \<Rightarrow> out_report \<Rightarrow> hid_device \<Rightarrow> (nat \<times> out_report \<times> hid_device) option" where
  "createItems reportID h [] i n r d = Some (n, r, d)"
| "createItems reportID h (e # es) i n r d =
     do { ar \<leftarrow> elementAt h d;
          el \<leftarrow> elementAt e d;
          case el_value el of
            [] \<Rightarrow> None
          | v # vs \<Rightarrow>
              if el_transactionState el = TransactionIdle \<or> v = 0 then createItems reportID h es (i + 1) n r d
              else do {
                (r, d) \<leftarrow> writeSelector reportID h n (of_nat i + el_logicalMin ar) r d;
                let d = updElement e (\<lambda>el. el\<lparr>el_transactionState := TransactionIdle\<rparr>) d;
                if n + 1 \<ge> el_reportCount ar then Some (n + 1, r, d)
                else createItems reportID h es (i + 1) (n + 1) r d } }"

primrec clearSelectors ::
  "u8 \<Rightarrow> nat \<Rightarrow> nat \<Rightarrow> nat list \<Rightarrow> out_report \<Rightarrow> hid_device \<Rightarrow> (out_report \<times> hid_device) option" where
  "clearSelectors reportID h n [] r d = Some (r, d)"
| "clearSelectors reportID h n (i # is) r d =
     do { (r, d) \<leftarrow> writeSelector reportID h n 0 r d;
          clearSelectors reportID h n is r d }"

definition createArrayReport ::
  "u8 \<Rightarrow> nat \<Rightarrow> out_report \<Rightarrow> hid_device \<Rightarrow> (bool \<times> out_report \<times> hid_device) option" where
  "createArrayReport reportID h r d =
     do { (pending, r, d) \<leftarrow> createDuplicateReport reportID h r d;
          if pending then Some (True, r, d)
          else do {
            ar \<leftarrow> elementAt h d;
            items \<leftarrow> el_arrayItems ar;
            (n, r, d) \<leftarrow> createItems reportID h items 0 0 r d;
            (r, d) \<leftarrow> clearSelectors reportID h n [n..<el_reportCount ar] r d;
            Some (True, r, d) } }"

text \<open>\<open>createReport\<close> with the pointer to the next handler.\<close>

definition createReport ::
  "u8 \<Rightarrow> nat \<Rightarrow> out_report \<Rightarrow> hid_device \<Rightarrow> (bool \<times> nat option \<times> out_report \<times> hid_device) option" where
  "createReport reportID e r d =
     do { el \<leftarrow> elementAt e d;
          let next = el_nextReportHandler el;
          if el_reportID el \<noteq> ucast reportID then Some (False, next, r, d)
          else do {
            cleared \<leftarrow> clearReport el r;
            if el_reportSize el \<noteq> 0 \<and> or_data r = None then Some (False, None, cleared, d)
            else if IsArrayElement el \<and> \<not> IsArrayReportHandler e el
            then Some (False, el_arrayReportHandler el, cleared, d)
            else if IsArrayElement el \<and> el_transactionState el = TransactionIdle
            then map_option (\<lambda>(b, r, d). (b, next, r, d)) (createArrayReport reportID e cleared d)
            else if \<not> IsArrayElement el \<and> IsDuplicateElement el \<and> \<not> IsDuplicateReportHandler e el
            then Some (False, el_duplicateReportHandler el, cleared, d)
            else if \<not> IsArrayElement el \<and> IsDuplicateElement el \<and> el_transactionState el = TransactionIdle
            then map_option (\<lambda>(b, r, d). (b, next, r, d)) (createDuplicateReport reportID e cleared d)
            else map_option (\<lambda>(b, r, d). (b, next, r, d)) (writeElement e cleared d) } }"

partial_function (option) createChain ::
  "u8 \<Rightarrow> nat option \<Rightarrow> out_report \<Rightarrow> hid_device \<Rightarrow> (out_report \<times> hid_device) option" where
  "createChain reportID e r d =
     (case e of
        None \<Rightarrow> Some (r, d)
      | Some e \<Rightarrow> Option.bind (createReport reportID e r d) (\<lambda>(b, next, r, d). createChain reportID next r d))"

end
