(* ===== verification/HID_Arrays.thy ===== *)
theory HID_Arrays
  imports HID_Elements HID_Characters
begin

text \<open>
  Arrays, the elements of which a report names the ones that are on: the keys of a keyboard. What the items of an
  array show after a sequence of reports is the set of the selectors of the last report
  that was no roll over.
\<close>

section \<open>What an operation leaves alone\<close>

text \<open>The shape of an element is what no report changes.\<close>

definition shape :: "element \<Rightarrow> element" where
  "shape el = el\<lparr>el_value := replicate (length (el_value el)) 0, el_generation := 0, el_timestamp := 0,
     el_transactionState := TransactionIdle,
     el_oldArraySelectors := replicate (length (el_oldArraySelectors el)) 0\<rparr>"

abbreviation shapes :: "hid_device \<Rightarrow> element list" where
  "shapes d \<equiv> map shape (dv_elements d)"

definition valueOf :: "hid_device \<Rightarrow> nat \<Rightarrow> u32 list" where
  "valueOf d e = el_value (dv_elements d ! e)"

definition oldOf :: "hid_device \<Rightarrow> nat \<Rightarrow> u32 list" where
  "oldOf d e = el_oldArraySelectors (dv_elements d ! e)"

definition same_but :: "nat set \<Rightarrow> hid_device \<Rightarrow> hid_device \<Rightarrow> bool" where
  "same_but X d d' \<longleftrightarrow> shapes d' = shapes d \<and> length (dv_queues d') = length (dv_queues d) \<and>
     (\<forall>e. e \<notin> X \<longrightarrow> valueOf d' e = valueOf d e \<and> oldOf d' e = oldOf d e)"

lemma same_but_refl: "same_but X d d"
  by (simp add: same_but_def)

lemma same_but_trans: "same_but X c d \<Longrightarrow> same_but Y d e \<Longrightarrow> same_but (X \<union> Y) c e"
  by (simp add: same_but_def)

lemma same_but_mono: "same_but X d d' \<Longrightarrow> X \<subseteq> Y \<Longrightarrow> same_but Y d d'"
  by (auto simp: same_but_def)

lemma shape_fields:
  assumes "shape el' = shape el"
  shows "el_flags el' = el_flags el" "el_reportID el' = el_reportID el" "el_reportSize el' = el_reportSize el"
    "el_reportBits el' = el_reportBits el" "el_reportCount el' = el_reportCount el"
    "el_reportStartBit el' = el_reportStartBit el" "el_usagePage el' = el_usagePage el"
    "el_logicalMin el' = el_logicalMin el" "el_logicalMax el' = el_logicalMax el"
    "el_nextReportHandler el' = el_nextReportHandler el" "el_arrayReportHandler el' = el_arrayReportHandler el"
    "el_hasRollOverPtr el' = el_hasRollOverPtr el" "el_arrayItems el' = el_arrayItems el"
    "el_duplicateElements el' = el_duplicateElements el"
    "el_isInterruptReportHandler el' = el_isInterruptReportHandler el" "el_queueArray el' = el_queueArray el"
    "length (el_value el') = length (el_value el)"
    "length (el_oldArraySelectors el') = length (el_oldArraySelectors el)"
  using arg_cong [OF assms, of el_flags] arg_cong [OF assms, of el_reportID] arg_cong [OF assms, of el_reportSize]
    arg_cong [OF assms, of el_reportBits] arg_cong [OF assms, of el_reportCount]
    arg_cong [OF assms, of el_reportStartBit] arg_cong [OF assms, of el_usagePage]
    arg_cong [OF assms, of el_logicalMin] arg_cong [OF assms, of el_logicalMax]
    arg_cong [OF assms, of el_nextReportHandler] arg_cong [OF assms, of el_arrayReportHandler]
    arg_cong [OF assms, of el_hasRollOverPtr] arg_cong [OF assms, of el_arrayItems]
    arg_cong [OF assms, of el_duplicateElements] arg_cong [OF assms, of el_isInterruptReportHandler]
    arg_cong [OF assms, of el_queueArray] arg_cong [OF assms, of "\<lambda>el. length (el_value el)"]
    arg_cong [OF assms, of "\<lambda>el. length (el_oldArraySelectors el)"]
  by (simp_all add: shape_def)

text \<open>An update that keeps the shape of the element.\<close>

lemma same_but_upd:
  assumes "e < length (dv_elements d) \<Longrightarrow> shape (f (dv_elements d ! e)) = shape (dv_elements d ! e)"
  shows "same_but {e} d (updElement e f d)"
proof -
  have "shapes (updElement e f d) = shapes d"
    using assms by (cases "e < length (dv_elements d)") (simp_all add: updElement_def map_update list_update_same_conv list_update_beyond)
  then show ?thesis by (simp add: same_but_def valueOf_def oldOf_def updElement_def)
qed

lemma updElement_at [simp]:
  "e < length (dv_elements d) \<Longrightarrow> dv_elements (updElement e f d) ! e = f (dv_elements d ! e)"
  "e' \<noteq> e \<Longrightarrow> dv_elements (updElement e f d) ! e' = dv_elements d ! e'"
  "length (dv_elements (updElement e f d)) = length (dv_elements d)"
  "dv_queues (updElement e f d) = dv_queues d"
  by (simp_all add: updElement_def)

lemma same_but_length: "same_but X d d' \<Longrightarrow> length (dv_elements d') = length (dv_elements d)"
  by (auto simp: same_but_def dest: map_eq_imp_length_eq)

lemma same_but_shape:
  assumes "same_but X d d'"
  shows "shape (dv_elements d' ! e) = shape (dv_elements d ! e) \<or> length (dv_elements d) \<le> e"
proof (cases "e < length (dv_elements d)")
  case True
  then show ?thesis
    using assms same_but_length [OF assms] nth_map [of e "dv_elements d" shape] nth_map [of e "dv_elements d'" shape]
    by (simp add: same_but_def)
qed simp

section \<open>Queues\<close>

definition queues_ok :: "hid_device \<Rightarrow> bool" where
  "queues_ok d \<longleftrightarrow>
     list_all (\<lambda>el. case el_queueArray el of None \<Rightarrow> True | Some qs \<Rightarrow> list_all (\<lambda>i. i < length (dv_queues d)) qs) (dv_elements d)"

lemma queues_ok_same:
  assumes "same_but X d d'"
  shows "queues_ok d' = queues_ok d"
proof -
  have "map el_queueArray (map shape (dv_elements d)) = map el_queueArray (dv_elements d)" for d
    by (simp add: shape_def)
  then have m: "map el_queueArray (dv_elements d') = map el_queueArray (dv_elements d)"
    using assms by (metis same_but_def)
  have len: "length (dv_queues d') = length (dv_queues d)" using assms by (simp add: same_but_def)
  have q: "queues_ok d \<longleftrightarrow> list_all (\<lambda>q. case q of None \<Rightarrow> True | Some qs \<Rightarrow> list_all (\<lambda>i. i < length (dv_queues d)) qs)
     (map el_queueArray (dv_elements d))" for d
    by (simp add: queues_ok_def list.pred_map comp_def)
  show ?thesis unfolding q [of d'] q [of d] m len ..
qed

lemma enqueueAll_same:
  "e < length (dv_elements d) \<Longrightarrow> list_all (\<lambda>i. i < length (dv_queues d)) qs \<Longrightarrow>
    ensures (enqueueAll e always qs d)
      (\<lambda>d'. dv_elements d' = dv_elements d \<and> length (dv_queues d') = length (dv_queues d))"
proof (induction qs arbitrary: d)
  case (Cons i qs)
  have "ensures (enqueueAt e always i d)
    (\<lambda>d'. dv_elements d' = dv_elements d \<and> length (dv_queues d') = length (dv_queues d))"
    using Cons.prems by (simp add: enqueueAt_def elementAt_def Let_def)
  then show ?case
    unfolding enqueueAll.simps ensures_bind
    by (rule ensures_mono) (use Cons in \<open>auto intro!: ensures_mono [OF Cons.IH]\<close>)
qed simp

lemma enqueueElement_same:
  assumes "e < length (dv_elements d)" and "queues_ok d"
  shows "ensures (enqueueElement e always d) (\<lambda>d'. dv_elements d' = dv_elements d \<and> same_but {} d d')"
proof -
  have "list_all (\<lambda>i. i < length (dv_queues d)) qs" if "el_queueArray (dv_elements d ! e) = Some qs" for qs
    using assms that by (auto simp: queues_ok_def list_all_length split: option.splits)
  then show ?thesis
    using assms(1) enqueueAll_same [of e d _ always]
    by (auto simp: enqueueElement_def elementAt_def same_but_def valueOf_def oldOf_def split: option.split
        intro!: ensures_mono [OF enqueueAll_same])
qed

section \<open>The shape of an array\<close>

text \<open>
  An array with the handler \<open>h\<close>, the duplicates \<open>ds\<close> that hold its selectors, and the items
  \<open>is\<close>. The selectors are fields of \<open>b\<close> bits that follow one another from bit \<open>s\<close> on.
\<close>

record array =
  ar_handler :: nat
  ar_duplicates :: "nat list"
  ar_items :: "nat list"
  ar_bits :: nat
  ar_start :: nat
  ar_reportID :: u8
  ar_sgn :: bool

definition selector_ok :: "array \<Rightarrow> hid_device \<Rightarrow> nat \<Rightarrow> bool" where
  "selector_ok A d i \<longleftrightarrow>
     (let el = dv_elements d ! (ar_duplicates A ! i)
      in el_reportID el = ucast (ar_reportID A) \<and> el_reportBits el = ar_bits A \<and> el_reportCount el = 1 \<and>
         el_reportStartBit el = ar_start A + i * ar_bits A \<and> \<not> IsArrayReportHandler (ar_duplicates A ! i) el \<and>
         sgnExtended el = ar_sgn A \<and> \<not> el_hasRollOverPtr el \<and> length (el_value el) = 1)"

definition handler_ok :: "array \<Rightarrow> element \<Rightarrow> bool" where
  "handler_ok A el \<longleftrightarrow>
     IsArrayElement el \<and> IsArrayReportHandler (ar_handler A) el \<and> el_reportID el = ucast (ar_reportID A) \<and>
     el_reportBits el = ar_bits A \<and> el_reportCount el = length (ar_duplicates A) \<and>
     el_reportStartBit el = ar_start A \<and> \<not> el_hasRollOverPtr el \<and> \<not> el_isInterruptReportHandler el \<and>
     el_duplicateElements el = Some (ar_duplicates A) \<and> el_arrayItems el = Some (ar_items A) \<and>
     length (el_oldArraySelectors el) = length (ar_duplicates A) \<and>
     length (ar_duplicates A) * ar_bits A \<le> 32 * length (el_value el) \<and> el_value el \<noteq> []"

definition array_ok :: "array \<Rightarrow> hid_device \<Rightarrow> bool" where
  "array_ok A d \<longleftrightarrow>
     distinct (ar_handler A # ar_duplicates A @ ar_items A) \<and>
     list_all (\<lambda>e. e < length (dv_elements d)) (ar_handler A # ar_duplicates A @ ar_items A) \<and>
     handler_ok A (dv_elements d ! ar_handler A) \<and>
     list_all (selector_ok A d) [0..<length (ar_duplicates A)] \<and>
     list_all (\<lambda>e. length (el_value (dv_elements d ! e)) = 1) (ar_items A) \<and>
     0 < ar_bits A \<and> ar_bits A \<le> 32 \<and> length (ar_items A) < 2 ^ 32 \<and>
     ar_start A + length (ar_duplicates A) * ar_bits A < 2 ^ 32 \<and> queues_ok d"

lemma handler_ok_shape:
  assumes "shape el' = shape el"
  shows "handler_ok A el' = handler_ok A el"
proof -
  note f = shape_fields [OF assms]
  have "el_value el' = [] \<longleftrightarrow> el_value el = []" using f(17) by (metis length_0_conv)
  then show ?thesis unfolding handler_ok_def IsArrayElement_def IsArrayReportHandler_def f by simp
qed

lemma selector_ok_shape:
  assumes "shape (dv_elements d' ! (ar_duplicates A ! i)) = shape (dv_elements d ! (ar_duplicates A ! i))"
  shows "selector_ok A d' i = selector_ok A d i"
  unfolding selector_ok_def Let_def IsArrayReportHandler_def sgnExtended_def shape_fields [OF assms] ..

lemma array_ok_elements:
  assumes "array_ok A d"
  shows "ar_handler A < length (dv_elements d)"
    "i < length (ar_duplicates A) \<Longrightarrow> ar_duplicates A ! i < length (dv_elements d)"
    "i < length (ar_items A) \<Longrightarrow> ar_items A ! i < length (dv_elements d)"
    "e \<in> set (ar_items A) \<Longrightarrow> e < length (dv_elements d)"
    "handler_ok A (dv_elements d ! ar_handler A)" "i < length (ar_duplicates A) \<Longrightarrow> selector_ok A d i"
    "e \<in> set (ar_items A) \<Longrightarrow> length (el_value (dv_elements d ! e)) = 1" "queues_ok d"
  using assms by (auto simp: array_ok_def list_all_iff)

lemma array_ok_same:
  assumes same: "same_but X d d'" and ok: "array_ok A d"
  shows "array_ok A d'"
proof -
  have len: "length (dv_elements d') = length (dv_elements d)" by (rule same_but_length [OF same])
  have sh: "shape (dv_elements d' ! e) = shape (dv_elements d ! e)" if "e < length (dv_elements d)" for e
    using same_but_shape [OF same, of e] that by simp
  have "handler_ok A (dv_elements d' ! ar_handler A)"
    using handler_ok_shape [OF sh] array_ok_elements(1,5) [OF ok] by simp
  moreover have "selector_ok A d' i" if "i < length (ar_duplicates A)" for i
    using selector_ok_shape [OF sh] array_ok_elements(2,6) [OF ok that] by simp
  moreover have "length (el_value (dv_elements d' ! e)) = 1" if "e \<in> set (ar_items A)" for e
    using shape_fields(17) [OF sh] array_ok_elements(4,7) [OF ok that] by simp
  ultimately show ?thesis
    using ok len queues_ok_same [OF same] by (auto simp: array_ok_def list_all_iff)
qed

text \<open>The selector of an item, the remembered selectors, and those that the duplicates hold.\<close>

definition itemSelector :: "array \<Rightarrow> hid_device \<Rightarrow> nat \<Rightarrow> u32" where
  "itemSelector A d i = of_nat i + el_logicalMin (dv_elements d ! ar_handler A)"

abbreviation oldSelectors :: "array \<Rightarrow> hid_device \<Rightarrow> u32 list" where
  "oldSelectors A d \<equiv> oldOf d (ar_handler A)"

definition heldSelectors :: "array \<Rightarrow> hid_device \<Rightarrow> u32 list" where
  "heldSelectors A d = map (\<lambda>e. hd (valueOf d e)) (ar_duplicates A)"

definition itemValue :: "array \<Rightarrow> hid_device \<Rightarrow> nat \<Rightarrow> u32" where
  "itemValue A d i = hd (valueOf d (ar_items A ! i))"

lemma same_minimum:
  assumes "same_but X d d'" and "array_ok A d"
  shows "el_logicalMin (dv_elements d' ! ar_handler A) = el_logicalMin (dv_elements d ! ar_handler A)"
proof -
  have "shape (dv_elements d' ! ar_handler A) = shape (dv_elements d ! ar_handler A)"
    using same_but_shape [OF assms(1), of "ar_handler A"] array_ok_elements(1) [OF assms(2)] by simp
  then show ?thesis by (rule shape_fields(8))
qed

lemma itemSelector_same:
  "same_but X d d' \<Longrightarrow> array_ok A d \<Longrightarrow> itemSelector A d' i = itemSelector A d i"
  using same_minimum [of X d d' A] by (simp add: itemSelector_def)

lemma heldSelectors_same:
  assumes "same_but X d d'" and "set (ar_duplicates A) \<inter> X = {}"
  shows "heldSelectors A d' = heldSelectors A d"
  using assms by (auto simp: heldSelectors_def same_but_def)

lemma itemSelector_index:
  assumes "array_ok A d" and "i < length (ar_items A)"
  shows "unat (sel - el_logicalMin (dv_elements d ! ar_handler A)) = i \<longleftrightarrow> itemSelector A d i = sel"
proof -
  have "i < 2 ^ 32" using assms by (simp add: array_ok_def)
  then have "unat (of_nat i :: u32) = i" by (simp add: unat_of_nat)
  then have "unat (sel - m) = i \<longleftrightarrow> sel - m = of_nat i" for m :: u32 by (metis word_unat_eq_iff)
  then show ?thesis by (auto simp: itemSelector_def algebra_simps)
qed

text \<open>Setting an item.\<close>

lemma setItem:
  assumes ok: "array_ok A d"
  defines "h \<equiv> ar_handler A"
  shows "ensures (setArrayElementValue h (sel - el_logicalMin (dv_elements d ! h)) v d)
    (\<lambda>d'. same_but (set (ar_items A)) d d' \<and>
      (\<forall>e. oldOf d' e = oldOf d e) \<and>
      (\<forall>i < length (ar_items A). itemValue A d' i = (if itemSelector A d i = sel then v else itemValue A d i)))"
proof -
  let ?ar = "dv_elements d ! h" and ?items = "ar_items A"
  let ?n = "unat (sel - el_logicalMin ?ar)"
  have h: "elementAt h d = Some ?ar" "el_arrayItems ?ar = Some ?items" "queues_ok d"
    using ok by (simp_all add: array_ok_def elementAt_def handler_ok_def h_def)
  show ?thesis
  proof (cases "?n < length ?items")
    case False
    then have "itemSelector A d i \<noteq> sel" if "i < length ?items" for i
      using itemSelector_index [OF ok that, of sel] that by (auto simp: h_def)
    then show ?thesis using False h by (simp add: setArrayElementValue_def objectAt_def same_but_refl)
  next
    case True
    let ?e = "?items ! ?n"
    let ?f = "\<lambda>el. el\<lparr>el_generation := el_generation el + 1 + 1, el_value := (el_value el)[0 := v],
      el_timestamp := el_timestamp ?ar\<rparr>"
    let ?u = "updElement ?e ?f d"
    have e: "?e < length (dv_elements d)" "length (el_value (dv_elements d ! ?e)) = 1" "?e \<in> set ?items"
      using ok True by (simp_all add: array_ok_def list_all_iff)
    have up: "same_but {?e} d ?u" by (rule same_but_upd) (simp add: shape_def)
    have set: "setArrayElementValue h (sel - el_logicalMin ?ar) v d = enqueueElement ?e True ?u"
      using True h e by (auto simp: setArrayElementValue_def objectAt_def elementAt_def)
    have "ensures (enqueueElement ?e True ?u) (\<lambda>d'. dv_elements d' = dv_elements ?u \<and> same_but {} ?u d')"
      by (rule enqueueElement_same) (use e h(3) queues_ok_same [OF up] in simp_all)
    then show ?thesis
      unfolding set
    proof (rule ensures_mono)
      fix d' assume d': "dv_elements d' = dv_elements ?u \<and> same_but {} ?u d'"
      have "itemValue A d' i = (if itemSelector A d i = sel then v else itemValue A d i)"
        if i: "i < length ?items" for i
      proof (cases "i = ?n")
        case True
        then show ?thesis
          using d' e itemSelector_index [OF ok i, of sel]
          by (cases "el_value (dv_elements d ! ?e)") (auto simp: itemValue_def valueOf_def h_def)
      next
        case False
        then have "?items ! i \<noteq> ?e" using ok i \<open>?n < length ?items\<close> by (simp add: array_ok_def nth_eq_iff_index_eq)
        then show ?thesis
          using d' False itemSelector_index [OF ok i, of sel] by (auto simp: itemValue_def valueOf_def h_def)
      qed
      moreover have "oldOf d' e = oldOf d e" for e
        using d' e(1) by (cases "e = ?e") (simp_all add: oldOf_def)
      moreover have "same_but (set ?items) d d'"
        using same_but_mono [OF same_but_trans [OF up conjunct2 [OF d']], of "set ?items"] e(3) by simp
      ultimately show "same_but (set ?items) d d' \<and> (\<forall>e. oldOf d' e = oldOf d e) \<and>
        (\<forall>i < length ?items. itemValue A d' i = (if itemSelector A d i = sel then v else itemValue A d i))"
        by blast
    qed
  qed
qed

section \<open>Updating the items\<close>

lemma selectorAt_held:
  assumes ok: "array_ok A d" and i: "i < length (ar_duplicates A)"
  shows "selectorAt (ar_handler A) i d = Some (Some (heldSelectors A d ! i))"
proof -
  let ?e = "ar_duplicates A ! i"
  have "el_duplicateElements (dv_elements d ! ar_handler A) = Some (ar_duplicates A)"
    using array_ok_elements(5) [OF ok] by (simp add: handler_ok_def)
  moreover have "length (el_value (dv_elements d ! ?e)) = 1"
    using array_ok_elements(6) [OF ok i] by (simp add: selector_ok_def Let_def)
  then obtain v where "el_value (dv_elements d ! ?e) = [v]" by (auto simp: length_Suc_conv)
  ultimately show ?thesis
    using array_ok_elements(1) [OF ok] array_ok_elements(2) [OF ok i] i
    by (simp add: selectorAt_def selectorElement_def objectAt_def elementAt_def heldSelectors_def valueOf_def)
qed

lemma isSelected_held:
  assumes "array_ok A d"
  shows "list_all (\<lambda>i. i < length (ar_duplicates A)) is \<Longrightarrow>
    isSelected (ar_handler A) sel is d = Some (sel \<in> set (map ((!) (heldSelectors A d)) is))"
  by (induction "is") (auto simp: selectorAt_held [OF assms])

lemma held_all:
  assumes "array_ok A d"
  shows "isSelected (ar_handler A) sel [0..<length (ar_duplicates A)] d = Some (sel \<in> set (heldSelectors A d))"
proof -
  have "length (heldSelectors A d) = length (ar_duplicates A)" by (simp add: heldSelectors_def)
  then have "map ((!) (heldSelectors A d)) [0..<length (ar_duplicates A)] = heldSelectors A d" by (metis map_nth)
  then show ?thesis using isSelected_held [OF assms, of "[0..<length (ar_duplicates A)]" sel] by (simp add: list_all_iff)
qed

text \<open>The items have changed to \<open>f\<close>, and nothing else.\<close>

definition items_set :: "array \<Rightarrow> (nat \<Rightarrow> u32) \<Rightarrow> hid_device \<Rightarrow> hid_device \<Rightarrow> bool" where
  "items_set A f d d' \<longleftrightarrow> same_but (set (ar_items A)) d d' \<and> (\<forall>e. oldOf d' e = oldOf d e) \<and>
     (\<forall>i < length (ar_items A). itemValue A d' i = f i)"

lemma items_set_facts:
  assumes "items_set A f d d'" and ok: "array_ok A d"
  shows "array_ok A d'" "heldSelectors A d' = heldSelectors A d" "oldOf d' e = oldOf d e"
    "itemSelector A d' i = itemSelector A d i"
    "el_logicalMin (dv_elements d' ! ar_handler A) = el_logicalMin (dv_elements d ! ar_handler A)"
proof -
  have same: "same_but (set (ar_items A)) d d'" using assms(1) by (simp add: items_set_def)
  show "array_ok A d'" by (rule array_ok_same [OF same ok])
  show "heldSelectors A d' = heldSelectors A d"
    by (rule heldSelectors_same [OF same]) (use ok in \<open>simp add: array_ok_def\<close>)
  show "oldOf d' e = oldOf d e" using assms(1) by (simp add: items_set_def)
  show "itemSelector A d' i = itemSelector A d i" by (rule itemSelector_same [OF same ok])
  show "el_logicalMin (dv_elements d' ! ar_handler A) = el_logicalMin (dv_elements d ! ar_handler A)"
    by (rule same_minimum [OF same ok])
qed

lemma items_set_trans:
  assumes "items_set A f d d'" and "items_set A g d' d''"
    and "\<And>i. i < length (ar_items A) \<Longrightarrow> g i = h i"
  shows "items_set A h d d''"
  using assms same_but_trans [of "set (ar_items A)" d d' "set (ar_items A)" d''] by (simp add: items_set_def)

lemma items_set_refl: "(\<And>i. i < length (ar_items A) \<Longrightarrow> f i = itemValue A d i) \<Longrightarrow> items_set A f d d"
  by (simp add: items_set_def same_but_refl)

lemma setItem_set:
  assumes "array_ok A d"
  shows "ensures (setArrayElementValue (ar_handler A) (sel - el_logicalMin (dv_elements d ! ar_handler A)) v d)
    (items_set A (\<lambda>i. if itemSelector A d i = sel then v else itemValue A d i) d)"
  by (rule ensures_mono [OF setItem [OF assms]]) (simp add: items_set_def)

lemma clearGone_items:
  assumes "array_ok A d" and "list_all (\<lambda>i. i < length (ar_duplicates A)) is"
  defines "gone \<equiv> \<lambda>d is. set (map ((!) (oldSelectors A d)) is) - set (heldSelectors A d)"
  shows "ensures (clearGone (ar_handler A) is d)
    (items_set A (\<lambda>i. if itemSelector A d i \<in> gone d is then 0 else itemValue A d i) d)"
  using assms(1,2)
proof (induction "is" arbitrary: d)
  case Nil
  then show ?case by (simp add: items_set_refl gone_def)
next
  case (Cons j js)
  let ?ar = "dv_elements d ! ar_handler A" and ?sel = "oldSelectors A d ! j"
  have ar: "elementAt (ar_handler A) d = Some ?ar" "el_reportCount ?ar = length (ar_duplicates A)"
    "j < length (el_oldArraySelectors ?ar)" "el_oldArraySelectors ?ar ! j = ?sel"
    using array_ok_elements(1,5) [OF Cons.prems(1)] Cons.prems(2)
    by (simp_all add: elementAt_def handler_ok_def oldOf_def)
  let ?f = "\<lambda>i. if itemSelector A d i = ?sel \<and> ?sel \<notin> set (heldSelectors A d) then 0 else itemValue A d i"
  have step: "ensures (if ?sel \<in> set (heldSelectors A d) then Some d
      else setArrayElementValue (ar_handler A) (?sel - el_logicalMin ?ar) 0 d) (items_set A ?f d)"
    using setItem_set [OF Cons.prems(1), of ?sel 0] by (simp add: items_set_refl)
  have "ensures (clearGone (ar_handler A) (j # js) d)
      (items_set A (\<lambda>i. if itemSelector A d i \<in> gone d (j # js) then 0 else itemValue A d i) d)
    \<longleftrightarrow> ensures (if ?sel \<in> set (heldSelectors A d) then Some d
        else setArrayElementValue (ar_handler A) (?sel - el_logicalMin ?ar) 0 d)
      (\<lambda>d'. ensures (clearGone (ar_handler A) js d')
        (items_set A (\<lambda>i. if itemSelector A d i \<in> gone d (j # js) then 0 else itemValue A d i) d))"
    using ar held_all [OF Cons.prems(1), of ?sel] by (simp add: ensures_bind Let_def)
  also have "\<dots>"
  proof (rule ensures_mono [OF step])
    fix d' assume d': "items_set A ?f d d'"
    note f = items_set_facts [OF d' Cons.prems(1)]
    have "ensures (clearGone (ar_handler A) js d')
      (items_set A (\<lambda>i. if itemSelector A d' i \<in> gone d' js then 0 else itemValue A d' i) d')"
      by (rule Cons.IH [OF f(1)]) (use Cons.prems(2) in simp)
    then show "ensures (clearGone (ar_handler A) js d')
        (items_set A (\<lambda>i. if itemSelector A d i \<in> gone d (j # js) then 0 else itemValue A d i) d)"
      by (rule ensures_mono, elim items_set_trans [OF d'])
        (use d' in \<open>auto simp: gone_def f(2-4) items_set_def\<close>)
  qed
  finally show ?case .
qed

lemma setNew_items:
  assumes "array_ok A d" and "list_all (\<lambda>i. i < length (ar_duplicates A)) is"
  defines "fresh \<equiv> \<lambda>d is. set (map ((!) (heldSelectors A d)) is) - set (oldSelectors A d)"
  shows "ensures (setNew (ar_handler A) is d)
    (items_set A (\<lambda>i. if itemSelector A d i \<in> fresh d is then 1 else itemValue A d i) d)"
  using assms(1,2)
proof (induction "is" arbitrary: d)
  case Nil
  then show ?case by (simp add: items_set_refl fresh_def)
next
  case (Cons j js)
  let ?ar = "dv_elements d ! ar_handler A" and ?sel = "heldSelectors A d ! j"
  have ar: "elementAt (ar_handler A) d = Some ?ar" "el_reportCount ?ar = length (ar_duplicates A)"
    "length (el_oldArraySelectors ?ar) = length (ar_duplicates A)" "el_oldArraySelectors ?ar = oldSelectors A d"
    using array_ok_elements(1,5) [OF Cons.prems(1)] by (simp_all add: elementAt_def handler_ok_def oldOf_def)
  have j: "selectorAt (ar_handler A) j d = Some (Some ?sel)"
    using selectorAt_held [OF Cons.prems(1)] Cons.prems(2) by simp
  let ?f = "\<lambda>i. if itemSelector A d i = ?sel \<and> ?sel \<notin> set (oldSelectors A d) then 1 else itemValue A d i"
  have step: "ensures (if ?sel \<in> set (oldSelectors A d) then Some d
      else setArrayElementValue (ar_handler A) (?sel - el_logicalMin ?ar) 1 d) (items_set A ?f d)"
    using setItem_set [OF Cons.prems(1), of ?sel 1] by (simp add: items_set_refl)
  have "ensures (setNew (ar_handler A) (j # js) d)
      (items_set A (\<lambda>i. if itemSelector A d i \<in> fresh d (j # js) then 1 else itemValue A d i) d)
    \<longleftrightarrow> ensures (if ?sel \<in> set (oldSelectors A d) then Some d
        else setArrayElementValue (ar_handler A) (?sel - el_logicalMin ?ar) 1 d)
      (\<lambda>d'. ensures (setNew (ar_handler A) js d')
        (items_set A (\<lambda>i. if itemSelector A d i \<in> fresh d (j # js) then 1 else itemValue A d i) d))"
    using ar j by (simp add: ensures_bind)
  also have "\<dots>"
  proof (rule ensures_mono [OF step])
    fix d' assume d': "items_set A ?f d d'"
    note f = items_set_facts [OF d' Cons.prems(1)]
    have "ensures (setNew (ar_handler A) js d')
      (items_set A (\<lambda>i. if itemSelector A d' i \<in> fresh d' js then 1 else itemValue A d' i) d')"
      by (rule Cons.IH [OF f(1)]) (use Cons.prems(2) in simp)
    then show "ensures (setNew (ar_handler A) js d')
        (items_set A (\<lambda>i. if itemSelector A d i \<in> fresh d (j # js) then 1 else itemValue A d i) d)"
      by (rule ensures_mono, elim items_set_trans [OF d'])
        (use d' in \<open>auto simp: fresh_def f(2-4) items_set_def\<close>)
  qed
  finally show ?case .
qed

lemma saveSelectors_held:
  assumes "array_ok A d" and "list_all (\<lambda>i. i < length (ar_duplicates A)) is"
  shows "ensures (saveSelectors (ar_handler A) is d)
    (\<lambda>d'. same_but {ar_handler A} d d' \<and> (\<forall>e. valueOf d' e = valueOf d e) \<and>
      (\<forall>i < length (ar_duplicates A). oldSelectors A d' ! i =
         (if i \<in> set is then heldSelectors A d ! i else oldSelectors A d ! i)))"
  using assms
proof (induction "is" arbitrary: d)
  case Nil
  then show ?case by (simp add: same_but_refl)
next
  case (Cons j js)
  let ?h = "ar_handler A" and ?sel = "heldSelectors A d ! j"
  let ?u = "updElement ?h (\<lambda>ar. ar\<lparr>el_oldArraySelectors := (el_oldArraySelectors ar)[j := ?sel]\<rparr>) d"
  have h: "?h < length (dv_elements d)" by (rule array_ok_elements(1) [OF Cons.prems(1)])
  have j: "j < length (ar_duplicates A)" using Cons.prems(2) by simp
  have len: "length (el_oldArraySelectors (dv_elements d ! ?h)) = length (ar_duplicates A)"
    using array_ok_elements(5) [OF Cons.prems(1)] by (simp add: handler_ok_def)
  have up: "same_but {?h} d ?u" by (rule same_but_upd) (simp add: shape_def)
  have ok: "array_ok A ?u" by (rule array_ok_same [OF up Cons.prems(1)])
  have val: "valueOf ?u e = valueOf d e" for e using h by (cases "e = ?h") (simp_all add: valueOf_def)
  then have held: "heldSelectors A ?u = heldSelectors A d" by (simp add: heldSelectors_def)
  have old: "oldSelectors A ?u = (oldSelectors A d)[j := ?sel]" using h by (simp add: oldOf_def)
  have step: "saveSelectors ?h (j # js) d = saveSelectors ?h js ?u"
    using h len j selectorAt_held [OF Cons.prems(1) j] by (simp add: elementAt_def)
  have "ensures (saveSelectors ?h js ?u)
    (\<lambda>d'. same_but {?h} ?u d' \<and> (\<forall>e. valueOf d' e = valueOf ?u e) \<and>
      (\<forall>i < length (ar_duplicates A). oldSelectors A d' ! i =
         (if i \<in> set js then heldSelectors A ?u ! i else oldSelectors A ?u ! i)))"
    by (rule Cons.IH [OF ok]) (use Cons.prems(2) in simp)
  then show ?case
    unfolding step
  proof (rule ensures_mono)
    fix d' assume d': "same_but {?h} ?u d' \<and> (\<forall>e. valueOf d' e = valueOf ?u e) \<and>
      (\<forall>i < length (ar_duplicates A). oldSelectors A d' ! i =
         (if i \<in> set js then heldSelectors A ?u ! i else oldSelectors A ?u ! i))"
    have "same_but {?h} d d'" using same_but_trans [OF up, of "{?h}" d'] d' by simp
    moreover have "length (oldSelectors A d) = length (ar_duplicates A)" using len by (simp add: oldOf_def)
    ultimately show "same_but {?h} d d' \<and> (\<forall>e. valueOf d' e = valueOf d e) \<and>
      (\<forall>i < length (ar_duplicates A). oldSelectors A d' ! i =
         (if i \<in> set (j # js) then heldSelectors A d ! i else oldSelectors A d ! i))"
      using d' by (auto simp: val held old nth_list_update)
  qed
qed

text \<open>
  What the items show: an item is on exactly if its selector is remembered. The item of
  roll over and the selector zero, which names no key, are not considered.
\<close>

definition counts :: "bool \<Rightarrow> u32 \<Rightarrow> bool" where
  "counts keyboard sel \<longleftrightarrow> sel \<noteq> 0 \<and> \<not> (keyboard \<and> sel = kHIDUsage_KeyboardErrorRollOver)"

definition items_show :: "array \<Rightarrow> bool \<Rightarrow> u32 set \<Rightarrow> hid_device \<Rightarrow> bool" where
  "items_show A keyboard H d \<longleftrightarrow>
     (\<forall>i < length (ar_items A). counts keyboard (itemSelector A d i) \<longrightarrow>
        itemValue A d i = (if itemSelector A d i \<in> H then 1 else 0))"

lemma length_selectors:
  assumes "array_ok A d"
  shows "length (oldSelectors A d) = length (ar_duplicates A)" "length (heldSelectors A d) = length (ar_duplicates A)"
  using array_ok_elements(5) [OF assms] by (simp_all add: handler_ok_def oldOf_def heldSelectors_def)

lemma set_all: "length xs = n \<Longrightarrow> set (map ((!) xs) [0..<n]) = set xs"
  by (metis map_nth)

lemma updateItems_show:
  assumes ok: "array_ok A d" and vis: "items_show A keyboard (set (oldSelectors A d)) d"
  shows "ensures (updateItems (ar_handler A) d)
    (\<lambda>d'. same_but (insert (ar_handler A) (set (ar_items A))) d d' \<and>
      valueOf d' (ar_handler A) = valueOf d (ar_handler A) \<and>
      heldSelectors A d' = heldSelectors A d \<and> oldSelectors A d' = heldSelectors A d \<and>
      items_show A keyboard (set (heldSelectors A d)) d')"
proof -
  let ?h = "ar_handler A" and ?n = "length (ar_duplicates A)"
  let ?S = "set (heldSelectors A d)" and ?O = "set (oldSelectors A d)"
  have all: "list_all (\<lambda>i. i < ?n) [0..<?n]" by (simp add: list_all_iff)
  have ar: "elementAt ?h d = Some (dv_elements d ! ?h)" "el_reportCount (dv_elements d ! ?h) = ?n"
    using array_ok_elements(1,5) [OF ok] by (simp_all add: elementAt_def handler_ok_def)
  let ?f = "\<lambda>i. if itemSelector A d i \<in> ?O - ?S then 0 else itemValue A d i"
  have clear: "ensures (clearGone ?h [0..<?n] d) (items_set A ?f d)"
    using clearGone_items [OF ok all] unfolding set_all [OF length_selectors(1) [OF ok]] by simp
  have rest: "ensures (Option.bind (setNew ?h [0..<?n] d1) (saveSelectors ?h [0..<?n]))
    (\<lambda>d'. same_but (insert ?h (set (ar_items A))) d d' \<and> valueOf d' ?h = valueOf d ?h \<and>
      heldSelectors A d' = heldSelectors A d \<and> oldSelectors A d' = heldSelectors A d \<and>
      items_show A keyboard ?S d')" if d1: "items_set A ?f d d1" for d1
  proof -
    note f1 = items_set_facts [OF d1 ok]
    let ?g = "\<lambda>i. if itemSelector A d i \<in> ?S - ?O then 1 else ?f i"
    have "ensures (setNew ?h [0..<?n] d1)
      (items_set A (\<lambda>i. if itemSelector A d i \<in> ?S - ?O then 1 else itemValue A d1 i) d1)"
      using setNew_items [OF f1(1) all] unfolding f1(2-4) set_all [OF length_selectors(2) [OF ok]] by simp
    then have new: "ensures (setNew ?h [0..<?n] d1) (items_set A ?g d)"
      by (rule ensures_mono, elim items_set_trans [OF d1]) (use d1 in \<open>simp add: items_set_def\<close>)
    show ?thesis
      unfolding ensures_bind
    proof (rule ensures_mono [OF new])
      fix d2 assume d2: "items_set A ?g d d2"
      note f2 = items_set_facts [OF d2 ok]
      show "ensures (saveSelectors ?h [0..<?n] d2)
        (\<lambda>d'. same_but (insert ?h (set (ar_items A))) d d' \<and> valueOf d' ?h = valueOf d ?h \<and>
          heldSelectors A d' = heldSelectors A d \<and> oldSelectors A d' = heldSelectors A d \<and>
          items_show A keyboard ?S d')"
      proof (rule ensures_mono [OF saveSelectors_held [OF f2(1) all]])
        fix d' assume d': "same_but {?h} d2 d' \<and> (\<forall>e. valueOf d' e = valueOf d2 e) \<and>
          (\<forall>i < ?n. oldSelectors A d' ! i =
             (if i \<in> set [0..<?n] then heldSelectors A d2 ! i else oldSelectors A d2 ! i))"
        have same: "same_but (insert ?h (set (ar_items A))) d d'"
          using same_but_trans [of "set (ar_items A)" d d2 "{?h}" d'] d2 d' by (simp add: items_set_def)
        have "?h \<notin> set (ar_items A)" using ok by (simp add: array_ok_def)
        then have val: "valueOf d' ?h = valueOf d ?h" using d' d2 by (simp add: items_set_def same_but_def)
        have held: "heldSelectors A d' = heldSelectors A d"
          using d' f2(2) by (simp add: heldSelectors_def)
        have old: "oldSelectors A d' = heldSelectors A d"
          using d' f2(2) length_selectors(1) [OF array_ok_same [OF same ok]] length_selectors(2) [OF ok]
          by (intro nth_equalityI) simp_all
        have "itemValue A d' i = ?g i" if "i < length (ar_items A)" for i
          using d' d2 that by (simp add: items_set_def itemValue_def)
        then have "items_show A keyboard ?S d'"
          using vis itemSelector_same [OF same ok] by (auto simp: items_show_def)
        then show "same_but (insert ?h (set (ar_items A))) d d' \<and> valueOf d' ?h = valueOf d ?h \<and>
          heldSelectors A d' = heldSelectors A d \<and> oldSelectors A d' = heldSelectors A d \<and>
          items_show A keyboard ?S d'"
          using same val held old by blast
      qed
    qed
  qed
  have "updateItems ?h d = Option.bind (clearGone ?h [0..<?n] d)
      (\<lambda>d. Option.bind (setNew ?h [0..<?n] d) (saveSelectors ?h [0..<?n]))"
    using ar by (simp add: updateItems_def Let_def)
  then show ?thesis
    by (simp only: ensures_bind [of "clearGone _ _ _"]) (rule ensures_mono [OF clear rest])
qed

section \<open>Reading the selectors\<close>

definition reportSelectors :: "array \<Rightarrow> u8 list \<Rightarrow> u32 list" where
  "reportSelectors A r =
     map (\<lambda>i. fieldWord r (ar_start A + i * ar_bits A) (ar_bits A) (ar_sgn A) 0) [0..<length (ar_duplicates A)]"

lemma map_changed:
  assumes "W \<le> length xs"
  shows "map (\<lambda>j. if j < W then V j else xs ! j) [0..<length xs] = xs \<longleftrightarrow> (\<forall>j<W. V j = xs ! j)"
proof -
  have "map f [0..<length xs] = xs \<longleftrightarrow> map f [0..<length xs] = map ((!) xs) [0..<length xs]" for f
    by (simp only: map_nth)
  then have eq: "map f [0..<length xs] = xs \<longleftrightarrow> (\<forall>j<length xs. f j = xs ! j)" for f
    by (simp only: map_eq_conv) (simp add: Ball_def)
  show ?thesis
    unfolding eq
  proof (intro iffI allI impI)
    fix j assume all: "\<forall>j<length xs. (if j < W then V j else xs ! j) = xs ! j" and j: "j < W"
    then have "j < length xs" using assms by simp
    then show "V j = xs ! j" using all j by auto
  qed simp
qed

text \<open>An update of what is neither value nor selectors, and how a report ends for an element.\<close>

lemma same_but_nothing:
  assumes "e < length (dv_elements d)" and "shape (f (dv_elements d ! e)) = shape (dv_elements d ! e)"
    and "el_value (f (dv_elements d ! e)) = el_value (dv_elements d ! e)"
    and "el_oldArraySelectors (f (dv_elements d ! e)) = el_oldArraySelectors (dv_elements d ! e)"
  shows "same_but {} d (updElement e f d)"
proof -
  have "valueOf (updElement e f d) e' = valueOf d e' \<and> oldOf (updElement e f d) e' = oldOf d e'" for e'
    using assms(1,3,4) by (cases "e' = e") (simp_all add: valueOf_def oldOf_def)
  then show ?thesis using same_but_upd [of e d f] assms(2) by (simp add: same_but_def)
qed

lemma stamp_nothing: "e < length (dv_elements d) \<Longrightarrow> same_but {} d (stampElement e el changed previous timestamp d)"
  using same_but_nothing same_but_refl by (simp add: stampElement_def shape_def)

lemma report_ends:
  assumes "e < length (dv_elements d)" and "queues_ok d"
  shows "ensures (Option.bind (enqueueElement e always d) (\<lambda>d. Some (changed, next,
      updElement e (\<lambda>el. el\<lparr>el_generation := el_generation el + 1, el_transactionState := TransactionIdle\<rparr>) d)))
    (\<lambda>(c, n, d'). c = changed \<and> n = next \<and> same_but {} d d')"
  unfolding ensures_bind
proof (rule ensures_mono [OF enqueueElement_same [OF assms]])
  fix d1 assume d1: "dv_elements d1 = dv_elements d \<and> same_but {} d d1"
  have "same_but {} d1 (updElement e (\<lambda>el. el\<lparr>el_generation := el_generation el + 1,
      el_transactionState := TransactionIdle\<rparr>) d1)"
    by (rule same_but_nothing) (use d1 assms(1) in \<open>simp_all add: shape_def\<close>)
  then show "ensures (Some (changed, next, updElement e (\<lambda>el. el\<lparr>el_generation := el_generation el + 1,
      el_transactionState := TransactionIdle\<rparr>) d1)) (\<lambda>(c, n, d'). c = changed \<and> n = next \<and> same_but {} d d')"
    using same_but_trans [of "{}" d d1 "{}"] d1 by simp
qed

lemma readElement_value:
  assumes e: "e < length (dv_elements d)" and ne: "valueOf d e \<noteq> []"
  defines "el \<equiv> dv_elements d ! e"
  assumes room: "el_reportStartBit el + valueBits el \<le> 8 * length r"
    "el_reportStartBit el + valueBits el < 2 ^ 32" "valueBits el \<le> 32 * length (el_value el)"
  shows "ensures (readElement e r d) (\<lambda>(changed, previous, d').
    same_but {e} d d' \<and> (\<forall>e. oldOf d' e = oldOf d e) \<and>
    valueOf d' e = map (\<lambda>j. if j < (valueBits el + 31) div 32
       then fieldWord r (el_reportStartBit el) (valueBits el) (sgnExtended el) j else el_value el ! j)
       [0..<length (el_value el)] \<and>
    (changed \<longleftrightarrow> valueOf d' e \<noteq> valueOf d e))"
proof -
  let ?W = "(valueBits el + 31) div 32"
  let ?V = "fieldWord r (el_reportStartBit el) (valueBits el) (sgnExtended el)"
  let ?new = "map (\<lambda>j. if j < ?W then ?V j else el_value el ! j) [0..<length (el_value el)]"
  obtain v vs where v: "el_value el = v # vs" using ne by (cases "el_value el") (simp_all add: valueOf_def el_def)
  have read: "readReportBits r (el_value el) (valueBits el) (el_reportStartBit el) (sgnExtended el) False =
    Some (?new, \<exists>j < ?W. ?V j \<noteq> el_value el ! j)"
    using readReportBits_spec [OF room] by simp
  let ?u = "updElement e (\<lambda>el. el\<lparr>el_generation := el_generation el + 1, el_value := ?new\<rparr>) d"
  have "readElement e r d = Some (\<exists>j < ?W. ?V j \<noteq> el_value el ! j, v, ?u)"
    using e read v by (simp add: readElement_def elementAt_def el_def [symmetric])
  moreover have "same_but {e} d ?u" by (rule same_but_upd) (simp add: shape_def el_def)
  moreover have "oldOf ?u e' = oldOf d e'" for e' using e by (cases "e' = e") (simp_all add: oldOf_def)
  moreover have "?W \<le> length (el_value el)" using room(3) by simp
  then have "(\<exists>j < ?W. ?V j \<noteq> el_value el ! j) \<longleftrightarrow> ?new \<noteq> el_value el"
    using map_changed [of ?W "el_value el" ?V] by blast
  moreover have "valueOf ?u e = ?new" using e by (simp add: valueOf_def)
  ultimately show ?thesis by (simp add: valueOf_def el_def)
qed

lemma field_room:
  assumes "i < (n :: nat)" and "s + n * b \<le> m"
  shows "s + i * b + b \<le> m"
proof -
  have "Suc i * b \<le> n * b" using assms(1) by (intro mult_le_mono) simp_all
  then show ?thesis using assms(2) by simp
qed

lemma processSelector:
  assumes ok: "array_ok A d" and i: "i < length (ar_duplicates A)"
    and room: "ar_start A + length (ar_duplicates A) * ar_bits A \<le> 8 * length r"
  defines "e \<equiv> ar_duplicates A ! i"
  shows "ensures (processReport (Suc depth) (ar_reportID A) r bits 0 False timestamp e d) (\<lambda>(changed, next, d').
    same_but {e} d d' \<and> (\<forall>e. oldOf d' e = oldOf d e) \<and> valueOf d' e = [reportSelectors A r ! i] \<and>
    (changed \<longleftrightarrow> valueOf d e \<noteq> [reportSelectors A r ! i]))"
proof -
  let ?el = "dv_elements d ! e"
  have e: "e < length (dv_elements d)" unfolding e_def by (rule array_ok_elements(2) [OF ok i])
  have sel: "el_reportID ?el = ucast (ar_reportID A)" "el_reportBits ?el = ar_bits A" "el_reportCount ?el = 1"
    "el_reportStartBit ?el = ar_start A + i * ar_bits A" "\<not> IsArrayReportHandler e ?el" "sgnExtended ?el = ar_sgn A"
    "\<not> el_hasRollOverPtr ?el" "length (el_value ?el) = 1"
    using array_ok_elements(6) [OF ok i] by (simp_all add: selector_ok_def Let_def e_def)
  have b: "0 < ar_bits A" "ar_bits A \<le> 32" "ar_start A + length (ar_duplicates A) * ar_bits A < 2 ^ 32"
    using ok by (simp_all add: array_ok_def)
  have vb: "valueBits ?el = ar_bits A" using sel b(2) by (simp add: valueBits_def)
  have words: "(ar_bits A + 31) div 32 = 1" using words_up [of 0 "ar_bits A"] b(1,2) by simp
  have "ensures (readElement e r d) (\<lambda>(changed, previous, d').
    same_but {e} d d' \<and> (\<forall>e. oldOf d' e = oldOf d e) \<and> valueOf d' e = [reportSelectors A r ! i] \<and>
    (changed \<longleftrightarrow> valueOf d' e \<noteq> valueOf d e))"
  proof (rule ensures_mono [OF readElement_value])
    show "e < length (dv_elements d)" by (rule e)
    show "valueOf d e \<noteq> []" using sel(8) by (auto simp: valueOf_def)
    show "el_reportStartBit ?el + valueBits ?el \<le> 8 * length r" unfolding sel(4) vb by (rule field_room [OF i room])
    have "ar_start A + i * ar_bits A + ar_bits A \<le> ar_start A + length (ar_duplicates A) * ar_bits A"
      by (rule field_room [OF i]) simp
    then show "el_reportStartBit ?el + valueBits ?el < 2 ^ 32" unfolding sel(4) vb using b(3) by simp
    show "valueBits ?el \<le> 32 * length (el_value ?el)" using vb b(2) sel(8) by simp
  qed (use i in \<open>auto simp: vb words sel(4,6,8) reportSelectors_def\<close>)
  moreover have "elementAt e d = Some ?el" "rolledOver timestamp ?el d = Some False"
    using e sel(7) by (simp_all add: elementAt_def rolledOver_def)
  ultimately obtain c previous d1 where d1: "readElement e r d = Some (c, previous, d1)" "same_but {e} d d1"
    "\<forall>e. oldOf d1 e = oldOf d e" "valueOf d1 e = [reportSelectors A r ! i]" "c \<longleftrightarrow> valueOf d1 e \<noteq> valueOf d e"
    and pre: "elementAt e d = Some ?el" "rolledOver timestamp ?el d = Some False"
    by (auto simp: ensures_def)
  have e1: "e < length (dv_elements d1)" using e same_but_length [OF d1(2)] by simp
  define d2 where "d2 = (if c \<or> el_isInterruptReportHandler ?el \<or> el_flags ?el AND kHIDDataRelativeBit \<noteq> 0
    then stampElement e ?el c previous timestamp d1 else d1)"
  have d2: "same_but {} d1 d2"
    unfolding d2_def using stamp_nothing [OF e1] same_but_refl by simp
  have same2: "same_but {e} d d2" using same_but_trans [OF d1(2) d2] by simp
  have "processReport (Suc depth) (ar_reportID A) r bits 0 False timestamp e d =
    Option.bind (enqueueElement e (c \<or> el_isInterruptReportHandler ?el \<or> el_flags ?el AND kHIDDataRelativeBit \<noteq> 0) d2)
      (\<lambda>d. Some (c, el_nextReportHandler ?el,
        updElement e (\<lambda>el. el\<lparr>el_generation := el_generation el + 1, el_transactionState := TransactionIdle\<rparr>) d))"
    using pre sel(1,5) d1(1) by (simp add: d2_def Let_def)
  moreover have "queues_ok d2" using queues_ok_same [OF same2] array_ok_elements(8) [OF ok] by simp
  moreover have "e < length (dv_elements d2)" using e same_but_length [OF same2] by simp
  ultimately have "ensures (processReport (Suc depth) (ar_reportID A) r bits 0 False timestamp e d)
    (\<lambda>(c', n, d'). c' = c \<and> n = el_nextReportHandler ?el \<and> same_but {} d2 d')"
    using report_ends by simp
  then show ?thesis
  proof (rule ensures_mono)
    fix x assume "case x of (c', n, d') \<Rightarrow> c' = c \<and> n = el_nextReportHandler ?el \<and> same_but {} d2 d'"
    then obtain n d' where x: "x = (c, n, d')" "same_but {} d2 d'" by (cases x) auto
    have same: "same_but {} d1 d'" using same_but_trans [OF d2 x(2)] by simp
    then show "case x of (c, n, d') \<Rightarrow> same_but {e} d d' \<and> (\<forall>e. oldOf d' e = oldOf d e) \<and>
      valueOf d' e = [reportSelectors A r ! i] \<and> (c \<longleftrightarrow> valueOf d e \<noteq> [reportSelectors A r ! i])"
      using x(1) d1 same_but_trans [OF d1(2) same] by (auto simp: same_but_def)
  qed
qed

lemma selector_value:
  assumes "array_ok A d" and "i < length (ar_duplicates A)"
  shows "valueOf d (ar_duplicates A ! i) = [heldSelectors A d ! i]"
proof -
  have "length (valueOf d (ar_duplicates A ! i)) = 1"
    using array_ok_elements(6) [OF assms] by (simp add: selector_ok_def Let_def valueOf_def)
  then show ?thesis using assms(2) by (cases "valueOf d (ar_duplicates A ! i)") (simp_all add: heldSelectors_def)
qed

definition selectorReader :: "array \<Rightarrow> nat \<Rightarrow> u8 list \<Rightarrow> nat \<Rightarrow> u64 \<Rightarrow> nat \<Rightarrow> hid_device \<Rightarrow> (bool \<times> hid_device) option" where
  "selectorReader A depth r bits timestamp e d =
     map_option (\<lambda>(c, next, d). (c, d)) (processReport depth (ar_reportID A) r bits 0 False timestamp e d)"

lemma processSelectors_read:
  assumes "array_ok A d" and "list_all (\<lambda>i. i < length (ar_duplicates A)) is" "distinct is"
    and room: "ar_start A + length (ar_duplicates A) * ar_bits A \<le> 8 * length r"
  shows "ensures (processSelectors (selectorReader A (Suc depth) r bits timestamp) keyboard (ar_duplicates A) is changed found d)
    (\<lambda>(c, f, d'). same_but (set (ar_duplicates A)) d d' \<and> (\<forall>e. oldOf d' e = oldOf d e) \<and>
      (\<forall>i < length (ar_duplicates A). heldSelectors A d' ! i =
         (if i \<in> set is then reportSelectors A r ! i else heldSelectors A d ! i)) \<and>
      (c \<longleftrightarrow> changed \<or> (\<exists>i\<in>set is. heldSelectors A d ! i \<noteq> reportSelectors A r ! i)) \<and>
      (f \<longleftrightarrow> found \<and> \<not> (keyboard \<and> (\<exists>i\<in>set is. reportSelectors A r ! i \<noteq> kHIDUsage_KeyboardErrorRollOver))))"
  using assms(1-3)
proof (induction "is" arbitrary: d changed found)
  case Nil
  then show ?case by (simp add: same_but_refl)
next
  case (Cons j js)
  let ?S = "reportSelectors A r" and ?ds = "ar_duplicates A"
  have j: "j < length ?ds" using Cons.prems(2) by simp
  note ok = Cons.prems(1)
  obtain c d1 where d1: "selectorReader A (Suc depth) r bits timestamp (?ds ! j) d = Some (c, d1)"
    "same_but {?ds ! j} d d1" "\<forall>e. oldOf d1 e = oldOf d e" "valueOf d1 (?ds ! j) = [?S ! j]"
    "c \<longleftrightarrow> valueOf d (?ds ! j) \<noteq> [?S ! j]"
    using processSelector [OF ok j room, of depth bits timestamp]
    by (auto simp: ensures_def selectorReader_def simp del: processReport.simps)
  have ok1: "array_ok A d1" by (rule array_ok_same [OF d1(2) ok])
  have held1: "heldSelectors A d1 ! i = (if i = j then ?S ! j else heldSelectors A d ! i)" if "i < length ?ds" for i
  proof (cases "i = j")
    case True
    then show ?thesis using d1(4) that by (simp add: heldSelectors_def)
  next
    case False
    then have "?ds ! i \<noteq> ?ds ! j" using ok that j by (simp add: array_ok_def nth_eq_iff_index_eq)
    then show ?thesis using d1(2) that False by (simp add: heldSelectors_def same_but_def)
  qed
  have c: "c \<longleftrightarrow> heldSelectors A d ! j \<noteq> ?S ! j" using d1(5) selector_value [OF ok j] by simp
  have el: "elementAt (?ds ! j) d1 = Some (dv_elements d1 ! (?ds ! j))" "el_value (dv_elements d1 ! (?ds ! j)) = [?S ! j]"
    using array_ok_elements(2) [OF ok1 j] d1(4) by (simp_all add: elementAt_def valueOf_def)
  let ?found = "found \<and> \<not> (keyboard \<and> ?S ! j \<noteq> kHIDUsage_KeyboardErrorRollOver)"
  have step: "processSelectors (selectorReader A (Suc depth) r bits timestamp) keyboard ?ds (j # js) changed found d =
    processSelectors (selectorReader A (Suc depth) r bits timestamp) keyboard ?ds js (changed \<or> c) ?found d1"
    using j d1(1) el by (simp add: objectAt_def)
  have dj: "j \<notin> set js" "list_all (\<lambda>i. i < length ?ds) js" "distinct js" using Cons.prems(2,3) by auto
  show ?case
    unfolding step
  proof (rule ensures_mono [OF Cons.IH [OF ok1 dj(2,3)]], clarify, intro conjI)
    fix f d'
    assume d': "same_but (set ?ds) d1 d'" "\<forall>e. oldOf d' e = oldOf d1 e"
      "\<forall>i < length ?ds. heldSelectors A d' ! i = (if i \<in> set js then ?S ! i else heldSelectors A d1 ! i)"
    show "same_but (set ?ds) d d'"
      using same_but_mono [OF same_but_trans [OF d1(2) d'(1)], of "set ?ds"] j by simp
    show "\<forall>e. oldOf d' e = oldOf d e" using d'(2) d1(3) by simp
    show "\<forall>i < length ?ds. heldSelectors A d' ! i = (if i \<in> set (j # js) then ?S ! i else heldSelectors A d ! i)"
      using d'(3) held1 by auto
    show "((changed \<or> c) \<or> (\<exists>i\<in>set js. heldSelectors A d1 ! i \<noteq> ?S ! i)) =
      (changed \<or> (\<exists>i\<in>set (j # js). heldSelectors A d ! i \<noteq> ?S ! i))"
      using c held1 dj by (auto simp: list_all_iff)
    show "(?found \<and> \<not> (keyboard \<and> (\<exists>i\<in>set js. ?S ! i \<noteq> kHIDUsage_KeyboardErrorRollOver))) =
      (found \<and> \<not> (keyboard \<and> (\<exists>i\<in>set (j # js). ?S ! i \<noteq> kHIDUsage_KeyboardErrorRollOver)))"
      by auto
  qed
qed

section \<open>A report\<close>

text \<open>The set of the selectors that are held after a report.\<close>

definition heldBy :: "bool \<Rightarrow> u32 list \<Rightarrow> u32 set \<Rightarrow> u32 set" where
  "heldBy keyboard S H =
     (if keyboard \<and> list_all (\<lambda>sel. sel = kHIDUsage_KeyboardErrorRollOver) S then H else set S)"

definition keyboardArray :: "array \<Rightarrow> hid_device \<Rightarrow> bool" where
  "keyboardArray A d \<longleftrightarrow> el_usagePage (dv_elements d ! ar_handler A) = kHIDPage_KeyboardOrKeypad"

text \<open>
  The items show the selectors that are remembered, which are the last ones but after a roll
  over.
\<close>

definition array_inv :: "array \<Rightarrow> bool \<Rightarrow> u32 set \<Rightarrow> hid_device \<Rightarrow> bool" where
  "array_inv A keyboard H d \<longleftrightarrow>
     array_ok A d \<and> keyboardArray A d = keyboard \<and> items_show A keyboard H d \<and> set (oldSelectors A d) = H \<and>
     (heldSelectors A d = oldSelectors A d \<or>
      keyboard \<and> list_all (\<lambda>sel. sel = kHIDUsage_KeyboardErrorRollOver) (heldSelectors A d))"

lemma keyboardArray_same:
  assumes "same_but X d d'" and "array_ok A d"
  shows "keyboardArray A d' = keyboardArray A d"
proof -
  have "shape (dv_elements d' ! ar_handler A) = shape (dv_elements d ! ar_handler A)"
    using same_but_shape [OF assms(1), of "ar_handler A"] array_ok_elements(1) [OF assms(2)] by simp
  from shape_fields(7) [OF this] show ?thesis by (simp add: keyboardArray_def)
qed

lemma items_show_same:
  assumes "same_but X d d'" and "array_ok A d" and "set (ar_items A) \<inter> X = {}"
  shows "items_show A keyboard H d' = items_show A keyboard H d"
proof -
  have "itemValue A d' i = itemValue A d i" if "i < length (ar_items A)" for i
  proof -
    have "ar_items A ! i \<notin> X" using assms(3) that by (metis IntI emptyE nth_mem)
    then show ?thesis using assms(1) by (simp add: itemValue_def same_but_def)
  qed
  then show ?thesis using itemSelector_same [OF assms(1,2)] by (simp add: items_show_def)
qed

lemma lists_differ:
  "length xs = n \<Longrightarrow> length ys = n \<Longrightarrow> (\<exists>i\<in>set [0..<n]. xs ! i \<noteq> ys ! i) \<longleftrightarrow> xs \<noteq> ys"
  by (auto intro: nth_equalityI)

lemma arrayReport_inv:
  assumes inv: "array_inv A keyboard H d"
    and room: "ar_start A + length (ar_duplicates A) * ar_bits A \<le> 8 * length r"
  defines "S \<equiv> reportSelectors A r" and "h \<equiv> ar_handler A"
  shows "ensures (processArrayReport (selectorReader A (Suc depth) r bits timestamp) h d)
    (\<lambda>(c, d'). same_but (insert h (set (ar_duplicates A) \<union> set (ar_items A))) d d' \<and> valueOf d' h = valueOf d h \<and>
      heldSelectors A d' = S \<and> array_inv A keyboard (heldBy keyboard S H) d')"
proof -
  let ?n = "length (ar_duplicates A)" and ?ds = "ar_duplicates A" and ?items = "ar_items A"
  let ?X = "insert h (set ?ds \<union> set ?items)"
  have ok: "array_ok A d" and kb: "keyboardArray A d = keyboard" and vis: "items_show A keyboard H d"
    and old: "set (oldSelectors A d) = H" using inv by (simp_all add: array_inv_def)
  have dist: "h \<notin> set ?ds" "h \<notin> set ?items" "set ?items \<inter> set ?ds = {}"
    using ok by (auto simp: array_ok_def h_def)
  have lenS: "length S = ?n" by (simp add: S_def reportSelectors_def)
  have ar: "elementAt h d = Some (dv_elements d ! h)" "el_reportCount (dv_elements d ! h) = ?n"
    "el_duplicateElements (dv_elements d ! h) = Some ?ds"
    "(el_usagePage (dv_elements d ! h) = kHIDPage_KeyboardOrKeypad) = keyboard"
    using array_ok_elements(1,5) [OF ok] kb by (simp_all add: elementAt_def handler_ok_def h_def keyboardArray_def)
  let ?roll = "keyboard \<and> list_all (\<lambda>sel. sel = kHIDUsage_KeyboardErrorRollOver) S"
  have all: "list_all (\<lambda>i. i < ?n) [0..<?n]" by (simp add: list_all_iff)
  have roll: "(keyboard \<and> \<not> (keyboard \<and> (\<exists>i\<in>set [0..<?n]. S ! i \<noteq> kHIDUsage_KeyboardErrorRollOver))) = ?roll"
    using lenS by (auto simp: list_all_length)
  have diff: "(False \<or> (\<exists>i\<in>set [0..<?n]. heldSelectors A d ! i \<noteq> S ! i)) \<longleftrightarrow> heldSelectors A d \<noteq> S"
    using lists_differ [OF length_selectors(2) [OF ok] lenS] by simp
  obtain d1 where d1: "processSelectors (selectorReader A (Suc depth) r bits timestamp) keyboard ?ds [0..<?n] False keyboard d
      = Some (heldSelectors A d \<noteq> S, ?roll, d1)"
    "same_but (set ?ds) d d1" "\<forall>e. oldOf d1 e = oldOf d e" "heldSelectors A d1 = S"
  proof -
    obtain c f d1 where "processSelectors (selectorReader A (Suc depth) r bits timestamp) keyboard ?ds [0..<?n] False keyboard d
      = Some (c, f, d1)" "same_but (set ?ds) d d1" "\<forall>e. oldOf d1 e = oldOf d e"
      "\<forall>i < ?n. heldSelectors A d1 ! i = S ! i" "c \<longleftrightarrow> heldSelectors A d \<noteq> S" "f = ?roll"
      using processSelectors_read [OF ok all _ room, of depth bits timestamp keyboard False keyboard]
      unfolding S_def [symmetric] roll diff by (auto simp: ensures_def)
    moreover have "heldSelectors A d1 = S"
      using calculation lenS by (intro nth_equalityI) (simp_all add: heldSelectors_def)
    ultimately show ?thesis using that by blast
  qed
  have ok1: "array_ok A d1" by (rule array_ok_same [OF d1(2) ok])
  have vis1: "items_show A keyboard H d1" using items_show_same [OF d1(2) ok dist(3)] vis by simp
  have kb1: "keyboardArray A d1 = keyboard" using keyboardArray_same [OF d1(2) ok] kb by simp
  have old1: "oldSelectors A d1 = oldSelectors A d" using d1(3) by simp
  have val1: "valueOf d1 h = valueOf d h" using d1(2) dist(1) by (simp add: same_but_def)
  have same1: "same_but ?X d d1" by (rule same_but_mono [OF d1(2)]) blast
  show ?thesis
  proof (cases "heldSelectors A d = S")
    case True
    have "array_inv A keyboard (heldBy keyboard S H) d1"
      using inv True ok1 vis1 kb1 old1 d1(4) by (auto simp: array_inv_def heldBy_def)
    then show ?thesis
      using True ar d1(1,4) same1 val1 by (simp add: processArrayReport_def Let_def)
  next
    case False
    let ?set = "if keyboard then setArrayElementValue h (kHIDUsage_KeyboardErrorRollOver - el_logicalMin (dv_elements d ! h))
      (if ?roll then 1 else 0) d1 else Some d1"
    have min: "el_logicalMin (dv_elements d1 ! h) = el_logicalMin (dv_elements d ! h)"
      unfolding h_def by (rule same_minimum [OF d1(2) ok])
    have "ensures ?set (\<lambda>d2. items_set A (\<lambda>i. itemValue A d2 i) d1 d2 \<and> items_show A keyboard H d2)"
    proof (cases keyboard)
      case True
      have "ensures ?set (items_set A (\<lambda>i. if itemSelector A d1 i = kHIDUsage_KeyboardErrorRollOver
          then (if ?roll then 1 else 0) else itemValue A d1 i) d1)"
        using setItem_set [OF ok1, of kHIDUsage_KeyboardErrorRollOver "if ?roll then 1 else 0"] True min
        by (simp add: h_def)
      then show ?thesis
      proof (rule ensures_mono)
        fix d2 assume d2: "items_set A (\<lambda>i. if itemSelector A d1 i = kHIDUsage_KeyboardErrorRollOver
          then (if ?roll then 1 else 0) else itemValue A d1 i) d1 d2"
        then show "items_set A (\<lambda>i. itemValue A d2 i) d1 d2 \<and> items_show A keyboard H d2"
          using vis1 items_set_facts(4) [OF d2 ok1] True by (simp add: items_set_def items_show_def counts_def)
      qed
    qed (use vis1 in \<open>simp add: items_set_refl\<close>)
    then obtain d2 where d2: "?set = Some d2" "items_set A (\<lambda>i. itemValue A d2 i) d1 d2" "items_show A keyboard H d2"
      by (auto simp: ensures_def)
    note f2 = items_set_facts [OF d2(2) ok1]
    have s2: "same_but (set ?items) d1 d2" using d2(2) by (simp add: items_set_def)
    have kb2: "keyboardArray A d2 = keyboard" using keyboardArray_same [OF s2 ok1] kb1 by simp
    have val2: "valueOf d2 h = valueOf d h" using s2 dist(2) val1 by (simp add: same_but_def)
    have same2: "same_but ?X d d2" by (rule same_but_mono [OF same_but_trans [OF d1(2) s2]]) blast
    have run: "processArrayReport (selectorReader A (Suc depth) r bits timestamp) h d =
      (if ?roll then Some (False, d2) else Option.bind (updateItems h d2) (\<lambda>d. Some (True, d)))"
      using False ar d1(1) d2(1) by (auto simp: processArrayReport_def Let_def)
    show ?thesis
    proof (cases ?roll)
      case True
      then have "array_inv A keyboard (heldBy keyboard S H) d2"
        using f2 kb2 d2(3) old old1 d1(4) by (simp add: array_inv_def heldBy_def)
      then show ?thesis using run True f2(2) d1(4) same2 val2 by simp
    next
      case False
      have "items_show A keyboard (set (oldSelectors A d2)) d2" using d2(3) f2(3) old old1 by simp
      note upd = updateItems_show [OF f2(1) this]
      have "ensures (updateItems (ar_handler A) d2) (\<lambda>d'. same_but ?X d d' \<and> valueOf d' h = valueOf d h \<and>
        heldSelectors A d' = S \<and> array_inv A keyboard (heldBy keyboard S H) d')"
      proof (rule ensures_mono [OF upd])
        fix d' assume d': "same_but (insert (ar_handler A) (set ?items)) d2 d' \<and>
          valueOf d' (ar_handler A) = valueOf d2 (ar_handler A) \<and>
          heldSelectors A d' = heldSelectors A d2 \<and> oldSelectors A d' = heldSelectors A d2 \<and>
          items_show A keyboard (set (heldSelectors A d2)) d'"
        then have s3: "same_but (insert h (set ?items)) d2 d'" by (simp add: h_def)
        have "same_but ?X d d'" by (rule same_but_mono [OF same_but_trans [OF same2 s3]]) blast
        moreover have "array_ok A d'" "keyboardArray A d' = keyboard"
          using array_ok_same [OF s3 f2(1)] keyboardArray_same [OF s3 f2(1)] kb2 by simp_all
        ultimately show "same_but ?X d d' \<and> valueOf d' h = valueOf d h \<and>
          heldSelectors A d' = S \<and> array_inv A keyboard (heldBy keyboard S H) d'"
          using d' f2(2) d1(4) val2 False by (auto simp: array_inv_def heldBy_def h_def)
      qed
      then show ?thesis unfolding h_def [symmetric] using run False by (simp add: ensures_bind)
    qed
  qed
qed

text \<open>
  The handler reads the bits of all selectors into its own value. That the value has not
  changed means that no selector has.
\<close>

definition selectorBit :: "array \<Rightarrow> u32 list \<Rightarrow> nat \<Rightarrow> nat \<Rightarrow> bool" where
  "selectorBit A ws i k =
     (if k < ar_bits A then wordBit ws (i * ar_bits A + k)
      else ar_sgn A \<and> ar_bits A < 32 \<and> wordBit ws (i * ar_bits A + (ar_bits A - 1)))"

definition linked :: "array \<Rightarrow> u32 list \<Rightarrow> u32 list \<Rightarrow> bool" where
  "linked A ws S \<longleftrightarrow> (\<forall>i < length (ar_duplicates A). \<forall>k<32. bit (S ! i) k \<longleftrightarrow> selectorBit A ws i k)"

lemma linked_unique:
  assumes "linked A ws S" "linked A ws T" "length S = length (ar_duplicates A)" "length T = length (ar_duplicates A)"
  shows "S = T"
proof (rule nth_equalityI)
  fix i assume "i < length S"
  then show "S ! i = T ! i" using assms by (intro bit_word_eqI) (simp add: linked_def)
qed (use assms in simp)

lemma linked_report:
  assumes "0 < ar_bits A" and "\<forall>p < length (ar_duplicates A) * ar_bits A. wordBit ws p \<longleftrightarrow> byteBit r (ar_start A + p)"
  shows "linked A ws (reportSelectors A r)"
  unfolding linked_def
proof (intro allI impI)
  fix i k :: nat assume i: "i < length (ar_duplicates A)" and k: "k < 32"
  let ?n = "length (ar_duplicates A)" and ?b = "ar_bits A"
  have in_range: "i * ?b + p < ?n * ?b" if "p < ?b" for p
    using field_room [OF i, of 0 ?b "?n * ?b"] that by simp
  have "wordBit ws (i * ?b + p) \<longleftrightarrow> byteBit r (ar_start A + i * ?b + p)" if "p < ?b" for p
    using assms(2) in_range [OF that] by (simp add: add.assoc)
  from this [of k] this [of "?b - 1"]
  show "bit (reportSelectors A r ! i) k \<longleftrightarrow> selectorBit A ws i k"
    using i assms(1) bit_fieldWord [OF k, of r "ar_start A + i * ?b" ?b "ar_sgn A" 0]
    by (auto simp: reportSelectors_def selectorBit_def)
qed

lemma wordBit_read:
  fixes r :: "u8 list" and start :: nat and sgn_ext :: bool
  assumes "p < n" and "n \<le> 32 * length old"
  defines "new \<equiv> map (\<lambda>j. if j < (n + 31) div 32 then fieldWord r start n sgn_ext j else old ! j) [0..<length old]"
  shows "wordBit new p \<longleftrightarrow> byteBit r (start + p)"
proof -
  have "(p + 32) div 32 \<le> (n + 31) div 32" by (rule div_le_mono) (use assms(1) in simp)
  then have "p div 32 < (n + 31) div 32" by simp
  moreover have "p div 32 < length old" "32 * (p div 32) + p mod 32 = p" "p mod 32 < 32"
    using assms(1,2) by (simp_all add: div_less_iff_less_mult)
  ultimately show ?thesis
    using assms(1) bit_fieldWord [of "p mod 32" r start n sgn_ext "p div 32"]
    by (simp add: wordBit_def new_def)
qed

definition report_inv :: "array \<Rightarrow> bool \<Rightarrow> u32 set \<Rightarrow> hid_device \<Rightarrow> bool" where
  "report_inv A keyboard H d \<longleftrightarrow>
     array_inv A keyboard H d \<and> linked A (valueOf d (ar_handler A)) (heldSelectors A d)"

text \<open>The report is as long as the selectors and as the handler ask for.\<close>

definition report_fits :: "array \<Rightarrow> hid_device \<Rightarrow> u8 list \<Rightarrow> bool" where
  "report_fits A d r \<longleftrightarrow>
     ar_start A + length (ar_duplicates A) * ar_bits A \<le> 8 * length r \<and>
     el_reportSize (dv_elements d ! ar_handler A) \<le> 8 * length r"

lemma report_fits_same:
  assumes "same_but X d d'" and "array_ok A d"
  shows "report_fits A d' r = report_fits A d r"
proof -
  have "shape (dv_elements d' ! ar_handler A) = shape (dv_elements d ! ar_handler A)"
    using same_but_shape [OF assms(1), of "ar_handler A"] array_ok_elements(1) [OF assms(2)] by simp
  from shape_fields(3) [OF this] show ?thesis by (simp add: report_fits_def)
qed

lemma array_inv_same:
  assumes same: "same_but X d d'" and X: "X \<inter> set (ar_duplicates A) = {}" "X \<inter> set (ar_items A) = {}"
    and old: "oldSelectors A d' = oldSelectors A d" and inv: "array_inv A keyboard H d"
  shows "array_inv A keyboard H d'" "heldSelectors A d' = heldSelectors A d"
proof -
  have ok: "array_ok A d" using inv by (simp add: array_inv_def)
  show held: "heldSelectors A d' = heldSelectors A d" by (rule heldSelectors_same [OF same]) (use X in blast)
  have "items_show A keyboard H d' = items_show A keyboard H d"
    by (rule items_show_same [OF same ok]) (use X in blast)
  then show "array_inv A keyboard H d'"
    using inv array_ok_same [OF same ok] keyboardArray_same [OF same ok] held old by (simp add: array_inv_def)
qed

lemma array_report:
  assumes inv: "report_inv A keyboard H d" and fits: "report_fits A d r"
  defines "S \<equiv> reportSelectors A r" and "h \<equiv> ar_handler A"
  shows "ensures (processReport 2 (ar_reportID A) r (8 * length r) options True timestamp h d)
    (\<lambda>(c, next, d'). same_but (insert h (set (ar_duplicates A) \<union> set (ar_items A))) d d' \<and>
      report_inv A keyboard (heldBy keyboard S H) d')"
proof -
  let ?X = "insert h (set (ar_duplicates A) \<union> set (ar_items A))" and ?n = "length (ar_duplicates A) * ar_bits A"
  let ?el = "dv_elements d ! h"
  have ainv: "array_inv A keyboard H d" and link: "linked A (valueOf d h) (heldSelectors A d)"
    using inv by (simp_all add: report_inv_def h_def)
  have ok: "array_ok A d" using ainv by (simp add: array_inv_def)
  have dist: "{h} \<inter> set (ar_duplicates A) = {}" "{h} \<inter> set (ar_items A) = {}"
    using ok by (auto simp: array_ok_def h_def)
  have h: "h < length (dv_elements d)" unfolding h_def by (rule array_ok_elements(1) [OF ok])
  have el: "IsArrayElement ?el" "IsArrayReportHandler h ?el" "el_reportID ?el = ucast (ar_reportID A)"
    "\<not> el_hasRollOverPtr ?el" "\<not> el_isInterruptReportHandler ?el" "el_reportStartBit ?el = ar_start A"
    "?n \<le> 32 * length (el_value ?el)" "el_value ?el \<noteq> []" "el_reportBits ?el = ar_bits A"
    "el_reportCount ?el = length (ar_duplicates A)"
    using array_ok_elements(5) [OF ok] by (simp_all add: handler_ok_def h_def)
  have room: "ar_start A + ?n \<le> 8 * length r" "ar_start A + ?n < 2 ^ 32" "0 < ar_bits A"
    using fits ok by (simp_all add: report_fits_def array_ok_def)
  have vb: "valueBits ?el = ?n" using el(9,10) room(2) by (simp add: valueBits_def mult.commute)
  have ne: "valueOf d h \<noteq> []" using el(8) by (simp add: valueOf_def)
  have rooms: "el_reportStartBit ?el + valueBits ?el \<le> 8 * length r" "el_reportStartBit ?el + valueBits ?el < 2 ^ 32"
    "valueBits ?el \<le> 32 * length (el_value ?el)"
    unfolding vb el(6) using room(1,2) el(7) by simp_all
  obtain c previous d1 where d1: "readElement h r d = Some (c, previous, d1)" "same_but {h} d d1"
    "\<forall>e. oldOf d1 e = oldOf d e" "c \<longleftrightarrow> valueOf d1 h \<noteq> valueOf d h"
    "valueOf d1 h = map (\<lambda>j. if j < (?n + 31) div 32
       then fieldWord r (ar_start A) ?n (sgnExtended ?el) j else el_value ?el ! j) [0..<length (el_value ?el)]"
    using readElement_value [OF h ne rooms, unfolded vb el(6)] unfolding ensures_def by blast
  have link1: "linked A (valueOf d1 h) S"
    unfolding S_def
  proof (rule linked_report [OF room(3)], intro allI impI)
    fix p assume "p < ?n"
    then show "wordBit (valueOf d1 h) p \<longleftrightarrow> byteBit r (ar_start A + p)"
      unfolding d1(5) by (rule wordBit_read [OF _ el(7)])
  qed
  note inv1 = array_inv_same [OF d1(2) dist _ ainv]
  have held1: "heldSelectors A d1 = heldSelectors A d" and ainv1: "array_inv A keyboard H d1"
    using inv1 d1(3) by simp_all
  let ?relative = "el_flags ?el AND kHIDDataRelativeBit \<noteq> 0"
  define d2 where "d2 = stampElement h ?el c previous timestamp d1"
  have h1: "h < length (dv_elements d1)" using h same_but_length [OF d1(2)] by simp
  have d2: "same_but {} d1 d2"
    unfolding d2_def by (rule stamp_nothing [OF h1])
  have ainv2: "array_inv A keyboard H d2" "heldSelectors A d2 = heldSelectors A d1" "valueOf d2 h = valueOf d1 h"
    using array_inv_same [OF d2 _ _ _ ainv1] d2 by (simp_all add: same_but_def)
  have h2: "h < length (dv_elements d2)" using h1 same_but_length [OF d2] by simp
  let ?process = "selectorReader A (Suc 0) r (8 * length r) (el_timestamp (dv_elements d2 ! h))"
  let ?array = "if c \<or> ?relative then map_option snd (processArrayReport ?process h d2) else Some d1"
  have array: "ensures ?array (\<lambda>d3. same_but ?X d d3 \<and> valueOf d3 h = valueOf d1 h \<and> heldSelectors A d3 = S \<and>
    array_inv A keyboard (heldBy keyboard S H) d3)"
  proof (cases "c \<or> ?relative")
    case True
    have "ensures (processArrayReport ?process h d2)
      (\<lambda>(c, d3). same_but ?X d2 d3 \<and> valueOf d3 h = valueOf d2 h \<and> heldSelectors A d3 = S \<and>
        array_inv A keyboard (heldBy keyboard S H) d3)"
      unfolding S_def h_def by (rule arrayReport_inv [OF ainv2(1) room(1)])
    then obtain b d3 where d3: "processArrayReport ?process h d2 = Some (b, d3)" "same_but ?X d2 d3"
      "valueOf d3 h = valueOf d2 h" "heldSelectors A d3 = S" "array_inv A keyboard (heldBy keyboard S H) d3"
      by (auto simp: ensures_def)
    have "same_but ?X d d3"
      by (rule same_but_mono [OF same_but_trans [OF same_but_trans [OF d1(2) d2] d3(2)]]) blast
    then show ?thesis using True d3 ainv2(3) by simp
  next
    case False
    then have "linked A (valueOf d1 h) (heldSelectors A d)" using link d1(4) by simp
    then have S: "heldSelectors A d = S"
      by (rule linked_unique [OF _ link1 length_selectors(2) [OF ok]]) (simp add: S_def reportSelectors_def)
    have "heldBy keyboard S H = H"
      using ainv1 held1 S by (auto simp: array_inv_def heldBy_def)
    then show ?thesis
      using False S held1 ainv1 same_but_mono [OF d1(2), of ?X] by simp
  qed
  then obtain d3 where d3: "?array = Some d3" "same_but ?X d d3" "valueOf d3 h = valueOf d1 h" "heldSelectors A d3 = S"
    "array_inv A keyboard (heldBy keyboard S H) d3" by (auto simp: ensures_def)
  have "processReport 2 (ar_reportID A) r (8 * length r) options True timestamp h d =
    Option.bind (enqueueElement h (c \<or> ?relative) d3)
      (\<lambda>d. Some (c, el_nextReportHandler ?el,
        updElement h (\<lambda>el. el\<lparr>el_generation := el_generation el + 1, el_transactionState := TransactionIdle\<rparr>) d))"
  proof -
    have reader: "(\<lambda>e d. map_option (\<lambda>(c, next, d). (c, d))
        (processReport (Suc 0) (ar_reportID A) r (8 * length r) 0 False ts e d)) = selectorReader A (Suc 0) r (8 * length r) ts"
      for ts by (simp add: selectorReader_def fun_eq_iff del: processReport.simps)
    have pre: "elementAt h d = Some ?el" "elementAt h d2 = Some (dv_elements d2 ! h)" "rolledOver timestamp ?el d = Some False"
      "el_reportSize ?el \<le> 8 * length r"
      using h h2 el(4) fits by (simp_all add: elementAt_def rolledOver_def report_fits_def h_def)
    have snd: "Option.bind x (\<lambda>(c, d). Some d) = map_option snd x" for x :: "(bool \<times> hid_device) option"
      by (cases x) auto
    show ?thesis
      using pre el(1-3,5) d1(1) d3(1)
      by (subst numeral_2_eq_2, subst processReport.simps(2))
        (auto simp: reader Let_def d2_def [symmetric] snd simp del: processReport.simps split: if_splits)
  qed
  moreover have "h < length (dv_elements d3)" using h same_but_length [OF d3(2)] by simp
  moreover have "queues_ok d3" using queues_ok_same [OF d3(2)] array_ok_elements(8) [OF ok] by simp
  ultimately have "ensures (processReport 2 (ar_reportID A) r (8 * length r) options True timestamp h d)
    (\<lambda>(c', n, d'). c' = c \<and> n = el_nextReportHandler ?el \<and> same_but {} d3 d')"
    using report_ends by simp
  then show ?thesis
  proof (rule ensures_mono)
    fix x assume "case x of (c', n, d') \<Rightarrow> c' = c \<and> n = el_nextReportHandler ?el \<and> same_but {} d3 d'"
    then obtain n d' where x: "x = (c, n, d')" "same_but {} d3 d'" by (cases x) auto
    have "same_but ?X d d'" using same_but_trans [OF d3(2) x(2)] by simp
    moreover have "array_inv A keyboard (heldBy keyboard S H) d'" "heldSelectors A d' = S" "valueOf d' h = valueOf d1 h"
      using array_inv_same [OF x(2) _ _ _ d3(5)] x(2) d3(3,4) by (simp_all add: same_but_def)
    ultimately show "case x of (c, n, d') \<Rightarrow> same_but ?X d d' \<and> report_inv A keyboard (heldBy keyboard S H) d'"
      using x(1) link1 by (simp add: report_inv_def h_def)
  qed
qed

section \<open>A sequence of reports\<close>

text \<open>Reports that the handler processes one after the other, each with its time.\<close>

fun arrayReports :: "array \<Rightarrow> u32 \<Rightarrow> (u8 list \<times> u64) list \<Rightarrow> hid_device \<Rightarrow> hid_device option" where
  "arrayReports A options [] d = Some d"
| "arrayReports A options ((r, timestamp) # reports) d =
     do { (c, next, d) \<leftarrow> processReport 2 (ar_reportID A) r (8 * length r) options True timestamp (ar_handler A) d;
          arrayReports A options reports d }"

fun heldAfterReports :: "array \<Rightarrow> bool \<Rightarrow> (u8 list \<times> u64) list \<Rightarrow> u32 set \<Rightarrow> u32 set" where
  "heldAfterReports A keyboard [] H = H"
| "heldAfterReports A keyboard ((r, timestamp) # reports) H =
     heldAfterReports A keyboard reports (heldBy keyboard (reportSelectors A r) H)"

lemma array_reports:
  assumes "report_inv A keyboard H d" and "\<forall>(r, t)\<in>set reports. report_fits A d r"
  shows "ensures (arrayReports A options reports d)
    (\<lambda>d'. (\<exists>X. same_but X d d') \<and> report_inv A keyboard (heldAfterReports A keyboard reports H) d')"
  using assms
proof (induction reports arbitrary: d H)
  case Nil
  then show ?case using same_but_refl by auto
next
  case (Cons rt reports)
  obtain r t where rt: "rt = (r, t)" by (cases rt)
  have ok: "array_ok A d" using Cons.prems(1) by (simp add: report_inv_def array_inv_def)
  have "report_fits A d r" using Cons.prems(2) rt by simp
  from array_report [OF Cons.prems(1) this, of options t]
  obtain c n d1 X where d1: "processReport 2 (ar_reportID A) r (8 * length r) options True t (ar_handler A) d = Some (c, n, d1)"
    "same_but X d d1" "report_inv A keyboard (heldBy keyboard (reportSelectors A r) H) d1"
    unfolding ensures_def by blast
  have "\<forall>(r, t)\<in>set reports. report_fits A d1 r"
    using Cons.prems(2) report_fits_same [OF d1(2) ok] by simp
  from Cons.IH [OF d1(3) this] show ?case
    unfolding rt using d1(1) same_but_trans [OF d1(2)]
    by (auto simp del: processReport.simps elim!: ensures_mono)
qed

text \<open>A device that has received no report: everything is zero.\<close>

definition array_fresh :: "array \<Rightarrow> hid_device \<Rightarrow> bool" where
  "array_fresh A d \<longleftrightarrow>
     list_all (\<lambda>e. list_all (\<lambda>v. v = 0) (valueOf d e)) (ar_handler A # ar_duplicates A @ ar_items A) \<and>
     list_all (\<lambda>v. v = 0) (oldSelectors A d)"

lemma fresh_inv:
  assumes ok: "array_ok A d" and fresh: "array_fresh A d"
  shows "report_inv A (keyboardArray A d) (set (oldSelectors A d)) d"
proof -
  let ?n = "length (ar_duplicates A)" and ?b = "ar_bits A" and ?ws = "valueOf d (ar_handler A)"
  have zeros: "xs = replicate (length xs) 0" if "list_all (\<lambda>v. v = 0) xs" for xs :: "u32 list"
    using that by (simp add: list_all_iff replicate_length_same)
  have old: "oldSelectors A d = replicate ?n 0"
    using zeros [of "oldSelectors A d"] fresh length_selectors(1) [OF ok] by (simp add: array_fresh_def)
  have "heldSelectors A d ! i = 0" if "i < ?n" for i
  proof -
    have "list_all (\<lambda>v. v = 0) (valueOf d (ar_duplicates A ! i))"
      using fresh nth_mem [OF that] by (auto simp: array_fresh_def list_all_iff)
    then show ?thesis using selector_value [OF ok that] by simp
  qed
  then have held: "heldSelectors A d = replicate ?n 0"
    using length_selectors(2) [OF ok] by (intro nth_equalityI) simp_all
  have ws: "?n * ?b \<le> 32 * length ?ws" "0 < ?b"
    using ok array_ok_elements(5) [OF ok] by (simp_all add: handler_ok_def valueOf_def array_ok_def)
  have none: "\<not> wordBit ?ws p" if "p < ?n * ?b" for p
  proof -
    have "p div 32 < length ?ws" using that ws(1) by (simp add: div_less_iff_less_mult)
    then have "?ws ! (p div 32) = 0" using fresh by (auto simp: array_fresh_def list_all_iff)
    then show ?thesis by (simp add: wordBit_def)
  qed
  have in_range: "i * ?b + p < ?n * ?b" if "i < ?n" "p < ?b" for i p
    using field_room [OF that(1), of 0 ?b "?n * ?b"] that(2) by simp
  have "\<not> selectorBit A ?ws i k" if "i < ?n" for i k
    using none [OF in_range [OF that, of k]] none [OF in_range [OF that, of "?b - 1"]] ws(2)
    by (auto simp: selectorBit_def)
  then have "linked A ?ws (heldSelectors A d)" by (simp add: linked_def held)
  moreover have "itemValue A d i = 0" if "i < length (ar_items A)" for i
  proof -
    have "length (valueOf d (ar_items A ! i)) = 1"
      using array_ok_elements(7) [OF ok nth_mem [OF that]] by (simp add: valueOf_def)
    moreover have "list_all (\<lambda>v. v = 0) (valueOf d (ar_items A ! i))"
      using fresh nth_mem [OF that] by (auto simp: array_fresh_def list_all_iff)
    ultimately show ?thesis by (cases "valueOf d (ar_items A ! i)") (simp_all add: itemValue_def)
  qed
  then have "items_show A (keyboardArray A d) (set (oldSelectors A d)) d"
    by (auto simp: items_show_def counts_def old)
  ultimately show ?thesis using ok held old by (simp add: report_inv_def array_inv_def)
qed

lemma heldAfterReports_zero:
  assumes "x \<in> H \<longleftrightarrow> x \<in> K"
  shows "x \<in> heldAfterReports A keyboard reports H \<longleftrightarrow> x \<in> heldAfterReports A keyboard reports K"
  using assms
proof (induction reports arbitrary: H K)
  case (Cons rt reports)
  obtain r t where rt: "rt = (r, t)" by (cases rt)
  have "x \<in> heldBy keyboard (reportSelectors A r) H \<longleftrightarrow> x \<in> heldBy keyboard (reportSelectors A r) K"
    using Cons.prems by (simp add: heldBy_def)
  then show ?case unfolding rt heldAfterReports.simps by (rule Cons.IH)
qed simp

text \<open>
  C40. The items of an array are the set that the reports describe: on a device that has received no
  report, processing any sequence of reports that are long enough succeeds, and afterwards an item
  is one exactly if its selector is among those of the last report that was not a roll over, and zero
  otherwise. (A roll over is a report of a keyboard in which every selector is the roll over
  usage; the item of that usage and the selector zero are left out.)
\<close>

theorem array_reports_refine_set:
  assumes "array_ok A d" and "array_fresh A d" and "\<forall>(r, timestamp)\<in>set reports. report_fits A d r"
  shows "\<exists>d'. arrayReports A options reports d = Some d' \<and>
    (\<forall>i < length (ar_items A). counts (keyboardArray A d) (itemSelector A d i) \<longrightarrow>
       valueOf d' (ar_items A ! i) =
         [if itemSelector A d i \<in> heldAfterReports A (keyboardArray A d) reports {} then 1 else 0])"
proof -
  let ?K = "keyboardArray A d"
  from array_reports [OF fresh_inv [OF assms(1,2)] assms(3), of options]
  obtain d' X where d': "arrayReports A options reports d = Some d'" "same_but X d d'"
    "report_inv A ?K (heldAfterReports A ?K reports (set (oldSelectors A d))) d'"
    by (auto simp: ensures_def)
  have ok: "array_ok A d'" by (rule array_ok_same [OF d'(2) assms(1)])
  have "valueOf d' (ar_items A ! i) = [if itemSelector A d i \<in> heldAfterReports A ?K reports {} then 1 else 0]"
    if i: "i < length (ar_items A)" and c: "counts ?K (itemSelector A d i)" for i
  proof -
    have "itemSelector A d i \<notin> set (oldSelectors A d)"
      using assms(2) c by (auto simp: array_fresh_def counts_def list_all_iff)
    then have "itemSelector A d i \<in> heldAfterReports A ?K reports (set (oldSelectors A d)) \<longleftrightarrow>
        itemSelector A d i \<in> heldAfterReports A ?K reports {}"
      by (intro heldAfterReports_zero) simp
    moreover have "itemValue A d' i =
        (if itemSelector A d i \<in> heldAfterReports A ?K reports (set (oldSelectors A d)) then 1 else 0)"
      using d'(3) i c itemSelector_same [OF d'(2) assms(1)]
      by (simp add: report_inv_def array_inv_def items_show_def)
    moreover have "length (valueOf d' (ar_items A ! i)) = 1"
      using array_ok_elements(7) [OF ok nth_mem [OF i]] by (simp add: valueOf_def)
    ultimately show ?thesis by (cases "valueOf d' (ar_items A ! i)") (simp_all add: itemValue_def)
  qed
  then show ?thesis using d'(1) by blast
qed

text \<open>A keyboard with two selectors of a byte each, and with the keys 0 to 5.\<close>

definition plain_element :: element where
  "plain_element =
     \<lparr>el_type = 2, el_flags = 0, el_reportID = 0, el_reportSize = 0, el_reportBits = 8, el_reportCount = 1,
      el_reportStartBit = 0, el_usagePage = kHIDPage_KeyboardOrKeypad, el_usageMin = 0xffffffff,
      el_usageMax = 0xffffffff, el_rangeIndex = 0, el_logicalMin = 0, el_logicalMax = 5,
      el_nextReportHandler = None, el_arrayReportHandler = Some 0, el_duplicateReportHandler = None,
      el_hasRollOverPtr = False, el_arrayItems = None, el_duplicateElements = None, el_oldArraySelectors = [],
      el_isInterruptReportHandler = False, el_transactionState = TransactionIdle, el_queueArray = None,
      el_generation = 0, el_timestamp = 0, el_value = [0]\<rparr>"

definition two_keys :: hid_device where
  "two_keys =
     \<lparr>dv_elements =
        [plain_element\<lparr>el_reportCount := 2, el_arrayItems := Some [3, 4, 5, 6, 7, 8],
           el_duplicateElements := Some [1, 2], el_oldArraySelectors := [0, 0]\<rparr>,
         plain_element, plain_element\<lparr>el_reportStartBit := 8\<rparr>,
         plain_element, plain_element, plain_element, plain_element, plain_element, plain_element],
      dv_heads = (\<lambda>_. None), dv_rollOverElement = None, dv_queues = [], dv_reportCount = 1,
      dv_readyForInputReports = True\<rparr>"

definition two_keys_array :: array where
  "two_keys_array = \<lparr>ar_handler = 0, ar_duplicates = [1, 2], ar_items = [3, 4, 5, 6, 7, 8], ar_bits = 8, ar_start = 0,
     ar_reportID = 0, ar_sgn = False\<rparr>"

lemma fieldWord_byte: "fieldWord r (8 * i) 8 False 0 = ucast (r ! i)"
proof (rule bit_word_eqI)
  fix k assume "k < LENGTH(32)"
  then have k: "k < 32" by simp
  have "byteBit r (8 * i + k) = bit (r ! i) k" if "k < 8" using that by (simp add: byteBit_def)
  then show "bit (fieldWord r (8 * i) 8 False 0) k = bit (ucast (r ! i) :: u32) k"
    using bit_fieldWord [OF k, of r "8 * i" 8 False 0] k bit_imp_le_length [of "r ! i" k]
    by (auto simp: bit_simps)
qed

lemma two_keys_selectors: "reportSelectors two_keys_array r = [ucast (r ! 0), ucast (r ! 1)]"
  using fieldWord_byte [of r 0] fieldWord_byte [of r 1]
  by (simp add: reportSelectors_def two_keys_array_def upt_rec)

lemma two_keys_ok: "array_ok two_keys_array two_keys" "array_fresh two_keys_array two_keys"
  by (simp_all add: array_ok_def array_fresh_def handler_ok_def selector_ok_def queues_ok_def two_keys_array_def
      two_keys_def plain_element_def IsArrayElement_def IsArrayReportHandler_def sgnExtended_def word_sless_alt valueOf_def
      oldOf_def upt_rec)

lemma array_reports_refine_set_witness:
  "\<exists>d'. arrayReports two_keys_array 0 [([4, 5], 1), ([1, 1], 2), ([5, 0], 3), ([1, 1], 4)] two_keys = Some d' \<and>
    valueOf d' 8 = [1] \<and> valueOf d' 7 = [0]"
proof -
  let ?A = two_keys_array and ?d = two_keys
  let ?reports = "[([4, 5], 1), ([1, 1], 2), ([5, 0], 3), ([1, 1], 4)] :: (u8 list \<times> u64) list"
  have fits: "\<forall>(r, t)\<in>set ?reports. report_fits ?A ?d r"
    by (simp add: report_fits_def two_keys_array_def two_keys_def plain_element_def)
  have held: "heldAfterReports ?A True ?reports {} = {5, 0}"
    by (simp add: two_keys_selectors heldBy_def kHIDUsage_KeyboardErrorRollOver_def)
  have kb: "keyboardArray ?A ?d" and sel: "itemSelector ?A ?d i = of_nat i" for i
    by (simp_all add: keyboardArray_def itemSelector_def two_keys_array_def two_keys_def plain_element_def)
  obtain d' where d': "arrayReports ?A 0 ?reports ?d = Some d'"
    "\<forall>i < length (ar_items ?A). counts (keyboardArray ?A ?d) (itemSelector ?A ?d i) \<longrightarrow>
       valueOf d' (ar_items ?A ! i) = [if itemSelector ?A ?d i \<in> heldAfterReports ?A (keyboardArray ?A ?d) ?reports {} then 1 else 0]"
    using array_reports_refine_set [OF two_keys_ok fits, of 0] by blast
  have items: "length (ar_items ?A) = 6" "ar_items ?A ! 5 = 8" "ar_items ?A ! 4 = 7"
    by (simp_all add: two_keys_array_def)
  have "counts True 5" "counts True 4" by (simp_all add: counts_def kHIDUsage_KeyboardErrorRollOver_def)
  then have "valueOf d' 8 = [1]" "valueOf d' 7 = [0]"
    using d'(2) [rule_format, of 5] d'(2) [rule_format, of 4] kb by (simp_all only: items sel held) simp_all
  then show ?thesis using d'(1) by blast
qed

end
