(* ===== verification/HID_OutReports.thy ===== *)
theory HID_OutReports
  imports HID_Elements
begin

text \<open>
  What goes wrong with reports that go out and with the element sets of the event queues.
\<close>

section \<open>An element that clears the report\<close>

text \<open>
  The element that knows the size of the report clears the report whenever its part is created, whether it is
  the first element or not: what other elements have written before it is lost.
\<close>

lemma create_forgets:
  assumes "elementAt e d = Some el" and "el_reportID el = ucast reportID"
    and "el_reportSize el div 8 = length bytes" and "el_reportSize el \<noteq> 0"
  shows "createReportAlone reportID e \<lparr>or_data = Some bytes, or_length = n\<rparr> d =
    createReportAlone reportID e \<lparr>or_data = Some (replicate (length bytes) 0), or_length = n\<rparr> d"
  using assms by (simp add: createReportAlone_def clearReport_def Let_def)

text \<open>
  A report of two bytes, for an element with two duplicates. The last duplicate was registered
  last, is the head of the chain, and has the size of the report. The first duplicate is set
  to 0xAB, but the report that is created from the head on has a zero there.
\<close>

definition two_bytes :: hid_device where
  "two_bytes =
    (let el = \<lparr>el_type = 129, el_flags = kHIDDataArrayBit, el_reportID = 0, el_reportSize = 0, el_reportBits = 8,
          el_reportCount = 1, el_reportStartBit = 0, el_usagePage = 0xff00, el_usageMin = 1, el_usageMax = 1,
          el_rangeIndex = 0, el_logicalMin = 0, el_logicalMax = 255, el_nextReportHandler = None,
          el_arrayReportHandler = None, el_duplicateReportHandler = Some 0, el_hasRollOverPtr = False,
          el_arrayItems = None, el_duplicateElements = None, el_oldArraySelectors = [],
          el_isInterruptReportHandler = False, el_transactionState = TransactionIdle, el_queueArray = None,
          el_generation = 0, el_timestamp = 0, el_value = [0]\<rparr>
     in \<lparr>dv_elements =
           [el\<lparr>el_reportCount := 2, el_duplicateElements := Some [1, 2]\<rparr>,
            el\<lparr>el_nextReportHandler := Some 0, el_transactionState := TransactionPending, el_value := [0xAB]\<rparr>,
            el\<lparr>el_reportStartBit := 8, el_nextReportHandler := Some 1, el_reportSize := 16\<rparr>],
         dv_heads = (\<lambda>_. Some 2), dv_rollOverElement = None, dv_queues = [], dv_reportCount = 1,
         dv_readyForInputReports = True\<rparr>)"

lemma createChain_cases:
  "createChain reportID None r d = Some (r, d)"
  "createChain reportID (Some e) r d =
     Option.bind (createReport reportID e r d) (\<lambda>(b, next, r, d). createChain reportID next r d)"
  by (simp_all add: createChain.simps [of reportID None] createChain.simps [of reportID "Some e"])

lemma duplicate_lost:
  "map_option (\<lambda>(r, d). or_data r) (createChain 0 (Some 2) \<lparr>or_data = Some [0, 0], or_length = 0\<rparr> two_bytes) =
    Some (Some [0, 0])"
  by (simp add: two_bytes_def createChain_cases createReport_def createDuplicateReport_def createReportAlone_def
      clearReport_def writeElement_def elementAt_def updElement_def IsArrayElement_def IsDuplicateElement_def
      IsDuplicateReportHandler_def kHIDDataArrayBit_def Let_def setOutOfBoundsValue_def getElementValueSize_def
      valueBits_def BIT_MASK_def writeReportBits_def writeLoop.simps bitsProcessed_def u32_plus_def)
    (simp add: numeral_2_eq_2)

section \<open>Element sets\<close>

text \<open>An element that is added to a queue is not put into its set, so that it can never be removed.\<close>

lemma set_stays_empty:
  assumes "q_elementSet q = None \<or> q_elementSet q = Some []"
  shows "q_elementSet (q_addElement e n q) = Some []" "q_removeElement e' sizes (q_addElement e n q) = q_addElement e n q"
  using assms by (auto simp: q_addElement_def q_removeElement_def Let_def)

end
