(* ===== verification/Spec2Isabelle.thy ===== *)
theory Spec2Isabelle
  imports PS2_Offline PS2_KeyEvents PS2_PointerEvents PS2_PowerStates PS2_CommandByte
    PS2_SynapticsEvents HID_Parser HID_Faults HID_Accessibility HID_SlowKeys HID_Arrays HID_OutReports
begin

text \<open>
  This development models the input stack of the repository, under
  \<^verbatim>\<open>src/Kext Sources/ApplePS2Controller\<close>: the driver of the i8042 keyboard controller chip,
  the four drivers of the devices behind it, the keyboard class of the HID system that the
  keyboard driver extends, and the report elements of HID devices. All files named
  below are in that directory.

  \<^bold>\<open>The program.\<close> \<^verbatim>\<open>ApplePS2Controller\<close> owns the chip's two I/O ports and the
  two interrupt lines. It creates two nubs, \<^verbatim>\<open>ApplePS2KeyboardDevice\<close> and
  \<^verbatim>\<open>ApplePS2MouseDevice\<close>, through which a device driver registers an interrupt action
  and a power control action and submits requests: short programs of port commands, at
  most 20, that the controller interprets on its work loop. The interrupt action gets
  every byte that the device sends unasked; the answer bytes of a request are read by the
  interpreter, which hands to the other device's driver whatever arrives from there in
  between. So a handler can run inside a request, submit requests of its own, and be
  called again inside those. The drivers are \<^verbatim>\<open>ApplePS2Keyboard\<close>,
  \<^verbatim>\<open>ApplePS2Mouse\<close>, \<^verbatim>\<open>ApplePS2ALPSGlidePoint\<close> and
  \<^verbatim>\<open>ApplePS2SynapticsTouchPad\<close>; they turn bytes into key, pointer and scroll wheel
  events for the HID system.

  The keyboard driver is a subclass of \<^verbatim>\<open>IOHIKeyboard\<close> and dispatches ADB key codes to it.
  That class keeps a bit vector of the keys held, the event flags, the locks and the repeat of
  a key, and owns an \<^verbatim>\<open>IOHIKeyboardMapper\<close>, which parses the key map of the driver and turns
  key codes into key events; in front of the translation it has filters for swapped
  modifiers, slow keys, the eject key and sticky keys. Devices that speak HID reports keep
  \<^verbatim>\<open>IOHIDElementPrivate\<close> objects instead, one for each field of a report, linked into chains of
  report handlers; \<^verbatim>\<open>IOHIDDevice\<close> walks through the chain of a report, and elements put
  their values into \<^verbatim>\<open>IOHIDEventQueue\<close>s.

  \<^bold>\<open>How it is modelled.\<close> One extensible record is the state of the whole stack. The
  controller's part is \<open>ctl\<close>, and each driver extends it with the fields of its own class
  (\<open>kbd\<close>, \<open>mouse\<close>, \<open>alps\<close>, \<open>syn\<close>), in the order of the theories. The keyboard of the HID
  system is a record \<open>hik\<close> of its own, with a record \<open>mapper\<close> inside, and a HID device is a
  record \<open>hid_device\<close>, in which elements and queues are named by their index. A routine is a function
  from states to \<open>state option\<close>; \<open>None\<close> means that control does not come back: a loop on
  the hardware that never ends, a lock taken twice, a wait for a completion that is never
  signalled, or an access outside an array or to a structure that is not allocated. So
  that a routine returns \<open>Some\<close> is always a statement of termination and of safe access.
  Loops that need not end are \<open>partial_function (option)\<close>; the one bounded loop on the chip
  counts down from the source's own limit, 10000 polls of 7 microseconds. What happens
  outside the extension (events dispatched, log messages, registry entries, timers) is
  appended to the list \<open>effects\<close>, in the order in which the code does it. Machine integers
  are words of the source's width. Requests live on a heap, a map from addresses to
  structures, because the drivers hold pointers to requests that the controller changes.

  The chip is a parameter: the record \<open>env\<close> carries the two port instructions on a state of
  an arbitrary type \<open>'h\<close>, the clocks, and the registered handlers. \<open>system_env P n\<close> closes
  the knot between the controller and the drivers: its handlers are the drivers' routines,
  which run in the environment with nesting depth \<open>n - 1\<close>; at depth 0 a handler does not
  return. Every property that uses it holds for every \<open>n\<close>, so for any actual depth; where
  a property says that something returns, the depth it needs is in the statement.

  \<^bold>\<open>Theories of the model.\<close>
  \<^item> \<open>PS2_Device\<close>: \<^verbatim>\<open>ApplePS2Device.h\<close>, the commands and requests, and the effects.
  \<^item> \<open>PS2_State\<close>, \<open>PS2_Ports\<close>, \<open>PS2_Requests\<close>, \<open>PS2_Interrupts\<close>, \<open>PS2_Power\<close>:
    \<^verbatim>\<open>ApplePS2Controller.cpp\<close> and \<^verbatim>\<open>.h\<close>, that is the fields, port access with
    the two versions of \<open>readDataPort\<close>, the interpreter and the queue of requests, interrupt
    handlers and the debugger escape, and life cycle and power states.
  \<^item> \<open>PS2_Nubs\<close>: \<^verbatim>\<open>ApplePS2KeyboardDevice.cpp\<close>, \<^verbatim>\<open>ApplePS2MouseDevice.cpp\<close> as a
    record of services, and the loop on the command byte that all drivers copy.
  \<^item> \<open>PS2_KeyboardMaps\<close>, \<open>PS2_Keyboard\<close>: \<^verbatim>\<open>ApplePS2ToADBMap.h\<close>,
    \<^verbatim>\<open>ApplePS2Keyboard.cpp\<close>.
  \<^item> \<open>PS2_Mouse\<close>, \<open>PS2_ALPS\<close>: \<^verbatim>\<open>ApplePS2Mouse.cpp\<close>, \<^verbatim>\<open>ApplePS2ALPSGlidePoint.cpp\<close>.
  \<^item> \<open>PS2_Float\<close>, \<open>PS2_SynapticsTables\<close>, \<open>PS2_SynapticsPad\<close>, \<open>PS2_Synaptics\<close>:
    \<^verbatim>\<open>ApplePS2SynapticsTouchPad.cpp\<close> and \<^verbatim>\<open>.h\<close>, that is the arithmetic, the
    tables, what is done with one packet (a function of the driver's own fields), and what
    talks to the nub.
  \<^item> \<open>HID_KeyMapping\<close>, \<open>HID_Keyboard\<close>, \<open>HID_Mapper\<close>, \<open>HID_Features\<close>, \<open>HID_Dispatch\<close>:
    \<^verbatim>\<open>IOHIDFamily/IOHIDSystem/IOHIKeyboard.cpp\<close> and \<^verbatim>\<open>IOHIKeyboardMapper.cpp\<close>, that is the parser
    of key maps, the state and the posting of events, the translation of one key, the filters
    in front of it, and the entry points.
  \<^item> \<open>HID_ReportBits\<close>, \<open>HID_Elements\<close>: \<^verbatim>\<open>IOHIDFamily/IOHIDFamily/IOHIDElementPrivate.cpp\<close>,
    \<^verbatim>\<open>IOHIDEventQueue.cpp\<close> and the parts of \<^verbatim>\<open>IOHIDDevice.cpp\<close> that register elements and
    handle reports.
  \<^item> \<open>PS2_System\<close>, \<open>PS2_Steps\<close>: the stack put together; the relation \<open>sys_step\<close> has one
    rule per entry point that the kernel or the HID system calls: interrupts and timers, power
    changes, properties, and \<open>init\<close>, \<open>probe\<close>, \<open>start\<close>, \<open>stop\<close> and \<open>free\<close>. Two are treated apart:
    \<open>init\<close> and \<open>start\<close> of the controller come before a run (\<open>started_controller_ready\<close>), and a
    probe that the superclass refuses, which leaks a request, is counted by \<open>sys_run\<close>.

  \<^bold>\<open>Contracts.\<close> The locales of \<open>PS2_Handlers\<close> (a property of states that port access
  and handlers keep) and \<open>PS2_Heap\<close> (frames of the request heap, and what a client of a nub
  may rely on) carry a property of the handlers through the controller's operations, once
  and for all; they are interpreted on the handlers of the whole system, at every depth.
  \<open>key_translation\<close> (\<open>HID_Filters\<close>) and \<open>cached_translation\<close> (\<open>HID_Entry\<close>), which extends it, say
  what the filters and entry points of the key mapper rely on in the translation of one key;
  \<open>HID_Machine\<close> interprets both on the model's translation (\<open>flags\<close>, \<open>bits\<close>).

  \<^bold>\<open>Properties.\<close>
  \<^item> C1, C2 (below) speak of every sequence of steps of the stack: requests are conserved,
    but for one leaked by each refused probe, and no driver leaves its buffers.
  \<^item> C3--C6 (\<open>PS2_Stream\<close>): how the controller takes apart the interleaved bytes of both
    devices, puts swapped bytes in order again, times out, and delivers what is queued and what
    waits in the chip from the mouse.
  \<^item> C7, C8 (\<open>PS2_Offline\<close>), C19, C20 (\<open>PS2_PowerStates\<close>), C21 (\<open>PS2_CommandByte\<close>): requests
    while the hardware is offline, the power state machine, and the loop on the command byte.
  \<^item> C9, C10 (\<open>PS2_Escape\<close>), C11--C15 (\<open>PS2_KeyEvents\<close>): bit sets of keys implement sets of
    keys; what is dispatched for key strokes and for the multi-byte sequences.
  \<^item> C16--C18 (\<open>PS2_PointerEvents\<close>), C22--C26 (\<open>PS2_SynapticsEvents\<close>): packets are cut out of
    the stream and decoded to the movements that they encode; the Synaptics driver's
    arithmetic never leaves the range of its types, the pointer does not jump, and no
    button is made up.
  \<^item> C27 (\<open>HID_KeyMaps\<close>), C28 (\<open>HID_Parser\<close>): the parser of key maps inverts their encoding, and
    is safe on arbitrary bytes but for one missing check. \<open>HID_Layout\<close> takes the key map of the
    PS/2 keyboard driver apart, on which the witnesses below run.
  \<^item> C29, C30, C32 (\<open>HID_Runs\<close>), C31 (\<open>HID_Plain\<close>), C33 (\<open>HID_Typing\<close>), C34 (\<open>HID_Faults\<close>): the
    keyboard as a state machine. For the calls that C29 lists, every call returns, the flags
    are those of the keys held and the tables stay in order; characters are those of the key map, and which scan codes leave
    the bit vector. They rest on \<open>HID_Characters\<close>, \<open>HID_Sound\<close>, \<open>HID_Translate\<close> and
    \<open>HID_Modifiers\<close> (the translation of one key), on \<open>HID_Filters\<close> and \<open>HID_Entry\<close> (the filters), and on
    \<open>HID_Machine\<close> and \<open>HID_Open\<close> (the invariant and how it is set up).
  \<^item> C35, C36 (\<open>HID_Accessibility\<close>), C37, C38 (\<open>HID_SlowKeys\<close>): five presses in a row switch
    sticky keys, slow keys ignore taps one after the other, and what happens when two overlap.
  \<^item> C39 (\<open>HID_ReportBits\<close>), C40 (\<open>HID_Arrays\<close>): fields of reports are read as they were
    written, and the items of an array are the set that its reports describe.
    \<open>HID_OutReports\<close> shows where reports that go out lose values.

  \<^bold>\<open>Arithmetic.\<close> The touch pad driver computes in \<open>float\<close> and \<open>double\<close>. A finite value is
  a rational number, and every operation rounds the exact result to nearest, ties to even,
  to 53 or 24 significant bits, as the SSE instructions do. There are no subnormals,
  infinities or NaNs in the model: the properties bound all values to a range where none
  occurs, and a conversion to an integer type that would be undefined is \<open>None\<close>.

  \<^bold>\<open>Depth.\<close> The only other bound is the nesting of \<open>processReport\<close>: the handler of an array has
  its duplicates processed, which are no handlers of arrays, so that depth 2 is enough; C40
  shows that the result is \<open>Some\<close>.

  \<^bold>\<open>Not modelled.\<close> The spin lock and interrupt masking beyond "held or not", since each
  step of \<open>sys_step\<close> runs to its end; allocation failure where the code does not test for
  it; the reference counts of I/O Kit objects; the constant methods \<open>deviceType\<close>,
  \<open>interfaceID\<close>, \<open>buttonCount\<close>. The runs of C29, C30 and C32 leave out inputs that the
  model has, because with them a call need not return or the flags are not those of the keys:
  key codes of 128 and more (C34), the timer of the repeat without a key to repeat, as after the
  timer of the eject key (\<open>eject_repeats_no_key\<close> in \<open>HID_Faults\<close>), key maps other than the class's
  own (C28), and swapped modifiers that are out of range, or that are set together with
  switching sticky keys off while they hold modifiers. Of Apple's
  IOHIDFamily, which is copied into the repository, the descriptor parser, the construction
  of elements, the user client and its library, the event services, pointing devices and the
  event system are left out. So are the other parts of the repository (IOAudioFamily; drivers for
  batteries, ATA, one network chip and ACPI glue; installers): they share no state with the
  input stack.
\<close>

section \<open>The stack as a whole\<close>

text \<open>
  C1. Requests are not lost or overwritten, and leaked only by refused probes: whatever
  sequence of interrupts, queue runs, power changes and property changes, and of initialising,
  probing, starting, stopping and freeing drivers and of stopping the controller the system
  goes through, every request that was held at the start, allocated and not on the
  controller's queue, is held at the end with the same content; the requests held at the end
  and not at the start are as many as probes were refused by the superclass on the way, so
  that without such a probe the two sets are equal; and the queue still holds distinct,
  allocated requests that processing will release.
\<close>

theorem requests_conserved:
  assumes "sys_run P k w w'" and "heap_ok w"
  shows "heap_ok w' \<and> held w \<subseteq> held w' \<and> (\<forall>r\<in>held w. requests w' r = requests w r) \<and>
    finite (held w' - held w) \<and> card (held w' - held w) = k"
  using sys_run_requests [OF assms] by blast

definition example_key :: "(bool \<times> u8) list syn" where
  "example_key = the (interruptHandlerKeyboard (example_env 1) (example_world [(False, 0x1e)]))"

lemma example_key_step: "sys_step example_ports (example_world [(False, 0x1e)]) example_key"
proof -
  have "map_option (\<lambda>_. True) (interruptHandlerKeyboard (example_env 1) (example_world [(False, 0x1e)]))
      = Some True"
    by code_simp
  then have "interruptHandlerKeyboard (example_env 1) (example_world [(False, 0x1e)]) = Some example_key"
    by (auto simp: example_key_def)
  then show ?thesis unfolding example_env_def by (rule sys_step.keyboard_irq)
qed

lemma example_key_run: "sys_run example_ports 0 (example_world [(False, 0x1e)]) example_key"
  using run_start example_key_step by (rule run_step)

lemma example_refused:
  "probe_refused example_ports example_key (snd (allocateRequest example_key))"
  by (rule keyboard_refused [where n = 0 and b = False])
    (simp add: kb_probe_def allocateRequest_def)

theorem requests_conserved_witness:
  "keyboardQueue example_key = [0x1e] \<and> held example_key = {} \<and>
   card (held (snd (allocateRequest example_key))) = 1"
proof -
  have "held (example_world [(False, 0x1e)]) = {}" by (simp add: held_def example_world_def)
  moreover have "keyboardQueue example_key = [0x1e]" by code_simp
  ultimately show ?thesis
    using requests_conserved [OF example_key_run example_world_ok(1)]
      requests_conserved [OF run_refused [OF example_key_run example_refused] example_world_ok(1)]
    by (auto simp: card_eq_0_iff)
qed

text \<open>
  C2. The invariants of the drivers survive every sequence of steps, with handlers nested
  to any depth: the mouse's and both touch pads' packets never outgrow their buffers, so that no
  byte is ever stored outside one; the packet length always fits the mouse's type, and there
  are at most five consecutive resets; the key bit vector keeps its size; and the elements of
  the internal keyboard queue are conserved, 32 in all.
\<close>

theorem buffers_never_overflow:
  assumes "sys_run P k w w'" and "drivers_wf w"
  shows "(\<exists>u. ms_storeByte b w' = Some u) \<and> ms_packetByteCount w' < ms_packetLength w' \<and>
    ms_mouseResetCount w' \<le> 5 \<and>
    ms_packetLength w' = (if ms_type w' = kMouseTypeStandard then kPacketLengthStandard
                          else kPacketLengthIntellimouse) \<and>
    unat (al_packetByteCount w') < length (al_packetBuffer w') \<and>
    unat (tp_packetByteCount (pad w')) < length (tp_packetBuffer (pad w')) \<and>
    length (kb_keyBitVector w') = KBV_NUNITS \<and>
    length (keyboardQueue w') + length (keyboardQueueUnused w') = kKeyboardQueueSize"
  using sys_run_drivers_wf [OF assms] by (rule drivers_wf_safe)

theorem buffers_never_overflow_witness:
  "\<exists>u. ms_storeByte 9 example_key = Some u"
  using buffers_never_overflow [OF example_key_run example_world_ok(2), of 9] by blast

end
